(* ===== verification/Prelude.thy ===== *)
theory Prelude
  imports Main "HOL-Library.Word" "HOL-Library.Char_ord" "HOL-Library.List_Lexorder"
    "HOL-Library.Product_Lexorder"
begin

text \<open>
  What the components share: the reading of Go's basic types, the part of Go's standard
  library the sources call on strings and errors, the generic transition system over which
  the step relations are stated, and the collections of lemmas that carry the proofs.

  Go strings and byte slices are both sequences of bytes, and a HOL \<^typ>\<open>char\<close> is a byte,
  so both are \<^typ>\<open>string\<close>, and the conversions \<^verbatim>\<open>[]byte(s)\<close> and \<^verbatim>\<open>string(b)\<close>
  are the identity. A slice for which the code tells \<^verbatim>\<open>nil\<close> from empty is an option.
  A \<^verbatim>\<open>time.Time\<close> or \<^verbatim>\<open>time.Duration\<close> is its number of nanoseconds.
\<close>

named_theorems go_simps \<open>unfolding rules of the modelled Go library\<close>
named_theorems svc_simps \<open>unfolding rules of services and repositories\<close>
named_theorems frame_simps \<open>what an operation leaves unchanged\<close>

section \<open>Basic types\<close>

type_synonym bytes = string
type_synonym time = int
type_synonym user_id = string

abbreviation (input) second :: time where "second \<equiv> 1000000000"
abbreviation (input) minute :: time where "minute \<equiv> 60000000000"
abbreviation (input) hour :: time where "hour \<equiv> 3600000000000"

text \<open>The zero \<^verbatim>\<open>time.Time\<close>: midnight of the first day of year 1, before the epoch.\<close>

definition time_zero :: time where
  "time_zero = - 62135596800 * second"

section \<open>Errors\<close>

text \<open>
  A Go error is one of the package-level sentinels, a plain text error, or an error wrapped
  by \<^verbatim>\<open>fmt.Errorf\<close> with \<^verbatim>\<open>%w\<close>; \<^verbatim>\<open>errors.Is\<close> looks through the wrapping.
  \<open>Panic\<close> is no error value: it says that the call does not return but panics.
\<close>

datatype sentinel =
    ErrNotFound | ErrConflict
  | ErrUserExists | ErrInvalidCredentials | ErrMFAInvalid
  | ErrTokenExpired | ErrTokenInvalid
  | ErrDecryptFailed | ErrCacheNotFound | ErrVaultNotFound | ErrWrongPassword | ErrInvalidVault

datatype err = Sentinel sentinel | Wrapf string err | ErrText string | Panic string

fun errors_Is :: "err \<Rightarrow> sentinel \<Rightarrow> bool" where
  "errors_Is (Sentinel s) t = (s = t)"
| "errors_Is (Wrapf _ e) t = errors_Is e t"
| "errors_Is (ErrText _) t = False"
| "errors_Is (Panic _) t = False"

type_synonym 'a result = "err + 'a"

section \<open>Strings\<close>

definition strings_HasPrefix :: "string \<Rightarrow> string \<Rightarrow> bool" where
  "strings_HasPrefix s p = (take (length p) s = p)"

definition strings_TrimPrefix :: "string \<Rightarrow> string \<Rightarrow> string" where
  "strings_TrimPrefix s p = (if strings_HasPrefix s p then drop (length p) s else s)"

lemma strings_TrimPrefix_append [simp, go_simps]: "strings_TrimPrefix (p @ s) p = s"
  by (simp add: strings_TrimPrefix_def strings_HasPrefix_def)

fun strings_Contains :: "string \<Rightarrow> string \<Rightarrow> bool" where
  "strings_Contains [] p = (p = [])"
| "strings_Contains (c # cs) p = (strings_HasPrefix (c # cs) p \<or> strings_Contains cs p)"

lemma strings_Contains_iff: "strings_Contains s p \<longleftrightarrow> (\<exists>a b. s = a @ p @ b)"
proof (induction s)
  case (Cons c cs)
  have "strings_HasPrefix (c # cs) p \<longleftrightarrow> (\<exists>b. c # cs = p @ b)"
    unfolding strings_HasPrefix_def by (metis append_take_drop_id append_eq_conv_conj)
  moreover have "(\<exists>a b. c # cs = a @ p @ b) \<longleftrightarrow>
      (\<exists>b. c # cs = p @ b) \<or> (\<exists>a b. cs = a @ p @ b)"
    by (metis append_Cons append_Nil list.inject neq_Nil_conv)
  ultimately show ?case using Cons.IH by simp
qed simp

text \<open>Decimal rendering of a natural number, as \<^verbatim>\<open>strconv.Itoa\<close> and \<^verbatim>\<open>%d\<close> print it.\<close>

definition digit_char :: "nat \<Rightarrow> char" where
  "digit_char d = char_of (48 + d)"

fun itoa :: "nat \<Rightarrow> string" where
  "itoa n = (if n < 10 then [digit_char n] else itoa (n div 10) @ [digit_char (n mod 10)])"

declare itoa.simps [simp del]

definition digit_val :: "char \<Rightarrow> nat" where
  "digit_val c = of_char c - 48"

definition atoi :: "string \<Rightarrow> nat" where
  "atoi = foldl (\<lambda>n c. 10 * n + digit_val c) 0"

lemma digit_val_digit_char: "d < 10 \<Longrightarrow> digit_val (digit_char d) = d"
  by (simp add: digit_val_def digit_char_def of_char_of take_bit_eq_mod)

lemma atoi_itoa [simp]: "atoi (itoa n) = n"
proof (induction n rule: itoa.induct)
  case (1 n)
  then show ?case
    by (subst itoa.simps) (auto simp: atoi_def digit_val_digit_char)
qed

lemma itoa_inject [simp]: "itoa m = itoa n \<longleftrightarrow> m = n"
  by (metis atoi_itoa)

lemma itoa_nonempty [simp]: "itoa n \<noteq> []"
  by (subst itoa.simps) simp

section \<open>Lists and maps\<close>

text \<open>A table is a list of rows; \<open>row_of\<close> finds a row by its key.\<close>

definition row_of :: "('r \<Rightarrow> 'k) \<Rightarrow> 'r list \<Rightarrow> 'k \<Rightarrow> 'r option" where
  "row_of key rows k = find (\<lambda>r. key r = k) rows"

lemma find_SomeD: "find P xs = Some x \<Longrightarrow> x \<in> set xs \<and> P x"
  by (induction xs) (auto split: if_splits)

lemma row_of_SomeD: "row_of key rows k = Some r \<Longrightarrow> r \<in> set rows \<and> key r = k"
  unfolding row_of_def by (induction rows) (auto split: if_splits)

lemma row_of_None_iff: "row_of key rows k = None \<longleftrightarrow> k \<notin> key ` set rows"
  unfolding row_of_def by (induction rows) auto

lemma row_of_eqI: "distinct (map key rows) \<Longrightarrow> r \<in> set rows \<Longrightarrow> row_of key rows (key r) = Some r"
  unfolding row_of_def by (induction rows) auto

lemma row_of_append_new:
  "key r \<notin> key ` set rows \<Longrightarrow> row_of key (rows @ [r]) = (row_of key rows)(key r \<mapsto> r)"
  unfolding row_of_def by (rule ext) (induction rows, auto)

text \<open>An update in place of the rows that satisfy a condition: SQL's \<^verbatim>\<open>UPDATE ... WHERE\<close>.\<close>

definition update_where :: "('r \<Rightarrow> bool) \<Rightarrow> ('r \<Rightarrow> 'r) \<Rightarrow> 'r list \<Rightarrow> 'r list" where
  "update_where P f rows = map (\<lambda>r. if P r then f r else r) rows"

lemma length_update_where [simp]: "length (update_where P f rows) = length rows"
  by (simp add: update_where_def)

lemma set_update_where:
  "set (update_where P f rows) = f ` {r \<in> set rows. P r} \<union> {r \<in> set rows. \<not> P r}"
  by (auto simp: update_where_def)

lemma map_update_where [simp]:
  "(\<And>r. k (f r) = k r) \<Longrightarrow> map k (update_where P f rows) = map k rows"
  by (simp add: update_where_def comp_def)

lemma row_of_update_where:
  "(\<And>r. key (f r) = key r) \<Longrightarrow>
   row_of key (update_where P f rows) k = map_option (\<lambda>r. if P r then f r else r) (row_of key rows k)"
  unfolding row_of_def update_where_def by (induction rows) auto

lemma row_of_filter:
  "distinct (map key rows) \<Longrightarrow>
   row_of key (filter P rows) k =
     (case row_of key rows k of None \<Rightarrow> None | Some r \<Rightarrow> if P r then Some r else None)"
proof (induction rows)
  case (Cons a rows)
  show ?case
  proof (cases "key a = k")
    case True
    with Cons.prems have "row_of key rows k = None" by (auto simp: row_of_None_iff)
    with Cons True show ?thesis by (simp add: row_of_def)
  next
    case False
    with Cons show ?thesis by (simp add: row_of_def)
  qed
qed (simp add: row_of_def)

lemma distinct_map_filter_row [simp]: "distinct (map f xs) \<Longrightarrow> distinct (map f (filter P xs))"
  by (induction xs) auto

section \<open>Transition systems\<close>

text \<open>
  The components with interleaved steps share this interface: initial states, a step
  relation, and the states it reaches. Invariants are proved once here, by rule induction.
\<close>

locale transition_system =
  fixes init :: "'s \<Rightarrow> bool" and step :: "'s \<Rightarrow> 's \<Rightarrow> bool"
begin

inductive reach :: "'s \<Rightarrow> bool" where
  reach_init: "init s \<Longrightarrow> reach s"
| reach_step: "reach s \<Longrightarrow> step s t \<Longrightarrow> reach t"

lemma reach_invariant:
  assumes "reach s"
    and "\<And>s. init s \<Longrightarrow> P s"
    and "\<And>s t. P s \<Longrightarrow> step s t \<Longrightarrow> P t"
  shows "P s"
  using assms(1) by (induction rule: reach.induct) (auto intro: assms(2,3))

lemma reach_invariant_under:
  assumes "reach s"
    and "\<And>s. reach s \<Longrightarrow> Q s"
    and "\<And>s. init s \<Longrightarrow> P s"
    and "\<And>s t. Q s \<Longrightarrow> P s \<Longrightarrow> step s t \<Longrightarrow> P t"
  shows "P s"
  using assms(1) by (induction rule: reach.induct) (auto intro: assms(2-4))

lemma reach_steps:
  assumes "step\<^sup>*\<^sup>* s t" and "reach s"
  shows "reach t"
  using assms by (induction rule: rtranclp_induct) (auto intro: reach_step)

end

end
