(* ===== verification/Storage.thy ===== *)
theory Storage
  imports Prelude
begin

text \<open>
  The persistence interfaces of \<^verbatim>\<open>src/internal/server/storage/storage.go\<close>: the stored
  records, the five Go interfaces as records of operations over an abstract store state
  \<^typ>\<open>'s\<close>, and the contracts the services rely on as locales. The providers are the
  PostgreSQL repositories (theory \<open>Postgres\<close>) and the in-memory store the tests use
  (theory \<open>MockStore\<close>); each interprets the locales on its own definitions.
\<close>

section \<open>Records\<close>

record User =
  u_ID :: string
  u_Username :: string
  u_Email :: string
  u_PasswordHash :: string
  u_VaultSymKey :: bytes
  u_KDFParams :: string
  u_MFARequired :: bool
  u_CreatedAt :: time

record Session =
  s_ID :: string
  s_UserID :: string
  s_RefreshToken :: string
  s_ExpiresAt :: time
  s_MFAVerified :: bool
  s_CreatedAt :: time

record VaultItem =
  vi_ID :: string
  vi_UserID :: string
  vi_Type :: string
  vi_Payload :: bytes
  vi_Metadata :: string
  vi_Version :: int
  vi_CreatedAt :: time
  vi_UpdatedAt :: time

record TOTPRecord =
  t_ID :: string
  t_UserID :: string
  t_Secret :: string
  t_Label :: string
  t_Confirmed :: bool
  t_CreatedAt :: time

record WebAuthnCredential =
  wc_ID :: string
  wc_UserID :: string
  wc_CredentialID :: bytes
  wc_PublicKey :: bytes
  wc_AAGUID :: bytes
  wc_SignCount :: "32 word"
  wc_Name :: string
  wc_CreatedAt :: time

text \<open>The values an audit detail map holds are strings and counts; a nil map is \<^term>\<open>None\<close>.\<close>

datatype detail_value = DStr string | DInt int

type_synonym detail = "(string \<times> detail_value) list option"

record AuditEntry =
  ae_UserID :: string
  ae_Action :: string
  ae_IP :: string
  ae_UserAgent :: string
  ae_Result :: string
  ae_Detail :: detail
  ae_CreatedAt :: time

record ListFilter =
  f_TypeFilter :: string
  f_Limit :: int
  f_Cursor :: string

text \<open>The zero values of Go's composite literals.\<close>

definition User_zero :: User where
  "User_zero = \<lparr>u_ID = [], u_Username = [], u_Email = [], u_PasswordHash = [], u_VaultSymKey = [],
     u_KDFParams = [], u_MFARequired = False, u_CreatedAt = time_zero\<rparr>"

definition Session_zero :: Session where
  "Session_zero = \<lparr>s_ID = [], s_UserID = [], s_RefreshToken = [], s_ExpiresAt = time_zero,
     s_MFAVerified = False, s_CreatedAt = time_zero\<rparr>"

definition VaultItem_zero :: VaultItem where
  "VaultItem_zero = \<lparr>vi_ID = [], vi_UserID = [], vi_Type = [], vi_Payload = [], vi_Metadata = [],
     vi_Version = 0, vi_CreatedAt = time_zero, vi_UpdatedAt = time_zero\<rparr>"

definition TOTPRecord_zero :: TOTPRecord where
  "TOTPRecord_zero = \<lparr>t_ID = [], t_UserID = [], t_Secret = [], t_Label = [], t_Confirmed = False,
     t_CreatedAt = time_zero\<rparr>"

definition AuditEntry_zero :: AuditEntry where
  "AuditEntry_zero = \<lparr>ae_UserID = [], ae_Action = [], ae_IP = [], ae_UserAgent = [],
     ae_Result = [], ae_Detail = None, ae_CreatedAt = time_zero\<rparr>"

definition ListFilter_zero :: ListFilter where
  "ListFilter_zero = \<lparr>f_TypeFilter = [], f_Limit = 0, f_Cursor = []\<rparr>"

lemmas zero_defs = User_zero_def Session_zero_def VaultItem_zero_def TOTPRecord_zero_def
  AuditEntry_zero_def ListFilter_zero_def

section \<open>Interfaces\<close>

text \<open>
  A Go interface value is a record of its methods; a method takes its arguments and the
  state of the store and returns its result with the new state.
\<close>

record 's Users =
  Users_Create :: "User \<Rightarrow> 's \<Rightarrow> User result \<times> 's"
  Users_GetByUsername :: "string \<Rightarrow> 's \<Rightarrow> User result \<times> 's"
  Users_GetByID :: "string \<Rightarrow> 's \<Rightarrow> User result \<times> 's"
  Users_SetMFARequired :: "string \<Rightarrow> bool \<Rightarrow> 's \<Rightarrow> unit result \<times> 's"

record 's Sessions =
  Sessions_Create :: "Session \<Rightarrow> 's \<Rightarrow> Session result \<times> 's"
  Sessions_GetByRefreshToken :: "string \<Rightarrow> 's \<Rightarrow> Session result \<times> 's"
  Sessions_SetMFAVerified :: "string \<Rightarrow> 's \<Rightarrow> unit result \<times> 's"
  Sessions_Delete :: "string \<Rightarrow> 's \<Rightarrow> unit result \<times> 's"
  Sessions_DeleteExpired :: "'s \<Rightarrow> unit result \<times> 's"

record 's Vault =
  Vault_Create :: "VaultItem \<Rightarrow> 's \<Rightarrow> VaultItem result \<times> 's"
  Vault_Get :: "string \<Rightarrow> string \<Rightarrow> 's \<Rightarrow> VaultItem result \<times> 's"
  Vault_Update :: "VaultItem \<Rightarrow> 's \<Rightarrow> VaultItem result \<times> 's"
  Vault_Delete :: "string \<Rightarrow> string \<Rightarrow> 's \<Rightarrow> unit result \<times> 's"
  Vault_List :: "string \<Rightarrow> ListFilter \<Rightarrow> 's \<Rightarrow> (VaultItem list \<times> string) result \<times> 's"

record 's MFA =
  MFA_CreateTOTP :: "TOTPRecord \<Rightarrow> 's \<Rightarrow> TOTPRecord result \<times> 's"
  MFA_GetTOTPByID :: "string \<Rightarrow> string \<Rightarrow> 's \<Rightarrow> TOTPRecord result \<times> 's"
  MFA_ConfirmTOTP :: "string \<Rightarrow> 's \<Rightarrow> unit result \<times> 's"
  MFA_ListTOTP :: "string \<Rightarrow> 's \<Rightarrow> TOTPRecord list result \<times> 's"
  MFA_CreateWebAuthnCredential :: "WebAuthnCredential \<Rightarrow> 's \<Rightarrow> unit result \<times> 's"
  MFA_GetWebAuthnCredentials :: "string \<Rightarrow> 's \<Rightarrow> WebAuthnCredential list result \<times> 's"
  MFA_UpdateWebAuthnSignCount :: "bytes \<Rightarrow> 32 word \<Rightarrow> 's \<Rightarrow> unit result \<times> 's"
  MFA_SaveWebAuthnSession :: "string \<Rightarrow> string \<Rightarrow> 's \<Rightarrow> string result \<times> 's"
  MFA_GetWebAuthnSession :: "string \<Rightarrow> 's \<Rightarrow> string result \<times> 's"
  MFA_DeleteWebAuthnSession :: "string \<Rightarrow> 's \<Rightarrow> unit result \<times> 's"

record 's Audit =
  Audit_Append :: "AuditEntry \<Rightarrow> 's \<Rightarrow> unit result \<times> 's"

record 's Store =
  Store_Users :: "'s Users"
  Store_Sessions :: "'s Sessions"
  Store_Vault :: "'s Vault"
  Store_MFA :: "'s MFA"
  Store_Audit :: "'s Audit"

section \<open>Contracts\<close>

text \<open>
  The vault contract. \<open>items\<close> reads the store as a map from item identifiers to items,
  \<open>canon\<close> is the identifier form the store compares (the UUID text form of PostgreSQL,
  the identity of the in-memory store), \<open>inv\<close> the provider's invariant.
\<close>

locale vault_store =
  fixes V :: "'s Vault"
    and canon :: "string \<Rightarrow> string option"
    and items :: "'s \<Rightarrow> string \<Rightarrow> VaultItem option"
    and inv :: "'s \<Rightarrow> bool"
  assumes create_ok: "inv s \<Longrightarrow> Vault_Create V it s = (Inr it', s') \<Longrightarrow>
        inv s' \<and> items s (vi_ID it') = None \<and>
        (\<exists>u. canon (vi_UserID it) = Some u \<and>
             items s' = (items s)(vi_ID it' \<mapsto> it'\<lparr>vi_UserID := u\<rparr>)) \<and>
        (\<exists>k c t. it' = it\<lparr>vi_ID := k, vi_Version := 1, vi_CreatedAt := c, vi_UpdatedAt := t\<rparr>)"
    and create_err: "inv s \<Longrightarrow> Vault_Create V it s = (Inl e, s') \<Longrightarrow> inv s' \<and> items s' = items s"
    and get_ok: "inv s \<Longrightarrow> Vault_Get V k u s = (Inr it, s') \<Longrightarrow>
        inv s' \<and> items s' = items s \<and> items s (vi_ID it) = Some it \<and>
        canon k = Some (vi_ID it) \<and> canon u = Some (vi_UserID it)"
    and get_err: "inv s \<Longrightarrow> Vault_Get V k u s = (Inl e, s') \<Longrightarrow> inv s' \<and> items s' = items s"
    and get_not_found: "inv s \<Longrightarrow> Vault_Get V k u s = (Inl (Sentinel ErrNotFound), s') \<Longrightarrow>
        canon k = Some c \<Longrightarrow> items s c = Some it \<Longrightarrow> canon u \<noteq> Some (vi_UserID it)"
    and update_ok: "inv s \<Longrightarrow> Vault_Update V it s = (Inr it', s') \<Longrightarrow>
        inv s' \<and> canon (vi_ID it) = Some (vi_ID it') \<and>
        (\<exists>old t. items s (vi_ID it') = Some old \<and> canon (vi_UserID it) = Some (vi_UserID old) \<and>
           it' = old\<lparr>vi_Payload := vi_Payload it, vi_Metadata := vi_Metadata it,
                     vi_Version := vi_Version old + 1, vi_UpdatedAt := t\<rparr>) \<and>
        items s' = (items s)(vi_ID it' \<mapsto> it')"
    and update_err: "inv s \<Longrightarrow> Vault_Update V it s = (Inl e, s') \<Longrightarrow> inv s' \<and> items s' = items s"
    and delete_ok: "inv s \<Longrightarrow> Vault_Delete V k u s = (Inr (), s') \<Longrightarrow>
        inv s' \<and> (\<exists>c old. canon k = Some c \<and> items s c = Some old \<and>
           canon u = Some (vi_UserID old) \<and> items s' = (items s)(c := None))"
    and delete_err: "inv s \<Longrightarrow> Vault_Delete V k u s = (Inl e, s') \<Longrightarrow> inv s' \<and> items s' = items s"
    and list_ok: "inv s \<Longrightarrow> Vault_List V u f s = (Inr (its, cur), s') \<Longrightarrow>
        inv s' \<and> items s' = items s \<and>
        (\<forall>it \<in> set its. items s (vi_ID it) = Some it \<and> canon u = Some (vi_UserID it))"
    and list_err: "inv s \<Longrightarrow> Vault_List V u f s = (Inl e, s') \<Longrightarrow> inv s' \<and> items s' = items s"

text \<open>The items that do not belong to the user whose canonical identifier is \<open>c\<close>.\<close>

definition not_of :: "string option \<Rightarrow> (string \<Rightarrow> VaultItem option) \<Rightarrow> (string \<Rightarrow> VaultItem option)"
  where "not_of c m = (\<lambda>k. case m k of None \<Rightarrow> None
           | Some it \<Rightarrow> if c = Some (vi_UserID it) then None else Some it)"

lemma not_of_upd_own [simp]:
  "c = Some (vi_UserID it) \<Longrightarrow> (m k = None \<or> (\<exists>old. m k = Some old \<and> vi_UserID old = vi_UserID it)) \<Longrightarrow>
   not_of c (m(k \<mapsto> it)) = not_of c m"
  by (auto simp: not_of_def fun_eq_iff)

lemma not_of_del_own [simp]:
  "m k = Some old \<Longrightarrow> c = Some (vi_UserID old) \<Longrightarrow> not_of c (m(k := None)) = not_of c m"
  by (auto simp: not_of_def fun_eq_iff)

context vault_store
begin

lemma create_isolated:
  assumes "inv s" and "Vault_Create V it s = (r, s')"
  shows "inv s'" and "not_of (canon (vi_UserID it)) (items s') = not_of (canon (vi_UserID it)) (items s)"
proof -
  have "inv s' \<and> not_of (canon (vi_UserID it)) (items s') = not_of (canon (vi_UserID it)) (items s)"
  proof (cases r)
    case (Inl e)
    with assms show ?thesis using create_err by fastforce
  next
    case (Inr it')
    with assms create_ok obtain u where u: "inv s'" "items s (vi_ID it') = None"
      "canon (vi_UserID it) = Some u" "items s' = (items s)(vi_ID it' \<mapsto> it'\<lparr>vi_UserID := u\<rparr>)"
      by blast
    then show ?thesis by simp
  qed
  then show "inv s'" and "not_of (canon (vi_UserID it)) (items s') = not_of (canon (vi_UserID it)) (items s)"
    by auto
qed

lemma get_frame:
  assumes "inv s" and "Vault_Get V k u s = (r, s')"
  shows "inv s'" and "items s' = items s"
  using assms get_ok get_err by (cases r; blast)+

lemma list_frame:
  assumes "inv s" and "Vault_List V u f s = (r, s')"
  shows "inv s'" and "items s' = items s"
proof -
  have "inv s' \<and> items s' = items s"
  proof (cases r)
    case (Inr p)
    with assms show ?thesis using list_ok by (cases p) blast
  qed (use assms list_err in blast)
  then show "inv s'" and "items s' = items s" by auto
qed

lemma update_isolated:
  assumes "inv s" and "Vault_Update V it s = (r, s')"
  shows "inv s'" and "not_of (canon (vi_UserID it)) (items s') = not_of (canon (vi_UserID it)) (items s)"
proof -
  have "inv s' \<and> not_of (canon (vi_UserID it)) (items s') = not_of (canon (vi_UserID it)) (items s)"
  proof (cases r)
    case (Inl e)
    with assms show ?thesis using update_err by fastforce
  next
    case (Inr it')
    with assms update_ok obtain old t where "inv s'" "items s (vi_ID it') = Some old"
      "canon (vi_UserID it) = Some (vi_UserID old)" "vi_UserID it' = vi_UserID old"
      "items s' = (items s)(vi_ID it' \<mapsto> it')"
      by fastforce
    then show ?thesis by simp
  qed
  then show "inv s'" and "not_of (canon (vi_UserID it)) (items s') = not_of (canon (vi_UserID it)) (items s)"
    by auto
qed

lemma delete_isolated:
  assumes "inv s" and "Vault_Delete V k u s = (r, s')"
  shows "inv s'" and "not_of (canon u) (items s') = not_of (canon u) (items s)"
proof -
  have "inv s' \<and> not_of (canon u) (items s') = not_of (canon u) (items s)"
  proof (cases r)
    case (Inl e)
    with assms show ?thesis using delete_err by fastforce
  next
    case (Inr x)
    with assms delete_ok obtain c old where "inv s'" "items s c = Some old"
      "canon u = Some (vi_UserID old)" "items s' = (items s)(c := None)"
      by (metis (full_types) old.unit.exhaust)
    then show ?thesis by simp
  qed
  then show "inv s'" and "not_of (canon u) (items s') = not_of (canon u) (items s)" by auto
qed

end

text \<open>
  The session contract: \<open>sess\<close> reads the store as a map from refresh tokens to sessions.
  A created session is found under its token, a deleted one is not.
\<close>

locale session_store =
  fixes S :: "'s Sessions"
    and sess :: "'s \<Rightarrow> string \<Rightarrow> Session option"
    and sinv :: "'s \<Rightarrow> bool"
  assumes sess_create_ok: "sinv s \<Longrightarrow> Sessions_Create S x s = (Inr x', s') \<Longrightarrow>
        sinv s' \<and> s_RefreshToken x' = s_RefreshToken x \<and> s_UserID x' = s_UserID x \<and>
        s_ExpiresAt x' = s_ExpiresAt x \<and> s_MFAVerified x' = s_MFAVerified x \<and>
        (\<exists>u. sess s' = (sess s)(s_RefreshToken x \<mapsto> x'\<lparr>s_UserID := u\<rparr>))"
    and sess_create_err: "sinv s \<Longrightarrow> Sessions_Create S x s = (Inl e, s') \<Longrightarrow>
        sinv s' \<and> sess s' = sess s"
    and sess_get_ok: "sinv s \<Longrightarrow> Sessions_GetByRefreshToken S tok s = (Inr x, s') \<Longrightarrow>
        sinv s' \<and> sess s' = sess s \<and> sess s tok = Some x \<and> s_RefreshToken x = tok"
    and sess_get_err: "sinv s \<Longrightarrow> Sessions_GetByRefreshToken S tok s = (Inl e, s') \<Longrightarrow>
        sinv s' \<and> sess s' = sess s"
    and sess_delete_ok: "sinv s \<Longrightarrow> Sessions_Delete S tok s = (Inr (), s') \<Longrightarrow>
        sinv s' \<and> sess s' = (sess s)(tok := None)"
    and sess_delete_err: "sinv s \<Longrightarrow> Sessions_Delete S tok s = (Inl e, s') \<Longrightarrow>
        sinv s' \<and> sess s' = sess s"
begin

lemma get_after_delete:
  assumes "sinv s" and "Sessions_Delete S tok s = (Inr (), s')"
  shows "\<exists>e. fst (Sessions_GetByRefreshToken S tok s') = Inl e"
proof -
  have s': "sinv s'" "sess s' = (sess s)(tok := None)"
    using sess_delete_ok [OF assms] by auto
  obtain r s'' where g: "Sessions_GetByRefreshToken S tok s' = (r, s'')" by fastforce
  show ?thesis
  proof (cases r)
    case (Inr x)
    with sess_get_ok [OF s'(1)] g have "sess s' tok = Some x" by blast
    with s'(2) show ?thesis by simp
  qed (use g in simp)
qed

end

text \<open>The audit contract: the log is append-only and an entry is either added at its end or dropped.\<close>

locale audit_store =
  fixes A :: "'s Audit"
    and entries :: "'s \<Rightarrow> AuditEntry list"
  assumes append_ok: "Audit_Append A e s = (Inr (), s') \<Longrightarrow> \<exists>e'. entries s' = entries s @ [e']"
    and append_err: "Audit_Append A e s = (Inl x, s') \<Longrightarrow> entries s' = entries s"
begin

lemma append_only: "\<exists>zs. entries (snd (Audit_Append A e s)) = entries s @ zs"
proof -
  obtain r s' where "Audit_Append A e s = (r, s')" by fastforce
  then show ?thesis
    by (cases r) (fastforce dest: append_ok append_err)+
qed

end

text \<open>The vault service needs both contracts on one state: logging must not disturb the items.\<close>

locale audited_vault_store = vault_store V canon items inv
  for V :: "'s Vault" and canon :: "string \<Rightarrow> string option"
    and items :: "'s \<Rightarrow> string \<Rightarrow> VaultItem option" and inv :: "'s \<Rightarrow> bool" +
  fixes A :: "'s Audit"
  assumes append_items: "items (snd (Audit_Append A e s)) = items s"
    and append_inv: "inv s \<Longrightarrow> inv (snd (Audit_Append A e s))"

end
