(* ===== verification/SyncSvc.thy ===== *)
theory SyncSvc
  imports Storage
begin

text \<open>
  The subscription service of \<^verbatim>\<open>src/internal/server/service/sync.go\<close>. Its map from users
  to slices of channels is modelled with the backing arrays of the slices, because
  \<^verbatim>\<open>append\<close> writes in place and \<^verbatim>\<open>notify\<close> iterates over a slice it read earlier:
  a slice is an array number and a length (all slices here start at offset 0), the capacity
  is the length of the array. Channels are numbered in the order of their creation; the
  element of an array is \<^term>\<open>None\<close> while it is the nil channel.

  The operations come first as the sequential code runs them. The second half splits
  \<^verbatim>\<open>notify\<close> at its lock release and at each send, and lets any number of notifications,
  subscriptions, cleanups and receives interleave.
\<close>

record SyncEvent =
  se_Type :: string
  se_Item :: "VaultItem option"
  se_DeletedID :: string

record chan =
  ch_buf :: "SyncEvent list"
  ch_closed :: bool

record slice =
  sl_arr :: nat
  sl_len :: nat

record SyncService =
  sy_subs :: "string \<Rightarrow> slice option"
  sy_arrs :: "nat option list list"
  sy_chans :: "chan list"

definition NewSyncService :: SyncService where
  "NewSyncService = \<lparr>sy_subs = (\<lambda>_. None), sy_arrs = [], sy_chans = []\<rparr>"

text \<open>
  \<^verbatim>\<open>append(s, c)\<close>: in place while the capacity allows, otherwise into a new array of
  the capacity the runtime's growth policy \<open>grow\<close> gives, but always large enough.
\<close>

definition append_chan ::
  "(nat \<Rightarrow> nat) \<Rightarrow> slice option \<Rightarrow> nat \<Rightarrow> nat option list list \<Rightarrow> slice \<times> nat option list list" where
  "append_chan grow s c arrs =
     (let old = (case s of None \<Rightarrow> [] | Some sl \<Rightarrow> take (sl_len sl) (arrs ! sl_arr sl));
          fresh = (\<lparr>sl_arr = length arrs, sl_len = Suc (length old)\<rparr>,
                   arrs @ [old @ [Some c] @ replicate (grow (length old) - Suc (length old)) None])
      in case s of None \<Rightarrow> fresh
         | Some sl \<Rightarrow>
             if sl_len sl < length (arrs ! sl_arr sl)
             then (sl\<lparr>sl_len := Suc (sl_len sl)\<rparr>,
                   arrs[sl_arr sl := (arrs ! sl_arr sl)[sl_len sl := Some c]])
             else fresh)"

definition chan_buffer :: nat where
  "chan_buffer = 32"

definition SyncService_Subscribe :: "(nat \<Rightarrow> nat) \<Rightarrow> string \<Rightarrow> SyncService \<Rightarrow> nat \<times> SyncService" where
  "SyncService_Subscribe grow userID st =
     (let ch = length (sy_chans st);
          (sl, arrs) = append_chan grow (sy_subs st userID) ch (sy_arrs st)
      in (ch, \<lparr>sy_subs = (sy_subs st)(userID \<mapsto> sl), sy_arrs = arrs,
               sy_chans = sy_chans st @ [\<lparr>ch_buf = [], ch_closed = False\<rparr>]\<rparr>))"

text \<open>The index of the first occurrence of a channel in a slice.\<close>

fun index_of :: "nat \<Rightarrow> nat option list \<Rightarrow> nat option" where
  "index_of ch [] = None"
| "index_of ch (c # cs) = (if c = Some ch then Some 0 else map_option Suc (index_of ch cs))"

text \<open>\<^verbatim>\<open>append(subs[:i], subs[i+1:]...)\<close> shifts the tail down in the same array.\<close>

definition remove_at :: "nat \<Rightarrow> nat \<Rightarrow> nat option list \<Rightarrow> nat option list" where
  "remove_at i len arr = take i arr @ take (len - Suc i) (drop (Suc i) arr) @ drop (len - 1) arr"

definition chan_close :: "nat \<Rightarrow> chan list \<Rightarrow> chan list result" where
  "chan_close ch chans =
     (if ch_closed (chans ! ch) then Inl (Panic ''close of closed channel'')
      else Inr (chans[ch := (chans ! ch)\<lparr>ch_closed := True\<rparr>]))"

definition unsubscribe :: "string \<Rightarrow> nat \<Rightarrow> SyncService \<Rightarrow> SyncService" where
  "unsubscribe userID ch st =
     (case sy_subs st userID of None \<Rightarrow> st
      | Some sl \<Rightarrow>
          (case index_of ch (take (sl_len sl) (sy_arrs st ! sl_arr sl)) of None \<Rightarrow> st
           | Some i \<Rightarrow> st\<lparr>sy_subs := (sy_subs st)(userID \<mapsto> sl\<lparr>sl_len := sl_len sl - 1\<rparr>),
                          sy_arrs := (sy_arrs st)[sl_arr sl :=
                            remove_at i (sl_len sl) (sy_arrs st ! sl_arr sl)]\<rparr>))"

text \<open>The cleanup closure that \<^verbatim>\<open>Subscribe\<close> returns; it captures the user and the channel.\<close>

definition cleanup_sub :: "string \<Rightarrow> nat \<Rightarrow> SyncService \<Rightarrow> SyncService result" where
  "cleanup_sub userID ch st =
     (let st' = unsubscribe userID ch st in
      case chan_close ch (sy_chans st') of
        Inl e \<Rightarrow> Inl e
      | Inr chans \<Rightarrow> Inr (st'\<lparr>sy_chans := chans\<rparr>))"

text \<open>
  The \<^verbatim>\<open>select\<close> with a default branch: a send on a closed channel panics, a full or nil
  channel takes the default and the event is dropped.
\<close>

definition try_send :: "nat option \<Rightarrow> SyncEvent \<Rightarrow> chan list \<Rightarrow> chan list result" where
  "try_send c evt chans =
     (case c of None \<Rightarrow> Inr chans
      | Some ch \<Rightarrow>
          if ch_closed (chans ! ch) then Inl (Panic ''send on closed channel'')
          else if length (ch_buf (chans ! ch)) < chan_buffer
          then Inr (chans[ch := (chans ! ch)\<lparr>ch_buf := ch_buf (chans ! ch) @ [evt]\<rparr>])
          else Inr chans)"

fun send_all :: "nat option list \<Rightarrow> SyncEvent \<Rightarrow> chan list \<Rightarrow> chan list result" where
  "send_all [] evt chans = Inr chans"
| "send_all (c # cs) evt chans =
     (case try_send c evt chans of Inl e \<Rightarrow> Inl e | Inr chans' \<Rightarrow> send_all cs evt chans')"

definition slots :: "SyncService \<Rightarrow> string \<Rightarrow> nat option list" where
  "slots st userID = (case sy_subs st userID of None \<Rightarrow> []
     | Some sl \<Rightarrow> take (sl_len sl) (sy_arrs st ! sl_arr sl))"

definition notify :: "string \<Rightarrow> SyncEvent \<Rightarrow> SyncService \<Rightarrow> SyncService result" where
  "notify userID evt st =
     (case send_all (slots st userID) evt (sy_chans st) of
        Inl e \<Rightarrow> Inl e | Inr chans \<Rightarrow> Inr (st\<lparr>sy_chans := chans\<rparr>))"

definition NotifyUpsert :: "string \<Rightarrow> VaultItem \<Rightarrow> SyncService \<Rightarrow> SyncService result" where
  "NotifyUpsert userID item st =
     notify userID \<lparr>se_Type = ''upsert'', se_Item = Some item, se_DeletedID = []\<rparr> st"

definition NotifyDelete :: "string \<Rightarrow> string \<Rightarrow> SyncService \<Rightarrow> SyncService result" where
  "NotifyDelete userID itemID st =
     notify userID \<lparr>se_Type = ''delete'', se_Item = None, se_DeletedID = itemID\<rparr> st"

text \<open>A receive of the stream handler: the oldest buffered event, if there is one.\<close>

definition chan_recv :: "nat \<Rightarrow> SyncService \<Rightarrow> (SyncEvent \<times> SyncService) option" where
  "chan_recv ch st =
     (case ch_buf (sy_chans st ! ch) of [] \<Rightarrow> None
      | e # es \<Rightarrow> Some (e, st\<lparr>sy_chans := (sy_chans st)[ch := (sy_chans st ! ch)\<lparr>ch_buf := es\<rparr>]\<rparr>))"

section \<open>The sequential contract\<close>

text \<open>
  What the service promises when its operations do not overlap: a user's subscribers are a
  list of open channels, every user has their own array, and no channel is in two lists.
\<close>

definition live_slots :: "SyncService \<Rightarrow> string \<Rightarrow> bool" where
  "live_slots st u \<longleftrightarrow> distinct (slots st u) \<and>
     (\<forall>c \<in> set (slots st u). \<exists>ch < length (sy_chans st). c = Some ch \<and> \<not> ch_closed (sy_chans st ! ch))"

definition sync_inv :: "SyncService \<Rightarrow> bool" where
  "sync_inv st \<longleftrightarrow>
     (\<forall>u sl. sy_subs st u = Some sl \<longrightarrow>
        sl_arr sl < length (sy_arrs st) \<and> sl_len sl \<le> length (sy_arrs st ! sl_arr sl)) \<and>
     (\<forall>u v sl sl'. sy_subs st u = Some sl \<longrightarrow> sy_subs st v = Some sl' \<longrightarrow> sl_arr sl = sl_arr sl' \<longrightarrow> u = v) \<and>
     (\<forall>u v. u \<noteq> v \<longrightarrow> set (slots st u) \<inter> set (slots st v) = {}) \<and>
     (\<forall>u. live_slots st u) \<and>
     (\<forall>ch \<in> set (sy_chans st). length (ch_buf ch) \<le> chan_buffer)"

text \<open>The abstract delivery: every listed channel with room gets the event at its end.\<close>

definition deliver :: "nat list \<Rightarrow> SyncEvent \<Rightarrow> chan list \<Rightarrow> chan list" where
  "deliver chs evt chans =
     map (\<lambda>i. if i \<in> set chs \<and> length (ch_buf (chans ! i)) < chan_buffer
              then (chans ! i)\<lparr>ch_buf := ch_buf (chans ! i) @ [evt]\<rparr> else chans ! i) [0..<length chans]"

lemma length_deliver [simp]: "length (deliver chs evt chans) = length chans"
  by (simp add: deliver_def)

lemma deliver_Nil [simp]: "deliver [] evt chans = chans"
  by (simp add: deliver_def map_nth)

lemma nth_deliver [simp]:
  "i < length chans \<Longrightarrow> deliver chs evt chans ! i =
     (if i \<in> set chs \<and> length (ch_buf (chans ! i)) < chan_buffer
      then (chans ! i)\<lparr>ch_buf := ch_buf (chans ! i) @ [evt]\<rparr> else chans ! i)"
  by (simp add: deliver_def)

lemma try_send_open:
  "c < length chans \<Longrightarrow> \<not> ch_closed (chans ! c) \<Longrightarrow> try_send (Some c) evt chans = Inr (deliver [c] evt chans)"
  by (auto simp: try_send_def nth_list_update intro!: nth_equalityI)

lemma deliver_deliver:
  "c \<notin> set chs \<Longrightarrow> deliver chs evt (deliver [c] evt chans) = deliver (c # chs) evt chans"
  by (rule nth_equalityI) auto

lemma closed_deliver [simp]: "i < length chans \<Longrightarrow> ch_closed (deliver chs evt chans ! i) = ch_closed (chans ! i)"
  by simp

lemma send_all_deliver:
  assumes "distinct chs" and "\<forall>ch \<in> set chs. ch < length chans \<and> \<not> ch_closed (chans ! ch)"
  shows "send_all (map Some chs) evt chans = Inr (deliver chs evt chans)"
  using assms
proof (induction chs arbitrary: chans)
  case (Cons c chs)
  have "try_send (Some c) evt chans = Inr (deliver [c] evt chans)"
    using Cons.prems(2) by (simp add: try_send_open)
  moreover have "send_all (map Some chs) evt (deliver [c] evt chans) = Inr (deliver chs evt (deliver [c] evt chans))"
    using Cons.prems by (intro Cons.IH) (simp_all del: nth_deliver)
  ultimately show ?case using Cons.prems(1) by (simp add: deliver_deliver del: nth_deliver)
qed simp

lemma slots_Some: "live_slots st u \<Longrightarrow> slots st u = map Some (map the (slots st u))"
  unfolding live_slots_def by (metis (no_types, lifting) map_idI map_map comp_apply option.sel)

lemma slots_the:
  assumes "live_slots st u"
  shows "distinct (map the (slots st u))"
    and "\<forall>ch \<in> set (map the (slots st u)). ch < length (sy_chans st) \<and> \<not> ch_closed (sy_chans st ! ch)"
proof -
  have "distinct (map Some (map the (slots st u)))"
    using assms slots_Some [OF assms] unfolding live_slots_def by metis
  then show "distinct (map the (slots st u))" by (metis distinct_map)
  show "\<forall>ch \<in> set (map the (slots st u)). ch < length (sy_chans st) \<and> \<not> ch_closed (sy_chans st ! ch)"
    using assms unfolding live_slots_def by auto
qed

lemma notify_deliver:
  assumes "sync_inv st"
  shows "notify u evt st = Inr (st\<lparr>sy_chans := deliver (map the (slots st u)) evt (sy_chans st)\<rparr>)"
proof -
  have live: "live_slots st u" using assms unfolding sync_inv_def by blast
  have "send_all (slots st u) evt (sy_chans st) = Inr (deliver (map the (slots st u)) evt (sy_chans st))"
    using send_all_deliver [OF slots_the [OF live]] slots_Some [OF live] by metis
  then show ?thesis by (simp add: notify_def)
qed

section \<open>Subscribing and unsubscribing\<close>

lemma inv_bounds:
  "sync_inv st \<Longrightarrow> sy_subs st u = Some sl \<Longrightarrow> sl_arr sl < length (sy_arrs st)"
  "sync_inv st \<Longrightarrow> sy_subs st u = Some sl \<Longrightarrow> sl_len sl \<le> length (sy_arrs st ! sl_arr sl)"
  unfolding sync_inv_def by blast+

lemma inv_own_array:
  "sync_inv st \<Longrightarrow> sy_subs st u = Some sl \<Longrightarrow> sy_subs st v = Some sl' \<Longrightarrow> v \<noteq> u \<Longrightarrow> sl_arr sl' \<noteq> sl_arr sl"
  unfolding sync_inv_def by metis

lemma inv_disjoint: "sync_inv st \<Longrightarrow> u \<noteq> v \<Longrightarrow> c \<in> set (slots st u) \<Longrightarrow> c \<notin> set (slots st v)"
  unfolding sync_inv_def by blast

lemma inv_live: "sync_inv st \<Longrightarrow> live_slots st u"
  unfolding sync_inv_def by blast

lemma inv_buf: "sync_inv st \<Longrightarrow> ch \<in> set (sy_chans st) \<Longrightarrow> length (ch_buf ch) \<le> chan_buffer"
  unfolding sync_inv_def by blast

lemma sync_invI:
  assumes "\<And>u sl. sy_subs st u = Some sl \<Longrightarrow> sl_arr sl < length (sy_arrs st)"
    and "\<And>u sl. sy_subs st u = Some sl \<Longrightarrow> sl_len sl \<le> length (sy_arrs st ! sl_arr sl)"
    and "\<And>u v sl sl'. sy_subs st u = Some sl \<Longrightarrow> sy_subs st v = Some sl' \<Longrightarrow> v \<noteq> u \<Longrightarrow> sl_arr sl' \<noteq> sl_arr sl"
    and "\<And>u v c. u \<noteq> v \<Longrightarrow> c \<in> set (slots st u) \<Longrightarrow> c \<notin> set (slots st v)"
    and "\<And>u. live_slots st u"
    and "\<And>ch. ch \<in> set (sy_chans st) \<Longrightarrow> length (ch_buf ch) \<le> chan_buffer"
  shows "sync_inv st"
  unfolding sync_inv_def using assms by blast

lemma slots_chans [simp]: "slots (st\<lparr>sy_chans := cs\<rparr>) = slots st"
  by (rule ext) (simp add: slots_def split: option.split)

lemma set_deliver_buf:
  "\<forall>ch \<in> set chans. length (ch_buf ch) \<le> chan_buffer \<Longrightarrow> ch \<in> set (deliver chs evt chans) \<Longrightarrow>
   length (ch_buf ch) \<le> chan_buffer"
  by (auto simp: deliver_def)

lemma sync_inv_notify:
  assumes "sync_inv st" and "notify u evt st = r"
  shows "\<exists>st'. r = Inr st' \<and> sync_inv st'"
proof -
  let ?st' = "st\<lparr>sy_chans := deliver (map the (slots st u)) evt (sy_chans st)\<rparr>"
  have "sync_inv ?st'"
  proof (rule sync_invI)
    fix v
    show "live_slots ?st' v"
      using inv_live [OF assms(1), of v] unfolding live_slots_def
      by (simp del: nth_deliver) (metis closed_deliver)
  next
    fix ch
    assume "ch \<in> set (sy_chans ?st')"
    then show "length (ch_buf ch) \<le> chan_buffer"
      using set_deliver_buf [of "sy_chans st" ch] inv_buf [OF assms(1)] by auto
  qed (use assms(1) inv_bounds inv_own_array inv_disjoint in auto)
  then show ?thesis using notify_deliver [OF assms(1)] assms(2) by blast
qed

lemma append_chan_spec:
  assumes "append_chan grow s c arrs = (sl', arrs')"
    and "\<And>sl. s = Some sl \<Longrightarrow> sl_arr sl < length arrs \<and> sl_len sl \<le> length (arrs ! sl_arr sl)"
  shows "sl_arr sl' < length arrs' \<and> sl_len sl' \<le> length (arrs' ! sl_arr sl') \<and>
    take (sl_len sl') (arrs' ! sl_arr sl') =
      (case s of None \<Rightarrow> [] | Some sl \<Rightarrow> take (sl_len sl) (arrs ! sl_arr sl)) @ [Some c] \<and>
    length arrs \<le> length arrs' \<and>
    (\<forall>a < length arrs. a \<noteq> sl_arr sl' \<longrightarrow> arrs' ! a = arrs ! a) \<and>
    (sl_arr sl' = length arrs \<or> (\<exists>sl. s = Some sl \<and> sl_arr sl' = sl_arr sl))"
proof (cases s)
  case None
  with assms(1) show ?thesis by (auto simp: append_chan_def nth_append)
next
  case (Some sl)
  note b = assms(2) [OF Some]
  show ?thesis
  proof (cases "sl_len sl < length (arrs ! sl_arr sl)")
    case True
    then have "sl' = sl\<lparr>sl_len := Suc (sl_len sl)\<rparr>"
      "arrs' = arrs[sl_arr sl := (arrs ! sl_arr sl)[sl_len sl := Some c]]"
      using assms(1) Some by (simp_all add: append_chan_def Let_def)
    then show ?thesis using b True Some by (simp add: take_Suc_conv_app_nth)
  next
    case False
    then show ?thesis using assms(1) Some b by (auto simp: append_chan_def Let_def nth_append)
  qed
qed

lemma Subscribe_spec:
  assumes inv: "sync_inv st" and sub: "SyncService_Subscribe grow u st = (ch, st')"
  shows "slots st' u = slots st u @ [Some ch]" and "\<And>v. v \<noteq> u \<Longrightarrow> slots st' v = slots st v"
    and "sy_chans st' = sy_chans st @ [\<lparr>ch_buf = [], ch_closed = False\<rparr>]" and "ch = length (sy_chans st)"
    and "\<And>sl. sy_subs st' u = Some sl \<Longrightarrow> sl_arr sl < length (sy_arrs st') \<and> sl_len sl \<le> length (sy_arrs st' ! sl_arr sl)"
    and "\<And>v sl sl'. v \<noteq> u \<Longrightarrow> sy_subs st' u = Some sl \<Longrightarrow> sy_subs st v = Some sl' \<Longrightarrow> sl_arr sl \<noteq> sl_arr sl'"
    and "length (sy_arrs st) \<le> length (sy_arrs st')"
    and "\<And>v sl. v \<noteq> u \<Longrightarrow> sy_subs st v = Some sl \<Longrightarrow> sy_arrs st' ! sl_arr sl = sy_arrs st ! sl_arr sl"
    and "\<And>v. v \<noteq> u \<Longrightarrow> sy_subs st' v = sy_subs st v"
proof -
  obtain sl' arrs' where app: "append_chan grow (sy_subs st u) ch (sy_arrs st) = (sl', arrs')"
    by fastforce
  have ch: "ch = length (sy_chans st)"
    using sub by (auto simp: SyncService_Subscribe_def Let_def split: prod.splits)
  have st': "st' = \<lparr>sy_subs = (sy_subs st)(u \<mapsto> sl'), sy_arrs = arrs',
               sy_chans = sy_chans st @ [\<lparr>ch_buf = [], ch_closed = False\<rparr>]\<rparr>"
    using sub app unfolding ch by (simp add: SyncService_Subscribe_def Let_def)
  note sp = append_chan_spec [OF app]
  have bnd: "\<And>sl. sy_subs st u = Some sl \<Longrightarrow> sl_arr sl < length (sy_arrs st) \<and> sl_len sl \<le> length (sy_arrs st ! sl_arr sl)"
    using inv_bounds [OF inv] by blast
  have own: "sl_arr sl' \<noteq> sl_arr sl" if "v \<noteq> u" "sy_subs st v = Some sl" for v sl
    using sp [OF bnd] inv_own_array [OF inv] inv_bounds(1) [OF inv that(2)] that by (metis less_irrefl)
  have keep: "arrs' ! sl_arr sl = sy_arrs st ! sl_arr sl" if "v \<noteq> u" "sy_subs st v = Some sl" for v sl
    using sp [OF bnd] own [OF that] inv_bounds(1) [OF inv that(2)] by metis
  show "slots st' u = slots st u @ [Some ch]"
    using sp [OF bnd] by (simp add: slots_def st')
  show "slots st' v = slots st v" if "v \<noteq> u" for v
    using keep [OF that] that by (simp add: slots_def st' split: option.splits)
  show "sy_chans st' = sy_chans st @ [\<lparr>ch_buf = [], ch_closed = False\<rparr>]" by (simp add: st')
  show "ch = length (sy_chans st)" by (rule ch)
  show "sl_arr sl < length (sy_arrs st') \<and> sl_len sl \<le> length (sy_arrs st' ! sl_arr sl)"
    if "sy_subs st' u = Some sl" for sl
    using that sp [OF bnd] by (simp add: st')
  show "sl_arr sl \<noteq> sl_arr sl''" if "v \<noteq> u" "sy_subs st' u = Some sl" "sy_subs st v = Some sl''" for v sl sl''
    using own [OF that(1,3)] that(2) by (simp add: st')
  show "length (sy_arrs st) \<le> length (sy_arrs st')" using sp [OF bnd] by (simp add: st')
  show "sy_arrs st' ! sl_arr sl = sy_arrs st ! sl_arr sl" if "v \<noteq> u" "sy_subs st v = Some sl" for v sl
    using keep [OF that] by (simp add: st')
  show "sy_subs st' v = sy_subs st v" if "v \<noteq> u" for v using that by (simp add: st')
qed

lemma live_slots_more:
  assumes "live_slots st u" and "slots st' u = slots st u" and "sy_chans st' = sy_chans st @ cs"
  shows "live_slots st' u"
  using assms unfolding live_slots_def by (fastforce simp: nth_append)

lemma sync_inv_Subscribe:
  assumes inv: "sync_inv st" and sub: "SyncService_Subscribe grow u st = (ch, st')"
  shows "sync_inv st'"
proof -
  note sp = Subscribe_spec [OF inv sub]
  have new: "Some ch \<notin> set (slots st v)" for v
    using inv_live [OF inv, of v] sp(4) unfolding live_slots_def by blast
  show ?thesis
  proof (rule sync_invI)
    fix v sl assume "sy_subs st' v = Some sl"
    then show "sl_arr sl < length (sy_arrs st')" "sl_len sl \<le> length (sy_arrs st' ! sl_arr sl)"
      using sp(5,7,8,9) inv_bounds [OF inv, of v sl] by (cases "v = u"; force)+
  next
    fix v w sl sl' assume "sy_subs st' v = Some sl" "sy_subs st' w = Some sl'" "w \<noteq> v"
    then show "sl_arr sl' \<noteq> sl_arr sl"
      using sp(6,9) inv_own_array [OF inv, of v sl w sl'] by metis
  next
    fix v w c assume "v \<noteq> w" "c \<in> set (slots st' v)"
    then show "c \<notin> set (slots st' w)"
      using sp(1,2) new inv_disjoint [OF inv] by (cases "v = u"; cases "w = u") auto
  next
    fix v
    show "live_slots st' v"
    proof (cases "v = u")
      case True
      have "live_slots st u" by (rule inv_live [OF inv])
      then show ?thesis using True sp(1,3,4) new [of u] unfolding live_slots_def
        by (auto simp: nth_append)
    next
      case False
      then show ?thesis using live_slots_more inv_live [OF inv] sp(2,3) by blast
    qed
  next
    fix c assume "c \<in> set (sy_chans st')"
    then show "length (ch_buf c) \<le> chan_buffer" using sp(3) inv_buf [OF inv] by auto
  qed
qed

lemma index_of_Some: "index_of ch cs = Some i \<Longrightarrow> i < length cs \<and> cs ! i = Some ch"
  by (induction cs arbitrary: i) (auto split: if_splits)

lemma index_of_None: "index_of ch cs = None \<longleftrightarrow> Some ch \<notin> set cs"
  by (induction cs) auto

lemma index_of_remove1:
  "index_of ch cs = Some i \<Longrightarrow> take i cs @ drop (Suc i) cs = remove1 (Some ch) cs"
  by (induction cs arbitrary: i) (auto split: if_splits)

lemma length_remove_at: "i < len \<Longrightarrow> len \<le> length arr \<Longrightarrow> length (remove_at i len arr) = length arr"
  by (simp add: remove_at_def)

lemma take_remove_at:
  assumes "i < len" and "len \<le> length arr"
  shows "take (len - 1) (remove_at i len arr) = take i (take len arr) @ drop (Suc i) (take len arr)"
proof -
  let ?p = "take i arr @ take (len - Suc i) (drop (Suc i) arr)"
  have "remove_at i len arr = ?p @ drop (len - 1) arr" by (simp add: remove_at_def)
  moreover have "length ?p = len - 1" using assms by simp
  moreover have "take i (take len arr) @ drop (Suc i) (take len arr) = ?p"
    using assms by (simp add: drop_take min_def)
  ultimately show ?thesis by (metis append_eq_conv_conj)
qed

lemma unsubscribe_spec:
  assumes inv: "sync_inv st"
  shows "slots (unsubscribe u ch st) u = remove1 (Some ch) (slots st u)"
    and "\<And>v. v \<noteq> u \<Longrightarrow> slots (unsubscribe u ch st) v = slots st v"
    and "sy_chans (unsubscribe u ch st) = sy_chans st"
    and "\<And>v sl. sy_subs (unsubscribe u ch st) v = Some sl \<Longrightarrow>
           sl_arr sl < length (sy_arrs (unsubscribe u ch st)) \<and>
           sl_len sl \<le> length (sy_arrs (unsubscribe u ch st) ! sl_arr sl) \<and>
           (\<exists>sl'. sy_subs st v = Some sl' \<and> sl_arr sl = sl_arr sl')"
proof -
  consider (none) "sy_subs st u = None" | (absent) sl where "sy_subs st u = Some sl" "index_of ch (slots st u) = None"
    | (hit) sl i where "sy_subs st u = Some sl" "index_of ch (slots st u) = Some i"
    by fastforce
  then have "slots (unsubscribe u ch st) u = remove1 (Some ch) (slots st u) \<and>
    (\<forall>v. v \<noteq> u \<longrightarrow> slots (unsubscribe u ch st) v = slots st v) \<and>
    sy_chans (unsubscribe u ch st) = sy_chans st \<and>
    (\<forall>v sl. sy_subs (unsubscribe u ch st) v = Some sl \<longrightarrow>
           sl_arr sl < length (sy_arrs (unsubscribe u ch st)) \<and>
           sl_len sl \<le> length (sy_arrs (unsubscribe u ch st) ! sl_arr sl) \<and>
           (\<exists>sl'. sy_subs st v = Some sl' \<and> sl_arr sl = sl_arr sl'))"
  proof cases
    case none
    then have "unsubscribe u ch st = st" "slots st u = []" by (simp_all add: unsubscribe_def slots_def)
    then show ?thesis using inv_bounds [OF inv] by simp
  next
    case absent
    have "slots st u = take (sl_len sl) (sy_arrs st ! sl_arr sl)" using absent(1) by (simp add: slots_def)
    with absent have "unsubscribe u ch st = st" "Some ch \<notin> set (slots st u)"
      by (simp_all add: unsubscribe_def index_of_None [symmetric])
    then show ?thesis using inv_bounds [OF inv] by (simp add: remove1_idem)
  next
    case (hit sl i)
    let ?arr = "sy_arrs st ! sl_arr sl"
    note b = inv_bounds [OF inv hit(1)]
    have slots: "slots st u = take (sl_len sl) ?arr" using hit(1) by (simp add: slots_def)
    then have i: "i < sl_len sl" using index_of_Some [OF hit(2)] by simp
    have st': "unsubscribe u ch st = st\<lparr>sy_subs := (sy_subs st)(u \<mapsto> sl\<lparr>sl_len := sl_len sl - 1\<rparr>),
                          sy_arrs := (sy_arrs st)[sl_arr sl := remove_at i (sl_len sl) ?arr]\<rparr>"
      using hit slots by (simp add: unsubscribe_def)
    have "slots (unsubscribe u ch st) u = remove1 (Some ch) (slots st u)"
      using b take_remove_at [OF i b(2)] index_of_remove1 [OF hit(2)] by (simp add: st' slots_def hit(1))
    moreover have "slots (unsubscribe u ch st) v = slots st v" if "v \<noteq> u" for v
      using that inv_own_array [OF inv hit(1) _ that] by (cases "sy_subs st v") (simp_all add: st' slots_def)
    moreover have "sl_arr s < length (sy_arrs (unsubscribe u ch st)) \<and>
           sl_len s \<le> length (sy_arrs (unsubscribe u ch st) ! sl_arr s) \<and>
           (\<exists>sl'. sy_subs st v = Some sl' \<and> sl_arr s = sl_arr sl')"
      if "sy_subs (unsubscribe u ch st) v = Some s" for v s
    proof (cases "v = u")
      case True
      then show ?thesis using that b hit(1) length_remove_at [OF i b(2)] by (auto simp: st')
    next
      case False
      then have "sy_subs st v = Some s" using that by (simp add: st')
      then show ?thesis using inv_bounds [OF inv, of v s] inv_own_array [OF inv hit(1) _ False]
        by (simp add: st')
    qed
    ultimately show ?thesis by (simp add: st')
  qed
  then show "slots (unsubscribe u ch st) u = remove1 (Some ch) (slots st u)"
    and "\<And>v. v \<noteq> u \<Longrightarrow> slots (unsubscribe u ch st) v = slots st v"
    and "sy_chans (unsubscribe u ch st) = sy_chans st"
    and "\<And>v sl. sy_subs (unsubscribe u ch st) v = Some sl \<Longrightarrow>
           sl_arr sl < length (sy_arrs (unsubscribe u ch st)) \<and>
           sl_len sl \<le> length (sy_arrs (unsubscribe u ch st) ! sl_arr sl) \<and>
           (\<exists>sl'. sy_subs st v = Some sl' \<and> sl_arr sl = sl_arr sl')"
    by blast+
qed

lemma cleanup_spec:
  assumes inv: "sync_inv st" and mem: "Some ch \<in> set (slots st u)"
  shows "\<exists>st'. cleanup_sub u ch st = Inr st' \<and> sync_inv st' \<and>
    slots st' u = remove1 (Some ch) (slots st u) \<and> (\<forall>v. v \<noteq> u \<longrightarrow> slots st' v = slots st v) \<and>
    sy_chans st' = (sy_chans st)[ch := (sy_chans st ! ch)\<lparr>ch_closed := True\<rparr>]"
proof -
  let ?un = "unsubscribe u ch st"
  let ?st' = "?un\<lparr>sy_chans := (sy_chans st)[ch := (sy_chans st ! ch)\<lparr>ch_closed := True\<rparr>]\<rparr>"
  note sp = unsubscribe_spec [OF inv, where u = u and ch = ch]
  have live: "live_slots st v" for v by (rule inv_live [OF inv])
  have ch: "ch < length (sy_chans st)" "\<not> ch_closed (sy_chans st ! ch)"
    using live [of u] mem unfolding live_slots_def by blast+
  have run: "cleanup_sub u ch st = Inr ?st'"
    using ch sp(3) by (simp add: cleanup_sub_def chan_close_def Let_def)
  have gone: "Some ch \<notin> set (slots ?un v)" for v
    using live [of u] mem inv_disjoint [OF inv, of u v "Some ch"] sp(1,2) unfolding live_slots_def
    by (cases "v = u") (simp_all add: set_remove1_eq)
  have sub: "set (slots ?un v) \<subseteq> set (slots st v)" "distinct (slots ?un v)" for v
    using live [of v] sp(1,2) set_remove1_subset unfolding live_slots_def
    by (cases "v = u"; force)+
  have "sync_inv ?st'"
  proof (rule sync_invI)
    fix v w sl sl'
    assume "sy_subs ?st' v = Some sl" "sy_subs ?st' w = Some sl'" "w \<noteq> v"
    then have "sy_subs ?un v = Some sl" "sy_subs ?un w = Some sl'" by simp_all
    then obtain s s' where "sy_subs st v = Some s" "sl_arr sl = sl_arr s"
      "sy_subs st w = Some s'" "sl_arr sl' = sl_arr s'" using sp(4) by blast
    then show "sl_arr sl' \<noteq> sl_arr sl" using inv_own_array [OF inv] \<open>w \<noteq> v\<close> by metis
  next
    fix v w c assume "v \<noteq> w" "c \<in> set (slots ?st' v)"
    then show "c \<notin> set (slots ?st' w)" using sub(1) inv_disjoint [OF inv] by (simp, blast)
  next
    fix v
    show "live_slots ?st' v" unfolding live_slots_def
    proof (intro conjI ballI)
      fix c assume "c \<in> set (slots ?st' v)"
      then have "c \<in> set (slots st v)" "c \<noteq> Some ch" using sub(1) gone by auto
      then obtain k where "k < length (sy_chans st)" "c = Some k" "\<not> ch_closed (sy_chans st ! k)" "k \<noteq> ch"
        using live [of v] unfolding live_slots_def by blast
      then show "\<exists>k < length (sy_chans ?st'). c = Some k \<and> \<not> ch_closed (sy_chans ?st' ! k)" by simp
    qed (use sub(2) in simp)
  next
    fix c assume "c \<in> set (sy_chans ?st')"
    then have "c \<in> set (sy_chans st) \<or> c = (sy_chans st ! ch)\<lparr>ch_closed := True\<rparr>"
      using set_update_subset_insert by fastforce
    then show "length (ch_buf c) \<le> chan_buffer" using inv_buf [OF inv] ch(1) by auto
  qed (use sp(4) in auto)
  then show ?thesis using run sp(1,2) by simp
qed

lemma sync_inv_new [simp]: "sync_inv NewSyncService"
  by (simp add: sync_inv_def NewSyncService_def slots_def live_slots_def)

end
