(* ===== verification/SyncConc.thy ===== *)
theory SyncConc
  imports SyncSvc
begin

text \<open>
  The subscription service of \<^verbatim>\<open>src/internal/server/service/sync.go\<close> under concurrency.
  \<^verbatim>\<open>Subscribe\<close> and its cleanup hold the lock for their whole effect and are one step
  each. \<^verbatim>\<open>notify\<close> holds the read lock only to read the slice: it is a step that takes
  the slice, then one step per element, each of which reads the array as it is then. A panic
  in any of these goroutines ends the process.

  A configuration also records which user each channel was created for (the cleanup
  closures) and which notification each accepted event came from.
\<close>

record notifier =
  nf_user :: string
  nf_slice :: "slice option"
  nf_i :: nat
  nf_evt :: SyncEvent

record sync_conf =
  sc_st :: SyncService
  sc_handles :: "(string \<times> nat) list"
  sc_done :: "nat list"
  sc_run :: "notifier list"
  sc_log :: "(nat \<times> string \<times> SyncEvent) list"
  sc_panic :: bool

definition sync_init :: sync_conf where
  "sync_init = \<lparr>sc_st = NewSyncService, sc_handles = [], sc_done = [], sc_run = [], sc_log = [],
     sc_panic = False\<rparr>"

definition do_subscribe :: "(nat \<Rightarrow> nat) \<Rightarrow> string \<Rightarrow> sync_conf \<Rightarrow> sync_conf" where
  "do_subscribe grow u c =
     (let (ch, st') = SyncService_Subscribe grow u (sc_st c)
      in c\<lparr>sc_st := st', sc_handles := sc_handles c @ [(u, ch)]\<rparr>)"

definition do_cleanup :: "string \<Rightarrow> nat \<Rightarrow> sync_conf \<Rightarrow> sync_conf" where
  "do_cleanup u ch c =
     (case cleanup_sub u ch (sc_st c) of
        Inl _ \<Rightarrow> c\<lparr>sc_panic := True\<rparr>
      | Inr st' \<Rightarrow> c\<lparr>sc_st := st', sc_done := ch # sc_done c\<rparr>)"

definition do_start :: "string \<Rightarrow> SyncEvent \<Rightarrow> sync_conf \<Rightarrow> sync_conf" where
  "do_start u evt c = c\<lparr>sc_run := sc_run c @
     [\<lparr>nf_user = u, nf_slice = sy_subs (sc_st c) u, nf_i = 0, nf_evt = evt\<rparr>]\<rparr>"

definition slice_len :: "slice option \<Rightarrow> nat" where
  "slice_len s = (case s of None \<Rightarrow> 0 | Some sl \<Rightarrow> sl_len sl)"

definition do_send :: "nat \<Rightarrow> sync_conf \<Rightarrow> sync_conf" where
  "do_send j c =
     (let nf = sc_run c ! j;
          el = (case nf_slice nf of None \<Rightarrow> None | Some sl \<Rightarrow> sy_arrs (sc_st c) ! sl_arr sl ! nf_i nf)
      in case try_send el (nf_evt nf) (sy_chans (sc_st c)) of
           Inl _ \<Rightarrow> c\<lparr>sc_panic := True\<rparr>
         | Inr chans \<Rightarrow> c\<lparr>sc_st := (sc_st c)\<lparr>sy_chans := chans\<rparr>,
                        sc_run := (sc_run c)[j := nf\<lparr>nf_i := Suc (nf_i nf)\<rparr>],
                        sc_log := sc_log c @ (if chans = sy_chans (sc_st c) then []
                                              else [(the el, nf_user nf, nf_evt nf)])\<rparr>)"

inductive sync_step :: "(nat \<Rightarrow> nat) \<Rightarrow> sync_conf \<Rightarrow> sync_conf \<Rightarrow> bool" for grow where
  step_subscribe: "\<not> sc_panic c \<Longrightarrow> sync_step grow c (do_subscribe grow u c)"
| step_cleanup: "\<not> sc_panic c \<Longrightarrow> (u, ch) \<in> set (sc_handles c) \<Longrightarrow> ch \<notin> set (sc_done c) \<Longrightarrow>
    sync_step grow c (do_cleanup u ch c)"
| step_start: "\<not> sc_panic c \<Longrightarrow> sync_step grow c (do_start u evt c)"
| step_send: "\<not> sc_panic c \<Longrightarrow> j < length (sc_run c) \<Longrightarrow>
    nf_i (sc_run c ! j) < slice_len (nf_slice (sc_run c ! j)) \<Longrightarrow> sync_step grow c (do_send j c)"
| step_recv: "\<not> sc_panic c \<Longrightarrow> chan_recv ch (sc_st c) = Some (e, st') \<Longrightarrow>
    sync_step grow c (c\<lparr>sc_st := st'\<rparr>)"

inductive_cases sync_stepE: "sync_step grow c c'"

interpretation syncts: transition_system "\<lambda>c. c = sync_init" "sync_step grow" for grow .

section \<open>Ownership of the backing arrays\<close>

text \<open>
  Every array holds channels of one user only, and at least one: this ties a slice, even a
  stale one, to its user.
\<close>

definition owned :: "nat option list \<Rightarrow> (string \<times> nat) set \<Rightarrow> string \<Rightarrow> bool" where
  "owned arr hs u \<longleftrightarrow> (\<exists>ch. Some ch \<in> set arr) \<and> (\<forall>ch. Some ch \<in> set arr \<longrightarrow> (u, ch) \<in> hs)"

definition slice_ok :: "nat option list list \<Rightarrow> (string \<times> nat) set \<Rightarrow> string \<Rightarrow> slice \<Rightarrow> bool" where
  "slice_ok arrs hs u sl \<longleftrightarrow> sl_arr sl < length arrs \<and> sl_len sl \<le> length (arrs ! sl_arr sl) \<and>
     owned (arrs ! sl_arr sl) hs u"

definition current_ok :: "nat option list list \<Rightarrow> (string \<times> nat) set \<Rightarrow> string \<Rightarrow> slice \<Rightarrow> bool" where
  "current_ok arrs hs u sl \<longleftrightarrow> slice_ok arrs hs u sl \<and>
     None \<notin> set (take (sl_len sl) (arrs ! sl_arr sl))"

definition conc_inv :: "sync_conf \<Rightarrow> bool" where
  "conc_inv c \<longleftrightarrow>
     map snd (sc_handles c) = [0..<length (sy_chans (sc_st c))] \<and>
     (\<forall>u sl. sy_subs (sc_st c) u = Some sl \<longrightarrow> current_ok (sy_arrs (sc_st c)) (set (sc_handles c)) u sl) \<and>
     (\<forall>nf \<in> set (sc_run c). \<forall>sl. nf_slice nf = Some sl \<longrightarrow>
        slice_ok (sy_arrs (sc_st c)) (set (sc_handles c)) (nf_user nf) sl) \<and>
     (\<forall>(ch, u, e) \<in> set (sc_log c). (u, ch) \<in> set (sc_handles c)) \<and>
     (\<forall>ch \<in> set (sy_chans (sc_st c)). length (ch_buf ch) \<le> chan_buffer)"

lemma owned_unique:
  assumes "distinct (map snd hs)" and "owned arr (set hs) u" and "owned arr (set hs) v"
  shows "u = v"
proof -
  obtain ch where "(u, ch) \<in> set hs" "(v, ch) \<in> set hs" using assms(2,3) unfolding owned_def by blast
  then show ?thesis using assms(1) by (metis eq_key_imp_eq_value distinct_map inj_onD prod.inject snd_conv)
qed

text \<open>
  How the arrays may change: only the arrays of \<open>u\<close>, keeping their length and gaining only
  channels of \<open>u\<close>, and new arrays may appear.
\<close>

definition arrs_step :: "nat option list list \<Rightarrow> nat option list list \<Rightarrow> (string \<times> nat) set \<Rightarrow> string \<Rightarrow> bool" where
  "arrs_step arrs arrs' hs u \<longleftrightarrow> length arrs \<le> length arrs' \<and>
     (\<forall>a < length arrs. arrs' ! a = arrs ! a \<or>
        (length (arrs' ! a) = length (arrs ! a) \<and> owned (arrs' ! a) hs u \<and> (\<exists>ch. Some ch \<in> set (arrs ! a) \<and> (u, ch) \<in> hs)))"

lemma slice_ok_step:
  assumes "arrs_step arrs arrs' (set hs') u" and "set hs \<subseteq> set hs'" and "distinct (map snd hs')"
    and "slice_ok arrs (set hs) v sl"
  shows "slice_ok arrs' (set hs') v sl"
proof -
  let ?a = "sl_arr sl"
  have ok: "?a < length arrs" "sl_len sl \<le> length (arrs ! ?a)" "owned (arrs ! ?a) (set hs) v"
    using assms(4) unfolding slice_ok_def by auto
  have own: "owned (arrs ! ?a) (set hs') v" using ok(3) assms(2) unfolding owned_def by blast
  have len: "?a < length arrs'" using ok(1) assms(1) unfolding arrs_step_def by linarith
  consider "arrs' ! ?a = arrs ! ?a"
    | ch where "length (arrs' ! ?a) = length (arrs ! ?a)" "owned (arrs' ! ?a) (set hs') u"
        "Some ch \<in> set (arrs ! ?a)" "(u, ch) \<in> set hs'"
    using assms(1) ok(1) unfolding arrs_step_def by blast
  then show ?thesis
  proof cases
    case 1
    then show ?thesis using ok own len unfolding slice_ok_def by simp
  next
    case 2
    then have "(v, ch) \<in> set hs'" using own unfolding owned_def by blast
    then have "u = v" using 2(4) assms(3) by (metis distinct_map inj_onD prod.inject snd_conv)
    then show ?thesis using 2 ok len unfolding slice_ok_def by simp
  qed
qed

lemma current_ok_other:
  assumes "arrs_step arrs arrs' (set hs') u" and "set hs \<subseteq> set hs'" and "distinct (map snd hs')"
    and "current_ok arrs (set hs) v sl" and "v \<noteq> u"
  shows "current_ok arrs' (set hs') v sl"
proof -
  have ok: "slice_ok arrs (set hs) v sl" using assms(4) unfolding current_ok_def by blast
  have own: "owned (arrs ! sl_arr sl) (set hs') v"
    using ok assms(2) unfolding slice_ok_def owned_def by blast
  have "arrs' ! sl_arr sl = arrs ! sl_arr sl"
  proof (rule ccontr)
    assume "arrs' ! sl_arr sl \<noteq> arrs ! sl_arr sl"
    then obtain ch where "Some ch \<in> set (arrs ! sl_arr sl)" "(u, ch) \<in> set hs'"
      using assms(1) ok unfolding arrs_step_def slice_ok_def by blast
    then show False using own assms(3,5) unfolding owned_def
      by (metis distinct_map inj_onD prod.inject snd_conv)
  qed
  then show ?thesis using slice_ok_step [OF assms(1-3) ok] assms(4) unfolding current_ok_def by simp
qed

lemma append_chan_arrs:
  assumes app: "append_chan grow s ch arrs = (sl', arrs')" and hs': "hs' = insert (u, ch) hs"
    and cur: "\<And>sl. s = Some sl \<Longrightarrow> current_ok arrs hs u sl"
  shows "arrs_step arrs arrs' hs' u \<and> current_ok arrs' hs' u sl'"
proof -
  let ?old = "case s of None \<Rightarrow> [] | Some sl \<Rightarrow> take (sl_len sl) (arrs ! sl_arr sl)"
  have old: "None \<notin> set ?old" "\<And>c. Some c \<in> set ?old \<Longrightarrow> (u, c) \<in> hs"
    using cur unfolding current_ok_def slice_ok_def owned_def
    by (auto split: option.splits dest: in_set_takeD)
  show ?thesis
  proof (cases "\<exists>sl. s = Some sl \<and> sl_len sl < length (arrs ! sl_arr sl)")
    case True
    then obtain sl where sl: "s = Some sl" "sl_len sl < length (arrs ! sl_arr sl)" by blast
    let ?a = "sl_arr sl" and ?n = "sl_len sl"
    have ok: "?a < length arrs" "owned (arrs ! ?a) hs u"
      using cur [OF sl(1)] unfolding current_ok_def slice_ok_def by auto
    have res: "sl' = sl\<lparr>sl_len := Suc ?n\<rparr>" "arrs' = arrs[?a := (arrs ! ?a)[?n := Some ch]]"
      using app sl by (simp_all add: append_chan_def Let_def)
    have own: "owned ((arrs ! ?a)[?n := Some ch]) hs' u"
      using ok(2) sl(2) set_update_subset_insert [of "arrs ! ?a" ?n "Some ch"] set_update_memI [OF sl(2)]
      unfolding owned_def hs' by blast
    have "arrs_step arrs arrs' hs' u"
      using ok own unfolding arrs_step_def res owned_def hs' by (auto simp: nth_list_update)
    moreover have "current_ok arrs' hs' u sl'"
      using ok(1) own sl old(1) unfolding current_ok_def slice_ok_def res
      by (simp add: take_Suc_conv_app_nth)
    ultimately show ?thesis by blast
  next
    case False
    then have res: "sl' = \<lparr>sl_arr = length arrs, sl_len = Suc (length ?old)\<rparr>"
      "arrs' = arrs @ [?old @ [Some ch] @ replicate (grow (length ?old) - Suc (length ?old)) None]"
      using app by (auto simp: append_chan_def Let_def split: option.splits)
    have "arrs_step arrs arrs' hs' u" unfolding arrs_step_def res by (simp add: nth_append)
    moreover have "current_ok arrs' hs' u sl'"
      using old unfolding current_ok_def slice_ok_def owned_def res hs' by (auto simp: nth_append)
    ultimately show ?thesis by blast
  qed
qed

lemma unsubscribe_arrs:
  assumes cur: "\<And>sl. sy_subs st u = Some sl \<Longrightarrow> current_ok (sy_arrs st) hs u sl"
  shows "arrs_step (sy_arrs st) (sy_arrs (unsubscribe u ch st)) hs u \<and>
    (\<forall>sl. sy_subs (unsubscribe u ch st) u = Some sl \<longrightarrow>
       current_ok (sy_arrs (unsubscribe u ch st)) hs u sl) \<and>
    (\<forall>v. v \<noteq> u \<longrightarrow> sy_subs (unsubscribe u ch st) v = sy_subs st v) \<and>
    sy_chans (unsubscribe u ch st) = sy_chans st"
proof (cases "unsubscribe u ch st = st")
  case True
  then show ?thesis using cur by (simp add: arrs_step_def)
next
  case False
  then obtain sl i where sl: "sy_subs st u = Some sl"
    and i: "index_of ch (take (sl_len sl) (sy_arrs st ! sl_arr sl)) = Some i"
    by (auto simp: unsubscribe_def split: option.splits)
  let ?a = "sl_arr sl" and ?n = "sl_len sl" and ?arr = "sy_arrs st ! sl_arr sl"
  have un: "unsubscribe u ch st = st\<lparr>sy_subs := (sy_subs st)(u \<mapsto> sl\<lparr>sl_len := ?n - 1\<rparr>),
                          sy_arrs := (sy_arrs st)[?a := remove_at i ?n ?arr]\<rparr>"
    using sl i by (simp add: unsubscribe_def)
  have ok: "?a < length (sy_arrs st)" "?n \<le> length ?arr" "owned ?arr hs u" "None \<notin> set (take ?n ?arr)"
    using cur [OF sl] unfolding current_ok_def slice_ok_def by auto
  have in_n: "i < ?n" using index_of_Some [OF i] by simp
  have sub: "set (remove_at i ?n ?arr) \<subseteq> set ?arr"
    unfolding remove_at_def by (auto dest: in_set_takeD in_set_dropD)
  have last: "?arr ! (?n - 1) \<in> set (remove_at i ?n ?arr)"
  proof -
    have "drop (?n - 1) ?arr ! 0 \<in> set (drop (?n - 1) ?arr)" using in_n ok(2) by (intro nth_mem) simp
    then show ?thesis using in_n ok(2) unfolding remove_at_def by simp
  qed
  have "take ?n ?arr ! (?n - 1) \<in> set (take ?n ?arr)" using in_n ok(2) by (intro nth_mem) simp
  then have "?arr ! (?n - 1) \<in> set (take ?n ?arr)" using in_n by simp
  then obtain c where "?arr ! (?n - 1) = Some c" using ok(4) by (metis not_None_eq)
  then have own: "owned (remove_at i ?n ?arr) hs u"
    using ok(3) sub last unfolding owned_def by (metis subsetD)
  have pre: "None \<notin> set (take (?n - 1) (remove_at i ?n ?arr))"
    using ok(4) unfolding take_remove_at [OF in_n ok(2)] by (metis Un_iff in_set_dropD in_set_takeD set_append)
  have "arrs_step (sy_arrs st) (sy_arrs (unsubscribe u ch st)) hs u"
    using ok own length_remove_at [OF in_n ok(2)] unfolding arrs_step_def un owned_def
    by (auto simp: nth_list_update)
  moreover have "current_ok (sy_arrs (unsubscribe u ch st)) hs u (sl\<lparr>sl_len := ?n - 1\<rparr>)"
    using ok own pre length_remove_at [OF in_n ok(2)] unfolding current_ok_def slice_ok_def un by simp
  ultimately show ?thesis by (simp add: un)
qed

section \<open>The invariant in every interleaving\<close>

lemma conc_invD:
  assumes "conc_inv c"
  shows "map snd (sc_handles c) = [0..<length (sy_chans (sc_st c))]" "distinct (map snd (sc_handles c))"
    "\<And>u sl. sy_subs (sc_st c) u = Some sl \<Longrightarrow> current_ok (sy_arrs (sc_st c)) (set (sc_handles c)) u sl"
    "\<And>nf sl. nf \<in> set (sc_run c) \<Longrightarrow> nf_slice nf = Some sl \<Longrightarrow>
       slice_ok (sy_arrs (sc_st c)) (set (sc_handles c)) (nf_user nf) sl"
    "\<And>ch u e. (ch, u, e) \<in> set (sc_log c) \<Longrightarrow> (u, ch) \<in> set (sc_handles c)"
    "\<And>ch. ch \<in> set (sy_chans (sc_st c)) \<Longrightarrow> length (ch_buf ch) \<le> chan_buffer"
proof -
  show a: "map snd (sc_handles c) = [0..<length (sy_chans (sc_st c))]"
    using assms unfolding conc_inv_def by blast
  show "distinct (map snd (sc_handles c))" unfolding a by simp
qed (use assms in \<open>unfold conc_inv_def, blast\<close>)+

lemma conc_invI:
  assumes "map snd (sc_handles c) = [0..<length (sy_chans (sc_st c))]"
    "\<And>u sl. sy_subs (sc_st c) u = Some sl \<Longrightarrow> current_ok (sy_arrs (sc_st c)) (set (sc_handles c)) u sl"
    "\<And>nf sl. nf \<in> set (sc_run c) \<Longrightarrow> nf_slice nf = Some sl \<Longrightarrow>
       slice_ok (sy_arrs (sc_st c)) (set (sc_handles c)) (nf_user nf) sl"
    "\<And>ch u e. (ch, u, e) \<in> set (sc_log c) \<Longrightarrow> (u, ch) \<in> set (sc_handles c)"
    "\<And>ch. ch \<in> set (sy_chans (sc_st c)) \<Longrightarrow> length (ch_buf ch) \<le> chan_buffer"
  shows "conc_inv c"
  unfolding conc_inv_def using assms by blast

lemma conc_inv_subscribe:
  assumes "conc_inv c"
  shows "conc_inv (do_subscribe grow u c)"
proof -
  let ?st = "sc_st c" and ?ch = "length (sy_chans (sc_st c))"
  note i = conc_invD [OF assms]
  obtain sl' arrs' where app: "append_chan grow (sy_subs ?st u) ?ch (sy_arrs ?st) = (sl', arrs')" by fastforce
  let ?hs' = "sc_handles c @ [(u, ?ch)]"
  have c': "do_subscribe grow u c = c\<lparr>sc_st := \<lparr>sy_subs = (sy_subs ?st)(u \<mapsto> sl'), sy_arrs = arrs',
      sy_chans = sy_chans ?st @ [\<lparr>ch_buf = [], ch_closed = False\<rparr>]\<rparr>, sc_handles := ?hs'\<rparr>"
    by (simp add: do_subscribe_def SyncService_Subscribe_def app)
  have ar: "arrs_step (sy_arrs ?st) arrs' (set ?hs') u" "current_ok arrs' (set ?hs') u sl'"
    using append_chan_arrs [OF app _ i(3), of "set ?hs'"] by auto
  have sub: "set (sc_handles c) \<subseteq> set ?hs'" by auto
  have hs: "map snd ?hs' = [0..<Suc ?ch]" using i(1) by simp
  then have dis: "distinct (map snd ?hs')" by (simp only: hs distinct_upt)
  show ?thesis unfolding c'
  proof (rule conc_invI, goal_cases)
    case 1 show ?case using hs by simp
  next
    case (2 v sl)
    then show ?case using ar current_ok_other [OF ar(1) sub dis i(3)] by (cases "v = u") auto
  next
    case (3 nf sl)
    then show ?case using slice_ok_step [OF ar(1) sub dis i(4)] by simp
  next
    case (4 ch v e)
    then show ?case using i(5) by auto
  next
    case (5 ch)
    then show ?case using i(6) by auto
  qed
qed

lemma conc_inv_cleanup:
  assumes "conc_inv c"
  shows "conc_inv (do_cleanup u ch c)"
proof (cases "cleanup_sub u ch (sc_st c)")
  case (Inl e)
  then show ?thesis using assms by (simp add: do_cleanup_def conc_inv_def)
next
  case (Inr st')
  let ?st = "sc_st c" and ?un = "unsubscribe u ch (sc_st c)"
  note i = conc_invD [OF assms]
  have un: "arrs_step (sy_arrs ?st) (sy_arrs ?un) (set (sc_handles c)) u"
    "\<And>sl. sy_subs ?un u = Some sl \<Longrightarrow> current_ok (sy_arrs ?un) (set (sc_handles c)) u sl"
    "\<And>v. v \<noteq> u \<Longrightarrow> sy_subs ?un v = sy_subs ?st v" "sy_chans ?un = sy_chans ?st"
    using unsubscribe_arrs [of ?st u "set (sc_handles c)" ch, OF i(3)] by blast+
  obtain chans where cl: "chan_close ch (sy_chans ?st) = Inr chans" and st': "st' = ?un\<lparr>sy_chans := chans\<rparr>"
    using Inr un(4) by (auto simp: cleanup_sub_def Let_def split: sum.splits)
  have chans: "chans = (sy_chans ?st)[ch := (sy_chans ?st ! ch)\<lparr>ch_closed := True\<rparr>]"
    using cl by (simp add: chan_close_def split: if_splits)
  have buf: "length (ch_buf x) \<le> chan_buffer" if "x \<in> set chans" for x
  proof (cases "ch < length (sy_chans ?st)")
    case True
    have "x \<in> set (sy_chans ?st) \<or> x = (sy_chans ?st ! ch)\<lparr>ch_closed := True\<rparr>"
      using that set_update_subset_insert unfolding chans by fastforce
    then show ?thesis using i(6) True by auto
  qed (use that i(6) chans in \<open>simp add: list_update_beyond\<close>)
  have c': "do_cleanup u ch c = c\<lparr>sc_st := st', sc_done := ch # sc_done c\<rparr>"
    using Inr by (simp add: do_cleanup_def)
  show ?thesis unfolding c'
  proof (rule conc_invI, goal_cases)
    case 1 show ?case using i(1) by (simp add: st' chans)
  next
    case (2 v sl)
    then show ?case using un(2) un(3) current_ok_other [OF un(1) subset_refl i(2) i(3)]
      by (cases "v = u") (simp_all add: st')
  next
    case (3 nf sl)
    then show ?case using slice_ok_step [OF un(1) subset_refl i(2) i(4)] by (simp add: st')
  next
    case (4 x v e) then show ?case using i(5) by simp
  next
    case (5 x) then show ?case using buf by (simp add: st')
  qed
qed

lemma conc_inv_start: "conc_inv c \<Longrightarrow> conc_inv (do_start u evt c)"
  unfolding conc_inv_def do_start_def by (auto simp: current_ok_def)

lemma try_send_Inr:
  assumes "try_send el evt chans = Inr chans'"
  shows "length chans' = length chans"
    and "\<And>x. \<forall>y \<in> set chans. length (ch_buf y) \<le> chan_buffer \<Longrightarrow> x \<in> set chans' \<Longrightarrow> length (ch_buf x) \<le> chan_buffer"
    and "chans' \<noteq> chans \<Longrightarrow> \<exists>ch. el = Some ch"
proof -
  consider "chans' = chans" | ch where "el = Some ch" "length (ch_buf (chans ! ch)) < chan_buffer"
      "chans' = chans[ch := (chans ! ch)\<lparr>ch_buf := ch_buf (chans ! ch) @ [evt]\<rparr>]"
    using assms unfolding try_send_def by (auto split: option.splits if_splits)
  then have "length chans' = length chans \<and> (chans' \<noteq> chans \<longrightarrow> (\<exists>ch. el = Some ch)) \<and>
    ((\<forall>y \<in> set chans. length (ch_buf y) \<le> chan_buffer) \<longrightarrow> (\<forall>x \<in> set chans'. length (ch_buf x) \<le> chan_buffer))"
  proof cases
    case 2
    have "set chans' \<subseteq> insert ((chans ! ch)\<lparr>ch_buf := ch_buf (chans ! ch) @ [evt]\<rparr>) (set chans)"
      unfolding 2(3) by (rule set_update_subset_insert)
    then show ?thesis using 2 by (simp, fastforce)
  qed simp
  then show "length chans' = length chans"
    and "\<And>x. \<forall>y \<in> set chans. length (ch_buf y) \<le> chan_buffer \<Longrightarrow> x \<in> set chans' \<Longrightarrow> length (ch_buf x) \<le> chan_buffer"
    and "chans' \<noteq> chans \<Longrightarrow> \<exists>ch. el = Some ch"
    by blast+
qed

lemma conc_inv_send:
  assumes "conc_inv c" and "j < length (sc_run c)"
    and "nf_i (sc_run c ! j) < slice_len (nf_slice (sc_run c ! j))"
  shows "conc_inv (do_send j c)"
proof -
  note i = conc_invD [OF assms(1)]
  let ?nf = "sc_run c ! j"
  obtain sl where sl: "nf_slice ?nf = Some sl" "nf_i ?nf < sl_len sl"
    using assms(3) by (auto simp: slice_len_def split: option.splits)
  define el where "el = sy_arrs (sc_st c) ! sl_arr sl ! nf_i ?nf"
  have mem: "?nf \<in> set (sc_run c)" using assms(2) by simp
  have ok: "slice_ok (sy_arrs (sc_st c)) (set (sc_handles c)) (nf_user ?nf) sl" by (rule i(4) [OF mem sl(1)])
  have el: "(nf_user ?nf, ch) \<in> set (sc_handles c)" if "el = Some ch" for ch
    using ok sl(2) that unfolding slice_ok_def owned_def el_def by (metis nth_mem order_less_le_trans)
  show ?thesis
  proof (cases "try_send el (nf_evt ?nf) (sy_chans (sc_st c))")
    case (Inl e)
    then have "do_send j c = c\<lparr>sc_panic := True\<rparr>" by (simp add: do_send_def Let_def sl(1) el_def)
    then show ?thesis using assms(1) by (simp add: conc_inv_def)
  next
    case (Inr chans)
    let ?log = "if chans = sy_chans (sc_st c) then [] else [(the el, nf_user ?nf, nf_evt ?nf)]"
    have c': "do_send j c = c\<lparr>sc_st := (sc_st c)\<lparr>sy_chans := chans\<rparr>,
        sc_run := (sc_run c)[j := ?nf\<lparr>nf_i := Suc (nf_i ?nf)\<rparr>], sc_log := sc_log c @ ?log\<rparr>"
      using Inr by (simp add: do_send_def Let_def sl(1) el_def)
    note ts = try_send_Inr [OF Inr]
    show ?thesis unfolding c'
    proof (rule conc_invI, goal_cases)
      case 1 show ?case using i(1) ts(1) by simp
    next
      case (2 u s) then show ?case using i(3) by simp
    next
      case (3 nf s)
      then have "nf \<in> set (sc_run c) \<or> nf = ?nf\<lparr>nf_i := Suc (nf_i ?nf)\<rparr>"
        using set_update_subset_insert by fastforce
      then show ?case using 3(2) i(4) mem by auto
    next
      case (4 ch u e)
      then show ?case using i(5) ts(3) el by (auto split: if_splits)
    next
      case (5 ch)
      then show ?case using ts(2) [of ch] i(6) by simp
    qed
  qed
qed

lemma conc_inv_recv:
  assumes "conc_inv c" and "chan_recv ch (sc_st c) = Some (e, st')"
  shows "conc_inv (c\<lparr>sc_st := st'\<rparr>)"
proof -
  note i = conc_invD [OF assms(1)]
  obtain es where buf: "ch_buf (sy_chans (sc_st c) ! ch) = e # es"
    and st': "st' = (sc_st c)\<lparr>sy_chans := (sy_chans (sc_st c))[ch := (sy_chans (sc_st c) ! ch)\<lparr>ch_buf := es\<rparr>]\<rparr>"
    using assms(2) by (auto simp: chan_recv_def split: list.splits)
  have "length (ch_buf x) \<le> chan_buffer" if "x \<in> set (sy_chans st')" for x
  proof (cases "ch < length (sy_chans (sc_st c))")
    case True
    have "length (ch_buf (sy_chans (sc_st c) ! ch)) \<le> chan_buffer" using i(6) True by simp
    then have "length es \<le> chan_buffer" using buf by simp
    moreover have "x \<in> set (sy_chans (sc_st c)) \<or> x = (sy_chans (sc_st c) ! ch)\<lparr>ch_buf := es\<rparr>"
      using that set_update_subset_insert unfolding st' by fastforce
    ultimately show ?thesis using i(6) by auto
  qed (use that i(6) st' in \<open>simp add: list_update_beyond\<close>)
  then show ?thesis using assms(1) unfolding conc_inv_def st' by simp
qed

lemma conc_inv_step: "sync_step grow c c' \<Longrightarrow> conc_inv c \<Longrightarrow> conc_inv c'"
  by (erule sync_stepE)
    (simp_all add: conc_inv_subscribe conc_inv_cleanup conc_inv_start conc_inv_send conc_inv_recv)

lemma conc_inv_init [simp]: "conc_inv sync_init"
  by (simp add: conc_inv_def sync_init_def NewSyncService_def)

lemma conc_inv_reach: "syncts.reach grow c \<Longrightarrow> conc_inv c"
  by (rule syncts.reach_invariant) (auto intro: conc_inv_step)

section \<open>Properties\<close>

text \<open>
  C8. In every interleaving of subscriptions, cleanups, notifications and receives, an event
  that a channel accepted came from a notification for the user the channel was created for,
  and for no other user, and no channel buffers more than 32 events.
\<close>

theorem sync_isolated:
  assumes "syncts.reach grow c"
  shows "(\<forall>(ch, u, e) \<in> set (sc_log c). \<forall>v. (v, ch) \<in> set (sc_handles c) \<longleftrightarrow> v = u) \<and>
    (\<forall>ch \<in> set (sy_chans (sc_st c)). length (ch_buf ch) \<le> 32)"
proof -
  note i = conc_invD [OF conc_inv_reach [OF assms]]
  have "v = u" if "(u, ch) \<in> set (sc_handles c)" "(v, ch) \<in> set (sc_handles c)" for u v ch
    using i(2) that by (metis distinct_map inj_onD prod.inject snd_conv)
  then have "\<forall>(ch, u, e) \<in> set (sc_log c). \<forall>v. (v, ch) \<in> set (sc_handles c) \<longleftrightarrow> v = u"
    using i(5) by blast
  moreover have "\<forall>ch \<in> set (sy_chans (sc_st c)). length (ch_buf ch) \<le> 32"
    using i(6) by (simp add: chan_buffer_def)
  ultimately show ?thesis by blast
qed

definition demo_evt :: SyncEvent where
  "demo_evt = \<lparr>se_Type = ''delete'', se_Item = None, se_DeletedID = ''k''\<rparr>"

definition demo_two :: sync_conf where
  "demo_two = do_send 0 (do_start ''a'' demo_evt (do_subscribe Suc ''b'' (do_subscribe Suc ''a'' sync_init)))"

lemmas conc_defs = do_send_def do_start_def do_subscribe_def do_cleanup_def SyncService_Subscribe_def
  append_chan_def sync_init_def NewSyncService_def try_send_def chan_buffer_def slice_len_def
  cleanup_sub_def unsubscribe_def chan_close_def remove_at_def Let_def

lemma demo_two_reach: "syncts.reach Suc demo_two"
proof -
  let ?c1 = "do_subscribe Suc ''a'' sync_init"
  let ?c2 = "do_subscribe Suc ''b'' ?c1"
  let ?c3 = "do_start ''a'' demo_evt ?c2"
  have "syncts.reach Suc sync_init" by (simp add: syncts.reach_init)
  then have "syncts.reach Suc ?c1" by (rule syncts.reach_step) (simp add: step_subscribe sync_init_def)
  then have "syncts.reach Suc ?c2" by (rule syncts.reach_step) (rule step_subscribe, simp add: conc_defs)
  then have "syncts.reach Suc ?c3" by (rule syncts.reach_step) (rule step_start, simp add: conc_defs)
  then show ?thesis unfolding demo_two_def
    by (rule syncts.reach_step) (rule step_send, simp_all add: conc_defs)
qed

theorem sync_isolated_witness:
  "sc_log demo_two = [(0, ''a'', demo_evt)] \<and> (''b'', 0) \<notin> set (sc_handles demo_two) \<and>
   length (ch_buf (sy_chans (sc_st demo_two) ! 0)) \<le> 32"
proof -
  have log: "sc_log demo_two = [(0, ''a'', demo_evt)]" by (simp add: demo_two_def conc_defs)
  have ch: "sy_chans (sc_st demo_two) ! 0 \<in> set (sy_chans (sc_st demo_two))" by (simp add: demo_two_def conc_defs)
  show ?thesis using sync_isolated [OF demo_two_reach] log ch by simp
qed

text \<open>
  C16. When the operations do not overlap, \<^verbatim>\<open>notify\<close> returns without a panic and appends
  the event, once and at the end, to the buffer of exactly those subscribers of the user
  whose buffer is not full; all other channels and all subscriptions are untouched.
\<close>

theorem notify_delivers:
  assumes "sync_inv st"
  shows "\<exists>st'. notify u evt st = Inr st' \<and> sync_inv st' \<and> slots st' = slots st \<and>
    length (sy_chans st') = length (sy_chans st) \<and>
    (\<forall>i < length (sy_chans st). sy_chans st' ! i =
       (if Some i \<in> set (slots st u) \<and> length (ch_buf (sy_chans st ! i)) < 32
        then (sy_chans st ! i)\<lparr>ch_buf := ch_buf (sy_chans st ! i) @ [evt]\<rparr> else sy_chans st ! i))"
proof -
  let ?st' = "st\<lparr>sy_chans := deliver (map the (slots st u)) evt (sy_chans st)\<rparr>"
  have run: "notify u evt st = Inr ?st'" by (rule notify_deliver [OF assms])
  have inv: "sync_inv ?st'" using sync_inv_notify [OF assms run] by simp
  have mem: "i \<in> set (map the (slots st u)) \<longleftrightarrow> Some i \<in> set (slots st u)" for i
  proof -
    have "set (slots st u) = Some ` set (map the (slots st u))"
      using arg_cong [OF slots_Some [OF inv_live [OF assms], of u], of set] unfolding list.set_map [of Some] .
    then show ?thesis by blast
  qed
  have ch': "sy_chans ?st' = deliver (map the (slots st u)) evt (sy_chans st)" by simp
  show ?thesis
  proof (intro exI [of _ ?st'] conjI allI impI)
    fix i assume "i < length (sy_chans st)"
    then show "sy_chans ?st' ! i =
       (if Some i \<in> set (slots st u) \<and> length (ch_buf (sy_chans st ! i)) < 32
        then (sy_chans st ! i)\<lparr>ch_buf := ch_buf (sy_chans st ! i) @ [evt]\<rparr> else sy_chans st ! i)"
      unfolding ch' by (simp only: nth_deliver mem chan_buffer_def)
  qed (use run inv in simp_all)
qed

definition demo_sub :: SyncService where
  "demo_sub = snd (SyncService_Subscribe Suc ''b'' (snd (SyncService_Subscribe Suc ''a'' NewSyncService)))"

lemma demo_sub_inv: "sync_inv demo_sub"
  unfolding demo_sub_def by (metis prod.collapse sync_inv_Subscribe sync_inv_new)

theorem notify_delivers_witness:
  "\<exists>st'. notify ''a'' demo_evt demo_sub = Inr st' \<and> sync_inv st' \<and>
     ch_buf (sy_chans st' ! 0) = [demo_evt] \<and> ch_buf (sy_chans st' ! 1) = []"
proof -
  have d: "length (sy_chans demo_sub) = 2" "ch_buf (sy_chans demo_sub ! 0) = []" "ch_buf (sy_chans demo_sub ! 1) = []"
    "slots demo_sub ''a'' = [Some 0]"
    by (simp_all add: demo_sub_def conc_defs slots_def)
  show ?thesis using notify_delivers [OF demo_sub_inv, of "''a''" demo_evt] d by auto
qed

text \<open>
  A subscription and its cleanup, without overlap: the new channel is the last
  subscriber of its user, and the cleanup, whatever was sent in between, does not panic,
  restores the subscriber lists of all users and closes exactly that channel.
\<close>

theorem subscribe_cleanup:
  assumes "sync_inv st" and "SyncService_Subscribe grow u st = (ch, st1)" and "notify v evt st1 = Inr st2"
  shows "slots st1 u = slots st u @ [Some ch] \<and>
    (\<exists>st3. cleanup_sub u ch st2 = Inr st3 \<and> sync_inv st3 \<and> slots st3 = slots st \<and>
       (\<forall>i < length (sy_chans st3). ch_closed (sy_chans st3 ! i) \<longleftrightarrow> i = ch \<or> ch_closed (sy_chans st2 ! i)))"
proof -
  note sub = Subscribe_spec [OF assms(1,2)]
  have inv1: "sync_inv st1" by (rule sync_inv_Subscribe [OF assms(1,2)])
  have inv2: "sync_inv st2" using sync_inv_notify [OF inv1 assms(3)] by simp
  have slots2: "slots st2 = slots st1"
    using notify_deliver [OF inv1, of v evt] assms(3) by auto
  have fresh: "Some ch \<notin> set (slots st u)"
    using inv_live [OF assms(1), of u] sub(4) unfolding live_slots_def by blast
  obtain st3 where st3: "cleanup_sub u ch st2 = Inr st3" "sync_inv st3"
    "slots st3 u = remove1 (Some ch) (slots st2 u)" "\<forall>w. w \<noteq> u \<longrightarrow> slots st3 w = slots st2 w"
    "sy_chans st3 = (sy_chans st2)[ch := (sy_chans st2 ! ch)\<lparr>ch_closed := True\<rparr>]"
    using cleanup_spec [OF inv2, of ch u] slots2 sub(1) by auto
  have "slots st3 w = slots st w" for w
    using st3(3,4) slots2 sub(1,2) fresh by (cases "w = u") (simp_all add: remove1_append)
  then have "slots st3 = slots st" by blast
  moreover have "\<forall>i < length (sy_chans st3). ch_closed (sy_chans st3 ! i) \<longleftrightarrow> i = ch \<or> ch_closed (sy_chans st2 ! i)"
  proof (intro allI impI)
    fix i assume "i < length (sy_chans st3)"
    then show "ch_closed (sy_chans st3 ! i) \<longleftrightarrow> i = ch \<or> ch_closed (sy_chans st2 ! i)"
      unfolding st3(5) by (cases "i = ch") simp_all
  qed
  ultimately show ?thesis using st3(1,2) sub(1) by blast
qed

theorem subscribe_cleanup_witness:
  "\<exists>st1 st2 st3. SyncService_Subscribe Suc ''a'' demo_sub = (2, st1) \<and> notify ''a'' demo_evt st1 = Inr st2 \<and>
    slots st1 ''a'' = slots demo_sub ''a'' @ [Some 2] \<and>
    cleanup_sub ''a'' 2 st2 = Inr st3 \<and> sync_inv st3 \<and> slots st3 = slots demo_sub"
proof -
  obtain st1 where 1: "SyncService_Subscribe Suc ''a'' demo_sub = (2, st1)"
    by (simp add: demo_sub_def conc_defs numeral_2_eq_2)
  obtain st2 where 2: "notify ''a'' demo_evt st1 = Inr st2"
    using notify_deliver [OF sync_inv_Subscribe [OF demo_sub_inv 1]] by blast
  show ?thesis using 1 2 subscribe_cleanup [OF demo_sub_inv 1 2] by blast
qed

text \<open>
  The promise of the sequential service does not survive concurrency: a cleanup between
  the snapshot and the send makes \<^verbatim>\<open>notify\<close> send on a closed channel, and the process
  panics, whatever the growth policy of slices.
\<close>

theorem notify_races_with_cleanup: "\<exists>c. syncts.reach grow c \<and> sc_panic c"
proof -
  let ?c1 = "do_subscribe grow ''a'' sync_init"
  let ?c2 = "do_start ''a'' demo_evt ?c1"
  let ?c3 = "do_cleanup ''a'' 0 ?c2"
  have "syncts.reach grow sync_init" by (simp add: syncts.reach_init)
  then have "syncts.reach grow ?c1" by (rule syncts.reach_step) (simp add: step_subscribe sync_init_def)
  then have "syncts.reach grow ?c2" by (rule syncts.reach_step) (rule step_start, simp add: conc_defs)
  then have "syncts.reach grow ?c3" by (rule syncts.reach_step) (rule step_cleanup, simp_all add: conc_defs)
  then have "syncts.reach grow (do_send 0 ?c3)"
    by (rule syncts.reach_step) (rule step_send, simp_all add: conc_defs)
  moreover have "sc_panic (do_send 0 ?c3)" by (simp add: conc_defs)
  ultimately show ?thesis by blast
qed

end
