(* ===== verification/Jwt.thy ===== *)
theory Jwt
  imports Prelude
begin

text \<open>
  Token issuance and validation of \<^verbatim>\<open>src/internal/shared/jwt/jwt.go\<close>.

  The signing library (golang-jwt) is the parameter record \<open>jwt_lib\<close>: \<open>SignedString\<close>
  signs claims with HS256, \<open>ParseWithClaims\<close> checks a token at a given time, asking the
  key function for the key of the token's signing method. What the code relies on is the
  predicate \<open>jwt_contract\<close>. A \<^verbatim>\<open>NumericDate\<close> has a precision of one second and is
  the number of seconds since the epoch.

  \<^verbatim>\<open>jwt.RegisteredClaims\<close> is embedded in \<^verbatim>\<open>Claims\<close> and the \<^verbatim>\<open>mfa\<close> member is
  \<^verbatim>\<open>omitempty\<close>: the JSON text of registered claims alone is the text of \<^verbatim>\<open>Claims\<close>
  with \<^verbatim>\<open>MFAVerified\<close> false, and one record serves both token kinds.
\<close>

record Claims =
  c_Subject :: string
  c_IssuedAt :: int
  c_ExpiresAt :: int
  c_MFAVerified :: bool

datatype signing_method = HMAC | OtherMethod string

datatype jwt_error = JwtExpired | JwtOther

record jwt_lib =
  jl_SignedString :: "bytes \<Rightarrow> Claims \<Rightarrow> string result"
  jl_ParseWithClaims :: "time \<Rightarrow> string \<Rightarrow> (signing_method \<Rightarrow> bytes result) \<Rightarrow> jwt_error + Claims"

text \<open>
  The documented behaviour: a token signed with a key is accepted with that key before its
  expiry and reported as expired from then on; nothing else is accepted when only HMAC
  methods get a key.
\<close>

definition jwt_contract :: "jwt_lib \<Rightarrow> bytes \<Rightarrow> bool" where
  "jwt_contract L key \<longleftrightarrow>
     (\<forall>c tok now kf. jl_SignedString L key c = Inr tok \<longrightarrow> kf HMAC = Inr key \<longrightarrow>
        jl_ParseWithClaims L now tok kf =
          (if now < c_ExpiresAt c * second then Inr c else Inl JwtExpired)) \<and>
     (\<forall>c tok now kf. jl_ParseWithClaims L now tok kf = Inr c \<longrightarrow>
        kf HMAC = Inr key \<longrightarrow> (\<forall>m. m \<noteq> HMAC \<longrightarrow> (\<exists>e. kf m = Inl e)) \<longrightarrow>
        jl_SignedString L key c = Inr tok)"

record jwt_Config =
  jc_Secret :: bytes
  jc_AccessTokenTTL :: time
  jc_RefreshTokenTTL :: time

definition DefaultConfig :: "bytes \<Rightarrow> jwt_Config" where
  "DefaultConfig secret = \<lparr>jc_Secret = secret, jc_AccessTokenTTL = 15 * minute,
     jc_RefreshTokenTTL = 30 * 24 * hour\<rparr>"

definition NewNumericDate :: "time \<Rightarrow> int" where
  "NewNumericDate t = t div second"

text \<open>The two readings of the clock in an issuing function are \<open>t1\<close> and \<open>t2\<close>.\<close>

definition IssueAccessToken :: "jwt_lib \<Rightarrow> jwt_Config \<Rightarrow> time \<Rightarrow> time \<Rightarrow> string \<Rightarrow> bool \<Rightarrow> string result" where
  "IssueAccessToken L cfg t1 t2 userID mfaVerified =
     jl_SignedString L (jc_Secret cfg)
       \<lparr>c_Subject = userID, c_IssuedAt = NewNumericDate t1,
        c_ExpiresAt = NewNumericDate (t2 + jc_AccessTokenTTL cfg), c_MFAVerified = mfaVerified\<rparr>"

definition IssueRefreshToken :: "jwt_lib \<Rightarrow> jwt_Config \<Rightarrow> time \<Rightarrow> time \<Rightarrow> string \<Rightarrow> string result" where
  "IssueRefreshToken L cfg t1 t2 userID =
     jl_SignedString L (jc_Secret cfg)
       \<lparr>c_Subject = userID, c_IssuedAt = NewNumericDate t1,
        c_ExpiresAt = NewNumericDate (t2 + jc_RefreshTokenTTL cfg), c_MFAVerified = False\<rparr>"

definition hmac_key :: "jwt_Config \<Rightarrow> signing_method \<Rightarrow> bytes result" where
  "hmac_key cfg m = (case m of HMAC \<Rightarrow> Inr (jc_Secret cfg)
     | OtherMethod alg \<Rightarrow> Inl (ErrText (''unexpected signing method: '' @ alg)))"

lemma hmac_key_simps [simp]: "hmac_key cfg HMAC = Inr (jc_Secret cfg)"
  "m \<noteq> HMAC \<Longrightarrow> \<exists>e. hmac_key cfg m = Inl e"
  by (cases m; simp add: hmac_key_def)+

text \<open>
  A token the library returns without an error has the claims type it was asked for and is
  marked valid, so the second check of both parsers never fails.
\<close>

definition ParseAccessToken :: "jwt_lib \<Rightarrow> jwt_Config \<Rightarrow> time \<Rightarrow> string \<Rightarrow> Claims result" where
  "ParseAccessToken L cfg now tokenStr =
     (case jl_ParseWithClaims L now tokenStr (hmac_key cfg) of
        Inl JwtExpired \<Rightarrow> Inl (Sentinel ErrTokenExpired)
      | Inl JwtOther \<Rightarrow> Inl (Sentinel ErrTokenInvalid)
      | Inr claims \<Rightarrow> Inr claims)"

definition ParseRefreshToken :: "jwt_lib \<Rightarrow> jwt_Config \<Rightarrow> time \<Rightarrow> string \<Rightarrow> string result" where
  "ParseRefreshToken L cfg now tokenStr =
     (case jl_ParseWithClaims L now tokenStr (hmac_key cfg) of
        Inl JwtExpired \<Rightarrow> Inl (Sentinel ErrTokenExpired)
      | Inl JwtOther \<Rightarrow> Inl (Sentinel ErrTokenInvalid)
      | Inr claims \<Rightarrow> Inr (c_Subject claims))"

section \<open>What a token proves\<close>

lemma parse_signed:
  assumes "jwt_contract L key" and "jl_SignedString L key c = Inr tok" and "kf HMAC = Inr key"
  shows "jl_ParseWithClaims L now tok kf =
    (if now < c_ExpiresAt c * second then Inr c else Inl JwtExpired)"
proof -
  have "\<forall>c tok now kf. jl_SignedString L key c = Inr tok \<longrightarrow> kf HMAC = Inr key \<longrightarrow>
        jl_ParseWithClaims L now tok kf =
          (if now < c_ExpiresAt c * second then Inr c else Inl JwtExpired)"
    using assms(1) unfolding jwt_contract_def by (rule conjunct1)
  then show ?thesis using assms(2,3) by blast
qed

lemma parse_sound:
  assumes "jwt_contract L (jc_Secret cfg)" and "jl_ParseWithClaims L now tok (hmac_key cfg) = Inr c"
  shows "jl_SignedString L (jc_Secret cfg) c = Inr tok"
proof -
  have "\<forall>c tok now kf. jl_ParseWithClaims L now tok kf = Inr c \<longrightarrow>
        kf HMAC = Inr (jc_Secret cfg) \<longrightarrow> (\<forall>m. m \<noteq> HMAC \<longrightarrow> (\<exists>e. kf m = Inl e)) \<longrightarrow>
        jl_SignedString L (jc_Secret cfg) c = Inr tok"
    using assms(1) unfolding jwt_contract_def by (rule conjunct2)
  moreover have "\<forall>m. m \<noteq> HMAC \<longrightarrow> (\<exists>e. hmac_key cfg m = Inl e)" by simp
  moreover have "hmac_key cfg HMAC = Inr (jc_Secret cfg)" by simp
  ultimately show ?thesis using assms(2) by blast
qed

lemma ParseAccessToken_signed:
  assumes "jwt_contract L (jc_Secret cfg)" and "jl_SignedString L (jc_Secret cfg) c = Inr tok"
  shows "ParseAccessToken L cfg now tok =
    (if now < c_ExpiresAt c * second then Inr c else Inl (Sentinel ErrTokenExpired))"
  using parse_signed [OF assms, of "hmac_key cfg"] by (simp add: ParseAccessToken_def)

lemma ParseAccessToken_Inr:
  assumes "jwt_contract L (jc_Secret cfg)" and "ParseAccessToken L cfg now tok = Inr c"
  shows "jl_SignedString L (jc_Secret cfg) c = Inr tok" and "now < c_ExpiresAt c * second"
proof -
  have "jl_ParseWithClaims L now tok (hmac_key cfg) = Inr c"
    using assms(2) by (simp add: ParseAccessToken_def split: sum.splits jwt_error.splits)
  then show signed: "jl_SignedString L (jc_Secret cfg) c = Inr tok" by (rule parse_sound [OF assms(1)])
  show "now < c_ExpiresAt c * second"
    using ParseAccessToken_signed [OF assms(1) signed] assms(2) by (metis sum.distinct(1))
qed

text \<open>Every token is issued through \<open>SignedString\<close>; with one key a token determines its claims.\<close>

lemma signed_inject:
  assumes "jwt_contract L key" and "jl_SignedString L key c = Inr tok" and "jl_SignedString L key c' = Inr tok"
  shows "c = c'"
proof -
  obtain now where "now < c_ExpiresAt c * second" "now < c_ExpiresAt c' * second"
    by (metis lt_ex min_less_iff_conj)
  then show ?thesis
    using parse_signed [OF assms(1,2), of "\<lambda>_. Inr key" now]
      parse_signed [OF assms(1,3), of "\<lambda>_. Inr key" now] by simp
qed

lemma before_numeric_date: "now < NewNumericDate t * second \<Longrightarrow> now < t"
proof -
  assume "now < NewNumericDate t * second"
  moreover have "t div second * second + t mod second = t" by (rule div_mult_mod_eq)
  moreover have "0 \<le> t mod second" by simp
  ultimately show "now < t" unfolding NewNumericDate_def by linarith
qed

lemma numeric_date_later: "now + second \<le> t \<Longrightarrow> now < NewNumericDate t * second"
proof -
  assume "now + second \<le> t"
  moreover have "t div second * second + t mod second = t" by (rule div_mult_mod_eq)
  moreover have "t mod second < second" by simp
  ultimately show "now < NewNumericDate t * second" unfolding NewNumericDate_def by linarith
qed

section \<open>A concrete library\<close>

text \<open>
  A signing library that meets the contract, for the witnesses: a token spells the key and
  the claims, and is accepted when it is the token of the claims it spells.
\<close>

fun demo_field :: "string \<Rightarrow> string" where
  "demo_field [] = ''.''"
| "demo_field (c # cs) = CHR ''x'' # c # demo_field cs"

fun demo_unfield :: "string \<Rightarrow> (string \<times> string) option" where
  "demo_unfield [] = None"
| "demo_unfield [c] = (if c = CHR ''.'' then Some ([], []) else None)"
| "demo_unfield (c # d # ds) = (if c = CHR ''.'' then Some ([], d # ds)
     else map_option (\<lambda>(f, r). (d # f, r)) (demo_unfield ds))"

lemma demo_unfield_field [simp]: "demo_unfield (demo_field s @ r) = Some (s, r)"
proof (induction s)
  case Nil
  show ?case by (cases r) auto
qed simp

definition demo_num :: "int \<Rightarrow> string" where
  "demo_num i = (if i < 0 then CHR ''-'' # itoa (nat (- i)) else CHR ''+'' # itoa (nat i))"

definition demo_unnum :: "string \<Rightarrow> int" where
  "demo_unnum s = (if hd s = CHR ''-'' then - int (atoi (tl s)) else int (atoi (tl s)))"

lemma demo_unnum_num [simp]: "demo_unnum (demo_num i) = i"
  by (simp add: demo_num_def demo_unnum_def)

definition demo_tok :: "bytes \<Rightarrow> Claims \<Rightarrow> string" where
  "demo_tok key c = demo_field key @ demo_field (c_Subject c) @ demo_field (demo_num (c_IssuedAt c)) @
     demo_field (demo_num (c_ExpiresAt c)) @ [if c_MFAVerified c then CHR ''m'' else CHR ''-'']"

definition demo_sign :: "bytes \<Rightarrow> Claims \<Rightarrow> string result" where
  "demo_sign key c = Inr (demo_tok key c)"

definition demo_claims :: "string \<Rightarrow> (string \<times> Claims) option" where
  "demo_claims tok =
     Option.bind (demo_unfield tok) (\<lambda>(key, r1). Option.bind (demo_unfield r1) (\<lambda>(sub, r2).
     Option.bind (demo_unfield r2) (\<lambda>(iat, r3). Option.bind (demo_unfield r3) (\<lambda>(exp, r4).
       Some (key, \<lparr>c_Subject = sub, c_IssuedAt = demo_unnum iat, c_ExpiresAt = demo_unnum exp,
                   c_MFAVerified = (r4 = ''m'')\<rparr>)))))"

definition demo_parse :: "time \<Rightarrow> string \<Rightarrow> (signing_method \<Rightarrow> bytes result) \<Rightarrow> jwt_error + Claims" where
  "demo_parse now tok kf =
     (case demo_claims tok of None \<Rightarrow> Inl JwtOther
      | Some (key, c) \<Rightarrow>
          if kf HMAC = Inr key \<and> demo_sign key c = Inr tok
          then (if now < c_ExpiresAt c * second then Inr c else Inl JwtExpired)
          else Inl JwtOther)"

definition demo_jwt :: jwt_lib where
  "demo_jwt = \<lparr>jl_SignedString = demo_sign, jl_ParseWithClaims = demo_parse\<rparr>"

lemma demo_claims_tok [simp]: "demo_claims (demo_tok key c) = Some (key, c)"
  by (cases c) (simp add: demo_claims_def demo_tok_def)

lemma demo_parse_tok: "kf HMAC = Inr key \<Longrightarrow> demo_parse now (demo_tok key c) kf =
    (if now < c_ExpiresAt c * second then Inr c else Inl JwtExpired)"
  by (simp add: demo_parse_def demo_sign_def)

lemma demo_parse_Inr: "demo_parse now tok kf = Inr c \<Longrightarrow> kf HMAC = Inr key \<Longrightarrow> demo_sign key c = Inr tok"
  unfolding demo_parse_def by (simp split: option.split_asm prod.split_asm if_split_asm)

lemma demo_jwt_contract [simp]: "jwt_contract demo_jwt key"
  unfolding jwt_contract_def demo_jwt_def jwt_lib.simps
proof (intro conjI allI impI)
  fix c tok now and kf :: "signing_method \<Rightarrow> bytes result"
  assume "demo_sign key c = Inr tok" "kf HMAC = Inr key"
  then show "demo_parse now tok kf = (if now < c_ExpiresAt c * second then Inr c else Inl JwtExpired)"
    using demo_parse_tok by (metis demo_sign_def sum.inject(2))
next
  fix c tok now and kf :: "signing_method \<Rightarrow> bytes result"
  assume "demo_parse now tok kf = Inr c" "kf HMAC = Inr key"
  then show "demo_sign key c = Inr tok" by (rule demo_parse_Inr)
qed

lemma demo_sign_total [simp]: "\<exists>tok. demo_sign key c = Inr tok"
  by (simp add: demo_sign_def)

end
