(* ===== verification/Services.thy ===== *)
theory Services
  imports Jwt SyncSvc
begin

text \<open>
  The business logic of \<^verbatim>\<open>src/internal/server/service\<close> (\<^verbatim>\<open>auth.go\<close>, \<^verbatim>\<open>mfa.go\<close>,
  \<^verbatim>\<open>vault.go\<close>, \<^verbatim>\<open>helpers.go\<close>) and the audit events of
  \<^verbatim>\<open>src/internal/shared/audit/audit.go\<close>, over any provider of the storage interfaces.

  A method takes and returns the \<open>world\<close>: the state of the store, how often the clock and
  the random source were read, and the subscription service. What the code takes from
  outside the repository is the record \<open>svc_env\<close>: the readings of the clock, bcrypt, the
  TOTP library and the token library. A panic of a callee is passed on.
\<close>

record 's world =
  w_store :: 's
  w_clk :: nat
  w_rnd :: nat
  w_sync :: SyncService

record ValidateOpts =
  vo_Period :: nat
  vo_Skew :: nat
  vo_Digits :: nat
  vo_Algorithm :: string

record svc_env =
  ev_clock :: "nat \<Rightarrow> time"
  ev_bcrypt_generate :: "nat \<Rightarrow> bytes \<Rightarrow> nat \<Rightarrow> bytes result"
  ev_bcrypt_compare :: "bytes \<Rightarrow> bytes \<Rightarrow> unit result"
  ev_totp_generate :: "nat \<Rightarrow> string \<Rightarrow> string \<Rightarrow> string \<Rightarrow> (string \<times> string) result"
  ev_totp_validate :: "string \<Rightarrow> string \<Rightarrow> time \<Rightarrow> ValidateOpts \<Rightarrow> bool result"
  ev_jwt :: jwt_lib

text \<open>The request context: incoming metadata, the peer with its address, the user set by the middleware.\<close>

record req_ctx =
  cx_md :: "(string \<times> string list) list option"
  cx_peer :: "string option option"
  cx_user :: "string option"

definition time_Now :: "svc_env \<Rightarrow> 's world \<Rightarrow> time \<times> 's world" where
  "time_Now env w = (ev_clock env (w_clk w), w\<lparr>w_clk := Suc (w_clk w)\<rparr>)"

definition on_store :: "('s \<Rightarrow> 'a \<times> 's) \<Rightarrow> 's world \<Rightarrow> 'a \<times> 's world" where
  "on_store f w = (let (r, s') = f (w_store w) in (r, w\<lparr>w_store := s'\<rparr>))"

lemma on_store_pair: "f (w_store w) = (r, s') \<Longrightarrow> on_store f w = (r, w\<lparr>w_store := s'\<rparr>)"
  by (simp add: on_store_def)

definition fmt_Errorf :: "string \<Rightarrow> err \<Rightarrow> err" where
  "fmt_Errorf m e = (case e of Panic p \<Rightarrow> Panic p | _ \<Rightarrow> Wrapf m e)"

lemma errors_Is_Errorf [simp]: "errors_Is (fmt_Errorf m e) s = errors_Is e s"
  by (cases e) (simp_all add: fmt_Errorf_def)

section \<open>Audit events\<close>

definition ActionRegister :: string where "ActionRegister = ''auth.register''"
definition ActionLogin :: string where "ActionLogin = ''auth.login''"
definition ActionLoginFailed :: string where "ActionLoginFailed = ''auth.login_failed''"
definition ActionLogout :: string where "ActionLogout = ''auth.logout''"
definition ActionRefresh :: string where "ActionRefresh = ''auth.refresh''"
definition ActionMFAEnroll :: string where "ActionMFAEnroll = ''mfa.enroll''"
definition ActionMFAVerify :: string where "ActionMFAVerify = ''mfa.verify''"
definition ActionMFAFailed :: string where "ActionMFAFailed = ''mfa.verify_failed''"
definition ActionVaultCreate :: string where "ActionVaultCreate = ''vault.create''"
definition ActionVaultRead :: string where "ActionVaultRead = ''vault.read''"
definition ActionVaultUpdate :: string where "ActionVaultUpdate = ''vault.update''"
definition ActionVaultDelete :: string where "ActionVaultDelete = ''vault.delete''"
definition ActionVaultList :: string where "ActionVaultList = ''vault.list''"
definition ResultOK :: string where "ResultOK = ''ok''"
definition ResultDenied :: string where "ResultDenied = ''denied''"

definition audit_New :: "svc_env \<Rightarrow> string \<Rightarrow> string \<Rightarrow> string \<Rightarrow> 's world \<Rightarrow> AuditEntry \<times> 's world" where
  "audit_New env userID action res w =
     (let (now, w1) = time_Now env w in
      (AuditEntry_zero\<lparr>ae_UserID := userID, ae_Action := action, ae_Result := res, ae_CreatedAt := now\<rparr>, w1))"

definition svc_peerIP :: "req_ctx \<Rightarrow> string" where
  "svc_peerIP ctx = (case cx_peer ctx of None \<Rightarrow> [] | Some None \<Rightarrow> [] | Some (Some a) \<Rightarrow> a)"

definition append_entry :: "'s Store \<Rightarrow> AuditEntry \<Rightarrow> 's world \<Rightarrow> 's world" where
  "append_entry S e w = snd (on_store (Audit_Append (Store_Audit S) e) w)"

definition AuthService_logAudit ::
  "svc_env \<Rightarrow> 's Store \<Rightarrow> req_ctx \<Rightarrow> string \<Rightarrow> string \<Rightarrow> string \<Rightarrow> 's world \<Rightarrow> 's world" where
  "AuthService_logAudit env S ctx userID action res w =
     (let (e, w1) = audit_New env userID action res w in append_entry S (e\<lparr>ae_IP := svc_peerIP ctx\<rparr>) w1)"

definition MFAService_logAudit ::
  "svc_env \<Rightarrow> 's Store \<Rightarrow> req_ctx \<Rightarrow> string \<Rightarrow> string \<Rightarrow> string \<Rightarrow> 's world \<Rightarrow> 's world" where
  "MFAService_logAudit env S ctx userID action res w =
     (let (e, w1) = audit_New env userID action res w in append_entry S (e\<lparr>ae_IP := svc_peerIP ctx\<rparr>) w1)"

definition VaultService_logAudit ::
  "svc_env \<Rightarrow> 's Store \<Rightarrow> req_ctx \<Rightarrow> string \<Rightarrow> string \<Rightarrow> (string \<times> detail_value) list \<Rightarrow> 's world \<Rightarrow> 's world" where
  "VaultService_logAudit env S ctx userID action detail w =
     (let (e, w1) = audit_New env userID action ResultOK w
      in append_entry S (e\<lparr>ae_IP := svc_peerIP ctx, ae_Detail := Some detail\<rparr>) w1)"

section \<open>Authentication\<close>

record RegisterInput =
  ri_Username :: string
  ri_Email :: string
  ri_Password :: string
  ri_VaultSymKey :: bytes
  ri_KDFParamsJSON :: string

record LoginResult =
  lr_AccessToken :: string
  lr_RefreshToken :: string
  lr_SessionID :: string
  lr_NeedsMFA :: bool
  lr_KDFParamsJSON :: string
  lr_VaultSymKey :: bytes

definition issue_access :: "svc_env \<Rightarrow> jwt_Config \<Rightarrow> string \<Rightarrow> bool \<Rightarrow> 's world \<Rightarrow> string result \<times> 's world" where
  "issue_access env cfg userID mfa w =
     (let (t1, w1) = time_Now env w; (t2, w2) = time_Now env w1
      in (IssueAccessToken (ev_jwt env) cfg t1 t2 userID mfa, w2))"

definition issue_refresh :: "svc_env \<Rightarrow> jwt_Config \<Rightarrow> string \<Rightarrow> 's world \<Rightarrow> string result \<times> 's world" where
  "issue_refresh env cfg userID w =
     (let (t1, w1) = time_Now env w; (t2, w2) = time_Now env w1
      in (IssueRefreshToken (ev_jwt env) cfg t1 t2 userID, w2))"

definition AuthService_Register ::
  "svc_env \<Rightarrow> 's Store \<Rightarrow> req_ctx \<Rightarrow> RegisterInput \<Rightarrow> 's world \<Rightarrow> string result \<times> 's world" where
  "AuthService_Register env S ctx i w =
     (case ev_bcrypt_generate env (w_rnd w) (ri_Password i) 12 of
        Inl e \<Rightarrow> (Inl (fmt_Errorf ''hash password: %w'' e), w\<lparr>w_rnd := Suc (w_rnd w)\<rparr>)
      | Inr hash \<Rightarrow>
          (case on_store (Users_Create (Store_Users S)
                  (User_zero\<lparr>u_Username := ri_Username i, u_Email := ri_Email i, u_PasswordHash := hash,
                     u_VaultSymKey := ri_VaultSymKey i, u_KDFParams := ri_KDFParamsJSON i\<rparr>))
                  (w\<lparr>w_rnd := Suc (w_rnd w)\<rparr>) of
             (Inl e, w1) \<Rightarrow>
               (if errors_Is e ErrConflict then (Inl (Sentinel ErrUserExists), w1)
                else (Inl (fmt_Errorf ''create user: %w'' e), w1))
           | (Inr user, w1) \<Rightarrow>
               (Inr (u_ID user), AuthService_logAudit env S ctx (u_ID user) ActionRegister ResultOK w1)))"

text \<open>
  \<^verbatim>\<open>Login\<close>. The comparison with \<^verbatim>\<open>dummyHash\<close> for an unknown user only takes time: its
  result is discarded.
\<close>

definition session_ttl :: time where
  "session_ttl = 30 * 24 * hour"

definition AuthService_Login ::
  "svc_env \<Rightarrow> 's Store \<Rightarrow> jwt_Config \<Rightarrow> req_ctx \<Rightarrow> string \<Rightarrow> string \<Rightarrow> 's world \<Rightarrow> LoginResult result \<times> 's world" where
  "AuthService_Login env S cfg ctx username password w =
     (case on_store (Users_GetByUsername (Store_Users S) username) w of
        (Inl e, w1) \<Rightarrow>
          (if errors_Is e ErrNotFound then (Inl (Sentinel ErrInvalidCredentials), w1)
           else (Inl (fmt_Errorf ''get user: %w'' e), w1))
      | (Inr user, w1) \<Rightarrow>
          (case ev_bcrypt_compare env (u_PasswordHash user) password of
             Inl _ \<Rightarrow> (Inl (Sentinel ErrInvalidCredentials),
                      AuthService_logAudit env S ctx (u_ID user) ActionLoginFailed ResultDenied w1)
           | Inr _ \<Rightarrow>
               (case issue_refresh env cfg (u_ID user) w1 of
                  (Inl e, w2) \<Rightarrow> (Inl (fmt_Errorf ''issue refresh token: %w'' e), w2)
                | (Inr refreshToken, w2) \<Rightarrow>
                    (let (now, w3) = time_Now env w2 in
                     case on_store (Sessions_Create (Store_Sessions S)
                            (Session_zero\<lparr>s_UserID := u_ID user, s_RefreshToken := refreshToken,
                               s_ExpiresAt := now + session_ttl,
                               s_MFAVerified := \<not> u_MFARequired user\<rparr>)) w3 of
                       (Inl e, w4) \<Rightarrow> (Inl (fmt_Errorf ''create session: %w'' e), w4)
                     | (Inr session, w4) \<Rightarrow>
                         (let res = (\<lambda>tok. \<lparr>lr_AccessToken = tok, lr_RefreshToken = refreshToken,
                                  lr_SessionID = s_ID session, lr_NeedsMFA = u_MFARequired user,
                                  lr_KDFParamsJSON = u_KDFParams user, lr_VaultSymKey = u_VaultSymKey user\<rparr>)
                          in if \<not> u_MFARequired user
                             then (case issue_access env cfg (u_ID user) False w4 of
                                     (Inl e, w5) \<Rightarrow> (Inl (fmt_Errorf ''issue access token: %w'' e), w5)
                                   | (Inr tok, w5) \<Rightarrow>
                                       (Inr (res tok),
                                        AuthService_logAudit env S ctx (u_ID user) ActionLogin ResultOK w5))
                             else (Inr (res []), w4))))))"

definition AuthService_Refresh ::
  "svc_env \<Rightarrow> 's Store \<Rightarrow> jwt_Config \<Rightarrow> req_ctx \<Rightarrow> string \<Rightarrow> 's world \<Rightarrow> string result \<times> 's world" where
  "AuthService_Refresh env S cfg ctx refreshToken w =
     (case on_store (Sessions_GetByRefreshToken (Store_Sessions S) refreshToken) w of
        (Inl _, w1) \<Rightarrow> (Inl (Sentinel ErrInvalidCredentials), w1)
      | (Inr session, w1) \<Rightarrow>
          (let (now, w2) = time_Now env w1 in
           if now > s_ExpiresAt session then (Inl (Sentinel ErrInvalidCredentials), w2)
           else (case issue_access env cfg (s_UserID session) (s_MFAVerified session) w2 of
                   (Inl e, w3) \<Rightarrow> (Inl (fmt_Errorf ''issue access token: %w'' e), w3)
                 | (Inr tok, w3) \<Rightarrow>
                     (Inr tok, AuthService_logAudit env S ctx (s_UserID session) ActionRefresh ResultOK w3))))"

definition AuthService_Logout ::
  "svc_env \<Rightarrow> 's Store \<Rightarrow> req_ctx \<Rightarrow> string \<Rightarrow> string \<Rightarrow> 's world \<Rightarrow> unit result \<times> 's world" where
  "AuthService_Logout env S ctx userID refreshToken w =
     (let (r, w1) = on_store (Sessions_Delete (Store_Sessions S) refreshToken) w
      in (r, AuthService_logAudit env S ctx userID ActionLogout ResultOK w1))"

section \<open>Multi-factor authentication\<close>

record EnrollTOTPResult =
  er_TOTPID :: string
  er_Secret :: string
  er_OTPAuthURL :: string

definition MFAService_EnrollTOTP ::
  "svc_env \<Rightarrow> 's Store \<Rightarrow> string \<Rightarrow> string \<Rightarrow> string \<Rightarrow> 's world \<Rightarrow> EnrollTOTPResult result \<times> 's world" where
  "MFAService_EnrollTOTP env S issuer userID label w =
     (let w0 = w\<lparr>w_rnd := Suc (w_rnd w)\<rparr> in
      case ev_totp_generate env (w_rnd w) issuer label ''SHA1'' of
        Inl e \<Rightarrow> (Inl (fmt_Errorf ''generate totp key: %w'' e), w0)
      | Inr (secret, url) \<Rightarrow>
          (case on_store (MFA_CreateTOTP (Store_MFA S)
                  (TOTPRecord_zero\<lparr>t_UserID := userID, t_Secret := secret, t_Label := label\<rparr>)) w0 of
             (Inl e, w1) \<Rightarrow> (Inl (fmt_Errorf ''store totp: %w'' e), w1)
           | (Inr r, w1) \<Rightarrow> (Inr \<lparr>er_TOTPID = t_ID r, er_Secret = secret, er_OTPAuthURL = url\<rparr>, w1)))"

definition totp_opts :: ValidateOpts where
  "totp_opts = \<lparr>vo_Period = 30, vo_Skew = 1, vo_Digits = 6, vo_Algorithm = ''SHA1''\<rparr>"

definition MFAService_ConfirmTOTP ::
  "svc_env \<Rightarrow> 's Store \<Rightarrow> req_ctx \<Rightarrow> string \<Rightarrow> string \<Rightarrow> string \<Rightarrow> 's world \<Rightarrow> unit result \<times> 's world" where
  "MFAService_ConfirmTOTP env S ctx userID totpID code w =
     (case on_store (MFA_GetTOTPByID (Store_MFA S) totpID userID) w of
        (Inl _, w1) \<Rightarrow> (Inl (Sentinel ErrMFAInvalid), w1)
      | (Inr r, w1) \<Rightarrow>
          (let (now, w2) = time_Now env w1 in
           if ev_totp_validate env code (t_Secret r) now totp_opts \<noteq> Inr True
           then (Inl (Sentinel ErrMFAInvalid), w2)
           else (case on_store (MFA_ConfirmTOTP (Store_MFA S) totpID) w2 of
                   (Inl e, w3) \<Rightarrow> (Inl (fmt_Errorf ''confirm totp: %w'' e), w3)
                 | (Inr _, w3) \<Rightarrow>
                     (case on_store (Users_SetMFARequired (Store_Users S) userID True) w3 of
                        (Inl e, w4) \<Rightarrow> (Inl (fmt_Errorf ''enable mfa: %w'' e), w4)
                      | (Inr _, w4) \<Rightarrow>
                          (Inr (), MFAService_logAudit env S ctx userID ActionMFAEnroll ResultOK w4)))))"

record VerifyMFAInput =
  vm_SessionID :: string
  vm_TOTPCode :: string
  vm_UserID :: string

fun match_totp :: "svc_env \<Rightarrow> string \<Rightarrow> TOTPRecord list \<Rightarrow> 's world \<Rightarrow> bool \<times> 's world" where
  "match_totp env code [] w = (False, w)"
| "match_totp env code (r # rs) w =
     (let (now, w1) = time_Now env w in
      if ev_totp_validate env code (t_Secret r) now totp_opts = Inr True then (True, w1)
      else match_totp env code rs w1)"

definition MFAService_VerifyTOTP ::
  "svc_env \<Rightarrow> 's Store \<Rightarrow> jwt_Config \<Rightarrow> req_ctx \<Rightarrow> VerifyMFAInput \<Rightarrow> 's world \<Rightarrow> (string \<times> string) result \<times> 's world" where
  "MFAService_VerifyTOTP env S cfg ctx i w =
     (case on_store (MFA_ListTOTP (Store_MFA S) (vm_UserID i)) w of
        (Inl e, w1) \<Rightarrow> (Inl (fmt_Errorf ''list totp: %w'' e), w1)
      | (Inr records, w1) \<Rightarrow>
          (let (matched, w2) = match_totp env (vm_TOTPCode i) records w1 in
           if \<not> matched
           then (Inl (Sentinel ErrMFAInvalid),
                 MFAService_logAudit env S ctx (vm_UserID i) ActionMFAFailed ResultDenied w2)
           else (case on_store (Sessions_SetMFAVerified (Store_Sessions S) (vm_SessionID i)) w2 of
                   (Inl e, w3) \<Rightarrow> (Inl (fmt_Errorf ''set mfa verified: %w'' e), w3)
                 | (Inr _, w3) \<Rightarrow>
                     (case issue_refresh env cfg (vm_UserID i) w3 of
                        (Inl e, w4) \<Rightarrow> (Inl e, w4)
                      | (Inr refreshToken, w4) \<Rightarrow>
                          (let (now, w5) = time_Now env w4 in
                           case on_store (Sessions_Create (Store_Sessions S)
                                  (Session_zero\<lparr>s_UserID := vm_UserID i, s_RefreshToken := refreshToken,
                                     s_ExpiresAt := now + session_ttl, s_MFAVerified := True\<rparr>)) w5 of
                             (Inl e, w6) \<Rightarrow> (Inl (fmt_Errorf ''create mfa session: %w'' e), w6)
                           | (Inr _, w6) \<Rightarrow>
                               (case issue_access env cfg (vm_UserID i) True w6 of
                                  (Inl e, w7) \<Rightarrow> (Inl e, w7)
                                | (Inr tok, w7) \<Rightarrow>
                                    (Inr (tok, refreshToken),
                                     MFAService_logAudit env S ctx (vm_UserID i) ActionMFAVerify ResultOK w7)))))))"

end
