(* ===== verification/Middleware.thy ===== *)
theory Middleware
  imports Services
begin

text \<open>
  The gRPC interceptors of \<^verbatim>\<open>src/internal/server/middleware\<close>: token validation
  (\<^verbatim>\<open>auth.go\<close>), the rate limiter of the authentication methods (\<^verbatim>\<open>ratelimit.go\<close>)
  and the request log (\<^verbatim>\<open>logging.go\<close>).

  An RPC ends with a status or a response; \<open>Crash\<close> is the end of the process by a panic,
  which no interceptor recovers. The token bucket of \<^verbatim>\<open>golang.org/x/time/rate\<close> is the
  parameter \<open>rate_lib\<close>, with the state \<^typ>\<open>'l\<close> of one bucket.
\<close>

datatype code = OK | Unauthenticated | ResourceExhausted | AlreadyExists | NotFound | Internal | Unimplemented

datatype rpc_err = StatusErr code string | Crash string

record 'l rate_lib =
  rate_NewLimiter :: "nat \<Rightarrow> nat \<Rightarrow> 'l"
  rate_Allow :: "'l \<Rightarrow> time \<Rightarrow> bool \<times> 'l"

record 'l ipLimiter =
  il_limiter :: 'l
  il_lastSeen :: time

record 'l RateLimiter =
  rl_limiters :: "string \<Rightarrow> 'l ipLimiter option"
  rl_r :: nat
  rl_b :: nat

record rpc_log =
  lg_method :: string
  lg_code :: code

record ('s, 'l) server =
  sv_world :: "'s world"
  sv_rl :: "'l RateLimiter"
  sv_log :: "rpc_log list"

type_synonym ('s, 'l, 'q, 'p) handler =
  "req_ctx \<Rightarrow> 'q \<Rightarrow> ('s, 'l) server \<Rightarrow> (rpc_err + 'p) \<times> ('s, 'l) server"

definition on_world :: "('s world \<Rightarrow> 'a \<times> 's world) \<Rightarrow> ('s, 'l) server \<Rightarrow> 'a \<times> ('s, 'l) server" where
  "on_world f sv = (let (r, w') = f (sv_world sv) in (r, sv\<lparr>sv_world := w'\<rparr>))"

definition server_Now :: "svc_env \<Rightarrow> ('s, 'l) server \<Rightarrow> time \<times> ('s, 'l) server" where
  "server_Now env = on_world (time_Now env)"

section \<open>Token validation\<close>

definition publicMethods :: "string list" where
  "publicMethods = [''/auth.AuthService/Register'', ''/auth.AuthService/Login'',
     ''/auth.AuthService/Refresh'', ''/auth.AuthService/VerifyMFA'']"

text \<open>Metadata keys are stored in lower case; a missing key reads as no values.\<close>

definition md_Get :: "(string \<times> string list) list \<Rightarrow> string \<Rightarrow> string list" where
  "md_Get md k = (case map_of md k of None \<Rightarrow> [] | Some vs \<Rightarrow> vs)"

fun err_text :: "err \<Rightarrow> string" where
  "err_text (Sentinel ErrTokenExpired) = ''token expired''"
| "err_text (Sentinel ErrTokenInvalid) = ''token invalid''"
| "err_text _ = ''''"

definition extractAndValidate ::
  "svc_env \<Rightarrow> jwt_Config \<Rightarrow> req_ctx \<Rightarrow> ('s, 'l) server \<Rightarrow> (rpc_err + req_ctx) \<times> ('s, 'l) server" where
  "extractAndValidate env cfg ctx sv =
     (case cx_md ctx of
        None \<Rightarrow> (Inl (StatusErr Unauthenticated ''missing metadata''), sv)
      | Some md \<Rightarrow>
          (case md_Get md ''authorization'' of
             [] \<Rightarrow> (Inl (StatusErr Unauthenticated ''missing authorization header''), sv)
           | v # _ \<Rightarrow>
               (let (now, sv1) = server_Now env sv in
                case ParseAccessToken (ev_jwt env) cfg now (strings_TrimPrefix v ''Bearer '') of
                  Inl e \<Rightarrow> (Inl (StatusErr Unauthenticated (err_text e)), sv1)
                | Inr claims \<Rightarrow> (Inr (ctx\<lparr>cx_user := Some (c_Subject claims)\<rparr>), sv1))))"

definition AuthInterceptor ::
  "svc_env \<Rightarrow> jwt_Config \<Rightarrow> string \<Rightarrow> ('s, 'l, 'q, 'p) handler \<Rightarrow> ('s, 'l, 'q, 'p) handler" where
  "AuthInterceptor env cfg fullMethod h ctx req sv =
     (if fullMethod \<in> set publicMethods then h ctx req sv
      else (case extractAndValidate env cfg ctx sv of
              (Inl e, sv1) \<Rightarrow> (Inl e, sv1)
            | (Inr ctx', sv1) \<Rightarrow> h ctx' req sv1))"

definition ContextWithUserID :: "req_ctx \<Rightarrow> string \<Rightarrow> req_ctx" where
  "ContextWithUserID ctx userID = ctx\<lparr>cx_user := Some userID\<rparr>"

definition UserIDFromContext :: "req_ctx \<Rightarrow> string option" where
  "UserIDFromContext ctx = cx_user ctx"

text \<open>The stream interceptor wraps the stream so that its context carries the user.\<close>

definition AuthStreamInterceptor ::
  "svc_env \<Rightarrow> jwt_Config \<Rightarrow> string \<Rightarrow> ('s, 'l, 'q, 'p) handler \<Rightarrow> ('s, 'l, 'q, 'p) handler" where
  "AuthStreamInterceptor env cfg fullMethod h ctx req sv =
     (if fullMethod \<in> set publicMethods then h ctx req sv
      else (case extractAndValidate env cfg ctx sv of
              (Inl e, sv1) \<Rightarrow> (Inl e, sv1)
            | (Inr ctx', sv1) \<Rightarrow> h ctx' req sv1))"

section \<open>Rate limiting\<close>

definition rateLimitedMethods :: "string list" where
  "rateLimitedMethods = [''/auth.AuthService/Register'', ''/auth.AuthService/Login'',
     ''/auth.AuthService/VerifyMFA'']"

definition NewRateLimiter :: "nat \<Rightarrow> nat \<Rightarrow> 'l RateLimiter" where
  "NewRateLimiter r b = \<lparr>rl_limiters = (\<lambda>_. None), rl_r = r, rl_b = b\<rparr>"

text \<open>
  \<^verbatim>\<open>getLimiter\<close> returns a pointer to the bucket; the state of the bucket is read through
  the entry, and \<^verbatim>\<open>Allow\<close> writes it back.
\<close>

definition getLimiter :: "'l rate_lib \<Rightarrow> string \<Rightarrow> time \<Rightarrow> 'l RateLimiter \<Rightarrow> 'l \<times> 'l RateLimiter" where
  "getLimiter R ip now rl =
     (let entry = (case rl_limiters rl ip of
             None \<Rightarrow> \<lparr>il_limiter = rate_NewLimiter R (rl_r rl) (rl_b rl), il_lastSeen = time_zero\<rparr>
           | Some e \<Rightarrow> e)
      in (il_limiter entry,
          rl\<lparr>rl_limiters := (rl_limiters rl)(ip \<mapsto> entry\<lparr>il_lastSeen := now\<rparr>)\<rparr>))"

definition limiter_Allow :: "'l rate_lib \<Rightarrow> string \<Rightarrow> 'l \<Rightarrow> time \<Rightarrow> 'l RateLimiter \<Rightarrow> bool \<times> 'l RateLimiter" where
  "limiter_Allow R ip lim now rl =
     (let (ok, lim') = rate_Allow R lim now
      in (ok, rl\<lparr>rl_limiters := (rl_limiters rl)(ip :=
            map_option (\<lambda>e. e\<lparr>il_limiter := lim'\<rparr>) (rl_limiters rl ip))\<rparr>))"

definition rl_cleanup :: "time \<Rightarrow> 'l RateLimiter \<Rightarrow> 'l RateLimiter" where
  "rl_cleanup now rl = rl\<lparr>rl_limiters := (\<lambda>ip. case rl_limiters rl ip of None \<Rightarrow> None
     | Some e \<Rightarrow> if now - il_lastSeen e > 5 * minute then None else Some e)\<rparr>"

text \<open>A peer without an address makes \<^verbatim>\<open>p.Addr.String()\<close> panic.\<close>

definition peerIP :: "req_ctx \<Rightarrow> string result" where
  "peerIP ctx =
     (case (case cx_md ctx of None \<Rightarrow> [] | Some md \<Rightarrow> md_Get md ''x-forwarded-for'') of
        v # _ \<Rightarrow> Inr v
      | [] \<Rightarrow> (case cx_peer ctx of
                 Some (Some a) \<Rightarrow> Inr a
               | Some None \<Rightarrow> Inl (Panic ''nil pointer dereference'')
               | None \<Rightarrow> Inr ''unknown''))"

definition RateLimiter_UnaryInterceptor ::
  "'l rate_lib \<Rightarrow> svc_env \<Rightarrow> string \<Rightarrow> ('s, 'l, 'q, 'p) handler \<Rightarrow> ('s, 'l, 'q, 'p) handler" where
  "RateLimiter_UnaryInterceptor R env fullMethod h ctx req sv =
     (if fullMethod \<in> set rateLimitedMethods
      then (case peerIP ctx of
              Inl _ \<Rightarrow> (Inl (Crash ''nil pointer dereference''), sv)
            | Inr ip \<Rightarrow>
                (let (now, sv1) = server_Now env sv;
                     (lim, rl1) = getLimiter R ip now (sv_rl sv1);
                     (now2, sv2) = server_Now env (sv1\<lparr>sv_rl := rl1\<rparr>);
                     (ok, rl2) = limiter_Allow R ip lim now2 (sv_rl sv2);
                     sv3 = sv2\<lparr>sv_rl := rl2\<rparr>
                 in if \<not> ok
                    then (Inl (StatusErr ResourceExhausted ''too many requests - please slow down''), sv3)
                    else h ctx req sv3))
      else h ctx req sv)"

section \<open>Logging\<close>

definition status_code :: "(rpc_err + 'p) \<Rightarrow> code" where
  "status_code r = (case r of Inr _ \<Rightarrow> OK | Inl (StatusErr c _) \<Rightarrow> c | Inl (Crash _) \<Rightarrow> Internal)"

text \<open>A panic of the handler leaves no line; the two clock readings only give the duration.\<close>

definition LoggingInterceptor ::
  "svc_env \<Rightarrow> string \<Rightarrow> ('s, 'l, 'q, 'p) handler \<Rightarrow> ('s, 'l, 'q, 'p) handler" where
  "LoggingInterceptor env fullMethod h ctx req sv =
     (let (start, sv1) = server_Now env sv; (r, sv2) = h ctx req sv1
      in case r of
           Inl (Crash m) \<Rightarrow> (r, sv2)
         | _ \<Rightarrow> (let (end', sv3) = server_Now env sv2
                in (r, sv3\<lparr>sv_log := sv_log sv3 @ [\<lparr>lg_method = fullMethod, lg_code = status_code r\<rparr>]\<rparr>)))"

section \<open>Lemmas\<close>

lemma server_Now_simps [simp]:
  "fst (server_Now env sv) = ev_clock env (w_clk (sv_world sv))"
  "sv_rl (snd (server_Now env sv)) = sv_rl sv" "sv_log (snd (server_Now env sv)) = sv_log sv"
  "w_store (sv_world (snd (server_Now env sv))) = w_store (sv_world sv)"
  "w_sync (sv_world (snd (server_Now env sv))) = w_sync (sv_world sv)"
  "w_rnd (sv_world (snd (server_Now env sv))) = w_rnd (sv_world sv)"
  by (simp_all add: server_Now_def on_world_def time_Now_def)

lemma server_Now_pair: "server_Now env sv = (t, sv') \<Longrightarrow>
  t = ev_clock env (w_clk (sv_world sv)) \<and> w_store (sv_world sv') = w_store (sv_world sv) \<and>
  w_sync (sv_world sv') = w_sync (sv_world sv) \<and> sv_rl sv' = sv_rl sv \<and>
  w_clk (sv_world sv') = Suc (w_clk (sv_world sv)) \<and> sv_log sv' = sv_log sv"
  by (auto simp: server_Now_def on_world_def time_Now_def)

lemma extractAndValidate_cases:
  assumes "extractAndValidate env cfg ctx sv = (r, sv')"
  shows "w_store (sv_world sv') = w_store (sv_world sv) \<and> w_sync (sv_world sv') = w_sync (sv_world sv) \<and>
    (case r of Inl e \<Rightarrow> \<exists>m. e = StatusErr Unauthenticated m
     | Inr ctx' \<Rightarrow> \<exists>md v vs claims. cx_md ctx = Some md \<and> md_Get md ''authorization'' = v # vs \<and>
         ParseAccessToken (ev_jwt env) cfg (ev_clock env (w_clk (sv_world sv)))
           (strings_TrimPrefix v ''Bearer '') = Inr claims \<and>
         ctx' = ctx\<lparr>cx_user := Some (c_Subject claims)\<rparr>)"
  using assms unfolding extractAndValidate_def Let_def
  by (auto split: option.splits list.splits prod.splits sum.splits dest!: server_Now_pair)

end
