(* ===== verification/Postgres.thy ===== *)
theory Postgres
  imports Storage
begin

text \<open>
  The PostgreSQL store of \<^verbatim>\<open>src/internal/server/storage/postgres\<close>. The state \<open>db\<close>
  holds the tables the migrations create; every repository method is one definition, with
  the SQL statement it sends read against the tables and their constraints (primary keys,
  \<^verbatim>\<open>UNIQUE\<close>, \<^verbatim>\<open>NOT NULL\<close>, \<^verbatim>\<open>CHECK\<close>, foreign keys).

  The server and its driver are parameters, the record \<open>pg_env\<close>: whether the \<open>n\<close>-th
  statement fails for a reason of its own, the value of \<^verbatim>\<open>now()\<close> and of
  \<^verbatim>\<open>gen_random_uuid()\<close> in it, after how many rows its result stream breaks off, and the
  input functions of the types \<^verbatim>\<open>uuid\<close>, \<^verbatim>\<open>jsonb\<close> and \<^verbatim>\<open>inet\<close>. Nothing is
  assumed of them here: uniqueness of identifiers follows from the primary keys.
  An empty byte slice that reaches a repository is the nil slice of an absent protobuf
  field, which the driver sends as \<^verbatim>\<open>NULL\<close>.
\<close>

record pg_env =
  pg_fault :: "nat \<Rightarrow> bool"
  pg_cut :: "nat \<Rightarrow> nat option"
  pg_now :: "nat \<Rightarrow> time"
  pg_uuid :: "nat \<Rightarrow> string"
  pg_parse_uuid :: "string \<Rightarrow> string option"
  pg_jsonb :: "string \<Rightarrow> string option"
  pg_inet :: "string \<Rightarrow> bool"

record WebAuthnSession =
  ws_ID :: string
  ws_UserID :: string
  ws_Data :: string
  ws_ExpiresAt :: time

record db =
  qno :: nat
  users :: "User list"
  sessions :: "Session list"
  vault_items :: "VaultItem list"
  mfa_totp :: "TOTPRecord list"
  mfa_webauthn :: "WebAuthnCredential list"
  webauthn_sessions :: "WebAuthnSession list"
  audit_log :: "AuditEntry list"

definition db_empty :: db where
  "db_empty = \<lparr>qno = 0, users = [], sessions = [], vault_items = [], mfa_totp = [],
     mfa_webauthn = [], webauthn_sessions = [], audit_log = []\<rparr>"

text \<open>A statement is sent: the statement counter moves on.\<close>

definition sent :: "db \<Rightarrow> db" where
  "sent d = d\<lparr>qno := Suc (qno d)\<rparr>"

lemma sent_simps [simp]:
  "qno (sent d) = Suc (qno d)" "users (sent d) = users d" "sessions (sent d) = sessions d"
  "vault_items (sent d) = vault_items d" "mfa_totp (sent d) = mfa_totp d"
  "mfa_webauthn (sent d) = mfa_webauthn d" "webauthn_sessions (sent d) = webauthn_sessions d"
  "audit_log (sent d) = audit_log d"
  by (simp_all add: sent_def)

text \<open>
  A failed statement yields an SQLSTATE code, or the empty code when the failure is not one
  the server reported: \<^verbatim>\<open>23505\<close> unique, \<^verbatim>\<open>23502\<close> not null, \<^verbatim>\<open>23503\<close> foreign
  key, \<^verbatim>\<open>23514\<close> check, \<^verbatim>\<open>22P02\<close> invalid text representation, \<^verbatim>\<open>22003\<close>
  out of range.
\<close>

type_synonym 'a sql = "string + 'a"

definition sql_bind :: "'a sql \<Rightarrow> ('a \<Rightarrow> 'b sql) \<Rightarrow> 'b sql" where
  "sql_bind m f = (case m of Inl c \<Rightarrow> Inl c | Inr x \<Rightarrow> f x)"

lemma sql_bind_simps [simp]: "sql_bind (Inl c) f = Inl c" "sql_bind (Inr x) f = f x"
  by (simp_all add: sql_bind_def)

lemma sql_bind_Inr: "sql_bind m f = Inr y \<longleftrightarrow> (\<exists>x. m = Inr x \<and> f x = Inr y)"
  by (cases m) auto

definition exec :: "pg_env \<Rightarrow> db \<Rightarrow> unit sql" where
  "exec E d = (if pg_fault E (qno d) then Inl [] else Inr ())"

definition uuid_arg :: "pg_env \<Rightarrow> string \<Rightarrow> string sql" where
  "uuid_arg E s = (case pg_parse_uuid E s of None \<Rightarrow> Inl ''22P02'' | Some c \<Rightarrow> Inr c)"

definition check :: "bool \<Rightarrow> string \<Rightarrow> unit sql" where
  "check b code = (if b then Inr () else Inl code)"

lemma exec_Inr [simp]: "exec E d = Inr x \<longleftrightarrow> \<not> pg_fault E (qno d)"
  by (simp add: exec_def)

lemma uuid_arg_Inr [simp]: "uuid_arg E s = Inr c \<longleftrightarrow> pg_parse_uuid E s = Some c"
  by (simp add: uuid_arg_def split: option.splits)

lemma check_Inr [simp]: "check b code = Inr x \<longleftrightarrow> b"
  by (simp add: check_def)

text \<open>Rows of a result stream that the code reads to its end without looking at its error.\<close>

definition stream :: "pg_env \<Rightarrow> db \<Rightarrow> 'r list \<Rightarrow> 'r list" where
  "stream E d rows = (case pg_cut E (qno d) of None \<Rightarrow> rows | Some k \<Rightarrow> take k rows)"

lemma stream_intact [simp]: "pg_cut E (qno d) = None \<Longrightarrow> stream E d rows = rows"
  by (simp add: stream_def)

lemma set_stream: "set (stream E d rows) \<subseteq> set rows"
  by (auto simp: stream_def dest: in_set_takeD split: option.splits)

lemma distinct_stream: "distinct rows \<Longrightarrow> distinct (stream E d rows)"
  by (auto simp: stream_def split: option.splits)

section \<open>users.go\<close>

definition insert_user :: "pg_env \<Rightarrow> User \<Rightarrow> db \<Rightarrow> User sql" where
  "insert_user E u d =
     sql_bind (exec E d) (\<lambda>_.
     sql_bind (check (u_VaultSymKey u \<noteq> []) ''23502'') (\<lambda>_.
     case pg_jsonb E (u_KDFParams u) of None \<Rightarrow> Inl ''22P02'' | Some kj \<Rightarrow>
     let row = \<lparr>u_ID = pg_uuid E (qno d), u_Username = u_Username u, u_Email = u_Email u,
                u_PasswordHash = u_PasswordHash u, u_VaultSymKey = u_VaultSymKey u,
                u_KDFParams = kj, u_MFARequired = False, u_CreatedAt = pg_now E (qno d)\<rparr> in
     sql_bind (check (u_ID row \<notin> u_ID ` set (users d) \<and>
                      u_Username row \<notin> u_Username ` set (users d) \<and>
                      u_Email row \<notin> u_Email ` set (users d)) ''23505'') (\<lambda>_. Inr row)))"

definition userRepo_Create :: "pg_env \<Rightarrow> User \<Rightarrow> db \<Rightarrow> User result \<times> db" where
  "userRepo_Create E u d =
     (case insert_user E u d of
        Inl code \<Rightarrow>
          (if code = ''23505'' then (Inl (Sentinel ErrConflict), sent d)
           else (Inl (Wrapf ''create user: %w'' (ErrText code)), sent d))
      | Inr row \<Rightarrow> (Inr (u\<lparr>u_ID := u_ID row, u_CreatedAt := u_CreatedAt row\<rparr>),
                    (sent d)\<lparr>users := users d @ [row]\<rparr>))"

definition userRepo_scanUser :: "User option sql \<Rightarrow> User result" where
  "userRepo_scanUser row =
     (case row of
        Inl code \<Rightarrow> Inl (Wrapf ''scan user: %w'' (ErrText code))
      | Inr None \<Rightarrow> Inl (Sentinel ErrNotFound)
      | Inr (Some u) \<Rightarrow> Inr u)"

definition userRepo_GetByUsername :: "pg_env \<Rightarrow> string \<Rightarrow> db \<Rightarrow> User result \<times> db" where
  "userRepo_GetByUsername E username d =
     (userRepo_scanUser (sql_bind (exec E d) (\<lambda>_. Inr (row_of u_Username (users d) username))), sent d)"

definition userRepo_GetByID :: "pg_env \<Rightarrow> string \<Rightarrow> db \<Rightarrow> User result \<times> db" where
  "userRepo_GetByID E k d =
     (userRepo_scanUser (sql_bind (exec E d) (\<lambda>_. sql_bind (uuid_arg E k) (\<lambda>c.
        Inr (row_of u_ID (users d) c)))), sent d)"

definition userRepo_SetMFARequired :: "pg_env \<Rightarrow> string \<Rightarrow> bool \<Rightarrow> db \<Rightarrow> unit result \<times> db" where
  "userRepo_SetMFARequired E userID required d =
     (case sql_bind (exec E d) (\<lambda>_. uuid_arg E userID) of
        Inl code \<Rightarrow> (Inl (ErrText code), sent d)
      | Inr c \<Rightarrow> (Inr (), (sent d)\<lparr>users :=
          update_where (\<lambda>r. u_ID r = c) (\<lambda>r. r\<lparr>u_MFARequired := required\<rparr>) (users d)\<rparr>))"

section \<open>sessions.go\<close>

definition insert_session :: "pg_env \<Rightarrow> Session \<Rightarrow> db \<Rightarrow> Session sql" where
  "insert_session E s d =
     sql_bind (exec E d) (\<lambda>_.
     sql_bind (uuid_arg E (s_UserID s)) (\<lambda>uid.
     let row = s\<lparr>s_ID := pg_uuid E (qno d), s_UserID := uid, s_CreatedAt := pg_now E (qno d)\<rparr> in
     sql_bind (check (s_ID row \<notin> s_ID ` set (sessions d) \<and>
                      s_RefreshToken row \<notin> s_RefreshToken ` set (sessions d)) ''23505'') (\<lambda>_.
     sql_bind (check (uid \<in> u_ID ` set (users d)) ''23503'') (\<lambda>_. Inr row))))"

definition sessionRepo_Create :: "pg_env \<Rightarrow> Session \<Rightarrow> db \<Rightarrow> Session result \<times> db" where
  "sessionRepo_Create E s d =
     (case insert_session E s d of
        Inl code \<Rightarrow> (Inl (Wrapf ''create session: %w'' (ErrText code)), sent d)
      | Inr row \<Rightarrow> (Inr (s\<lparr>s_ID := s_ID row, s_CreatedAt := s_CreatedAt row\<rparr>),
                    (sent d)\<lparr>sessions := sessions d @ [row]\<rparr>))"

definition sessionRepo_GetByRefreshToken :: "pg_env \<Rightarrow> string \<Rightarrow> db \<Rightarrow> Session result \<times> db" where
  "sessionRepo_GetByRefreshToken E token d =
     (case exec E d of
        Inl code \<Rightarrow> (Inl (Wrapf ''get session: %w'' (ErrText code)), sent d)
      | Inr _ \<Rightarrow>
          (case row_of s_RefreshToken (sessions d) token of
             None \<Rightarrow> (Inl (Sentinel ErrNotFound), sent d)
           | Some s \<Rightarrow> (Inr s, sent d)))"

definition sessionRepo_SetMFAVerified :: "pg_env \<Rightarrow> string \<Rightarrow> db \<Rightarrow> unit result \<times> db" where
  "sessionRepo_SetMFAVerified E sessionID d =
     (case sql_bind (exec E d) (\<lambda>_. uuid_arg E sessionID) of
        Inl code \<Rightarrow> (Inl (ErrText code), sent d)
      | Inr c \<Rightarrow> (Inr (), (sent d)\<lparr>sessions :=
          update_where (\<lambda>r. s_ID r = c) (\<lambda>r. r\<lparr>s_MFAVerified := True\<rparr>) (sessions d)\<rparr>))"

definition sessionRepo_Delete :: "pg_env \<Rightarrow> string \<Rightarrow> db \<Rightarrow> unit result \<times> db" where
  "sessionRepo_Delete E refreshToken d =
     (case exec E d of
        Inl code \<Rightarrow> (Inl (ErrText code), sent d)
      | Inr _ \<Rightarrow> (Inr (), (sent d)\<lparr>sessions :=
          filter (\<lambda>r. s_RefreshToken r \<noteq> refreshToken) (sessions d)\<rparr>))"

definition sessionRepo_DeleteExpired :: "pg_env \<Rightarrow> db \<Rightarrow> unit result \<times> db" where
  "sessionRepo_DeleteExpired E d =
     (case exec E d of
        Inl code \<Rightarrow> (Inl (ErrText code), sent d)
      | Inr _ \<Rightarrow> (Inr (), (sent d)\<lparr>sessions :=
          filter (\<lambda>r. \<not> s_ExpiresAt r < pg_now E (qno d)) (sessions d)\<rparr>))"

section \<open>vault.go\<close>

definition item_types :: "string list" where
  "item_types = [''credential'', ''text'', ''binary'', ''card'', ''otp'']"

definition max_bigint :: int where
  "max_bigint = 2 ^ 63 - 1"

definition insert_item :: "pg_env \<Rightarrow> VaultItem \<Rightarrow> db \<Rightarrow> VaultItem sql" where
  "insert_item E item d =
     sql_bind (exec E d) (\<lambda>_.
     sql_bind (uuid_arg E (vi_UserID item)) (\<lambda>uid.
     sql_bind (check (vi_Payload item \<noteq> []) ''23502'') (\<lambda>_.
     sql_bind (check (vi_Type item \<in> set item_types) ''23514'') (\<lambda>_.
     let row = item\<lparr>vi_ID := pg_uuid E (qno d), vi_UserID := uid, vi_Version := 1,
                    vi_CreatedAt := pg_now E (qno d), vi_UpdatedAt := pg_now E (qno d)\<rparr> in
     sql_bind (check (vi_ID row \<notin> vi_ID ` set (vault_items d)) ''23505'') (\<lambda>_.
     sql_bind (check (uid \<in> u_ID ` set (users d)) ''23503'') (\<lambda>_. Inr row))))))"

definition vaultRepo_Create :: "pg_env \<Rightarrow> VaultItem \<Rightarrow> db \<Rightarrow> VaultItem result \<times> db" where
  "vaultRepo_Create E item d =
     (case insert_item E item d of
        Inl code \<Rightarrow> (Inl (Wrapf ''create vault item: %w'' (ErrText code)), sent d)
      | Inr row \<Rightarrow> (Inr (item\<lparr>vi_ID := vi_ID row, vi_Version := vi_Version row,
                       vi_CreatedAt := vi_CreatedAt row, vi_UpdatedAt := vi_UpdatedAt row\<rparr>),
                    (sent d)\<lparr>vault_items := vault_items d @ [row]\<rparr>))"

definition vaultRepo_scanItem :: "VaultItem option sql \<Rightarrow> VaultItem result" where
  "vaultRepo_scanItem row =
     (case row of
        Inl code \<Rightarrow> Inl (Wrapf ''scan vault item: %w'' (ErrText code))
      | Inr None \<Rightarrow> Inl (Sentinel ErrNotFound)
      | Inr (Some it) \<Rightarrow> Inr it)"

definition select_item :: "pg_env \<Rightarrow> string \<Rightarrow> string \<Rightarrow> db \<Rightarrow> VaultItem option sql" where
  "select_item E k userID d =
     sql_bind (exec E d) (\<lambda>_. sql_bind (uuid_arg E k) (\<lambda>c. sql_bind (uuid_arg E userID) (\<lambda>uid.
       Inr (find (\<lambda>r. vi_ID r = c \<and> vi_UserID r = uid) (vault_items d)))))"

definition vaultRepo_Get :: "pg_env \<Rightarrow> string \<Rightarrow> string \<Rightarrow> db \<Rightarrow> VaultItem result \<times> db" where
  "vaultRepo_Get E k userID d = (vaultRepo_scanItem (select_item E k userID d), sent d)"

definition update_item :: "pg_env \<Rightarrow> VaultItem \<Rightarrow> db \<Rightarrow> VaultItem option sql" where
  "update_item E item d =
     sql_bind (select_item E (vi_ID item) (vi_UserID item) d) (\<lambda>old.
       case old of None \<Rightarrow> Inr None
       | Some r \<Rightarrow>
         sql_bind (check (vi_Version r + 1 \<le> max_bigint) ''22003'') (\<lambda>_.
         sql_bind (check (vi_Payload item \<noteq> []) ''23502'') (\<lambda>_.
           Inr (Some (r\<lparr>vi_Payload := vi_Payload item, vi_Metadata := vi_Metadata item,
                        vi_Version := vi_Version r + 1, vi_UpdatedAt := pg_now E (qno d)\<rparr>)))))"

definition vaultRepo_Update :: "pg_env \<Rightarrow> VaultItem \<Rightarrow> db \<Rightarrow> VaultItem result \<times> db" where
  "vaultRepo_Update E item d =
     (vaultRepo_scanItem (update_item E item d),
      case update_item E item d of
        Inr (Some row) \<Rightarrow> (sent d)\<lparr>vault_items :=
          update_where (\<lambda>r. vi_ID r = vi_ID row) (\<lambda>_. row) (vault_items d)\<rparr>
      | _ \<Rightarrow> sent d)"

definition vaultRepo_Delete :: "pg_env \<Rightarrow> string \<Rightarrow> string \<Rightarrow> db \<Rightarrow> unit result \<times> db" where
  "vaultRepo_Delete E k userID d =
     (case sql_bind (exec E d) (\<lambda>_. sql_bind (uuid_arg E k) (\<lambda>c.
             sql_bind (uuid_arg E userID) (\<lambda>uid. Inr (c, uid)))) of
        Inl code \<Rightarrow> (Inl (Wrapf ''delete vault item: %w'' (ErrText code)), sent d)
      | Inr (c, uid) \<Rightarrow>
          (let hit = (\<lambda>r. vi_ID r = c \<and> vi_UserID r = uid);
               affected = length (filter hit (vault_items d));
               d' = (sent d)\<lparr>vault_items := filter (\<lambda>r. \<not> hit r) (vault_items d)\<rparr>
           in if affected = 0 then (Inl (Sentinel ErrNotFound), d') else (Inr (), d')))"

definition select_items ::
  "pg_env \<Rightarrow> string \<Rightarrow> string \<Rightarrow> string \<Rightarrow> nat \<Rightarrow> db \<Rightarrow> VaultItem list sql" where
  "select_items E userID typ cursor lim d =
     sql_bind (exec E d) (\<lambda>_. sql_bind (uuid_arg E userID) (\<lambda>uid.
     sql_bind (if cursor = [] then Inr [] else uuid_arg E cursor) (\<lambda>cur.
       Inr (take lim (sort_key (\<lambda>r. (- vi_UpdatedAt r, vi_ID r))
         (filter (\<lambda>r. vi_UserID r = uid \<and> (typ = [] \<or> vi_Type r = typ) \<and>
                     (cursor = [] \<or> vi_ID r > cur)) (vault_items d)))))))"

definition list_limit :: "int \<Rightarrow> int" where
  "list_limit l = (if l \<le> 0 \<or> l > 200 then 50 else l)"

definition vaultRepo_List ::
  "pg_env \<Rightarrow> string \<Rightarrow> ListFilter \<Rightarrow> db \<Rightarrow> (VaultItem list \<times> string) result \<times> db" where
  "vaultRepo_List E userID f d =
     (let limit = list_limit (f_Limit f) in
      case select_items E userID (f_TypeFilter f) (f_Cursor f) (nat (limit + 1)) d of
        Inl code \<Rightarrow> (Inl (Wrapf ''list vault items: %w'' (ErrText code)), sent d)
      | Inr rows \<Rightarrow>
          (let its = stream E d rows in
           if int (length its) > limit
           then (Inr (take (nat limit) its, vi_ID (its ! nat limit)), sent d)
           else (Inr (its, []), sent d)))"

section \<open>mfa.go\<close>

definition mfaRepo_CreateTOTP :: "pg_env \<Rightarrow> TOTPRecord \<Rightarrow> db \<Rightarrow> TOTPRecord result \<times> db" where
  "mfaRepo_CreateTOTP E rec d =
     (case sql_bind (exec E d) (\<lambda>_. sql_bind (uuid_arg E (t_UserID rec)) (\<lambda>uid.
             sql_bind (check (pg_uuid E (qno d) \<notin> t_ID ` set (mfa_totp d)) ''23505'') (\<lambda>_.
             sql_bind (check (uid \<in> u_ID ` set (users d)) ''23503'') (\<lambda>_. Inr uid)))) of
        Inl code \<Rightarrow> (Inl (Wrapf ''create totp: %w'' (ErrText code)), sent d)
      | Inr uid \<Rightarrow>
          (let k = pg_uuid E (qno d); at = pg_now E (qno d);
               row = \<lparr>t_ID = k, t_UserID = uid, t_Secret = t_Secret rec, t_Label = t_Label rec,
                      t_Confirmed = False, t_CreatedAt = at\<rparr>
           in (Inr (rec\<lparr>t_ID := k, t_CreatedAt := at\<rparr>), (sent d)\<lparr>mfa_totp := mfa_totp d @ [row]\<rparr>)))"

definition mfaRepo_GetTOTPByID :: "pg_env \<Rightarrow> string \<Rightarrow> string \<Rightarrow> db \<Rightarrow> TOTPRecord result \<times> db" where
  "mfaRepo_GetTOTPByID E k userID d =
     (case sql_bind (exec E d) (\<lambda>_. sql_bind (uuid_arg E k) (\<lambda>c.
             sql_bind (uuid_arg E userID) (\<lambda>uid. Inr (c, uid)))) of
        Inl code \<Rightarrow> (Inl (Wrapf ''get totp: %w'' (ErrText code)), sent d)
      | Inr (c, uid) \<Rightarrow>
          (case find (\<lambda>r. t_ID r = c \<and> t_UserID r = uid) (mfa_totp d) of
             None \<Rightarrow> (Inl (Sentinel ErrNotFound), sent d)
           | Some rec \<Rightarrow> (Inr rec, sent d)))"

definition mfaRepo_ConfirmTOTP :: "pg_env \<Rightarrow> string \<Rightarrow> db \<Rightarrow> unit result \<times> db" where
  "mfaRepo_ConfirmTOTP E k d =
     (case sql_bind (exec E d) (\<lambda>_. uuid_arg E k) of
        Inl code \<Rightarrow> (Inl (ErrText code), sent d)
      | Inr c \<Rightarrow> (Inr (), (sent d)\<lparr>mfa_totp :=
          update_where (\<lambda>r. t_ID r = c) (\<lambda>r. r\<lparr>t_Confirmed := True\<rparr>) (mfa_totp d)\<rparr>))"

definition mfaRepo_ListTOTP :: "pg_env \<Rightarrow> string \<Rightarrow> db \<Rightarrow> TOTPRecord list result \<times> db" where
  "mfaRepo_ListTOTP E userID d =
     (case sql_bind (exec E d) (\<lambda>_. uuid_arg E userID) of
        Inl code \<Rightarrow> (Inl (Wrapf ''list totp: %w'' (ErrText code)), sent d)
      | Inr uid \<Rightarrow> (Inr (stream E d (filter (\<lambda>r. t_UserID r = uid \<and> t_Confirmed r) (mfa_totp d))), sent d))"

definition mfaRepo_CreateWebAuthnCredential ::
  "pg_env \<Rightarrow> WebAuthnCredential \<Rightarrow> db \<Rightarrow> unit result \<times> db" where
  "mfaRepo_CreateWebAuthnCredential E c d =
     (case sql_bind (exec E d) (\<lambda>_. sql_bind (uuid_arg E (wc_UserID c)) (\<lambda>uid.
             sql_bind (check (wc_CredentialID c \<noteq> [] \<and> wc_PublicKey c \<noteq> []) ''23502'') (\<lambda>_.
             sql_bind (check (pg_uuid E (qno d) \<notin> wc_ID ` set (mfa_webauthn d) \<and>
                              wc_CredentialID c \<notin> wc_CredentialID ` set (mfa_webauthn d)) ''23505'') (\<lambda>_.
             sql_bind (check (uid \<in> u_ID ` set (users d)) ''23503'') (\<lambda>_. Inr uid))))) of
        Inl code \<Rightarrow> (Inl (ErrText code), sent d)
      | Inr uid \<Rightarrow> (Inr (), (sent d)\<lparr>mfa_webauthn := mfa_webauthn d @
          [c\<lparr>wc_ID := pg_uuid E (qno d), wc_UserID := uid, wc_CreatedAt := pg_now E (qno d)\<rparr>]\<rparr>))"

definition mfaRepo_GetWebAuthnCredentials ::
  "pg_env \<Rightarrow> string \<Rightarrow> db \<Rightarrow> WebAuthnCredential list result \<times> db" where
  "mfaRepo_GetWebAuthnCredentials E userID d =
     (case sql_bind (exec E d) (\<lambda>_. uuid_arg E userID) of
        Inl code \<Rightarrow> (Inl (Wrapf ''get webauthn credentials: %w'' (ErrText code)), sent d)
      | Inr uid \<Rightarrow> (Inr (stream E d (filter (\<lambda>r. wc_UserID r = uid) (mfa_webauthn d))), sent d))"

definition mfaRepo_UpdateWebAuthnSignCount ::
  "pg_env \<Rightarrow> bytes \<Rightarrow> 32 word \<Rightarrow> db \<Rightarrow> unit result \<times> db" where
  "mfaRepo_UpdateWebAuthnSignCount E credID signCount d =
     (case exec E d of
        Inl code \<Rightarrow> (Inl (ErrText code), sent d)
      | Inr _ \<Rightarrow> (Inr (), (sent d)\<lparr>mfa_webauthn :=
          update_where (\<lambda>r. wc_CredentialID r = credID) (\<lambda>r. r\<lparr>wc_SignCount := signCount\<rparr>)
            (mfa_webauthn d)\<rparr>))"

definition mfaRepo_SaveWebAuthnSession ::
  "pg_env \<Rightarrow> string \<Rightarrow> string \<Rightarrow> db \<Rightarrow> string result \<times> db" where
  "mfaRepo_SaveWebAuthnSession E userID data d =
     (case sql_bind (exec E d) (\<lambda>_. sql_bind (uuid_arg E userID) (\<lambda>uid.
             case pg_jsonb E data of None \<Rightarrow> Inl ''22P02'' | Some j \<Rightarrow>
             sql_bind (check (pg_uuid E (qno d) \<notin> ws_ID ` set (webauthn_sessions d)) ''23505'') (\<lambda>_.
             sql_bind (check (uid \<in> u_ID ` set (users d)) ''23503'') (\<lambda>_. Inr (uid, j))))) of
        Inl code \<Rightarrow> (Inl (Wrapf ''save webauthn session: %w'' (ErrText code)), sent d)
      | Inr (uid, j) \<Rightarrow>
          (Inr (pg_uuid E (qno d)), (sent d)\<lparr>webauthn_sessions := webauthn_sessions d @
             [\<lparr>ws_ID = pg_uuid E (qno d), ws_UserID = uid, ws_Data = j,
               ws_ExpiresAt = pg_now E (qno d) + 5 * minute\<rparr>]\<rparr>))"

definition mfaRepo_GetWebAuthnSession :: "pg_env \<Rightarrow> string \<Rightarrow> db \<Rightarrow> string result \<times> db" where
  "mfaRepo_GetWebAuthnSession E sessionID d =
     (case sql_bind (exec E d) (\<lambda>_. uuid_arg E sessionID) of
        Inl code \<Rightarrow> (Inl (Wrapf ''get webauthn session: %w'' (ErrText code)), sent d)
      | Inr c \<Rightarrow>
          (case find (\<lambda>r. ws_ID r = c \<and> ws_ExpiresAt r > pg_now E (qno d)) (webauthn_sessions d) of
             None \<Rightarrow> (Inl (Sentinel ErrNotFound), sent d)
           | Some r \<Rightarrow> (Inr (ws_Data r), sent d)))"

definition mfaRepo_DeleteWebAuthnSession :: "pg_env \<Rightarrow> string \<Rightarrow> db \<Rightarrow> unit result \<times> db" where
  "mfaRepo_DeleteWebAuthnSession E sessionID d =
     (case sql_bind (exec E d) (\<lambda>_. uuid_arg E sessionID) of
        Inl code \<Rightarrow> (Inl (ErrText code), sent d)
      | Inr c \<Rightarrow> (Inr (), (sent d)\<lparr>webauthn_sessions :=
          filter (\<lambda>r. ws_ID r \<noteq> c) (webauthn_sessions d)\<rparr>))"

section \<open>audit.go\<close>

text \<open>An empty user identifier is stored as \<^verbatim>\<open>NULL\<close>.\<close>

definition auditRepo_Append :: "pg_env \<Rightarrow> AuditEntry \<Rightarrow> db \<Rightarrow> unit result \<times> db" where
  "auditRepo_Append E e d =
     (case sql_bind (exec E d) (\<lambda>_.
           sql_bind (if ae_UserID e = [] then Inr [] else uuid_arg E (ae_UserID e)) (\<lambda>uid.
           sql_bind (check (pg_inet E (ae_IP e)) ''22P02'') (\<lambda>_.
           sql_bind (check (ae_Result e \<in> {''ok'', ''denied'', ''error''}) ''23514'') (\<lambda>_.
           sql_bind (check (ae_UserID e = [] \<or> uid \<in> u_ID ` set (users d)) ''23503'') (\<lambda>_. Inr uid))))) of
        Inl code \<Rightarrow> (Inl (Wrapf ''audit append: %w'' (ErrText code)), sent d)
      | Inr uid \<Rightarrow> (Inr (), (sent d)\<lparr>audit_log := audit_log d @ [e\<lparr>ae_UserID := uid\<rparr>]\<rparr>))"

section \<open>postgres.go\<close>

definition DB_Users :: "pg_env \<Rightarrow> db Users" where
  "DB_Users E = \<lparr>Users_Create = userRepo_Create E, Users_GetByUsername = userRepo_GetByUsername E,
     Users_GetByID = userRepo_GetByID E, Users_SetMFARequired = userRepo_SetMFARequired E\<rparr>"

definition DB_Sessions :: "pg_env \<Rightarrow> db Sessions" where
  "DB_Sessions E = \<lparr>Sessions_Create = sessionRepo_Create E,
     Sessions_GetByRefreshToken = sessionRepo_GetByRefreshToken E,
     Sessions_SetMFAVerified = sessionRepo_SetMFAVerified E, Sessions_Delete = sessionRepo_Delete E,
     Sessions_DeleteExpired = sessionRepo_DeleteExpired E\<rparr>"

definition DB_Vault :: "pg_env \<Rightarrow> db Vault" where
  "DB_Vault E = \<lparr>Vault_Create = vaultRepo_Create E, Vault_Get = vaultRepo_Get E,
     Vault_Update = vaultRepo_Update E, Vault_Delete = vaultRepo_Delete E, Vault_List = vaultRepo_List E\<rparr>"

definition DB_MFA :: "pg_env \<Rightarrow> db MFA" where
  "DB_MFA E = \<lparr>MFA_CreateTOTP = mfaRepo_CreateTOTP E, MFA_GetTOTPByID = mfaRepo_GetTOTPByID E,
     MFA_ConfirmTOTP = mfaRepo_ConfirmTOTP E, MFA_ListTOTP = mfaRepo_ListTOTP E,
     MFA_CreateWebAuthnCredential = mfaRepo_CreateWebAuthnCredential E,
     MFA_GetWebAuthnCredentials = mfaRepo_GetWebAuthnCredentials E,
     MFA_UpdateWebAuthnSignCount = mfaRepo_UpdateWebAuthnSignCount E,
     MFA_SaveWebAuthnSession = mfaRepo_SaveWebAuthnSession E,
     MFA_GetWebAuthnSession = mfaRepo_GetWebAuthnSession E,
     MFA_DeleteWebAuthnSession = mfaRepo_DeleteWebAuthnSession E\<rparr>"

definition DB_Audit :: "pg_env \<Rightarrow> db Audit" where
  "DB_Audit E = \<lparr>Audit_Append = auditRepo_Append E\<rparr>"

definition DB_Store :: "pg_env \<Rightarrow> db Store" where
  "DB_Store E = \<lparr>Store_Users = DB_Users E, Store_Sessions = DB_Sessions E, Store_Vault = DB_Vault E,
     Store_MFA = DB_MFA E, Store_Audit = DB_Audit E\<rparr>"

lemmas DB_defs = DB_Users_def DB_Sessions_def DB_Vault_def DB_MFA_def DB_Audit_def DB_Store_def

section \<open>The invariant of the tables\<close>

text \<open>
  What the constraints of the migrations keep true: keys are unique, every session, item and
  TOTP record belongs to a stored user, items have a type the \<^verbatim>\<open>CHECK\<close> admits, a
  payload and a version of at least 1 that fits a \<^verbatim>\<open>BIGINT\<close>.
\<close>

definition user_keys :: "User list \<Rightarrow> bool" where
  "user_keys us \<longleftrightarrow> distinct (map u_ID us) \<and> distinct (map u_Username us) \<and> distinct (map u_Email us)"

definition session_keys :: "Session list \<Rightarrow> bool" where
  "session_keys ss \<longleftrightarrow> distinct (map s_ID ss) \<and> distinct (map s_RefreshToken ss)"

definition item_row_ok :: "VaultItem \<Rightarrow> bool" where
  "item_row_ok r \<longleftrightarrow> vi_Type r \<in> set item_types \<and> vi_Payload r \<noteq> [] \<and>
     1 \<le> vi_Version r \<and> vi_Version r \<le> max_bigint"

definition owned_by_users :: "db \<Rightarrow> bool" where
  "owned_by_users d \<longleftrightarrow>
     s_UserID ` set (sessions d) \<subseteq> u_ID ` set (users d) \<and>
     vi_UserID ` set (vault_items d) \<subseteq> u_ID ` set (users d) \<and>
     t_UserID ` set (mfa_totp d) \<subseteq> u_ID ` set (users d)"

definition pg_inv :: "db \<Rightarrow> bool" where
  "pg_inv d \<longleftrightarrow> user_keys (users d) \<and> session_keys (sessions d) \<and>
     distinct (map vi_ID (vault_items d)) \<and> (\<forall>r \<in> set (vault_items d). item_row_ok r) \<and>
     distinct (map t_ID (mfa_totp d)) \<and> owned_by_users d"

lemmas pg_inv_defs = pg_inv_def user_keys_def session_keys_def owned_by_users_def

lemma pg_inv_empty [simp]: "pg_inv db_empty"
  by (simp add: pg_inv_defs db_empty_def)

lemma pg_inv_sent [simp]: "pg_inv (sent d) = pg_inv d"
  by (simp add: pg_inv_defs)

lemma pg_inv_qno [simp]: "pg_inv (d\<lparr>qno := n\<rparr>) = pg_inv d"
  by (simp add: pg_inv_defs)

lemma pg_inv_audit [simp]: "pg_inv (d\<lparr>audit_log := l\<rparr>) = pg_inv d"
  by (simp add: pg_inv_defs)

lemma insert_user_Inr:
  "insert_user E u d = Inr row \<longleftrightarrow>
     \<not> pg_fault E (qno d) \<and> u_VaultSymKey u \<noteq> [] \<and>
     (\<exists>kj. pg_jsonb E (u_KDFParams u) = Some kj \<and>
       row = u\<lparr>u_ID := pg_uuid E (qno d), u_KDFParams := kj, u_MFARequired := False,
                u_CreatedAt := pg_now E (qno d)\<rparr>) \<and>
     u_ID row \<notin> u_ID ` set (users d) \<and> u_Username row \<notin> u_Username ` set (users d) \<and>
     u_Email row \<notin> u_Email ` set (users d)"
  by (cases "pg_jsonb E (u_KDFParams u)") (auto simp: insert_user_def sql_bind_Inr Let_def)

lemma insert_session_Inr:
  "insert_session E s d = Inr row \<longleftrightarrow>
     \<not> pg_fault E (qno d) \<and>
     (\<exists>uid. pg_parse_uuid E (s_UserID s) = Some uid \<and> uid \<in> u_ID ` set (users d) \<and>
       row = s\<lparr>s_ID := pg_uuid E (qno d), s_UserID := uid, s_CreatedAt := pg_now E (qno d)\<rparr>) \<and>
     s_ID row \<notin> s_ID ` set (sessions d) \<and> s_RefreshToken row \<notin> s_RefreshToken ` set (sessions d)"
  by (auto simp: insert_session_def sql_bind_Inr Let_def)

lemma insert_item_Inr:
  "insert_item E it d = Inr row \<longleftrightarrow>
     \<not> pg_fault E (qno d) \<and> vi_Payload it \<noteq> [] \<and> vi_Type it \<in> set item_types \<and>
     (\<exists>uid. pg_parse_uuid E (vi_UserID it) = Some uid \<and> uid \<in> u_ID ` set (users d) \<and>
       row = it\<lparr>vi_ID := pg_uuid E (qno d), vi_UserID := uid, vi_Version := 1,
                 vi_CreatedAt := pg_now E (qno d), vi_UpdatedAt := pg_now E (qno d)\<rparr>) \<and>
     vi_ID row \<notin> vi_ID ` set (vault_items d)"
  by (auto simp: insert_item_def sql_bind_Inr Let_def)

lemma select_item_Inr:
  "select_item E k u d = Inr res \<longleftrightarrow>
     \<not> pg_fault E (qno d) \<and> (\<exists>c uid. pg_parse_uuid E k = Some c \<and> pg_parse_uuid E u = Some uid \<and>
       find (\<lambda>r. vi_ID r = c \<and> vi_UserID r = uid) (vault_items d) = res)"
  by (auto simp: select_item_def sql_bind_Inr)

lemma update_item_Some:
  "update_item E it d = Inr (Some row) \<longleftrightarrow>
     (\<exists>r. select_item E (vi_ID it) (vi_UserID it) d = Inr (Some r) \<and>
        vi_Version r + 1 \<le> max_bigint \<and> vi_Payload it \<noteq> [] \<and>
        row = r\<lparr>vi_Payload := vi_Payload it, vi_Metadata := vi_Metadata it,
                 vi_Version := vi_Version r + 1, vi_UpdatedAt := pg_now E (qno d)\<rparr>)"
  by (auto simp: update_item_def sql_bind_Inr split: option.splits)

lemma find_row_of:
  assumes "distinct (map key rows)"
  shows "find (\<lambda>r. key r = c \<and> Q r) rows =
    (case row_of key rows c of None \<Rightarrow> None | Some r \<Rightarrow> if Q r then Some r else None)"
proof -
  have "find (\<lambda>r. key r = c \<and> Q r) rows = row_of key (filter Q rows) c"
    unfolding row_of_def by (induction rows) auto
  with assms show ?thesis by (simp add: row_of_filter)
qed

lemma pg_inv_add_user:
  "pg_inv d \<Longrightarrow> insert_user E u d = Inr row \<Longrightarrow> pg_inv ((sent d)\<lparr>users := users d @ [row]\<rparr>)"
  by (auto simp: pg_inv_defs insert_user_Inr)

lemma pg_inv_add_session:
  "pg_inv d \<Longrightarrow> insert_session E s d = Inr row \<Longrightarrow> pg_inv ((sent d)\<lparr>sessions := sessions d @ [row]\<rparr>)"
  by (auto simp: pg_inv_defs insert_session_Inr)

lemma pg_inv_add_item:
  "pg_inv d \<Longrightarrow> insert_item E it d = Inr row \<Longrightarrow> pg_inv ((sent d)\<lparr>vault_items := vault_items d @ [row]\<rparr>)"
  by (auto simp: pg_inv_defs insert_item_Inr item_row_ok_def max_bigint_def)

lemma pg_inv_upd_users:
  "pg_inv d \<Longrightarrow> pg_inv ((sent d)\<lparr>users := update_where P (\<lambda>r. r\<lparr>u_MFARequired := b\<rparr>) (users d)\<rparr>)"
proof -
  let ?us = "update_where P (\<lambda>r. r\<lparr>u_MFARequired := b\<rparr>) (users d)"
  assume "pg_inv d"
  moreover have "map u_ID ?us = map u_ID (users d)" "map u_Username ?us = map u_Username (users d)"
    "map u_Email ?us = map u_Email (users d)"
    by simp_all
  moreover from this(1) have "u_ID ` set ?us = u_ID ` set (users d)" by (metis list.set_map)
  ultimately show ?thesis by (simp add: pg_inv_defs)
qed

lemma pg_inv_upd_sessions:
  "pg_inv d \<Longrightarrow> pg_inv ((sent d)\<lparr>sessions := update_where P (\<lambda>r. r\<lparr>s_MFAVerified := True\<rparr>) (sessions d)\<rparr>)"
  by (auto simp: pg_inv_defs set_update_where)

lemma pg_inv_filter_sessions:
  "pg_inv d \<Longrightarrow> pg_inv ((sent d)\<lparr>sessions := filter P (sessions d)\<rparr>)"
  by (auto simp: pg_inv_defs)

lemma pg_inv_filter_items:
  "pg_inv d \<Longrightarrow> pg_inv ((sent d)\<lparr>vault_items := filter P (vault_items d)\<rparr>)"
  by (auto simp: pg_inv_defs)

lemma pg_inv_upd_item:
  assumes "pg_inv d" and "update_item E it d = Inr (Some row)"
  shows "pg_inv ((sent d)\<lparr>vault_items := update_where (\<lambda>r. vi_ID r = vi_ID row) (\<lambda>_. row) (vault_items d)\<rparr>)"
proof -
  let ?rows = "update_where (\<lambda>r. vi_ID r = vi_ID row) (\<lambda>_. row) (vault_items d)"
  obtain r where r: "r \<in> set (vault_items d)" "vi_ID row = vi_ID r" "vi_UserID row = vi_UserID r"
    "vi_Type row = vi_Type r" "vi_Version row = vi_Version r + 1" "vi_Version row \<le> max_bigint"
    "vi_Payload row \<noteq> []"
  proof -
    from assms(2) obtain r where sel: "select_item E (vi_ID it) (vi_UserID it) d = Inr (Some r)"
      and ver: "vi_Version r + 1 \<le> max_bigint" "vi_Payload it \<noteq> []"
      and row: "row = r\<lparr>vi_Payload := vi_Payload it, vi_Metadata := vi_Metadata it,
                 vi_Version := vi_Version r + 1, vi_UpdatedAt := pg_now E (qno d)\<rparr>"
      unfolding update_item_Some by blast
    from sel obtain c uid where "find (\<lambda>r. vi_ID r = c \<and> vi_UserID r = uid) (vault_items d) = Some r"
      unfolding select_item_Inr by blast
    then have "r \<in> set (vault_items d)" using find_SomeD [of _ _ r] by simp
    with ver show ?thesis by (intro that [of r]) (simp_all add: row)
  qed
  have "map vi_ID ?rows = map vi_ID (vault_items d)"
    by (auto simp: update_where_def)
  note ids = this
  have sub: "set ?rows \<subseteq> insert row (set (vault_items d))"
    by (auto simp: set_update_where)
  have "item_row_ok r" using assms(1) r(1) by (simp add: pg_inv_def)
  then have "item_row_ok row" using r(2-) by (simp add: item_row_ok_def)
  then have oks: "\<forall>r \<in> set ?rows. item_row_ok r"
    using assms(1) sub by (auto simp: pg_inv_def)
  have base: "vi_UserID ` set (vault_items d) \<subseteq> u_ID ` set (users d)"
    using assms(1) by (simp add: pg_inv_defs)
  have own: "vi_UserID row \<in> vi_UserID ` set (vault_items d)"
    unfolding r(3) by (rule imageI) (rule r(1))
  have "vi_UserID ` set ?rows \<subseteq> vi_UserID ` set (vault_items d)"
  proof
    fix x assume "x \<in> vi_UserID ` set ?rows"
    then obtain q where "q \<in> set ?rows" "x = vi_UserID q" by (rule imageE)
    with sub have "q = row \<or> q \<in> set (vault_items d)" by (auto dest: subsetD)
    with own show "x \<in> vi_UserID ` set (vault_items d)" unfolding \<open>x = vi_UserID q\<close> by (metis imageI)
  qed
  with base have "vi_UserID ` set ?rows \<subseteq> u_ID ` set (users d)" by (rule order_trans [rotated])
  with ids oks assms(1) show ?thesis by (simp add: pg_inv_defs)
qed

section \<open>Interpretation of the contracts\<close>

definition pg_items :: "db \<Rightarrow> string \<Rightarrow> VaultItem option" where
  "pg_items d = row_of vi_ID (vault_items d)"

definition pg_sess :: "db \<Rightarrow> string \<Rightarrow> Session option" where
  "pg_sess d = row_of s_RefreshToken (sessions d)"

lemma pg_items_frame [simp]: "pg_items (sent d) = pg_items d"
  "pg_items (d\<lparr>audit_log := l\<rparr>) = pg_items d" "pg_items (d\<lparr>sessions := ss\<rparr>) = pg_items d"
  "pg_items (d\<lparr>users := us\<rparr>) = pg_items d" "pg_items (d\<lparr>mfa_totp := ts\<rparr>) = pg_items d"
  by (simp_all add: pg_items_def)

lemma vaultRepo_scanItem_Inr [simp]: "vaultRepo_scanItem m = Inr it \<longleftrightarrow> m = Inr (Some it)"
  by (auto simp: vaultRepo_scanItem_def split: sum.splits option.splits)

lemma vaultRepo_scanItem_NotFound [simp]:
  "vaultRepo_scanItem m = Inl (Sentinel ErrNotFound) \<longleftrightarrow> m = Inr None"
  by (auto simp: vaultRepo_scanItem_def split: sum.splits option.splits)

lemma select_item_pg_items:
  assumes "pg_inv d" and "select_item E k u d = Inr res"
  shows "\<exists>c uid. pg_parse_uuid E k = Some c \<and> pg_parse_uuid E u = Some uid \<and>
    res = (case pg_items d c of None \<Rightarrow> None | Some r \<Rightarrow> if vi_UserID r = uid then Some r else None)"
  using assms by (auto simp: select_item_Inr find_row_of pg_inv_def pg_items_def)

lemma pg_items_put:
  assumes "pg_items d (vi_ID row) = Some old"
  shows "pg_items (d\<lparr>vault_items := update_where (\<lambda>r. vi_ID r = vi_ID row) (\<lambda>_. row) (vault_items d)\<rparr>)
    = (pg_items d)(vi_ID row \<mapsto> row)"
proof (rule ext)
  fix k
  have "row_of vi_ID (update_where (\<lambda>r. vi_ID r = vi_ID row) (\<lambda>_. row) rows) k =
      map_option (\<lambda>r. if vi_ID r = vi_ID row then row else r) (row_of vi_ID rows k)" for rows
    unfolding row_of_def update_where_def by (induction rows) auto
  then show "pg_items (d\<lparr>vault_items := update_where (\<lambda>r. vi_ID r = vi_ID row) (\<lambda>_. row) (vault_items d)\<rparr>) k
    = ((pg_items d)(vi_ID row \<mapsto> row)) k"
    using assms by (cases "row_of vi_ID (vault_items d) k") (auto simp: pg_items_def dest: row_of_SomeD)
qed

lemma pg_items_remove:
  assumes "pg_inv d"
  shows "pg_items (d\<lparr>vault_items := filter (\<lambda>r. \<not> (vi_ID r = c \<and> vi_UserID r = uid)) (vault_items d)\<rparr>) =
    (\<lambda>k. case pg_items d k of None \<Rightarrow> None
      | Some r \<Rightarrow> if k = c \<and> vi_UserID r = uid then None else Some r)"
  using assms
  by (auto simp: pg_items_def pg_inv_def row_of_filter fun_eq_iff dest!: row_of_SomeD split: option.splits)

lemma vaultRepo_Create_ok:
  assumes "pg_inv d" and "vaultRepo_Create E it d = (Inr it', d')"
  shows "pg_inv d' \<and> pg_items d (vi_ID it') = None \<and>
    (\<exists>u. pg_parse_uuid E (vi_UserID it) = Some u \<and>
         pg_items d' = (pg_items d)(vi_ID it' \<mapsto> it'\<lparr>vi_UserID := u\<rparr>)) \<and>
    (\<exists>k c t. it' = it\<lparr>vi_ID := k, vi_Version := 1, vi_CreatedAt := c, vi_UpdatedAt := t\<rparr>)"
proof -
  obtain row where row: "insert_item E it d = Inr row"
    and it': "it' = it\<lparr>vi_ID := vi_ID row, vi_Version := vi_Version row,
      vi_CreatedAt := vi_CreatedAt row, vi_UpdatedAt := vi_UpdatedAt row\<rparr>"
    and d': "d' = (sent d)\<lparr>vault_items := vault_items d @ [row]\<rparr>"
    using assms(2) by (auto simp: vaultRepo_Create_def split: sum.splits)
  obtain u where u: "pg_parse_uuid E (vi_UserID it) = Some u"
    and r: "row = it'\<lparr>vi_UserID := u\<rparr>" and ver: "vi_Version row = 1"
    using row it' by (auto simp: insert_item_Inr)
  have new: "vi_ID row \<notin> vi_ID ` set (vault_items d)"
    using row by (simp add: insert_item_Inr)
  have "pg_items d' = (pg_items d)(vi_ID row \<mapsto> row)"
    using new by (simp add: pg_items_def d' row_of_append_new)
  moreover have "pg_items d (vi_ID row) = None"
    using new by (simp add: pg_items_def row_of_None_iff)
  moreover have "pg_inv d'" using pg_inv_add_item [OF assms(1) row] d' by simp
  moreover have "vi_ID it' = vi_ID row" by (simp add: it')
  moreover have "\<exists>k c t. it' = it\<lparr>vi_ID := k, vi_Version := 1, vi_CreatedAt := c, vi_UpdatedAt := t\<rparr>"
    using it' ver by metis
  ultimately show ?thesis using u r by metis
qed

lemma vaultRepo_Create_err:
  "pg_inv d \<Longrightarrow> vaultRepo_Create E it d = (Inl e, d') \<Longrightarrow> pg_inv d' \<and> pg_items d' = pg_items d"
  by (auto simp: vaultRepo_Create_def split: sum.splits)

lemma select_item_SomeD:
  assumes "pg_inv d" and "select_item E k u d = Inr (Some it)"
  shows "pg_parse_uuid E k = Some (vi_ID it) \<and> pg_parse_uuid E u = Some (vi_UserID it) \<and>
    pg_items d (vi_ID it) = Some it"
proof -
  from assms(2) obtain c uid where c: "pg_parse_uuid E k = Some c" "pg_parse_uuid E u = Some uid"
    "find (\<lambda>r. vi_ID r = c \<and> vi_UserID r = uid) (vault_items d) = Some it"
    unfolding select_item_Inr by blast
  have it: "it \<in> set (vault_items d)" "vi_ID it = c" "vi_UserID it = uid"
    using find_SomeD [OF c(3)] by auto
  have "distinct (map vi_ID (vault_items d))" using assms(1) by (simp add: pg_inv_def)
  from row_of_eqI [OF this it(1)] show ?thesis using c it by (simp add: pg_items_def)
qed

lemma vaultRepo_Get_ok:
  "pg_inv d \<Longrightarrow> vaultRepo_Get E k u d = (Inr it, d') \<Longrightarrow>
   pg_inv d' \<and> pg_items d' = pg_items d \<and> pg_items d (vi_ID it) = Some it \<and>
   pg_parse_uuid E k = Some (vi_ID it) \<and> pg_parse_uuid E u = Some (vi_UserID it)"
  using select_item_SomeD [of d E k u it] by (auto simp: vaultRepo_Get_def)

lemma vaultRepo_Get_not_found:
  "pg_inv d \<Longrightarrow> vaultRepo_Get E k u d = (Inl (Sentinel ErrNotFound), d') \<Longrightarrow>
   pg_parse_uuid E k = Some c \<Longrightarrow> pg_items d c = Some it \<Longrightarrow> pg_parse_uuid E u \<noteq> Some (vi_UserID it)"
  by (auto simp: vaultRepo_Get_def dest!: select_item_pg_items split: option.splits if_splits)

lemma vaultRepo_Update_ok:
  assumes "pg_inv d" and "vaultRepo_Update E it d = (Inr it', d')"
  shows "pg_inv d' \<and> pg_parse_uuid E (vi_ID it) = Some (vi_ID it') \<and>
    (\<exists>old t. pg_items d (vi_ID it') = Some old \<and> pg_parse_uuid E (vi_UserID it) = Some (vi_UserID old) \<and>
       it' = old\<lparr>vi_Payload := vi_Payload it, vi_Metadata := vi_Metadata it,
                 vi_Version := vi_Version old + 1, vi_UpdatedAt := t\<rparr>) \<and>
    pg_items d' = (pg_items d)(vi_ID it' \<mapsto> it')"
proof -
  have u: "update_item E it d = Inr (Some it')"
    and d': "d' = (sent d)\<lparr>vault_items :=
      update_where (\<lambda>r. vi_ID r = vi_ID it') (\<lambda>_. it') (vault_items d)\<rparr>"
    using assms(2) by (auto simp: vaultRepo_Update_def)
  then obtain r where sel: "select_item E (vi_ID it) (vi_UserID it) d = Inr (Some r)"
    and it': "it' = r\<lparr>vi_Payload := vi_Payload it, vi_Metadata := vi_Metadata it,
                 vi_Version := vi_Version r + 1, vi_UpdatedAt := pg_now E (qno d)\<rparr>"
    by (auto simp: update_item_Some)
  note c = select_item_SomeD [OF assms(1) sel]
  have same: "vi_ID it' = vi_ID r" "vi_UserID it' = vi_UserID r" by (simp_all add: it')
  have "pg_inv d'" using pg_inv_upd_item [OF assms(1) u] d' by simp
  moreover have "pg_items d' = (pg_items d)(vi_ID it' \<mapsto> it')"
    using pg_items_put [of "sent d" it' r] c same d' by simp
  moreover have "\<exists>old t. pg_items d (vi_ID it') = Some old \<and>
      pg_parse_uuid E (vi_UserID it) = Some (vi_UserID old) \<and>
      it' = old\<lparr>vi_Payload := vi_Payload it, vi_Metadata := vi_Metadata it,
                vi_Version := vi_Version old + 1, vi_UpdatedAt := t\<rparr>"
    by (rule exI [of _ r], rule exI [of _ "pg_now E (qno d)"]) (use c same it' in simp)
  ultimately show ?thesis using c same by simp
qed

lemma vaultRepo_Update_err:
  "pg_inv d \<Longrightarrow> vaultRepo_Update E it d = (Inl e, d') \<Longrightarrow> pg_inv d' \<and> pg_items d' = pg_items d"
  by (auto simp: vaultRepo_Update_def vaultRepo_scanItem_def split: sum.splits option.splits)

lemma vaultRepo_Delete_cases:
  assumes "pg_inv d" and "vaultRepo_Delete E k u d = (res, d')"
  shows "pg_inv d' \<and>
    (case res of Inl e \<Rightarrow> pg_items d' = pg_items d
     | Inr _ \<Rightarrow> \<exists>c old. pg_parse_uuid E k = Some c \<and> pg_items d c = Some old \<and>
         pg_parse_uuid E u = Some (vi_UserID old) \<and> pg_items d' = (pg_items d)(c := None))"
proof (cases "\<not> pg_fault E (qno d) \<and> pg_parse_uuid E k \<noteq> None \<and> pg_parse_uuid E u \<noteq> None")
  case False
  with assms show ?thesis
    by (auto simp: vaultRepo_Delete_def exec_def uuid_arg_def split: if_splits option.splits)
next
  case True
  then obtain c uid where c: "pg_parse_uuid E k = Some c" "pg_parse_uuid E u = Some uid" by auto
  let ?d' = "(sent d)\<lparr>vault_items := filter (\<lambda>r. \<not> (vi_ID r = c \<and> vi_UserID r = uid)) (vault_items d)\<rparr>"
  let ?hits = "filter (\<lambda>r. vi_ID r = c \<and> vi_UserID r = uid) (vault_items d)"
  have del: "vaultRepo_Delete E k u d =
      (if ?hits = [] then (Inl (Sentinel ErrNotFound), ?d') else (Inr (), ?d'))"
    using True c by (simp add: vaultRepo_Delete_def exec_def uuid_arg_def Let_def)
  have inv: "pg_inv ?d'" using assms(1) by (rule pg_inv_filter_items)
  have items: "pg_items ?d' = (\<lambda>k. case pg_items d k of None \<Rightarrow> None
      | Some r \<Rightarrow> if k = c \<and> vi_UserID r = uid then None else Some r)"
    using pg_items_remove [of "sent d" c uid] assms(1) by simp
  have dist: "distinct (map vi_ID (vault_items d))" using assms(1) by (simp add: pg_inv_def)
  show ?thesis
  proof (cases "?hits = []")
    case True
    then have "\<forall>r. pg_items d c = Some r \<longrightarrow> vi_UserID r \<noteq> uid"
      by (auto simp: pg_items_def filter_empty_conv dest!: row_of_SomeD)
    then have "pg_items ?d' = pg_items d"
      unfolding items by (auto simp: fun_eq_iff split: option.splits)
    with True del assms(2) inv show ?thesis by auto
  next
    case False
    then obtain r where r: "r \<in> set (vault_items d)" "vi_ID r = c" "vi_UserID r = uid"
      by (auto simp: filter_empty_conv)
    then have "pg_items d c = Some r" using row_of_eqI [OF dist r(1)] by (simp add: pg_items_def)
    moreover from this r have "pg_items ?d' = (pg_items d)(c := None)"
      unfolding items by (auto simp: fun_eq_iff split: option.splits)
    ultimately show ?thesis using False del assms(2) inv c r by auto
  qed
qed

lemma select_items_set:
  "select_items E u typ cur lim d = Inr its \<Longrightarrow>
   \<exists>uid. pg_parse_uuid E u = Some uid \<and> (\<forall>it \<in> set its. it \<in> set (vault_items d) \<and> vi_UserID it = uid)"
  by (auto simp: select_items_def sql_bind_Inr dest!: in_set_takeD)

lemma vaultRepo_List_ok:
  assumes "pg_inv d" and "vaultRepo_List E u f d = (Inr (its, cur), d')"
  shows "pg_inv d' \<and> pg_items d' = pg_items d \<and>
    (\<forall>it \<in> set its. pg_items d (vi_ID it) = Some it \<and> pg_parse_uuid E u = Some (vi_UserID it))"
proof -
  obtain rows lim where rows: "select_items E u (f_TypeFilter f) (f_Cursor f) lim d = Inr rows"
    and its: "set its \<subseteq> set (stream E d rows)" and d': "d' = sent d"
    using assms(2)
    by (auto simp: vaultRepo_List_def Let_def split: sum.splits if_splits dest: in_set_takeD)
  have dist: "distinct (map vi_ID (vault_items d))" using assms(1) by (simp add: pg_inv_def)
  have "it \<in> set its \<Longrightarrow> it \<in> set rows" for it
    using its set_stream [of E d rows] by blast
  with select_items_set [OF rows] have
    "\<forall>it \<in> set its. it \<in> set (vault_items d) \<and> pg_parse_uuid E u = Some (vi_UserID it)"
    by fastforce
  then show ?thesis using d' assms(1) row_of_eqI [OF dist] by (auto simp: pg_items_def)
qed

lemma vaultRepo_List_err:
  "pg_inv d \<Longrightarrow> vaultRepo_List E u f d = (Inl e, d') \<Longrightarrow> pg_inv d' \<and> pg_items d' = pg_items d"
  by (auto simp: vaultRepo_List_def Let_def split: sum.splits if_splits)

interpretation pgv: vault_store "DB_Vault E" "pg_parse_uuid E" pg_items pg_inv for E
proof (unfold_locales, goal_cases)
  case (1 s it it' s')
  then show ?case using vaultRepo_Create_ok [of s E it it' s'] by (simp add: DB_Vault_def)
next
  case (2 s it e s')
  then show ?case by (simp add: DB_Vault_def vaultRepo_Create_err)
next
  case (3 s k u it s')
  then show ?case by (simp add: DB_Vault_def vaultRepo_Get_ok)
next
  case (4 s k u e s')
  then show ?case by (auto simp: DB_Vault_def vaultRepo_Get_def)
next
  case (5 s k u s' c it)
  then show ?case by (simp add: DB_Vault_def vaultRepo_Get_not_found)
next
  case (6 s it it' s')
  then show ?case using vaultRepo_Update_ok [of s E it it' s'] by (simp add: DB_Vault_def)
next
  case (7 s it e s')
  then show ?case by (simp add: DB_Vault_def vaultRepo_Update_err)
next
  case (8 s k u s')
  then show ?case using vaultRepo_Delete_cases [of s E k u "Inr ()" s'] by (simp add: DB_Vault_def)
next
  case (9 s k u e s')
  then show ?case using vaultRepo_Delete_cases [of s E k u "Inl e" s'] by (simp add: DB_Vault_def)
next
  case (10 s u f its cur s')
  then show ?case using vaultRepo_List_ok [of s E u f its cur s'] by (simp add: DB_Vault_def)
next
  case (11 s u f e s')
  then show ?case by (simp add: DB_Vault_def vaultRepo_List_err)
qed


lemma pg_sess_frame [simp]: "pg_sess (sent d) = pg_sess d"
  "pg_sess (d\<lparr>audit_log := l\<rparr>) = pg_sess d" "pg_sess (d\<lparr>vault_items := vs\<rparr>) = pg_sess d"
  "pg_sess (d\<lparr>users := us\<rparr>) = pg_sess d" "pg_sess (d\<lparr>mfa_totp := ts\<rparr>) = pg_sess d"
  by (simp_all add: pg_sess_def)

lemma sessionRepo_Create_ok:
  assumes "pg_inv d" and "sessionRepo_Create E x d = (Inr x', d')"
  shows "pg_inv d' \<and> s_RefreshToken x' = s_RefreshToken x \<and> s_UserID x' = s_UserID x \<and>
    s_ExpiresAt x' = s_ExpiresAt x \<and> s_MFAVerified x' = s_MFAVerified x \<and>
    (\<exists>u. pg_sess d' = (pg_sess d)(s_RefreshToken x \<mapsto> x'\<lparr>s_UserID := u\<rparr>))"
proof -
  obtain row where row: "insert_session E x d = Inr row"
    and x': "x' = x\<lparr>s_ID := s_ID row, s_CreatedAt := s_CreatedAt row\<rparr>"
    and d': "d' = (sent d)\<lparr>sessions := sessions d @ [row]\<rparr>"
    using assms(2) by (auto simp: sessionRepo_Create_def split: sum.splits)
  obtain u where u: "row = x\<lparr>s_ID := pg_uuid E (qno d), s_UserID := u, s_CreatedAt := pg_now E (qno d)\<rparr>"
    and new: "s_RefreshToken row \<notin> s_RefreshToken ` set (sessions d)"
    using row unfolding insert_session_Inr by blast
  have tok: "s_RefreshToken row = s_RefreshToken x" and up: "row = x'\<lparr>s_UserID := u\<rparr>"
    by (simp_all add: u x')
  have "pg_sess d' = (pg_sess d)(s_RefreshToken x \<mapsto> row)"
    using row_of_append_new [OF new] by (simp add: pg_sess_def d' tok)
  moreover have "pg_inv d'" using pg_inv_add_session [OF assms(1) row] d' by simp
  ultimately show ?thesis unfolding up by (simp add: x') blast
qed

interpretation pgs: session_store "DB_Sessions E" pg_sess pg_inv for E
proof (unfold_locales, goal_cases)
  case (1 s x x' s')
  then show ?case using sessionRepo_Create_ok [of s E x x' s'] by (simp add: DB_Sessions_def)
next
  case (2 s x e s')
  then show ?case by (auto simp: DB_Sessions_def sessionRepo_Create_def split: sum.splits)
next
  case (3 s tok x s')
  then show ?case
    by (auto simp: DB_Sessions_def sessionRepo_GetByRefreshToken_def pg_sess_def
        split: sum.splits option.splits dest: row_of_SomeD)
next
  case (4 s tok e s')
  then show ?case
    by (auto simp: DB_Sessions_def sessionRepo_GetByRefreshToken_def split: sum.splits option.splits)
next
  case (5 s tok s')
  then have d': "s' = (sent s)\<lparr>sessions := filter (\<lambda>r. s_RefreshToken r \<noteq> tok) (sessions s)\<rparr>"
    by (auto simp: DB_Sessions_def sessionRepo_Delete_def split: sum.splits)
  have "distinct (map s_RefreshToken (sessions s))"
    using 5 by (simp add: pg_inv_defs)
  then have "pg_sess s' = (pg_sess s)(tok := None)"
    by (auto simp: d' pg_sess_def row_of_filter fun_eq_iff dest: row_of_SomeD split: option.splits)
  then show ?case using 5 pg_inv_filter_sessions d' by simp
next
  case (6 s tok e s')
  then show ?case by (auto simp: DB_Sessions_def sessionRepo_Delete_def split: sum.splits)
qed

lemma auditRepo_Append_cases:
  "auditRepo_Append E e d = (r, d') \<Longrightarrow>
   d' = sent d \<and> (\<exists>x. r = Inl x) \<or>
   r = Inr () \<and> (\<exists>uid. d' = (sent d)\<lparr>audit_log := audit_log d @ [e\<lparr>ae_UserID := uid\<rparr>]\<rparr>)"
  by (auto simp: auditRepo_Append_def split: sum.splits)

interpretation pga: audit_store "DB_Audit E" audit_log for E
  by unfold_locales (auto simp: DB_Audit_def dest!: auditRepo_Append_cases)

lemma auditRepo_Append_frame [frame_simps]:
  shows "users (snd (auditRepo_Append E e d)) = users d"
    and "sessions (snd (auditRepo_Append E e d)) = sessions d"
    and "vault_items (snd (auditRepo_Append E e d)) = vault_items d"
    and "mfa_totp (snd (auditRepo_Append E e d)) = mfa_totp d"
    and "pg_items (snd (auditRepo_Append E e d)) = pg_items d"
    and "pg_sess (snd (auditRepo_Append E e d)) = pg_sess d"
    and "pg_inv (snd (auditRepo_Append E e d)) = pg_inv d"
    and "qno (snd (auditRepo_Append E e d)) = Suc (qno d)"
  by (simp_all add: auditRepo_Append_def split: sum.splits)

interpretation pgav: audited_vault_store "DB_Vault E" "pg_parse_uuid E" pg_items pg_inv "DB_Audit E" for E
  by unfold_locales (simp_all add: DB_Audit_def frame_simps)

section \<open>Properties of the repositories\<close>

lemma pg_inv_totp:
  assumes "pg_inv d" and "distinct (map t_ID ts)" and "t_UserID ` set ts \<subseteq> u_ID ` set (users d)"
  shows "pg_inv ((sent d)\<lparr>mfa_totp := ts\<rparr>)"
  using assms by (simp add: pg_inv_defs)

lemma pg_inv_webauthn [simp]:
  "pg_inv (d\<lparr>mfa_webauthn := w\<rparr>) = pg_inv d" "pg_inv (d\<lparr>webauthn_sessions := ws\<rparr>) = pg_inv d"
  by (simp_all add: pg_inv_defs)

lemma mfaRepo_CreateTOTP_inv: "pg_inv d \<Longrightarrow> pg_inv (snd (mfaRepo_CreateTOTP E rec d))"
  by (auto simp: mfaRepo_CreateTOTP_def Let_def sql_bind_Inr pg_inv_defs split: sum.splits)

lemma mfaRepo_ConfirmTOTP_inv: "pg_inv d \<Longrightarrow> pg_inv (snd (mfaRepo_ConfirmTOTP E k d))"
  by (auto simp: mfaRepo_ConfirmTOTP_def set_update_where pg_inv_defs split: sum.splits)

lemma vaultRepo_Delete_inv: "pg_inv d \<Longrightarrow> pg_inv (snd (vaultRepo_Delete E k u d))"
  using vaultRepo_Delete_cases [of d E k u] by (metis surjective_pairing)

text \<open>
  The store as a transition system: from the empty tables, each step is one call of a
  repository method, in any order and with any arguments.
\<close>

inductive pg_step :: "pg_env \<Rightarrow> db \<Rightarrow> db \<Rightarrow> bool" for E where
  "pg_step E d (snd (userRepo_Create E u d))"
| "pg_step E d (snd (userRepo_GetByUsername E k d))"
| "pg_step E d (snd (userRepo_GetByID E k d))"
| "pg_step E d (snd (userRepo_SetMFARequired E k b d))"
| "pg_step E d (snd (sessionRepo_Create E s d))"
| "pg_step E d (snd (sessionRepo_GetByRefreshToken E k d))"
| "pg_step E d (snd (sessionRepo_SetMFAVerified E k d))"
| "pg_step E d (snd (sessionRepo_Delete E k d))"
| "pg_step E d (snd (sessionRepo_DeleteExpired E d))"
| "pg_step E d (snd (vaultRepo_Create E it d))"
| "pg_step E d (snd (vaultRepo_Get E k u d))"
| "pg_step E d (snd (vaultRepo_Update E it d))"
| "pg_step E d (snd (vaultRepo_Delete E k u d))"
| "pg_step E d (snd (vaultRepo_List E k f d))"
| "pg_step E d (snd (mfaRepo_CreateTOTP E rec d))"
| "pg_step E d (snd (mfaRepo_GetTOTPByID E k u d))"
| "pg_step E d (snd (mfaRepo_ConfirmTOTP E k d))"
| "pg_step E d (snd (mfaRepo_ListTOTP E k d))"
| "pg_step E d (snd (mfaRepo_CreateWebAuthnCredential E c d))"
| "pg_step E d (snd (mfaRepo_GetWebAuthnCredentials E k d))"
| "pg_step E d (snd (mfaRepo_UpdateWebAuthnSignCount E cid cnt d))"
| "pg_step E d (snd (mfaRepo_SaveWebAuthnSession E k j d))"
| "pg_step E d (snd (mfaRepo_GetWebAuthnSession E k d))"
| "pg_step E d (snd (mfaRepo_DeleteWebAuthnSession E k d))"
| "pg_step E d (snd (auditRepo_Append E e d))"

lemma read_only_inv:
  "pg_inv (snd (userRepo_GetByUsername E k d)) = pg_inv d"
  "pg_inv (snd (userRepo_GetByID E k d)) = pg_inv d"
  "pg_inv (snd (sessionRepo_GetByRefreshToken E k d)) = pg_inv d"
  "pg_inv (snd (vaultRepo_Get E k u d)) = pg_inv d"
  "pg_inv (snd (vaultRepo_List E k f d)) = pg_inv d"
  "pg_inv (snd (mfaRepo_GetTOTPByID E k u d)) = pg_inv d"
  "pg_inv (snd (mfaRepo_ListTOTP E k d)) = pg_inv d"
  "pg_inv (snd (mfaRepo_GetWebAuthnCredentials E k d)) = pg_inv d"
  "pg_inv (snd (mfaRepo_GetWebAuthnSession E k d)) = pg_inv d"
  by (auto simp: userRepo_GetByUsername_def userRepo_GetByID_def sessionRepo_GetByRefreshToken_def
      vaultRepo_Get_def vaultRepo_List_def mfaRepo_GetTOTPByID_def mfaRepo_ListTOTP_def
      mfaRepo_GetWebAuthnCredentials_def mfaRepo_GetWebAuthnSession_def Let_def
      split: sum.splits option.splits)

lemma webauthn_inv:
  "pg_inv (snd (mfaRepo_CreateWebAuthnCredential E c d)) = pg_inv d"
  "pg_inv (snd (mfaRepo_UpdateWebAuthnSignCount E cid cnt d)) = pg_inv d"
  "pg_inv (snd (mfaRepo_SaveWebAuthnSession E k j d)) = pg_inv d"
  "pg_inv (snd (mfaRepo_DeleteWebAuthnSession E k d)) = pg_inv d"
  by (auto simp: mfaRepo_CreateWebAuthnCredential_def mfaRepo_UpdateWebAuthnSignCount_def
      mfaRepo_SaveWebAuthnSession_def mfaRepo_DeleteWebAuthnSession_def split: sum.splits)

lemma user_ops_inv:
  assumes "pg_inv d"
  shows "pg_inv (snd (userRepo_Create E u d))" "pg_inv (snd (userRepo_SetMFARequired E k b d))"
  using assms pg_inv_add_user pg_inv_upd_users
  by (auto simp: userRepo_Create_def userRepo_SetMFARequired_def split: sum.splits)

lemma session_ops_inv:
  assumes "pg_inv d"
  shows "pg_inv (snd (sessionRepo_Create E s d))" "pg_inv (snd (sessionRepo_SetMFAVerified E k d))"
    "pg_inv (snd (sessionRepo_Delete E k d))" "pg_inv (snd (sessionRepo_DeleteExpired E d))"
  using assms pg_inv_add_session pg_inv_upd_sessions pg_inv_filter_sessions
  by (auto simp: sessionRepo_Create_def sessionRepo_SetMFAVerified_def sessionRepo_Delete_def
      sessionRepo_DeleteExpired_def split: sum.splits)

lemma vault_ops_inv:
  assumes "pg_inv d"
  shows "pg_inv (snd (vaultRepo_Create E it d))" "pg_inv (snd (vaultRepo_Update E it d))"
  using assms pg_inv_add_item pg_inv_upd_item
  by (auto simp: vaultRepo_Create_def vaultRepo_Update_def split: sum.splits option.splits)

lemmas repo_inv = read_only_inv webauthn_inv user_ops_inv session_ops_inv vault_ops_inv
  vaultRepo_Delete_inv mfaRepo_CreateTOTP_inv mfaRepo_ConfirmTOTP_inv auditRepo_Append_frame(7)

lemma pg_step_inv: "pg_step E d d' \<Longrightarrow> pg_inv d \<Longrightarrow> pg_inv d'"
  by (induction rule: pg_step.induct) (simp_all add: repo_inv)

interpretation pgts: transition_system "\<lambda>d. d = db_empty" "pg_step E" for E .

end
