(* ===== verification/MockStore.thy ===== *)
theory MockStore
  imports Storage "HOL-Library.AList"
begin

text \<open>
  The in-memory store of \<^verbatim>\<open>src/internal/testutil/mockstore.go\<close>, the second provider of
  the storage interfaces. A Go map is an association list; \<^verbatim>\<open>range\<close> visits it in list
  order, one of the orders Go may choose. Each method holds its mutex for its whole body, so
  it is one atomic step.
\<close>

record MockUsers =
  mu_ByUsername :: "(string \<times> User) list"
  mu_ByID :: "(string \<times> User) list"

record MockVault =
  mv_Items :: "(string \<times> VaultItem) list"
  mv_Seq :: nat

record MockStore =
  ms_Users :: MockUsers
  ms_Sessions :: "(string \<times> Session) list"
  ms_Vault :: MockVault
  ms_TOTPs :: "(string \<times> TOTPRecord) list"
  ms_Entries :: "AuditEntry list"

definition NewMockStore :: MockStore where
  "NewMockStore = \<lparr>ms_Users = \<lparr>mu_ByUsername = [], mu_ByID = []\<rparr>, ms_Sessions = [],
     ms_Vault = \<lparr>mv_Items = [], mv_Seq = 0\<rparr>, ms_TOTPs = [], ms_Entries = []\<rparr>"

text \<open>Reading an absent key of a Go map yields the zero value.\<close>

definition map_get :: "'v \<Rightarrow> (string \<times> 'v) list \<Rightarrow> string \<Rightarrow> 'v" where
  "map_get z m k = (case map_of m k of None \<Rightarrow> z | Some v \<Rightarrow> v)"

section \<open>Users\<close>

definition MockUsers_Create :: "User \<Rightarrow> MockStore \<Rightarrow> User result \<times> MockStore" where
  "MockUsers_Create u m =
     (if map_of (mu_ByUsername (ms_Users m)) (u_Username u) \<noteq> None then (Inl (Sentinel ErrConflict), m)
      else let u' = u\<lparr>u_ID := ''user-'' @ u_Username u\<rparr> in
        (Inr u', m\<lparr>ms_Users := \<lparr>mu_ByUsername = AList.update (u_Username u') u' (mu_ByUsername (ms_Users m)),
                               mu_ByID = AList.update (u_ID u') u' (mu_ByID (ms_Users m))\<rparr>\<rparr>))"

definition MockUsers_GetByUsername :: "string \<Rightarrow> MockStore \<Rightarrow> User result \<times> MockStore" where
  "MockUsers_GetByUsername username m =
     (case map_of (mu_ByUsername (ms_Users m)) username of
        None \<Rightarrow> (Inl (Sentinel ErrNotFound), m) | Some u \<Rightarrow> (Inr u, m))"

definition MockUsers_GetByID :: "string \<Rightarrow> MockStore \<Rightarrow> User result \<times> MockStore" where
  "MockUsers_GetByID k m =
     (case map_of (mu_ByID (ms_Users m)) k of
        None \<Rightarrow> (Inl (Sentinel ErrNotFound), m) | Some u \<Rightarrow> (Inr u, m))"

definition MockUsers_SetMFARequired :: "string \<Rightarrow> bool \<Rightarrow> MockStore \<Rightarrow> unit result \<times> MockStore" where
  "MockUsers_SetMFARequired userID required m =
     (let u = (map_get User_zero (mu_ByID (ms_Users m)) userID)\<lparr>u_MFARequired := required\<rparr> in
      (Inr (), m\<lparr>ms_Users := \<lparr>mu_ByUsername = AList.update (u_Username u) u (mu_ByUsername (ms_Users m)),
                              mu_ByID = AList.update userID u (mu_ByID (ms_Users m))\<rparr>\<rparr>))"

section \<open>Sessions\<close>

text \<open>The slice expression \<^verbatim>\<open>s.RefreshToken[:8]\<close> panics on a shorter token.\<close>

definition MockSessions_Create :: "Session \<Rightarrow> MockStore \<Rightarrow> Session result \<times> MockStore" where
  "MockSessions_Create s m =
     (if length (s_RefreshToken s) < 8 then (Inl (Panic ''slice bounds out of range''), m)
      else let s' = s\<lparr>s_ID := ''session-'' @ take 8 (s_RefreshToken s)\<rparr> in
        (Inr s', m\<lparr>ms_Sessions := AList.update (s_RefreshToken s) s' (ms_Sessions m)\<rparr>))"

definition MockSessions_GetByRefreshToken :: "string \<Rightarrow> MockStore \<Rightarrow> Session result \<times> MockStore" where
  "MockSessions_GetByRefreshToken token m =
     (case map_of (ms_Sessions m) token of
        None \<Rightarrow> (Inl (Sentinel ErrNotFound), m) | Some s \<Rightarrow> (Inr s, m))"

definition MockSessions_SetMFAVerified :: "string \<Rightarrow> MockStore \<Rightarrow> unit result \<times> MockStore" where
  "MockSessions_SetMFAVerified k m = (Inr (), m)"

definition MockSessions_Delete :: "string \<Rightarrow> MockStore \<Rightarrow> unit result \<times> MockStore" where
  "MockSessions_Delete token m = (Inr (), m\<lparr>ms_Sessions := AList.delete token (ms_Sessions m)\<rparr>)"

definition MockSessions_DeleteExpired :: "MockStore \<Rightarrow> unit result \<times> MockStore" where
  "MockSessions_DeleteExpired m = (Inr (), m)"

section \<open>Vault\<close>

definition mock_owned :: "MockStore \<Rightarrow> string \<Rightarrow> string \<Rightarrow> VaultItem option" where
  "mock_owned m k userID =
     (case map_of (mv_Items (ms_Vault m)) k of None \<Rightarrow> None
      | Some it \<Rightarrow> if vi_UserID it \<noteq> userID then None else Some it)"

definition MockVault_Create :: "VaultItem \<Rightarrow> MockStore \<Rightarrow> VaultItem result \<times> MockStore" where
  "MockVault_Create item m =
     (let seq = Suc (mv_Seq (ms_Vault m));
          item' = item\<lparr>vi_ID := ''item-'' @ itoa seq, vi_Version := 1\<rparr>
      in (Inr item', m\<lparr>ms_Vault := \<lparr>mv_Items = AList.update (vi_ID item') item' (mv_Items (ms_Vault m)),
                                    mv_Seq = seq\<rparr>\<rparr>))"

definition MockVault_Get :: "string \<Rightarrow> string \<Rightarrow> MockStore \<Rightarrow> VaultItem result \<times> MockStore" where
  "MockVault_Get k userID m =
     (case mock_owned m k userID of None \<Rightarrow> (Inl (Sentinel ErrNotFound), m) | Some it \<Rightarrow> (Inr it, m))"

definition MockVault_Update :: "VaultItem \<Rightarrow> MockStore \<Rightarrow> VaultItem result \<times> MockStore" where
  "MockVault_Update item m =
     (case mock_owned m (vi_ID item) (vi_UserID item) of
        None \<Rightarrow> (Inl (Sentinel ErrNotFound), m)
      | Some existing \<Rightarrow>
          (let e = existing\<lparr>vi_Payload := vi_Payload item, vi_Metadata := vi_Metadata item,
                           vi_Version := vi_Version existing + 1\<rparr>
           in (Inr e, m\<lparr>ms_Vault := (ms_Vault m)\<lparr>mv_Items :=
                 AList.update (vi_ID item) e (mv_Items (ms_Vault m))\<rparr>\<rparr>)))"

definition MockVault_Delete :: "string \<Rightarrow> string \<Rightarrow> MockStore \<Rightarrow> unit result \<times> MockStore" where
  "MockVault_Delete k userID m =
     (case mock_owned m k userID of
        None \<Rightarrow> (Inl (Sentinel ErrNotFound), m)
      | Some _ \<Rightarrow> (Inr (), m\<lparr>ms_Vault := (ms_Vault m)\<lparr>mv_Items := AList.delete k (mv_Items (ms_Vault m))\<rparr>\<rparr>))"

definition MockVault_List ::
  "string \<Rightarrow> ListFilter \<Rightarrow> MockStore \<Rightarrow> (VaultItem list \<times> string) result \<times> MockStore" where
  "MockVault_List userID f m =
     (Inr (filter (\<lambda>it. vi_UserID it = userID) (map snd (mv_Items (ms_Vault m))), []), m)"

section \<open>MFA and audit\<close>

definition MockMFA_CreateTOTP :: "TOTPRecord \<Rightarrow> MockStore \<Rightarrow> TOTPRecord result \<times> MockStore" where
  "MockMFA_CreateTOTP r m =
     (let r' = r\<lparr>t_ID := ''totp-'' @ t_UserID r\<rparr> in
      (Inr r', m\<lparr>ms_TOTPs := AList.update (t_ID r') r' (ms_TOTPs m)\<rparr>))"

definition MockMFA_GetTOTPByID :: "string \<Rightarrow> string \<Rightarrow> MockStore \<Rightarrow> TOTPRecord result \<times> MockStore" where
  "MockMFA_GetTOTPByID k userID m =
     (case map_of (ms_TOTPs m) k of
        None \<Rightarrow> (Inl (Sentinel ErrNotFound), m)
      | Some r \<Rightarrow> if t_UserID r \<noteq> userID then (Inl (Sentinel ErrNotFound), m) else (Inr r, m))"

definition MockMFA_ConfirmTOTP :: "string \<Rightarrow> MockStore \<Rightarrow> unit result \<times> MockStore" where
  "MockMFA_ConfirmTOTP k m =
     (Inr (), m\<lparr>ms_TOTPs := AList.update k ((map_get TOTPRecord_zero (ms_TOTPs m) k)\<lparr>t_Confirmed := True\<rparr>)
        (ms_TOTPs m)\<rparr>)"

definition MockMFA_ListTOTP :: "string \<Rightarrow> MockStore \<Rightarrow> TOTPRecord list result \<times> MockStore" where
  "MockMFA_ListTOTP userID m =
     (Inr (filter (\<lambda>r. t_UserID r = userID \<and> t_Confirmed r) (map snd (ms_TOTPs m))), m)"

definition MockAudit_Append :: "AuditEntry \<Rightarrow> MockStore \<Rightarrow> unit result \<times> MockStore" where
  "MockAudit_Append e m = (Inr (), m\<lparr>ms_Entries := ms_Entries m @ [e]\<rparr>)"

definition Mock_Users :: "MockStore Users" where
  "Mock_Users = \<lparr>Users_Create = MockUsers_Create, Users_GetByUsername = MockUsers_GetByUsername,
     Users_GetByID = MockUsers_GetByID, Users_SetMFARequired = MockUsers_SetMFARequired\<rparr>"

definition Mock_Sessions :: "MockStore Sessions" where
  "Mock_Sessions = \<lparr>Sessions_Create = MockSessions_Create,
     Sessions_GetByRefreshToken = MockSessions_GetByRefreshToken,
     Sessions_SetMFAVerified = MockSessions_SetMFAVerified, Sessions_Delete = MockSessions_Delete,
     Sessions_DeleteExpired = MockSessions_DeleteExpired\<rparr>"

definition Mock_Vault :: "MockStore Vault" where
  "Mock_Vault = \<lparr>Vault_Create = MockVault_Create, Vault_Get = MockVault_Get,
     Vault_Update = MockVault_Update, Vault_Delete = MockVault_Delete, Vault_List = MockVault_List\<rparr>"

text \<open>The WebAuthn methods of the mock are stubs.\<close>

definition Mock_MFA :: "MockStore MFA" where
  "Mock_MFA = \<lparr>MFA_CreateTOTP = MockMFA_CreateTOTP, MFA_GetTOTPByID = MockMFA_GetTOTPByID,
     MFA_ConfirmTOTP = MockMFA_ConfirmTOTP, MFA_ListTOTP = MockMFA_ListTOTP,
     MFA_CreateWebAuthnCredential = (\<lambda>_ m. (Inr (), m)),
     MFA_GetWebAuthnCredentials = (\<lambda>_ m. (Inr [], m)),
     MFA_UpdateWebAuthnSignCount = (\<lambda>_ _ m. (Inr (), m)),
     MFA_SaveWebAuthnSession = (\<lambda>_ _ m. (Inr ''s1'', m)),
     MFA_GetWebAuthnSession = (\<lambda>_ m. (Inr ''{}'', m)),
     MFA_DeleteWebAuthnSession = (\<lambda>_ m. (Inr (), m))\<rparr>"

definition Mock_Audit :: "MockStore Audit" where
  "Mock_Audit = \<lparr>Audit_Append = MockAudit_Append\<rparr>"

definition Mock_Store :: "MockStore Store" where
  "Mock_Store = \<lparr>Store_Users = Mock_Users, Store_Sessions = Mock_Sessions, Store_Vault = Mock_Vault,
     Store_MFA = Mock_MFA, Store_Audit = Mock_Audit\<rparr>"

section \<open>Interpretation of the contracts\<close>

text \<open>
  Items are stored under their own identifier, once each, and the sequence number has not
  reached the identifiers still to come.
\<close>

definition mock_inv :: "MockStore \<Rightarrow> bool" where
  "mock_inv m \<longleftrightarrow> distinct (map fst (mv_Items (ms_Vault m))) \<and>
     (\<forall>(k, it) \<in> set (mv_Items (ms_Vault m)). vi_ID it = k \<and>
        (\<exists>n \<le> mv_Seq (ms_Vault m). k = ''item-'' @ itoa n)) \<and>
     (\<forall>(tok, s) \<in> set (ms_Sessions m). s_RefreshToken s = tok)"

definition mock_items :: "MockStore \<Rightarrow> string \<Rightarrow> VaultItem option" where
  "mock_items m = map_of (mv_Items (ms_Vault m))"

lemma mock_inv_new [simp]: "mock_inv NewMockStore"
  by (simp add: mock_inv_def NewMockStore_def)

lemma mock_inv_entries [simp]: "mock_inv (m\<lparr>ms_Entries := es\<rparr>) = mock_inv m"
  by (simp add: mock_inv_def)

lemma mock_items_entries [simp]: "mock_items (m\<lparr>ms_Entries := es\<rparr>) = mock_items m"
  by (simp add: mock_items_def)

lemma mock_items_key: "mock_inv m \<Longrightarrow> mock_items m k = Some it \<Longrightarrow> vi_ID it = k"
  by (auto simp: mock_inv_def mock_items_def dest!: map_of_SomeD)

lemma mock_fresh: "mock_inv m \<Longrightarrow> mock_items m (''item-'' @ itoa (Suc (mv_Seq (ms_Vault m)))) = None"
  by (force simp: mock_inv_def mock_items_def map_of_eq_None_iff)

lemma set_AList_update: "set (AList.update k v al) \<subseteq> insert (k, v) (set al)"
  by (induction al) auto

lemma set_AList_delete: "set (AList.delete k al) \<subseteq> set al"
  by (auto simp: AList.delete_eq)

lemma mock_inv_put:
  assumes "mock_inv m" and "vi_ID it = k" and "n \<le> seq" and "k = ''item-'' @ itoa n"
    and "mv_Seq (ms_Vault m) \<le> seq"
  shows "mock_inv (m\<lparr>ms_Vault := \<lparr>mv_Items = AList.update k it (mv_Items (ms_Vault m)), mv_Seq = seq\<rparr>\<rparr>)"
proof -
  let ?ok = "\<lambda>n0 (k, it). vi_ID it = k \<and> (\<exists>n \<le> n0. k = ''item-'' @ itoa n)"
  have old: "?ok seq p" if "p \<in> set (mv_Items (ms_Vault m))" for p
  proof -
    have "?ok (mv_Seq (ms_Vault m)) p" using assms(1) that unfolding mock_inv_def by blast
    then show ?thesis using assms(5) le_trans by (cases p) blast
  qed
  have new: "?ok seq (k, it)" using assms(2-4) by blast
  have "\<forall>p \<in> set (AList.update k it (mv_Items (ms_Vault m))). ?ok seq p"
    using old new set_AList_update [of k it "mv_Items (ms_Vault m)"] by blast
  then show ?thesis
    using assms(1) unfolding mock_inv_def by (simp add: distinct_update)
qed

lemma mock_inv_remove:
  assumes "mock_inv m"
  shows "mock_inv (m\<lparr>ms_Vault := (ms_Vault m)\<lparr>mv_Items := AList.delete k (mv_Items (ms_Vault m))\<rparr>\<rparr>)"
proof -
  let ?ok = "\<lambda>(k, it). vi_ID it = k \<and> (\<exists>n \<le> mv_Seq (ms_Vault m). k = ''item-'' @ itoa n)"
  have "\<forall>p \<in> set (AList.delete k (mv_Items (ms_Vault m))). ?ok p"
    using assms set_AList_delete [of k "mv_Items (ms_Vault m)"] unfolding mock_inv_def by blast
  then show ?thesis
    using assms unfolding mock_inv_def by (simp add: distinct_delete)
qed

lemma mock_inv_sessions:
  assumes "mock_inv m" and "\<forall>(tok, s) \<in> set ss. s_RefreshToken s = tok"
  shows "mock_inv (m\<lparr>ms_Sessions := ss\<rparr>)"
  using assms unfolding mock_inv_def by simp

lemma mock_owned_Some:
  "mock_owned m k u = Some it \<longleftrightarrow> mock_items m k = Some it \<and> vi_UserID it = u"
  by (auto simp: mock_owned_def mock_items_def split: option.splits if_splits)

lemma mock_owned_None:
  "mock_owned m k u = None \<longleftrightarrow> (\<forall>it. mock_items m k = Some it \<longrightarrow> vi_UserID it \<noteq> u)"
  by (auto simp: mock_owned_def mock_items_def split: option.splits if_splits)

lemma MockVault_Update_ok:
  assumes "mock_inv m" and "MockVault_Update it m = (Inr it', m')"
  shows "mock_inv m' \<and> vi_ID it = vi_ID it' \<and>
    (\<exists>old t. mock_items m (vi_ID it') = Some old \<and> vi_UserID it = vi_UserID old \<and>
       it' = old\<lparr>vi_Payload := vi_Payload it, vi_Metadata := vi_Metadata it,
                 vi_Version := vi_Version old + 1, vi_UpdatedAt := t\<rparr>) \<and>
    mock_items m' = (mock_items m)(vi_ID it' \<mapsto> it')"
proof -
  obtain old where own: "mock_items m (vi_ID it) = Some old" "vi_UserID old = vi_UserID it"
    and it': "it' = old\<lparr>vi_Payload := vi_Payload it, vi_Metadata := vi_Metadata it,
                        vi_Version := vi_Version old + 1\<rparr>"
    and m': "m' = m\<lparr>ms_Vault := (ms_Vault m)\<lparr>mv_Items :=
                 AList.update (vi_ID it) it' (mv_Items (ms_Vault m))\<rparr>\<rparr>"
    using assms(2) by (auto simp: MockVault_Update_def Let_def mock_owned_Some split: option.splits)
  have id: "vi_ID old = vi_ID it" using mock_items_key [OF assms(1) own(1)] .
  obtain n where n: "n \<le> mv_Seq (ms_Vault m)" "vi_ID it = ''item-'' @ itoa n"
    using assms(1) own(1) by (auto simp: mock_inv_def mock_items_def dest!: map_of_SomeD)
  have "m' = m\<lparr>ms_Vault := \<lparr>mv_Items = AList.update (vi_ID it) it' (mv_Items (ms_Vault m)),
                            mv_Seq = mv_Seq (ms_Vault m)\<rparr>\<rparr>"
    by (simp add: m')
  then have "mock_inv m'" using mock_inv_put [OF assms(1) _ n] id it' by simp
  moreover have "mock_items m' = (mock_items m)(vi_ID it \<mapsto> it')"
    by (simp add: m' mock_items_def update_conv')
  moreover have "it' = old\<lparr>vi_Payload := vi_Payload it, vi_Metadata := vi_Metadata it,
                 vi_Version := vi_Version old + 1, vi_UpdatedAt := vi_UpdatedAt old\<rparr>"
    by (simp add: it')
  moreover have "vi_ID it' = vi_ID it" by (simp add: it' id)
  ultimately show ?thesis using own by metis
qed

interpretation mockv: audited_vault_store Mock_Vault Some mock_items mock_inv Mock_Audit
proof (unfold_locales, goal_cases)
  case (1 s it it' s')
  then have s': "s' = s\<lparr>ms_Vault := \<lparr>mv_Items = AList.update (vi_ID it') it' (mv_Items (ms_Vault s)),
                                    mv_Seq = Suc (mv_Seq (ms_Vault s))\<rparr>\<rparr>"
    and it': "it' = it\<lparr>vi_ID := ''item-'' @ itoa (Suc (mv_Seq (ms_Vault s))), vi_Version := 1\<rparr>"
    by (auto simp: Mock_Vault_def MockVault_Create_def Let_def)
  have "mock_items s' = (mock_items s)(vi_ID it' \<mapsto> it')"
    by (simp add: s' mock_items_def update_conv')
  moreover have "mock_inv s'"
    unfolding s' by (rule mock_inv_put [OF 1(1), of _ _ "Suc (mv_Seq (ms_Vault s))"]) (simp_all add: it')
  moreover have "mock_items s (vi_ID it') = None" using mock_fresh [OF 1(1)] by (simp add: it')
  moreover have "it' = it\<lparr>vi_ID := vi_ID it', vi_Version := 1, vi_CreatedAt := vi_CreatedAt it,
      vi_UpdatedAt := vi_UpdatedAt it\<rparr>" "it' = it'\<lparr>vi_UserID := vi_UserID it\<rparr>"
    by (simp_all add: it')
  ultimately show ?case by metis
next
  case (2 s it e s')
  then show ?case by (simp add: Mock_Vault_def MockVault_Create_def Let_def)
next
  case (3 s k u it s')
  then show ?case using mock_items_key
    by (auto simp: Mock_Vault_def MockVault_Get_def mock_owned_Some split: option.splits)
next
  case (4 s k u e s')
  then show ?case by (auto simp: Mock_Vault_def MockVault_Get_def split: option.splits)
next
  case (5 s k u s' c it)
  then show ?case
    by (auto simp: Mock_Vault_def MockVault_Get_def mock_owned_None split: option.splits)
next
  case (6 s it it' s')
  then show ?case using MockVault_Update_ok [of s it it' s'] by (simp add: Mock_Vault_def)
next
  case (7 s it e s')
  then show ?case by (auto simp: Mock_Vault_def MockVault_Update_def Let_def split: option.splits)
next
  case (8 s k u s')
  then obtain it where "mock_owned s k u = Some it"
    and s': "s' = s\<lparr>ms_Vault := (ms_Vault s)\<lparr>mv_Items := AList.delete k (mv_Items (ms_Vault s))\<rparr>\<rparr>"
    by (auto simp: Mock_Vault_def MockVault_Delete_def split: option.splits)
  then show ?case using mock_inv_remove [OF 8(1), of k]
    by (auto simp: mock_owned_Some mock_items_def delete_conv')
next
  case (9 s k u e s')
  then show ?case by (auto simp: Mock_Vault_def MockVault_Delete_def split: option.splits)
next
  case (10 s u f its cur s')
  then have "s' = s" "its = filter (\<lambda>it. vi_UserID it = u) (map snd (mv_Items (ms_Vault s)))"
    by (auto simp: Mock_Vault_def MockVault_List_def)
  moreover have "map_of (mv_Items (ms_Vault s)) (vi_ID it) = Some it"
    if "(k, it) \<in> set (mv_Items (ms_Vault s))" for k it
    using 10(1) that by (auto simp: mock_inv_def)
  ultimately show ?case using 10(1) by (auto simp: mock_items_def)
next
  case (11 s u f e s')
  then show ?case by (simp add: Mock_Vault_def MockVault_List_def)
next
  case (12 e s)
  then show ?case by (simp add: Mock_Audit_def MockAudit_Append_def)
next
  case (13 s e)
  then show ?case by (simp add: Mock_Audit_def MockAudit_Append_def)
qed

interpretation mocks: session_store Mock_Sessions "\<lambda>m. map_of (ms_Sessions m)" mock_inv
proof (unfold_locales, goal_cases)
  case (1 s x x' s')
  then have s': "s' = s\<lparr>ms_Sessions := AList.update (s_RefreshToken x) x' (ms_Sessions s)\<rparr>"
    and x': "x' = x\<lparr>s_ID := ''session-'' @ take 8 (s_RefreshToken x)\<rparr>"
    by (auto simp: Mock_Sessions_def MockSessions_Create_def Let_def split: if_splits)
  have "mock_inv s'"
  proof -
    have "\<forall>(tok, y) \<in> set (ms_Sessions s). s_RefreshToken y = tok"
      using 1(1) unfolding mock_inv_def by blast
    moreover have "s_RefreshToken x' = s_RefreshToken x" by (simp add: x')
    ultimately have "\<forall>(tok, y) \<in> set (AList.update (s_RefreshToken x) x' (ms_Sessions s)). s_RefreshToken y = tok"
      using set_AList_update [of "s_RefreshToken x" x' "ms_Sessions s"] by blast
    then show ?thesis unfolding s' using 1(1) mock_inv_sessions by blast
  qed
  moreover have "x'\<lparr>s_UserID := s_UserID x\<rparr> = x'" by (simp add: x')
  ultimately show ?case by (auto simp: s' x' update_conv' intro: exI [of _ "s_UserID x"])
next
  case (2 s x e s')
  then show ?case by (auto simp: Mock_Sessions_def MockSessions_Create_def Let_def split: if_splits)
next
  case (3 s tok x s')
  then show ?case
    by (auto simp: Mock_Sessions_def MockSessions_GetByRefreshToken_def mock_inv_def
        dest!: map_of_SomeD split: option.splits)
next
  case (4 s tok e s')
  then show ?case
    by (auto simp: Mock_Sessions_def MockSessions_GetByRefreshToken_def split: option.splits)
next
  case (5 s tok s')
  then have s': "s' = s\<lparr>ms_Sessions := AList.delete tok (ms_Sessions s)\<rparr>"
    by (simp add: Mock_Sessions_def MockSessions_Delete_def)
  have "\<forall>(tok, y) \<in> set (AList.delete tok (ms_Sessions s)). s_RefreshToken y = tok"
    using 5(1) set_AList_delete [of tok "ms_Sessions s"] unfolding mock_inv_def by blast
  then show ?case unfolding s' using mock_inv_sessions 5(1) by (simp add: delete_conv')
next
  case (6 s tok e s')
  then show ?case by (simp add: Mock_Sessions_def MockSessions_Delete_def)
qed

interpretation mocka: audit_store Mock_Audit ms_Entries
  by unfold_locales (auto simp: Mock_Audit_def MockAudit_Append_def)

end
