(* ===== verification/VaultSvc.thy ===== *)
theory VaultSvc
  imports Services Postgres MockStore
begin

text \<open>
  The vault service of \<^verbatim>\<open>src/internal/server/service/vault.go\<close>: the repository call, the
  audit entry, the notification of the subscribers. Its guarantees are proved once, in the
  contract \<open>audited_vault_store\<close>, and reach both stores through their interpretations.
\<close>

definition on_sync :: "(SyncService \<Rightarrow> SyncService result) \<Rightarrow> 's world \<Rightarrow> unit result \<times> 's world" where
  "on_sync f w = (case f (w_sync w) of Inl e \<Rightarrow> (Inl e, w) | Inr st \<Rightarrow> (Inr (), w\<lparr>w_sync := st\<rparr>))"

definition VaultService_Create ::
  "svc_env \<Rightarrow> 's Store \<Rightarrow> req_ctx \<Rightarrow> string \<Rightarrow> string \<Rightarrow> bytes \<Rightarrow> string \<Rightarrow> 's world \<Rightarrow> VaultItem result \<times> 's world" where
  "VaultService_Create env S ctx userID itemType payload metadata w =
     (case on_store (Vault_Create (Store_Vault S) (VaultItem_zero\<lparr>vi_UserID := userID, vi_Type := itemType,
             vi_Payload := payload, vi_Metadata := metadata\<rparr>)) w of
        (Inl e, w1) \<Rightarrow> (Inl (fmt_Errorf ''vault create: %w'' e), w1)
      | (Inr item, w1) \<Rightarrow>
          (let w2 = VaultService_logAudit env S ctx userID ActionVaultCreate
                      [(''item_id'', DStr (vi_ID item)), (''type'', DStr itemType), (''metadata'', DStr metadata)] w1
           in case on_sync (NotifyUpsert userID item) w2 of
                (Inl e, w3) \<Rightarrow> (Inl e, w3) | (Inr _, w3) \<Rightarrow> (Inr item, w3)))"

definition VaultService_Get ::
  "svc_env \<Rightarrow> 's Store \<Rightarrow> req_ctx \<Rightarrow> string \<Rightarrow> string \<Rightarrow> 's world \<Rightarrow> VaultItem result \<times> 's world" where
  "VaultService_Get env S ctx k userID w =
     (case on_store (Vault_Get (Store_Vault S) k userID) w of
        (Inl e, w1) \<Rightarrow> (Inl e, w1)
      | (Inr item, w1) \<Rightarrow>
          (Inr item, VaultService_logAudit env S ctx userID ActionVaultRead
             [(''item_id'', DStr k), (''metadata'', DStr (vi_Metadata item))] w1))"

definition VaultService_Update ::
  "svc_env \<Rightarrow> 's Store \<Rightarrow> req_ctx \<Rightarrow> string \<Rightarrow> string \<Rightarrow> bytes \<Rightarrow> string \<Rightarrow> 's world \<Rightarrow> VaultItem result \<times> 's world" where
  "VaultService_Update env S ctx k userID payload metadata w =
     (case on_store (Vault_Update (Store_Vault S) (VaultItem_zero\<lparr>vi_ID := k, vi_UserID := userID,
             vi_Payload := payload, vi_Metadata := metadata\<rparr>)) w of
        (Inl e, w1) \<Rightarrow> (Inl (fmt_Errorf ''vault update: %w'' e), w1)
      | (Inr item, w1) \<Rightarrow>
          (let w2 = VaultService_logAudit env S ctx userID ActionVaultUpdate
                      [(''item_id'', DStr k), (''metadata'', DStr metadata)] w1
           in case on_sync (NotifyUpsert userID item) w2 of
                (Inl e, w3) \<Rightarrow> (Inl e, w3) | (Inr _, w3) \<Rightarrow> (Inr item, w3)))"

definition VaultService_Delete ::
  "svc_env \<Rightarrow> 's Store \<Rightarrow> req_ctx \<Rightarrow> string \<Rightarrow> string \<Rightarrow> 's world \<Rightarrow> unit result \<times> 's world" where
  "VaultService_Delete env S ctx k userID w =
     (case on_store (Vault_Delete (Store_Vault S) k userID) w of
        (Inl e, w1) \<Rightarrow> (Inl e, w1)
      | (Inr _, w1) \<Rightarrow>
          (let w2 = VaultService_logAudit env S ctx userID ActionVaultDelete [(''item_id'', DStr k)] w1
           in on_sync (NotifyDelete userID k) w2))"

definition VaultService_List ::
  "svc_env \<Rightarrow> 's Store \<Rightarrow> req_ctx \<Rightarrow> string \<Rightarrow> ListFilter \<Rightarrow> 's world \<Rightarrow> (VaultItem list \<times> string) result \<times> 's world" where
  "VaultService_List env S ctx userID f w =
     (case on_store (Vault_List (Store_Vault S) userID f) w of
        (Inl e, w1) \<Rightarrow> (Inl e, w1)
      | (Inr (items, cursor), w1) \<Rightarrow>
          (Inr (items, cursor), VaultService_logAudit env S ctx userID ActionVaultList
             [(''count'', DInt (int (length items)))] w1))"

lemmas VaultService_defs = VaultService_Create_def VaultService_Get_def VaultService_Update_def
  VaultService_Delete_def VaultService_List_def

section \<open>Frames\<close>

definition audit_entry :: "svc_env \<Rightarrow> req_ctx \<Rightarrow> string \<Rightarrow> string \<Rightarrow> string \<Rightarrow> detail \<Rightarrow> 's world \<Rightarrow> AuditEntry" where
  "audit_entry env ctx userID action res detail w = AuditEntry_zero\<lparr>ae_UserID := userID, ae_Action := action,
     ae_Result := res, ae_CreatedAt := ev_clock env (w_clk w), ae_IP := svc_peerIP ctx, ae_Detail := detail\<rparr>"

lemma logAudit_eq:
  "VaultService_logAudit env S ctx u a d w = w\<lparr>w_clk := Suc (w_clk w), w_store :=
     snd (Audit_Append (Store_Audit S) (audit_entry env ctx u a ResultOK (Some d) w) (w_store w))\<rparr>"
  "AuthService_logAudit env S ctx u a r w = w\<lparr>w_clk := Suc (w_clk w), w_store :=
     snd (Audit_Append (Store_Audit S) (audit_entry env ctx u a r None w) (w_store w))\<rparr>"
  "MFAService_logAudit env S ctx u a r w = w\<lparr>w_clk := Suc (w_clk w), w_store :=
     snd (Audit_Append (Store_Audit S) (audit_entry env ctx u a r None w) (w_store w))\<rparr>"
  by (simp_all add: VaultService_logAudit_def AuthService_logAudit_def MFAService_logAudit_def audit_New_def
      append_entry_def on_store_def time_Now_def audit_entry_def AuditEntry_zero_def case_prod_beta)

text \<open>What an operation does to the store: the repository call, and an audit entry when it succeeded.\<close>

definition then_log :: "'s Store \<Rightarrow> AuditEntry \<Rightarrow> 'a result \<times> 's \<Rightarrow> 's" where
  "then_log S e p = (case p of (Inl _, s) \<Rightarrow> s | (Inr _, s) \<Rightarrow> snd (Audit_Append (Store_Audit S) e s))"

lemma on_sync_store [frame_simps]: "w_store (snd (on_sync f w)) = w_store w"
  by (simp add: on_sync_def split: sum.splits)

lemma service_store:
  "\<exists>e. w_store (snd (VaultService_Create env S ctx u typ p m w)) =
     then_log S e (Vault_Create (Store_Vault S) (VaultItem_zero\<lparr>vi_UserID := u, vi_Type := typ,
       vi_Payload := p, vi_Metadata := m\<rparr>) (w_store w))"
  "\<exists>e. w_store (snd (VaultService_Get env S ctx k u w)) = then_log S e (Vault_Get (Store_Vault S) k u (w_store w))"
  "\<exists>e. w_store (snd (VaultService_Update env S ctx k u p m w)) =
     then_log S e (Vault_Update (Store_Vault S) (VaultItem_zero\<lparr>vi_ID := k, vi_UserID := u,
       vi_Payload := p, vi_Metadata := m\<rparr>) (w_store w))"
  "\<exists>e. w_store (snd (VaultService_Delete env S ctx k u w)) = then_log S e (Vault_Delete (Store_Vault S) k u (w_store w))"
  "\<exists>e. w_store (snd (VaultService_List env S ctx u f w)) = then_log S e (Vault_List (Store_Vault S) u f (w_store w))"
  unfolding VaultService_defs on_store_def on_sync_def then_log_def logAudit_eq Let_def
  by (auto split: prod.splits sum.splits)

context audited_vault_store
begin

lemma then_log_frame:
  assumes "Store_Audit S = A" and "inv s'" and "q = (r, s')"
  shows "inv (then_log S e q)" and "items (then_log S e q) = items s'"
  using assms append_inv append_items by (auto simp: then_log_def split: sum.splits)

lemma isolated_one:
  assumes "Store_Audit S = A" and "\<exists>e. w_store w' = then_log S e q" and "q = (r, s')" and "inv s'"
    and "not_of c (items s') = not_of c (items s)"
  shows "inv (w_store w') \<and> not_of c (items (w_store w')) = not_of c (items s)"
  using assms then_log_frame [OF assms(1) assms(4,3)] by auto

lemma same_one:
  assumes "Store_Audit S = A" and "\<exists>e. w_store w' = then_log S e q" and "q = (r, s')" and "inv s'"
  shows "items (w_store w') = items s'"
  using assms then_log_frame [OF assms(1) assms(4,3)] by auto

lemma svc_isolated:
  assumes "Store_Vault S = V" and "Store_Audit S = A" and "inv (w_store w)"
    and "w' = snd (VaultService_Create env S ctx u typ p m w) \<or> w' = snd (VaultService_Get env S ctx k u w) \<or>
      w' = snd (VaultService_Update env S ctx k u p m w) \<or> w' = snd (VaultService_Delete env S ctx k u w) \<or>
      w' = snd (VaultService_List env S ctx u f w)"
  shows "inv (w_store w') \<and> not_of (canon u) (items (w_store w')) = not_of (canon u) (items (w_store w))"
  using assms(4)
proof (elim disjE)
  let ?it = "VaultItem_zero\<lparr>vi_UserID := u, vi_Type := typ, vi_Payload := p, vi_Metadata := m\<rparr>"
  assume w': "w' = snd (VaultService_Create env S ctx u typ p m w)"
  obtain r s' where q: "Vault_Create V ?it (w_store w) = (r, s')" by fastforce
  show ?thesis using isolated_one [OF assms(2) service_store(1) q [folded assms(1)]]
      create_isolated [OF assms(3) q] unfolding w' by simp
next
  assume w': "w' = snd (VaultService_Get env S ctx k u w)"
  obtain r s' where q: "Vault_Get V k u (w_store w) = (r, s')" by fastforce
  show ?thesis using isolated_one [OF assms(2) service_store(2) q [folded assms(1)]]
      get_frame [OF assms(3) q] unfolding w' by simp
next
  let ?it = "VaultItem_zero\<lparr>vi_ID := k, vi_UserID := u, vi_Payload := p, vi_Metadata := m\<rparr>"
  assume w': "w' = snd (VaultService_Update env S ctx k u p m w)"
  obtain r s' where q: "Vault_Update V ?it (w_store w) = (r, s')" by fastforce
  show ?thesis using isolated_one [OF assms(2) service_store(3) q [folded assms(1)]]
      update_isolated [OF assms(3) q] unfolding w' by simp
next
  assume w': "w' = snd (VaultService_Delete env S ctx k u w)"
  obtain r s' where q: "Vault_Delete V k u (w_store w) = (r, s')" by fastforce
  show ?thesis using isolated_one [OF assms(2) service_store(4) q [folded assms(1)]]
      delete_isolated [OF assms(3) q] unfolding w' by simp
next
  assume w': "w' = snd (VaultService_List env S ctx u f w)"
  obtain r s' where q: "Vault_List V u f (w_store w) = (r, s')" by fastforce
  show ?thesis using isolated_one [OF assms(2) service_store(5) q [folded assms(1)]]
      list_frame [OF assms(3) q] unfolding w' by simp
qed

text \<open>What a read returns is stored under its identifier and belongs to the caller.\<close>

lemma svc_get_owned:
  assumes "Store_Vault S = V" and "inv (w_store w)" and "VaultService_Get env S ctx k u w = (Inr it, w')"
  shows "items (w_store w) (vi_ID it) = Some it \<and> canon k = Some (vi_ID it) \<and> canon u = Some (vi_UserID it)"
proof -
  have "\<exists>s'. Vault_Get V k u (w_store w) = (Inr it, s')"
    using assms(1,3) by (auto simp: VaultService_Get_def on_store_def split: prod.splits sum.splits)
  then show ?thesis using get_ok [OF assms(2)] by blast
qed

lemma svc_list_owned:
  assumes "Store_Vault S = V" and "inv (w_store w)" and "VaultService_List env S ctx u f w = (Inr (its, cur), w')"
  shows "\<forall>it \<in> set its. items (w_store w) (vi_ID it) = Some it \<and> canon u = Some (vi_UserID it)"
proof -
  have "\<exists>s'. Vault_List V u f (w_store w) = (Inr (its, cur), s')"
    using assms(1,3) by (auto simp: VaultService_List_def on_store_def split: prod.splits sum.splits)
  then show ?thesis using list_ok [OF assms(2)] by blast
qed

text \<open>A created or updated item is stored with the payload and the metadata of the call.\<close>

lemma svc_create_stored:
  assumes "Store_Vault S = V" and "Store_Audit S = A" and "inv (w_store w)"
    and "VaultService_Create env S ctx u typ p m w = (Inr it, w')"
  shows "inv (w_store w') \<and> items (w_store w) (vi_ID it) = None \<and>
    (\<exists>c. canon u = Some c \<and> items (w_store w') = (items (w_store w))(vi_ID it \<mapsto> it\<lparr>vi_UserID := c\<rparr>)) \<and>
    vi_UserID it = u \<and> vi_Type it = typ \<and> vi_Payload it = p \<and> vi_Metadata it = m \<and> vi_Version it = 1"
proof -
  let ?it = "VaultItem_zero\<lparr>vi_UserID := u, vi_Type := typ, vi_Payload := p, vi_Metadata := m\<rparr>"
  obtain s' where q: "Vault_Create V ?it (w_store w) = (Inr it, s')"
    using assms(1,4) unfolding VaultService_Create_def on_store_def Let_def
    by (simp split: prod.splits sum.splits)
  have w': "w' = snd (VaultService_Create env S ctx u typ p m w)" using assms(4) by simp
  note ok = create_ok [OF assms(3) q]
  have "items (w_store w') = items s'"
    using same_one [OF assms(2) service_store(1) q [folded assms(1)]] ok unfolding w' by blast
  moreover have "inv (w_store w')" using svc_isolated [OF assms(1-3)] w' by blast
  ultimately show ?thesis using ok by auto
qed

lemma svc_update_stored:
  assumes "Store_Vault S = V" and "Store_Audit S = A" and "inv (w_store w)"
    and "VaultService_Update env S ctx k u p m w = (Inr it, w')"
  shows "inv (w_store w') \<and> canon k = Some (vi_ID it) \<and> items (w_store w') = (items (w_store w))(vi_ID it \<mapsto> it) \<and>
    (\<exists>old t. items (w_store w) (vi_ID it) = Some old \<and> canon u = Some (vi_UserID old) \<and>
       it = old\<lparr>vi_Payload := p, vi_Metadata := m, vi_Version := vi_Version old + 1, vi_UpdatedAt := t\<rparr>)"
proof -
  let ?it = "VaultItem_zero\<lparr>vi_ID := k, vi_UserID := u, vi_Payload := p, vi_Metadata := m\<rparr>"
  obtain s' where q: "Vault_Update V ?it (w_store w) = (Inr it, s')"
    using assms(1,4) unfolding VaultService_Update_def on_store_def Let_def
    by (simp split: prod.splits sum.splits)
  have w': "w' = snd (VaultService_Update env S ctx k u p m w)" using assms(4) by simp
  note ok = update_ok [OF assms(3) q]
  have "items (w_store w') = items s'"
    using same_one [OF assms(2) service_store(3) q [folded assms(1)]] ok unfolding w' by blast
  moreover have "inv (w_store w')" using svc_isolated [OF assms(1-3)] w' by blast
  ultimately show ?thesis using ok by simp
qed

end

end
