(* ===== verification/Handlers.thy ===== *)
theory Handlers
  imports Middleware VaultSvc
begin

text \<open>
  The gRPC handlers of \<^verbatim>\<open>src/internal/server/handler\<close>: they read the user from the
  context, call the service and turn its error into a status. Messages are records with the
  fields of the protobuf definitions; an enum value the schema does not name is
  \<open>OtherType\<close>.
\<close>

definition status_of :: "(rpc_err + 'p) \<Rightarrow> err \<Rightarrow> rpc_err + 'p" where
  "status_of r e = (case e of Panic m \<Rightarrow> Inl (Crash m) | _ \<Rightarrow> r)"

definition userIDFromCtx :: "req_ctx \<Rightarrow> string option" where
  "userIDFromCtx ctx = UserIDFromContext ctx"

section \<open>auth.go\<close>

record RegisterRequest =
  rq_Username :: string
  rq_Email :: string
  rq_Password :: string
  rq_VaultSymKey :: bytes
  rq_KdfParamsJson :: string

record LoginResponse =
  lp_AccessToken :: string
  lp_RefreshToken :: string
  lp_NeedsMfa :: bool
  lp_SessionId :: string
  lp_KdfParamsJson :: string
  lp_VaultSymKey :: bytes

definition AuthHandler_Register ::
  "svc_env \<Rightarrow> 's Store \<Rightarrow> req_ctx \<Rightarrow> RegisterRequest \<Rightarrow> 's world \<Rightarrow> (rpc_err + string) \<times> 's world" where
  "AuthHandler_Register env S ctx req w =
     (case AuthService_Register env S ctx \<lparr>ri_Username = rq_Username req, ri_Email = rq_Email req,
             ri_Password = rq_Password req, ri_VaultSymKey = rq_VaultSymKey req,
             ri_KDFParamsJSON = rq_KdfParamsJson req\<rparr> w of
        (Inl e, w1) \<Rightarrow>
          (if errors_Is e ErrUserExists then (Inl (StatusErr AlreadyExists ''user already exists''), w1)
           else (status_of (Inl (StatusErr Internal ''registration failed'')) e, w1))
      | (Inr userID, w1) \<Rightarrow> (Inr userID, w1))"

definition AuthHandler_Login ::
  "svc_env \<Rightarrow> 's Store \<Rightarrow> jwt_Config \<Rightarrow> req_ctx \<Rightarrow> string \<Rightarrow> string \<Rightarrow> 's world \<Rightarrow> (rpc_err + LoginResponse) \<times> 's world" where
  "AuthHandler_Login env S cfg ctx username password w =
     (case AuthService_Login env S cfg ctx username password w of
        (Inl e, w1) \<Rightarrow>
          (if errors_Is e ErrInvalidCredentials then (Inl (StatusErr Unauthenticated ''invalid credentials''), w1)
           else (status_of (Inl (StatusErr Internal ''login failed'')) e, w1))
      | (Inr r, w1) \<Rightarrow>
          (Inr \<lparr>lp_AccessToken = lr_AccessToken r, lp_RefreshToken = lr_RefreshToken r,
                lp_NeedsMfa = lr_NeedsMFA r, lp_SessionId = lr_SessionID r,
                lp_KdfParamsJson = lr_KDFParamsJSON r, lp_VaultSymKey = lr_VaultSymKey r\<rparr>, w1))"

definition AuthHandler_Refresh ::
  "svc_env \<Rightarrow> 's Store \<Rightarrow> jwt_Config \<Rightarrow> req_ctx \<Rightarrow> string \<Rightarrow> 's world \<Rightarrow> (rpc_err + string) \<times> 's world" where
  "AuthHandler_Refresh env S cfg ctx refreshToken w =
     (case AuthService_Refresh env S cfg ctx refreshToken w of
        (Inl e, w1) \<Rightarrow> (status_of (Inl (StatusErr Unauthenticated ''invalid refresh token'')) e, w1)
      | (Inr tok, w1) \<Rightarrow> (Inr tok, w1))"

definition AuthHandler_Logout ::
  "svc_env \<Rightarrow> 's Store \<Rightarrow> req_ctx \<Rightarrow> string \<Rightarrow> 's world \<Rightarrow> (rpc_err + unit) \<times> 's world" where
  "AuthHandler_Logout env S ctx refreshToken w =
     (case userIDFromCtx ctx of
        None \<Rightarrow> (Inl (StatusErr Unauthenticated ''unauthenticated''), w)
      | Some userID \<Rightarrow>
          (let (r, w1) = AuthService_Logout env S ctx userID refreshToken w
           in case r of Inl (Panic m) \<Rightarrow> (Inl (Crash m), w1) | _ \<Rightarrow> (Inr (), w1)))"

definition AuthHandler_EnrollTOTP ::
  "svc_env \<Rightarrow> 's Store \<Rightarrow> string \<Rightarrow> req_ctx \<Rightarrow> string \<Rightarrow> 's world \<Rightarrow> (rpc_err + EnrollTOTPResult) \<times> 's world" where
  "AuthHandler_EnrollTOTP env S issuer ctx label w =
     (case userIDFromCtx ctx of
        None \<Rightarrow> (Inl (StatusErr Unauthenticated ''unauthenticated''), w)
      | Some userID \<Rightarrow>
          (case MFAService_EnrollTOTP env S issuer userID label w of
             (Inl e, w1) \<Rightarrow> (status_of (Inl (StatusErr Internal ''enroll totp failed'')) e, w1)
           | (Inr r, w1) \<Rightarrow> (Inr r, w1)))"

definition AuthHandler_ConfirmTOTP ::
  "svc_env \<Rightarrow> 's Store \<Rightarrow> req_ctx \<Rightarrow> string \<Rightarrow> string \<Rightarrow> 's world \<Rightarrow> (rpc_err + bool) \<times> 's world" where
  "AuthHandler_ConfirmTOTP env S ctx totpID code w =
     (case userIDFromCtx ctx of
        None \<Rightarrow> (Inl (StatusErr Unauthenticated ''unauthenticated''), w)
      | Some userID \<Rightarrow>
          (case MFAService_ConfirmTOTP env S ctx userID totpID code w of
             (Inl e, w1) \<Rightarrow> (status_of (Inr False) e, w1)
           | (Inr _, w1) \<Rightarrow> (Inr True, w1)))"

definition AuthHandler_VerifyMFA ::
  "svc_env \<Rightarrow> 's Store \<Rightarrow> jwt_Config \<Rightarrow> req_ctx \<Rightarrow> string \<Rightarrow> string \<Rightarrow> 's world \<Rightarrow> (rpc_err + string \<times> string) \<times> 's world" where
  "AuthHandler_VerifyMFA env S cfg ctx sessionID code w =
     (case userIDFromCtx ctx of
        None \<Rightarrow> (Inl (StatusErr Unauthenticated ''unauthenticated''), w)
      | Some userID \<Rightarrow>
          (case MFAService_VerifyTOTP env S cfg ctx \<lparr>vm_SessionID = sessionID, vm_TOTPCode = code,
                  vm_UserID = userID\<rparr> w of
             (Inl e, w1) \<Rightarrow>
               (if errors_Is e ErrMFAInvalid then (Inl (StatusErr Unauthenticated ''invalid MFA code''), w1)
                else (status_of (Inl (StatusErr Internal ''mfa verification failed'')) e, w1))
           | (Inr toks, w1) \<Rightarrow> (Inr toks, w1)))"

section \<open>vault.go\<close>

datatype ItemType = ItemType_UNSPECIFIED | ItemType_CREDENTIAL | ItemType_TEXT | ItemType_BINARY | ItemType_CARD | ItemType_OTP | OtherType int

definition itemTypeName :: "ItemType \<Rightarrow> string" where
  "itemTypeName t = (case t of ItemType_CREDENTIAL \<Rightarrow> ''credential'' | ItemType_TEXT \<Rightarrow> ''text'' | ItemType_BINARY \<Rightarrow> ''binary''
     | ItemType_CARD \<Rightarrow> ''card'' | ItemType_OTP \<Rightarrow> ''otp'' | _ \<Rightarrow> [])"

definition toProtoItemType :: "string \<Rightarrow> ItemType" where
  "toProtoItemType s =
     (if s = ''credential'' then ItemType_CREDENTIAL else if s = ''text'' then ItemType_TEXT
      else if s = ''binary'' then ItemType_BINARY else if s = ''card'' then ItemType_CARD
      else if s = ''otp'' then ItemType_OTP else ItemType_UNSPECIFIED)"

record pb_VaultItem =
  pb_Id :: string
  pb_UserId :: string
  pb_Type :: ItemType
  pb_Payload :: bytes
  pb_Metadata :: string
  pb_Version :: int
  pb_CreatedAt :: time
  pb_UpdatedAt :: time

definition toProtoItem :: "VaultItem \<Rightarrow> pb_VaultItem" where
  "toProtoItem item = \<lparr>pb_Id = vi_ID item, pb_UserId = vi_UserID item, pb_Type = toProtoItemType (vi_Type item),
     pb_Payload = vi_Payload item, pb_Metadata = vi_Metadata item, pb_Version = vi_Version item,
     pb_CreatedAt = vi_CreatedAt item, pb_UpdatedAt = vi_UpdatedAt item\<rparr>"

definition VaultHandler_CreateItem ::
  "svc_env \<Rightarrow> 's Store \<Rightarrow> req_ctx \<Rightarrow> ItemType \<Rightarrow> bytes \<Rightarrow> string \<Rightarrow> 's world \<Rightarrow> (rpc_err + pb_VaultItem) \<times> 's world" where
  "VaultHandler_CreateItem env S ctx typ payload metadata w =
     (case userIDFromCtx ctx of
        None \<Rightarrow> (Inl (StatusErr Unauthenticated ''unauthenticated''), w)
      | Some userID \<Rightarrow>
          (case VaultService_Create env S ctx userID (itemTypeName typ) payload metadata w of
             (Inl e, w1) \<Rightarrow> (status_of (Inl (StatusErr Internal ''create item failed'')) e, w1)
           | (Inr item, w1) \<Rightarrow> (Inr (toProtoItem item), w1)))"

definition VaultHandler_GetItem ::
  "svc_env \<Rightarrow> 's Store \<Rightarrow> req_ctx \<Rightarrow> string \<Rightarrow> 's world \<Rightarrow> (rpc_err + pb_VaultItem) \<times> 's world" where
  "VaultHandler_GetItem env S ctx k w =
     (case userIDFromCtx ctx of
        None \<Rightarrow> (Inl (StatusErr Unauthenticated ''unauthenticated''), w)
      | Some userID \<Rightarrow>
          (case VaultService_Get env S ctx k userID w of
             (Inl e, w1) \<Rightarrow>
               (if errors_Is e ErrNotFound then (Inl (StatusErr NotFound ''item not found''), w1)
                else (status_of (Inl (StatusErr Internal ''get item failed'')) e, w1))
           | (Inr item, w1) \<Rightarrow> (Inr (toProtoItem item), w1)))"

definition VaultHandler_UpdateItem ::
  "svc_env \<Rightarrow> 's Store \<Rightarrow> req_ctx \<Rightarrow> string \<Rightarrow> bytes \<Rightarrow> string \<Rightarrow> 's world \<Rightarrow> (rpc_err + pb_VaultItem) \<times> 's world" where
  "VaultHandler_UpdateItem env S ctx k payload metadata w =
     (case userIDFromCtx ctx of
        None \<Rightarrow> (Inl (StatusErr Unauthenticated ''unauthenticated''), w)
      | Some userID \<Rightarrow>
          (case VaultService_Update env S ctx k userID payload metadata w of
             (Inl e, w1) \<Rightarrow>
               (if errors_Is e ErrNotFound then (Inl (StatusErr NotFound ''item not found''), w1)
                else (status_of (Inl (StatusErr Internal ''update item failed'')) e, w1))
           | (Inr item, w1) \<Rightarrow> (Inr (toProtoItem item), w1)))"

definition VaultHandler_DeleteItem ::
  "svc_env \<Rightarrow> 's Store \<Rightarrow> req_ctx \<Rightarrow> string \<Rightarrow> 's world \<Rightarrow> (rpc_err + unit) \<times> 's world" where
  "VaultHandler_DeleteItem env S ctx k w =
     (case userIDFromCtx ctx of
        None \<Rightarrow> (Inl (StatusErr Unauthenticated ''unauthenticated''), w)
      | Some userID \<Rightarrow>
          (case VaultService_Delete env S ctx k userID w of
             (Inl e, w1) \<Rightarrow>
               (if errors_Is e ErrNotFound then (Inl (StatusErr NotFound ''item not found''), w1)
                else (status_of (Inl (StatusErr Internal ''delete item failed'')) e, w1))
           | (Inr _, w1) \<Rightarrow> (Inr (), w1)))"

definition VaultHandler_ListItems ::
  "svc_env \<Rightarrow> 's Store \<Rightarrow> req_ctx \<Rightarrow> ItemType \<Rightarrow> 32 word \<Rightarrow> string \<Rightarrow> 's world \<Rightarrow> (rpc_err + pb_VaultItem list \<times> string) \<times> 's world" where
  "VaultHandler_ListItems env S ctx typeFilter limit cursor w =
     (case userIDFromCtx ctx of
        None \<Rightarrow> (Inl (StatusErr Unauthenticated ''unauthenticated''), w)
      | Some userID \<Rightarrow>
          (case VaultService_List env S ctx userID \<lparr>f_TypeFilter = itemTypeName typeFilter,
                  f_Limit = sint limit, f_Cursor = cursor\<rparr> w of
             (Inl e, w1) \<Rightarrow> (status_of (Inl (StatusErr Internal ''list items failed'')) e, w1)
           | (Inr (items, next), w1) \<Rightarrow> (Inr (map toProtoItem items, next), w1)))"

section \<open>sync.go\<close>

datatype pb_SyncEvent = PbUpsert pb_VaultItem | PbDelete string | PbUnset

definition storageItemToProto :: "VaultItem \<Rightarrow> pb_VaultItem" where
  "storageItemToProto item = \<lparr>pb_Id = vi_ID item, pb_UserId = vi_UserID item, pb_Type = ItemType_UNSPECIFIED,
     pb_Payload = vi_Payload item, pb_Metadata = vi_Metadata item, pb_Version = vi_Version item,
     pb_CreatedAt = vi_CreatedAt item, pb_UpdatedAt = vi_UpdatedAt item\<rparr>"

text \<open>Later entries of the client's list overwrite earlier ones with the same identifier.\<close>

definition known_versions :: "(string \<times> int) list \<Rightarrow> string \<Rightarrow> int option" where
  "known_versions kvs = map_of (rev kvs)"

definition wants :: "(string \<Rightarrow> int option) \<Rightarrow> VaultItem \<Rightarrow> bool" where
  "wants known item = (case known (vi_ID item) of None \<Rightarrow> True | Some v \<Rightarrow> vi_Version item > v)"

text \<open>
  The catch-up phase of \<^verbatim>\<open>Subscribe\<close>. \<open>send\<close> gives the error of the \<open>n\<close>-th
  \<^verbatim>\<open>stream.Send\<close>, if it fails; the result is what was sent, and the error that ended it.
\<close>

fun send_missing ::
  "(nat \<Rightarrow> rpc_err option) \<Rightarrow> (string \<Rightarrow> int option) \<Rightarrow> VaultItem list \<Rightarrow> nat \<Rightarrow> pb_SyncEvent list \<times> rpc_err option" where
  "send_missing send known [] n = ([], None)"
| "send_missing send known (item # items) n =
     (if wants known item
      then (case send n of
              Some e \<Rightarrow> ([], Some e)
            | None \<Rightarrow> (let (evs, e) = send_missing send known items (Suc n)
                       in (PbUpsert (storageItemToProto item) # evs, e)))
      else send_missing send known items n)"

definition toProtoEvent :: "SyncEvent \<Rightarrow> rpc_err + pb_SyncEvent" where
  "toProtoEvent evt =
     (if se_Type evt = ''upsert''
      then (case se_Item evt of None \<Rightarrow> Inl (Crash ''nil pointer dereference'')
            | Some item \<Rightarrow> Inr (PbUpsert (storageItemToProto item)))
      else if se_Type evt = ''delete'' then Inr (PbDelete (se_DeletedID evt)) else Inr PbUnset)"

text \<open>
  The live phase: each entry of the schedule is one \<^verbatim>\<open>select\<close> that finds the context
  done, or the channel ready. A closed channel is ready once it is drained.
\<close>

datatype select_case = CtxDone | ChanReady

fun live_loop ::
  "(nat \<Rightarrow> rpc_err option) \<Rightarrow> nat \<Rightarrow> select_case list \<Rightarrow> nat \<Rightarrow> SyncService \<Rightarrow> pb_SyncEvent list \<times> rpc_err option \<times> SyncService" where
  "live_loop send ch [] n st = ([], None, st)"
| "live_loop send ch (CtxDone # sel) n st = ([], None, st)"
| "live_loop send ch (ChanReady # sel) n st =
     (case chan_recv ch st of
        None \<Rightarrow> if ch_closed (sy_chans st ! ch) then ([], None, st) else live_loop send ch sel n st
      | Some (evt, st') \<Rightarrow>
          (case toProtoEvent evt of
             Inl e \<Rightarrow> ([], Some e, st')
           | Inr pb \<Rightarrow>
               (case send n of
                  Some e \<Rightarrow> ([], Some e, st')
                | None \<Rightarrow> (let (evs, e, st'') = live_loop send ch sel (Suc n) st' in (pb # evs, e, st'')))))"

definition SyncHandler_catch_up ::
  "svc_env \<Rightarrow> 's Store \<Rightarrow> (nat \<Rightarrow> rpc_err option) \<Rightarrow> req_ctx \<Rightarrow> (string \<times> int) list \<Rightarrow> 's world \<Rightarrow>
   pb_SyncEvent list \<times> rpc_err option \<times> 's world" where
  "SyncHandler_catch_up env S send ctx kvs w =
     (case userIDFromCtx ctx of
        None \<Rightarrow> ([], Some (StatusErr Unauthenticated ''unauthenticated''), w)
      | Some userID \<Rightarrow>
          (case VaultService_List env S ctx userID (ListFilter_zero\<lparr>f_Limit := 1000\<rparr>) w of
             (Inl e, w1) \<Rightarrow> ([], Some (StatusErr Internal ''list items failed''), w1)
           | (Inr (items, _), w1) \<Rightarrow>
               (let (evs, e) = send_missing send (known_versions kvs) items 0
                in (evs, e, w1))))"

text \<open>The whole handler; the deferred cleanup runs on every way out of the live phase.\<close>

definition SyncHandler_Subscribe ::
  "svc_env \<Rightarrow> 's Store \<Rightarrow> (nat \<Rightarrow> nat) \<Rightarrow> (nat \<Rightarrow> rpc_err option) \<Rightarrow> select_case list \<Rightarrow> req_ctx \<Rightarrow>
   (string \<times> int) list \<Rightarrow> 's world \<Rightarrow> pb_SyncEvent list \<times> rpc_err option \<times> 's world" where
  "SyncHandler_Subscribe env S grow send sel ctx kvs w =
     (case SyncHandler_catch_up env S send ctx kvs w of
        (evs, Some e, w1) \<Rightarrow> (evs, Some e, w1)
      | (evs, None, w1) \<Rightarrow>
          (let userID = the (userIDFromCtx ctx);
               (ch, st1) = SyncService_Subscribe grow userID (w_sync w1);
               (evs', e, st2) = live_loop send ch sel (length evs) st1
           in case cleanup_sub userID ch st2 of
                Inl (Panic m) \<Rightarrow> (evs @ evs', Some (Crash m), w1\<lparr>w_sync := st2\<rparr>)
              | Inl _ \<Rightarrow> (evs @ evs', None, w1\<lparr>w_sync := st2\<rparr>)
              | Inr st3 \<Rightarrow> (evs @ evs', e, w1\<lparr>w_sync := st3\<rparr>)))"

end
