(* ===== verification/App.thy ===== *)
theory App
  imports Handlers
begin

text \<open>
  The assembled server: \<^verbatim>\<open>src/internal/server/config/config.go\<close> and
  \<^verbatim>\<open>src/internal/server/app/app.go\<close>. A unary call passes the rate limiter, the request
  log and the token check, in this order, before the registered handler runs; the stream
  call passes the token check only.
\<close>

section \<open>Configuration\<close>

record server_Config =
  sc_ServerAddr :: string
  sc_DatabaseURL :: string
  sc_JWTSecret :: bytes
  sc_TLSCertFile :: string
  sc_TLSKeyFile :: string
  sc_LogLevel :: string
  sc_AccessTokenTTL :: time
  sc_RefreshTokenTTL :: time
  sc_WebAuthnRPID :: string
  sc_WebAuthnRPOrigin :: string

definition os_Getenv :: "(string \<Rightarrow> string option) \<Rightarrow> string \<Rightarrow> string" where
  "os_Getenv environ k = (case environ k of None \<Rightarrow> [] | Some v \<Rightarrow> v)"

definition getEnv :: "(string \<Rightarrow> string option) \<Rightarrow> string \<Rightarrow> string \<Rightarrow> string" where
  "getEnv environ k fallback = (case environ k of Some v \<Rightarrow> v | None \<Rightarrow> fallback)"

definition server_Load :: "(string \<Rightarrow> string option) \<Rightarrow> server_Config result" where
  "server_Load environ =
     (let secret = os_Getenv environ ''JWT_SECRET'';
          dbURL = os_Getenv environ ''DATABASE_URL'';
          tlsCertFile = os_Getenv environ ''TLS_CERT_FILE'';
          tlsKeyFile = os_Getenv environ ''TLS_KEY_FILE''
      in if secret = [] then Inl (ErrText ''JWT_SECRET is required'')
         else if length secret < 32 then Inl (ErrText ''JWT_SECRET must be at least 32 characters'')
         else if dbURL = [] then Inl (ErrText ''DATABASE_URL is required'')
         else if tlsCertFile = [] then Inl (ErrText ''TLS_CERT_FILE is required'')
         else if tlsKeyFile = [] then Inl (ErrText ''TLS_KEY_FILE is required'')
         else Inr \<lparr>sc_ServerAddr = getEnv environ ''SERVER_ADDR'' '':50051'', sc_DatabaseURL = dbURL,
                   sc_JWTSecret = secret, sc_TLSCertFile = tlsCertFile, sc_TLSKeyFile = tlsKeyFile,
                   sc_LogLevel = getEnv environ ''LOG_LEVEL'' ''info'',
                   sc_AccessTokenTTL = 15 * minute, sc_RefreshTokenTTL = 30 * 24 * hour,
                   sc_WebAuthnRPID = getEnv environ ''WEBAUTHN_RP_ID'' ''localhost'',
                   sc_WebAuthnRPOrigin = getEnv environ ''WEBAUTHN_RP_ORIGIN'' ''https://localhost''\<rparr>)"

section \<open>Dispatch\<close>

datatype webauthn_rpc = BeginWebAuthnRegister | FinishWebAuthnRegister | BeginWebAuthnLogin | FinishWebAuthnLogin

fun webauthn_name :: "webauthn_rpc \<Rightarrow> string" where
  "webauthn_name BeginWebAuthnRegister = ''BeginWebAuthnRegister''"
| "webauthn_name FinishWebAuthnRegister = ''FinishWebAuthnRegister''"
| "webauthn_name BeginWebAuthnLogin = ''BeginWebAuthnLogin''"
| "webauthn_name FinishWebAuthnLogin = ''FinishWebAuthnLogin''"

datatype rpc_req =
    RRegister RegisterRequest | RLogin string string | RRefresh string | RLogout string
  | REnrollTOTP string | RConfirmTOTP string string | RVerifyMFA string string | RWebAuthn webauthn_rpc
  | RCreateItem ItemType bytes string | RGetItem string | RUpdateItem string bytes string
  | RDeleteItem string | RListItems ItemType "32 word" string

datatype rpc_resp =
    PRegister string | PLogin LoginResponse | PRefresh string | PLogout
  | PEnrollTOTP EnrollTOTPResult | PConfirmTOTP bool | PVerifyMFA string string
  | PCreateItem pb_VaultItem | PGetItem pb_VaultItem | PUpdateItem pb_VaultItem
  | PDeleteItem | PListItems "pb_VaultItem list" string

fun full_method :: "rpc_req \<Rightarrow> string" where
  "full_method (RRegister _) = ''/auth.AuthService/Register''"
| "full_method (RLogin _ _) = ''/auth.AuthService/Login''"
| "full_method (RRefresh _) = ''/auth.AuthService/Refresh''"
| "full_method (RLogout _) = ''/auth.AuthService/Logout''"
| "full_method (REnrollTOTP _) = ''/auth.AuthService/EnrollTOTP''"
| "full_method (RConfirmTOTP _ _) = ''/auth.AuthService/ConfirmTOTP''"
| "full_method (RVerifyMFA _ _) = ''/auth.AuthService/VerifyMFA''"
| "full_method (RWebAuthn m) = ''/auth.AuthService/'' @ webauthn_name m"
| "full_method (RCreateItem _ _ _) = ''/vault.VaultService/CreateItem''"
| "full_method (RGetItem _) = ''/vault.VaultService/GetItem''"
| "full_method (RUpdateItem _ _ _) = ''/vault.VaultService/UpdateItem''"
| "full_method (RDeleteItem _) = ''/vault.VaultService/DeleteItem''"
| "full_method (RListItems _ _ _) = ''/vault.VaultService/ListItems''"

definition map_resp :: "('a \<Rightarrow> 'b) \<Rightarrow> (rpc_err + 'a) \<times> 'w \<Rightarrow> (rpc_err + 'b) \<times> 'w" where
  "map_resp f p = (case p of (Inl e, w) \<Rightarrow> (Inl e, w) | (Inr x, w) \<Rightarrow> (Inr (f x), w))"

text \<open>
  The registered handlers. The WebAuthn methods of the schema are not implemented: they fall
  through to the generated base type, which answers \<^verbatim>\<open>Unimplemented\<close>.
\<close>

fun dispatch_rpc ::
  "svc_env \<Rightarrow> 's Store \<Rightarrow> jwt_Config \<Rightarrow> req_ctx \<Rightarrow> rpc_req \<Rightarrow> 's world \<Rightarrow> (rpc_err + rpc_resp) \<times> 's world" where
  "dispatch_rpc env S cfg ctx (RRegister q) w = map_resp PRegister (AuthHandler_Register env S ctx q w)"
| "dispatch_rpc env S cfg ctx (RLogin u p) w = map_resp PLogin (AuthHandler_Login env S cfg ctx u p w)"
| "dispatch_rpc env S cfg ctx (RRefresh t) w = map_resp PRefresh (AuthHandler_Refresh env S cfg ctx t w)"
| "dispatch_rpc env S cfg ctx (RLogout t) w = map_resp (\<lambda>_. PLogout) (AuthHandler_Logout env S ctx t w)"
| "dispatch_rpc env S cfg ctx (REnrollTOTP l) w =
     map_resp PEnrollTOTP (AuthHandler_EnrollTOTP env S ''GophKeeper'' ctx l w)"
| "dispatch_rpc env S cfg ctx (RConfirmTOTP k c) w = map_resp PConfirmTOTP (AuthHandler_ConfirmTOTP env S ctx k c w)"
| "dispatch_rpc env S cfg ctx (RVerifyMFA s c) w =
     map_resp (\<lambda>(a, r). PVerifyMFA a r) (AuthHandler_VerifyMFA env S cfg ctx s c w)"
| "dispatch_rpc env S cfg ctx (RWebAuthn m) w = 
     (Inl (StatusErr Unimplemented (''method '' @ webauthn_name m @ '' not implemented'')), w)"
| "dispatch_rpc env S cfg ctx (RCreateItem t p m) w = map_resp PCreateItem (VaultHandler_CreateItem env S ctx t p m w)"
| "dispatch_rpc env S cfg ctx (RGetItem k) w = map_resp PGetItem (VaultHandler_GetItem env S ctx k w)"
| "dispatch_rpc env S cfg ctx (RUpdateItem k p m) w = map_resp PUpdateItem (VaultHandler_UpdateItem env S ctx k p m w)"
| "dispatch_rpc env S cfg ctx (RDeleteItem k) w = map_resp (\<lambda>_. PDeleteItem) (VaultHandler_DeleteItem env S ctx k w)"
| "dispatch_rpc env S cfg ctx (RListItems t l c) w =
     map_resp (\<lambda>(its, cur). PListItems its cur) (VaultHandler_ListItems env S ctx t l c w)"

definition serve_unary ::
  "'l rate_lib \<Rightarrow> svc_env \<Rightarrow> 's Store \<Rightarrow> jwt_Config \<Rightarrow> ('s, 'l, rpc_req, rpc_resp) handler" where
  "serve_unary R env S cfg ctx req =
     RateLimiter_UnaryInterceptor R env (full_method req)
       (LoggingInterceptor env (full_method req)
         (AuthInterceptor env cfg (full_method req)
           (\<lambda>ctx' req' sv. on_world (dispatch_rpc env S cfg ctx' req') sv))) ctx req"

text \<open>
  \<^verbatim>\<open>app.New\<close>: the pool and the certificate are opened, the token lifetimes of the
  configuration replace the defaults, and all components start empty.
\<close>

definition App_jwt_cfg :: "server_Config \<Rightarrow> jwt_Config" where
  "App_jwt_cfg cfg = (DefaultConfig (sc_JWTSecret cfg))\<lparr>jc_AccessTokenTTL := sc_AccessTokenTTL cfg,
     jc_RefreshTokenTTL := sc_RefreshTokenTTL cfg\<rparr>"

definition App_New ::
  "(string \<Rightarrow> 's result) \<Rightarrow> (string \<Rightarrow> string \<Rightarrow> unit result) \<Rightarrow> server_Config \<Rightarrow> (jwt_Config \<times> ('s, 'l) server) result" where
  "App_New connect loadX509 cfg =
     (case connect (sc_DatabaseURL cfg) of
        Inl e \<Rightarrow> Inl (fmt_Errorf ''connect postgres: %w'' e)
      | Inr d \<Rightarrow>
          (case loadX509 (sc_TLSCertFile cfg) (sc_TLSKeyFile cfg) of
             Inl e \<Rightarrow> Inl (fmt_Errorf ''load tls: %w'' e)
           | Inr _ \<Rightarrow> Inr (App_jwt_cfg cfg,
               \<lparr>sv_world = \<lparr>w_store = d, w_clk = 0, w_rnd = 0, w_sync = NewSyncService\<rparr>,
                sv_rl = NewRateLimiter 5 10, sv_log = []\<rparr>)))"

section \<open>The path of a call\<close>

lemma public_iff:
  "full_method req \<in> set publicMethods \<longleftrightarrow>
     (case req of RRegister _ \<Rightarrow> True | RLogin _ _ \<Rightarrow> True | RRefresh _ \<Rightarrow> True | RVerifyMFA _ _ \<Rightarrow> True | _ \<Rightarrow> False)"
proof (cases req)
  case (RWebAuthn m)
  then show ?thesis by (cases m) (simp_all add: publicMethods_def)
qed (simp_all add: publicMethods_def)

text \<open>
  A call either ends before the handler, with the store and the subscriptions as they were,
  or it is the handler's answer on a context that carries the subject of a valid token
  (none for a public method).
\<close>

definition accepts :: "svc_env \<Rightarrow> jwt_Config \<Rightarrow> req_ctx \<Rightarrow> Claims \<Rightarrow> bool" where
  "accepts env cfg ctx claims \<longleftrightarrow> (\<exists>n md v vs. cx_md ctx = Some md \<and> md_Get md ''authorization'' = v # vs \<and>
     ParseAccessToken (ev_jwt env) cfg (ev_clock env n) (strings_TrimPrefix v ''Bearer '') = Inr claims)"

definition admitted :: "svc_env \<Rightarrow> jwt_Config \<Rightarrow> req_ctx \<Rightarrow> rpc_req \<Rightarrow> req_ctx \<Rightarrow> bool" where
  "admitted env cfg ctx req ctx' \<longleftrightarrow>
     (if full_method req \<in> set publicMethods then ctx' = ctx
      else \<exists>claims. accepts env cfg ctx claims \<and> ctx' = ctx\<lparr>cx_user := Some (c_Subject claims)\<rparr>)"

definition same_data :: "('s, 'l) server \<Rightarrow> ('s, 'l) server \<Rightarrow> bool" where
  "same_data sv sv' \<longleftrightarrow> w_store (sv_world sv') = w_store (sv_world sv) \<and> w_sync (sv_world sv') = w_sync (sv_world sv)"

definition path_ok ::
  "svc_env \<Rightarrow> 's Store \<Rightarrow> jwt_Config \<Rightarrow> req_ctx \<Rightarrow> rpc_req \<Rightarrow> ('s, 'l) server \<Rightarrow>
   (rpc_err + rpc_resp) \<Rightarrow> ('s, 'l) server \<Rightarrow> bool" where
  "path_ok env S cfg ctx req sv r sv' \<longleftrightarrow>
     (same_data sv sv' \<and> (\<exists>e. r = Inl e)) \<or>
     (\<exists>ctx' w0. admitted env cfg ctx req ctx' \<and> w_store w0 = w_store (sv_world sv) \<and>
        w_sync w0 = w_sync (sv_world sv) \<and> fst (dispatch_rpc env S cfg ctx' req w0) = r \<and>
        w_store (sv_world sv') = w_store (snd (dispatch_rpc env S cfg ctx' req w0)) \<and>
        w_sync (sv_world sv') = w_sync (snd (dispatch_rpc env S cfg ctx' req w0)))"

lemma same_data_refl [simp]: "same_data sv sv"
  by (simp add: same_data_def)

lemma path_ok_from: "path_ok env S cfg ctx req sv1 r sv' \<Longrightarrow> same_data sv sv1 \<Longrightarrow> path_ok env S cfg ctx req sv r sv'"
  unfolding path_ok_def same_data_def by metis

lemma path_ok_to: "path_ok env S cfg ctx req sv r sv1 \<Longrightarrow> same_data sv1 sv' \<Longrightarrow> path_ok env S cfg ctx req sv r sv'"
  unfolding path_ok_def same_data_def by metis

lemma same_data_Now: "server_Now env sv = (t, sv') \<Longrightarrow> same_data sv sv'"
  using server_Now_pair unfolding same_data_def by blast

lemma auth_path:
  "path_ok env S cfg ctx req sv
     (fst (AuthInterceptor env cfg (full_method req) (\<lambda>ctx' req' sv. on_world (dispatch_rpc env S cfg ctx' req') sv) ctx req sv))
     (snd (AuthInterceptor env cfg (full_method req) (\<lambda>ctx' req' sv. on_world (dispatch_rpc env S cfg ctx' req') sv) ctx req sv))"
proof (cases "full_method req \<in> set publicMethods")
  case True
  then show ?thesis
    unfolding path_ok_def AuthInterceptor_def admitted_def on_world_def
    by (intro disjI2 exI [of _ ctx] exI [of _ "sv_world sv"]) (simp add: case_prod_beta)
next
  case False
  obtain r sv1 where e: "extractAndValidate env cfg ctx sv = (r, sv1)" by fastforce
  note c = extractAndValidate_cases [OF e]
  show ?thesis
  proof (cases r)
    case (Inl x)
    then show ?thesis using False e c unfolding path_ok_def AuthInterceptor_def same_data_def by simp
  next
    case (Inr ctx')
    then have "admitted env cfg ctx req ctx'" using False c unfolding admitted_def accepts_def by (simp only: if_False sum.case) blast
    then show ?thesis using Inr False e c unfolding path_ok_def AuthInterceptor_def on_world_def
      by (intro disjI2 exI [of _ ctx'] exI [of _ "sv_world sv1"]) (simp add: case_prod_beta)
  qed
qed

lemma log_path:
  assumes "path_ok env S cfg ctx req sv1 (fst (h ctx req sv1)) (snd (h ctx req sv1))" and "server_Now env sv = (t, sv1)"
  shows "path_ok env S cfg ctx req sv (fst (LoggingInterceptor env m h ctx req sv)) (snd (LoggingInterceptor env m h ctx req sv))"
proof -
  obtain r sv2 where h: "h ctx req sv1 = (r, sv2)" by fastforce
  have p: "path_ok env S cfg ctx req sv r sv2"
    using assms(1) h path_ok_from [OF _ same_data_Now [OF assms(2)]] by simp
  have "\<exists>sv'. LoggingInterceptor env m h ctx req sv = (r, sv') \<and> same_data sv2 sv'"
    using h assms(2) unfolding LoggingInterceptor_def Let_def
    by (auto simp: same_data_def split: sum.splits rpc_err.splits prod.splits dest!: server_Now_pair)
  then show ?thesis using path_ok_to [OF p] by auto
qed

lemma rate_path:
  assumes "RateLimiter_UnaryInterceptor R env m h ctx req sv = (r, sv')"
  shows "(\<exists>sv0. same_data sv sv0 \<and> h ctx req sv0 = (r, sv')) \<or> (same_data sv sv' \<and> (\<exists>e. r = Inl e))"
proof (cases "m \<in> set rateLimitedMethods")
  case False
  then show ?thesis using assms same_data_refl by (metis RateLimiter_UnaryInterceptor_def)
next
  case True
  show ?thesis
  proof (cases "peerIP ctx")
    case (Inl e)
    then show ?thesis using assms True by (simp add: RateLimiter_UnaryInterceptor_def) metis
  next
    case (Inr ip)
    obtain t1 sv1 where 1: "server_Now env sv = (t1, sv1)" by fastforce
    obtain lim rl1 where 2: "getLimiter R ip t1 (sv_rl sv1) = (lim, rl1)" by fastforce
    obtain t2 sv2 where 3: "server_Now env (sv1\<lparr>sv_rl := rl1\<rparr>) = (t2, sv2)" by fastforce
    obtain ok rl2 where 4: "limiter_Allow R ip lim t2 (sv_rl sv2) = (ok, rl2)" by fastforce
    have same: "same_data sv (sv2\<lparr>sv_rl := rl2\<rparr>)"
      using server_Now_pair [OF 1] server_Now_pair [OF 3] by (simp add: same_data_def)
    have "(if \<not> ok then (Inl (StatusErr ResourceExhausted ''too many requests - please slow down''), sv2\<lparr>sv_rl := rl2\<rparr>)
           else h ctx req (sv2\<lparr>sv_rl := rl2\<rparr>)) = (r, sv')"
      using assms True Inr 1 2 3 4 by (simp add: RateLimiter_UnaryInterceptor_def Let_def)
    then show ?thesis using same by (cases ok) auto
  qed
qed

lemma serve_unary_path:
  assumes "serve_unary R env S cfg ctx req sv = (r, sv')"
  shows "path_ok env S cfg ctx req sv r sv'"
proof -
  let ?a = "AuthInterceptor env cfg (full_method req) (\<lambda>ctx' req' sv. on_world (dispatch_rpc env S cfg ctx' req') sv)"
  let ?h = "LoggingInterceptor env (full_method req) ?a"
  have inner: "path_ok env S cfg ctx req sv0 (fst (?h ctx req sv0)) (snd (?h ctx req sv0))" for sv0
    by (rule log_path [where h = ?a and t = "fst (server_Now env sv0)"
          and ?sv1.0 = "snd (server_Now env sv0)", OF auth_path]) (rule prod.collapse [symmetric])
  from rate_path [OF assms [unfolded serve_unary_def]] show ?thesis
  proof (elim disjE exE conjE)
    fix sv0
    assume "same_data sv sv0" "?h ctx req sv0 = (r, sv')"
    then show ?thesis using inner [of sv0] path_ok_from by (metis fst_conv snd_conv)
  qed (auto simp: path_ok_def)
qed

end
