(* ===== verification/DemoEnv.thy ===== *)
theory DemoEnv
  imports App
begin

text \<open>
  A concrete environment in which the server runs: a database that does not fail, a clock
  that advances by a second at each reading, a password hash that spells the password, one
  TOTP code, the token library of theory \<open>Jwt\<close>, a bucket that counts down. It shows that
  the hypotheses of the properties can hold together; nothing else rests on it.
\<close>

definition demo_pg :: pg_env where
  "demo_pg = \<lparr>pg_fault = (\<lambda>_. False), pg_cut = (\<lambda>_. None), pg_now = (\<lambda>n. int n * second),
     pg_uuid = (\<lambda>n. ''id'' @ itoa n), pg_parse_uuid = Some, pg_jsonb = Some, pg_inet = (\<lambda>_. True)\<rparr>"

definition demo_hash :: "string \<Rightarrow> string" where
  "demo_hash pw = ''$2a$12$'' @ pw"

definition demo_env :: svc_env where
  "demo_env = \<lparr>ev_clock = (\<lambda>n. int n * second),
     ev_bcrypt_generate = (\<lambda>_ pw _. Inr (demo_hash pw)),
     ev_bcrypt_compare = (\<lambda>h pw. if h = demo_hash pw then Inr () else Inl (ErrText ''mismatch'')),
     ev_totp_generate = (\<lambda>n iss acc alg. Inr (''SECRET'', ''otpauth://totp'')),
     ev_totp_validate = (\<lambda>code secret t opts. Inr (code = ''123456'')),
     ev_jwt = demo_jwt\<rparr>"

definition demo_key :: bytes where
  "demo_key = ''0123456789abcdef0123456789abcdef''"

definition demo_cfg :: jwt_Config where
  "demo_cfg = DefaultConfig demo_key"

definition demo_rate :: "nat rate_lib" where
  "demo_rate = \<lparr>rate_NewLimiter = (\<lambda>r b. b), rate_Allow = (\<lambda>l t. (l > 0, l - 1))\<rparr>"

definition demo_user :: "string \<Rightarrow> string \<Rightarrow> bool \<Rightarrow> User" where
  "demo_user k name mfa = User_zero\<lparr>u_ID := k, u_Username := name, u_Email := name,
     u_PasswordHash := demo_hash ''pw'', u_VaultSymKey := ''k'', u_MFARequired := mfa\<rparr>"

definition demo_item :: VaultItem where
  "demo_item = VaultItem_zero\<lparr>vi_ID := ''i1'', vi_UserID := ''a'', vi_Type := ''text'', vi_Payload := ''p'',
     vi_Version := 1\<rparr>"

definition demo_db :: db where
  "demo_db = db_empty\<lparr>users := [demo_user ''a'' ''alice'' True, demo_user ''b'' ''bob'' False],
     vault_items := [demo_item]\<rparr>"

definition demo_world :: "db world" where
  "demo_world = \<lparr>w_store = demo_db, w_clk = 0, w_rnd = 0, w_sync = NewSyncService\<rparr>"

definition demo_sv :: "(db, nat) server" where
  "demo_sv = \<lparr>sv_world = demo_world, sv_rl = NewRateLimiter 5 10, sv_log = []\<rparr>"

definition demo_claims_of :: "string \<Rightarrow> Claims" where
  "demo_claims_of u = \<lparr>c_Subject = u, c_IssuedAt = 0, c_ExpiresAt = 900, c_MFAVerified = False\<rparr>"

definition demo_ctx :: "string \<Rightarrow> req_ctx" where
  "demo_ctx tok = \<lparr>cx_md = Some [(''authorization'', [''Bearer '' @ tok])],
     cx_peer = Some (Some ''10.0.0.1:4711''), cx_user = None\<rparr>"

definition demo_bearer :: "string \<Rightarrow> req_ctx" where
  "demo_bearer u = demo_ctx (demo_tok demo_key (demo_claims_of u))"

lemma demo_simps [simp]:
  "pg_fault demo_pg n = False" "pg_cut demo_pg n = None" "pg_now demo_pg n = int n * second"
  "pg_uuid demo_pg n = ''id'' @ itoa n" "pg_parse_uuid demo_pg s = Some s" "pg_jsonb demo_pg s = Some s"
  "pg_inet demo_pg s" "ev_clock demo_env n = int n * second" "ev_jwt demo_env = demo_jwt"
  "ev_bcrypt_generate demo_env n pw c = Inr (demo_hash pw)"
  "ev_bcrypt_compare demo_env h pw = (if h = demo_hash pw then Inr () else Inl (ErrText ''mismatch''))"
  "ev_totp_validate demo_env code secret t opts = Inr (code = ''123456'')"
  "jc_Secret demo_cfg = demo_key"
  by (simp_all add: demo_pg_def demo_env_def demo_cfg_def DefaultConfig_def)

lemma demo_hash_inject [simp]: "demo_hash a = demo_hash b \<longleftrightarrow> a = b"
  by (simp add: demo_hash_def)

lemma demo_db_inv: "pg_inv demo_db"
  by (simp add: pg_inv_def user_keys_def session_keys_def owned_by_users_def item_row_ok_def demo_db_def
      db_empty_def demo_user_def demo_item_def item_types_def max_bigint_def zero_defs)

lemma demo_world_store [simp]: "w_store demo_world = demo_db" "sv_world demo_sv = demo_world"
  by (simp_all add: demo_world_def demo_sv_def)

lemma demo_parse: "ParseAccessToken demo_jwt demo_cfg now (demo_tok demo_key c) =
    (if now < c_ExpiresAt c * second then Inr c else Inl (Sentinel ErrTokenExpired))"
proof (rule ParseAccessToken_signed)
  show "jl_SignedString demo_jwt (jc_Secret demo_cfg) c = Inr (demo_tok demo_key c)"
    by (simp add: demo_jwt_def demo_sign_def)
qed simp

lemma trim_bearer [simp]:
  "strings_TrimPrefix (CHR ''B'' # CHR ''e'' # CHR ''a'' # CHR ''r'' # CHR ''e'' # CHR ''r'' # CHR '' '' # s) ''Bearer '' = s"
  using strings_TrimPrefix_append [of "''Bearer ''" s] by simp

lemma demo_bearer_md:
  "cx_md (demo_bearer u) = Some [(''authorization'', [''Bearer '' @ demo_tok demo_key (demo_claims_of u)])]"
  by (simp add: demo_bearer_def demo_ctx_def)

end
