(* ===== verification/AuthSvc.thy ===== *)
theory AuthSvc
  imports VaultSvc
begin

text \<open>
  What the authentication and MFA services of \<^verbatim>\<open>src/internal/server/service\<close> do to a
  store. The interface \<open>auth_frame\<close> names a relation between store states that every user,
  session, MFA and audit operation respects; the services then respect it as well. Both
  stores interpret it with: the invariant is kept and no vault item changes.
\<close>

definition wrel :: "('s \<Rightarrow> 's \<Rightarrow> bool) \<Rightarrow> 's world \<Rightarrow> 's world \<Rightarrow> bool" where
  "wrel rel w w' \<longleftrightarrow> rel (w_store w) (w_store w') \<and> w_sync w' = w_sync w"

text \<open>The shapes the services are written in: match a result, bind a pair, branch.\<close>

lemma wrel_case_result:
  assumes "wrel rel w0 (snd p)" and "\<And>e w. wrel rel w0 w \<Longrightarrow> wrel rel w0 (snd (f e w))"
    and "\<And>x w. wrel rel w0 w \<Longrightarrow> wrel rel w0 (snd (g x w))"
  shows "wrel rel w0 (snd (case p of (Inl e, w) \<Rightarrow> f e w | (Inr x, w) \<Rightarrow> g x w))"
  using assms by (cases p) (auto split: sum.splits)

lemma wrel_let_pair:
  assumes "wrel rel w0 (snd p)" and "\<And>x w. wrel rel w0 w \<Longrightarrow> wrel rel w0 (snd (f x w))"
  shows "wrel rel w0 (snd (let (x, w) = p in f x w))"
  using assms by (cases p) auto

lemma wrel_case_sum:
  assumes "\<And>e. wrel rel w0 (snd (f e))" and "\<And>x. wrel rel w0 (snd (g x))"
  shows "wrel rel w0 (snd (case p of Inl e \<Rightarrow> f e | Inr x \<Rightarrow> g x))"
  using assms by (cases p) auto

lemma wrel_case_pair:
  assumes "\<And>x y. wrel rel w0 (snd (f x y))"
  shows "wrel rel w0 (snd (case p of (x, y) \<Rightarrow> f x y))"
  using assms by (cases p) auto

lemma wrel_if:
  assumes "wrel rel w0 (snd a)" and "wrel rel w0 (snd b)"
  shows "wrel rel w0 (snd (if c then a else b))"
  using assms by simp

lemma wrel_pair: "wrel rel w0 w \<Longrightarrow> wrel rel w0 (snd (x, w))"
  by simp

lemma wrel_let: "wrel rel w0 (snd (f x)) \<Longrightarrow> wrel rel w0 (snd (let y = x in f y))"
  by simp

locale auth_frame =
  fixes S :: "'s Store" and rel :: "'s \<Rightarrow> 's \<Rightarrow> bool"
  assumes rel_refl: "rel s s"
    and rel_trans: "rel s t \<Longrightarrow> rel t u \<Longrightarrow> rel s u"
    and rel_users: "rel s (snd (Users_Create (Store_Users S) x s))"
      "rel s (snd (Users_GetByUsername (Store_Users S) k s))"
      "rel s (snd (Users_SetMFARequired (Store_Users S) k b s))"
    and rel_sessions: "rel s (snd (Sessions_Create (Store_Sessions S) y s))"
      "rel s (snd (Sessions_GetByRefreshToken (Store_Sessions S) k s))"
      "rel s (snd (Sessions_SetMFAVerified (Store_Sessions S) k s))"
      "rel s (snd (Sessions_Delete (Store_Sessions S) k s))"
    and rel_mfa: "rel s (snd (MFA_CreateTOTP (Store_MFA S) z s))"
      "rel s (snd (MFA_GetTOTPByID (Store_MFA S) k u' s))"
      "rel s (snd (MFA_ConfirmTOTP (Store_MFA S) k s))"
      "rel s (snd (MFA_ListTOTP (Store_MFA S) k s))"
    and rel_audit: "rel s (snd (Audit_Append (Store_Audit S) e s))"
begin

lemma wrel_refl: "wrel rel w w"
  using rel_refl by (simp add: wrel_def)

lemma wrel_rnd: "wrel rel w0 w \<Longrightarrow> wrel rel w0 (w\<lparr>w_rnd := n\<rparr>)"
  by (simp add: wrel_def)

lemma wrel_on_store:
  assumes "\<And>s. rel s (snd (f s))" and "wrel rel w0 w"
  shows "wrel rel w0 (snd (on_store f w))"
proof -
  have "w_store (snd (on_store f w)) = snd (f (w_store w))" "w_sync (snd (on_store f w)) = w_sync w"
    by (simp_all add: on_store_def split: prod.splits)
  then show ?thesis using assms(1) [of "w_store w"] assms(2) rel_trans unfolding wrel_def by metis
qed

lemma wrel_log:
  assumes "wrel rel w0 w"
  shows "wrel rel w0 (AuthService_logAudit env S ctx u a res w)" "wrel rel w0 (MFAService_logAudit env S ctx u a res w)"
  using assms rel_audit rel_trans unfolding logAudit_eq wrel_def by (simp_all, blast+)

lemma wrel_Now: "wrel rel w0 w \<Longrightarrow> wrel rel w0 (snd (time_Now env w))"
  by (simp add: time_Now_def wrel_def)

lemma wrel_issue:
  "wrel rel w0 w \<Longrightarrow> wrel rel w0 (snd (issue_access env cfg u b w))"
  "wrel rel w0 w \<Longrightarrow> wrel rel w0 (snd (issue_refresh env cfg u w))"
  by (simp_all add: issue_access_def issue_refresh_def time_Now_def wrel_def)

lemma wrel_match: "wrel rel w0 w \<Longrightarrow> wrel rel w0 (snd (match_totp env code rs w))"
  by (induction rs arbitrary: w) (auto simp: time_Now_def wrel_def)

lemmas wrel_intros = wrel_case_result wrel_let_pair wrel_case_sum wrel_if wrel_pair wrel_log wrel_Now
  wrel_issue wrel_match wrel_refl wrel_rnd wrel_on_store rel_users rel_sessions rel_mfa

lemma service_rel:
  "wrel rel w (snd (AuthService_Register env S ctx i w))"
  "wrel rel w (snd (AuthService_Login env S cfg ctx un pw w))"
  "wrel rel w (snd (AuthService_Refresh env S cfg ctx tok w))"
  "wrel rel w (snd (AuthService_Logout env S ctx u tok w))"
  "wrel rel w (snd (MFAService_EnrollTOTP env S iss u lbl w))"
  "wrel rel w (snd (MFAService_ConfirmTOTP env S ctx u k c w))"
  "wrel rel w (snd (MFAService_VerifyTOTP env S cfg ctx v w))"
  unfolding AuthService_Register_def AuthService_Login_def AuthService_Refresh_def AuthService_Logout_def
    MFAService_EnrollTOTP_def MFAService_ConfirmTOTP_def MFAService_VerifyTOTP_def
  by (assumption | rule wrel_intros | rule wrel_case_pair | rule wrel_let)+

end

section \<open>Both stores\<close>

definition pg_rel :: "db \<Rightarrow> db \<Rightarrow> bool" where
  "pg_rel d d' \<longleftrightarrow> (pg_inv d \<longrightarrow> pg_inv d') \<and> pg_items d' = pg_items d"

lemma pg_rel_vault: "vault_items d' = vault_items d \<Longrightarrow> (pg_inv d \<Longrightarrow> pg_inv d') \<Longrightarrow> pg_rel d d'"
  by (simp add: pg_rel_def pg_items_def)

lemmas repo_defs = userRepo_Create_def userRepo_GetByUsername_def userRepo_SetMFARequired_def
  sessionRepo_Create_def sessionRepo_GetByRefreshToken_def sessionRepo_SetMFAVerified_def sessionRepo_Delete_def
  mfaRepo_CreateTOTP_def mfaRepo_GetTOTPByID_def mfaRepo_ConfirmTOTP_def mfaRepo_ListTOTP_def

lemma DB_ops [simp]:
  "Users_Create (Store_Users (DB_Store E)) = userRepo_Create E"
  "Users_GetByUsername (Store_Users (DB_Store E)) = userRepo_GetByUsername E"
  "Users_GetByID (Store_Users (DB_Store E)) = userRepo_GetByID E"
  "Users_SetMFARequired (Store_Users (DB_Store E)) = userRepo_SetMFARequired E"
  "Sessions_Create (Store_Sessions (DB_Store E)) = sessionRepo_Create E"
  "Sessions_GetByRefreshToken (Store_Sessions (DB_Store E)) = sessionRepo_GetByRefreshToken E"
  "Sessions_SetMFAVerified (Store_Sessions (DB_Store E)) = sessionRepo_SetMFAVerified E"
  "Sessions_Delete (Store_Sessions (DB_Store E)) = sessionRepo_Delete E"
  "MFA_CreateTOTP (Store_MFA (DB_Store E)) = mfaRepo_CreateTOTP E"
  "MFA_GetTOTPByID (Store_MFA (DB_Store E)) = mfaRepo_GetTOTPByID E"
  "MFA_ConfirmTOTP (Store_MFA (DB_Store E)) = mfaRepo_ConfirmTOTP E"
  "MFA_ListTOTP (Store_MFA (DB_Store E)) = mfaRepo_ListTOTP E"
  "Audit_Append (DB_Audit E) = auditRepo_Append E"
  "Store_Vault (DB_Store E) = DB_Vault E" "Store_Audit (DB_Store E) = DB_Audit E"
  by (simp_all add: DB_defs)

lemma repo_vault_items:
  "vault_items (snd (userRepo_Create E u d)) = vault_items d"
  "vault_items (snd (userRepo_GetByUsername E k d)) = vault_items d"
  "vault_items (snd (userRepo_SetMFARequired E k b d)) = vault_items d"
  "vault_items (snd (sessionRepo_Create E s d)) = vault_items d"
  "vault_items (snd (sessionRepo_GetByRefreshToken E k d)) = vault_items d"
  "vault_items (snd (sessionRepo_SetMFAVerified E k d)) = vault_items d"
  "vault_items (snd (sessionRepo_Delete E k d)) = vault_items d"
  "vault_items (snd (mfaRepo_CreateTOTP E z d)) = vault_items d"
  "vault_items (snd (mfaRepo_GetTOTPByID E k v d)) = vault_items d"
  "vault_items (snd (mfaRepo_ConfirmTOTP E k d)) = vault_items d"
  "vault_items (snd (mfaRepo_ListTOTP E k d)) = vault_items d"
  by (simp_all add: repo_defs Let_def split: sum.splits option.splits)

interpretation pgf: auth_frame "DB_Store E" pg_rel for E
proof (unfold_locales, goal_cases)
  case (1 s) then show ?case by (simp add: pg_rel_def)
next
  case (2 s t u) then show ?case by (simp add: pg_rel_def)
next
  case (14 s e) then show ?case by (simp add: pg_rel_def frame_simps)
qed (simp_all only: DB_ops, (rule pg_rel_vault, simp only: repo_vault_items, simp only: repo_inv)+)

definition mock_rel :: "MockStore \<Rightarrow> MockStore \<Rightarrow> bool" where
  "mock_rel m m' \<longleftrightarrow> (mock_inv m \<longrightarrow> mock_inv m') \<and> mock_items m' = mock_items m"

lemma mock_rel_frame [simp]:
  "mock_rel m m" "mock_rel m (m\<lparr>ms_Users := us\<rparr>)" "mock_rel m (m\<lparr>ms_TOTPs := ts\<rparr>)" "mock_rel m (m\<lparr>ms_Entries := es\<rparr>)"
  by (simp_all add: mock_rel_def mock_inv_def mock_items_def)

lemmas Mock_defs = Mock_Store_def Mock_Users_def Mock_Sessions_def Mock_Vault_def Mock_MFA_def Mock_Audit_def

lemma Mock_ops [simp]:
  "Users_Create (Store_Users Mock_Store) = MockUsers_Create"
  "Users_GetByUsername (Store_Users Mock_Store) = MockUsers_GetByUsername"
  "Users_SetMFARequired (Store_Users Mock_Store) = MockUsers_SetMFARequired"
  "Sessions_Create (Store_Sessions Mock_Store) = MockSessions_Create"
  "Sessions_GetByRefreshToken (Store_Sessions Mock_Store) = MockSessions_GetByRefreshToken"
  "Sessions_SetMFAVerified (Store_Sessions Mock_Store) = MockSessions_SetMFAVerified"
  "Sessions_Delete (Store_Sessions Mock_Store) = MockSessions_Delete"
  "MFA_CreateTOTP (Store_MFA Mock_Store) = MockMFA_CreateTOTP"
  "MFA_GetTOTPByID (Store_MFA Mock_Store) = MockMFA_GetTOTPByID"
  "MFA_ConfirmTOTP (Store_MFA Mock_Store) = MockMFA_ConfirmTOTP"
  "MFA_ListTOTP (Store_MFA Mock_Store) = MockMFA_ListTOTP"
  "Audit_Append Mock_Audit = MockAudit_Append"
  "Store_Vault Mock_Store = Mock_Vault" "Store_Audit Mock_Store = Mock_Audit"
  by (simp_all add: Mock_defs)

lemma mock_rel_user_ops:
  "mock_rel s (snd (MockUsers_Create x s))" "mock_rel s (snd (MockUsers_GetByUsername k s))"
  "mock_rel s (snd (MockUsers_SetMFARequired k b s))"
  by (simp_all add: MockUsers_Create_def MockUsers_GetByUsername_def MockUsers_SetMFARequired_def Let_def
      split: option.split)

lemma mock_rel_mfa_ops:
  "mock_rel s (snd (MockMFA_CreateTOTP z s))" "mock_rel s (snd (MockMFA_GetTOTPByID k v s))"
  "mock_rel s (snd (MockMFA_ConfirmTOTP k s))" "mock_rel s (snd (MockMFA_ListTOTP k s))"
  "mock_rel s (snd (MockAudit_Append e s))"
  by (simp_all add: MockMFA_CreateTOTP_def MockMFA_GetTOTPByID_def MockMFA_ConfirmTOTP_def
      MockMFA_ListTOTP_def MockAudit_Append_def Let_def split: option.split)

lemma mock_rel_session_ops:
  "mock_rel s (snd (MockSessions_Create y s))" "mock_rel s (snd (MockSessions_GetByRefreshToken k s))"
  "mock_rel s (snd (MockSessions_SetMFAVerified k s))" "mock_rel s (snd (MockSessions_Delete k s))"
proof -
  obtain r s' where c: "MockSessions_Create y s = (r, s')" by fastforce
  have "mock_items s' = mock_items s"
    using arg_cong [OF c, of snd] by (auto simp: MockSessions_Create_def mock_items_def Let_def split: if_splits)
  moreover have "mock_inv s'" if "mock_inv s"
  proof (cases r)
    case (Inl e)
    then show ?thesis using mocks.sess_create_err [OF that] c by (simp add: Mock_Sessions_def)
  next
    case (Inr y')
    then show ?thesis using mocks.sess_create_ok [OF that] c by (simp add: Mock_Sessions_def)
  qed
  ultimately show "mock_rel s (snd (MockSessions_Create y s))" using c by (simp add: mock_rel_def)
  have "mock_inv (m :: MockStore) \<Longrightarrow> mock_inv (snd (MockSessions_Delete k m))" for m
    using mocks.sess_delete_ok [of m k] by (simp add: Mock_Sessions_def MockSessions_Delete_def)
  then show "mock_rel s (snd (MockSessions_Delete k s))"
    by (simp add: mock_rel_def MockSessions_Delete_def mock_items_def)
  show "mock_rel s (snd (MockSessions_GetByRefreshToken k s))" "mock_rel s (snd (MockSessions_SetMFAVerified k s))"
    by (simp_all add: MockSessions_GetByRefreshToken_def MockSessions_SetMFAVerified_def split: option.split)
qed

interpretation mockf: auth_frame Mock_Store mock_rel
proof (unfold_locales, goal_cases)
  case (2 s t u) then show ?case by (simp add: mock_rel_def)
qed (simp_all add: mock_rel_user_ops mock_rel_mfa_ops mock_rel_session_ops)

end
