(* ===== verification/AuthProps.thy ===== *)
theory AuthProps
  imports DemoEnv AuthSvc
begin

text \<open>
  Properties of authentication: what lets a call through, what a login, a refresh and a
  logout do, and how the second factor can be avoided.
\<close>

section \<open>The gate\<close>

lemma limited_public: "m \<in> set rateLimitedMethods \<Longrightarrow> m \<in> set publicMethods"
  by (auto simp: rateLimitedMethods_def publicMethods_def)

lemma serve_private:
  assumes "full_method req \<notin> set publicMethods"
  shows "serve_unary R env S cfg ctx req sv =
    LoggingInterceptor env (full_method req) (AuthInterceptor env cfg (full_method req)
      (\<lambda>ctx' req' sv. on_world (dispatch_rpc env S cfg ctx' req') sv)) ctx req sv"
  using assms limited_public unfolding serve_unary_def RateLimiter_UnaryInterceptor_def by auto

lemma log_run:
  assumes "h ctx req (snd (server_Now env sv)) = (r, sv2)"
  shows "fst (LoggingInterceptor env fm h ctx req sv) = r \<and>
    same_data sv2 (snd (LoggingInterceptor env fm h ctx req sv))"
  using assms unfolding LoggingInterceptor_def Let_def
  by (auto simp: same_data_def case_prod_beta split: sum.splits rpc_err.splits)



section \<open>Login\<close>

definition login_session :: "User \<Rightarrow> string \<Rightarrow> time \<Rightarrow> Session" where
  "login_session user tok now = Session_zero\<lparr>s_UserID := u_ID user, s_RefreshToken := tok,
     s_ExpiresAt := now + session_ttl, s_MFAVerified := \<not> u_MFARequired user\<rparr>"

lemma Login_InrE:
  assumes "AuthService_Login env S cfg ctx un pw w = (Inr res, w')"
  obtains user w1 u tok w2 now w3 ses w4 where
    "on_store (Users_GetByUsername (Store_Users S) un) w = (Inr user, w1)"
    "ev_bcrypt_compare env (u_PasswordHash user) pw = Inr u"
    "issue_refresh env cfg (u_ID user) w1 = (Inr tok, w2)" "time_Now env w2 = (now, w3)"
    "on_store (Sessions_Create (Store_Sessions S) (login_session user tok now)) w3 = (Inr ses, w4)"
    "lr_RefreshToken res = tok" "lr_SessionID res = s_ID ses" "lr_NeedsMFA res = u_MFARequired user"
    "lr_KDFParamsJSON res = u_KDFParams user" "lr_VaultSymKey res = u_VaultSymKey user"
    "(if u_MFARequired user then lr_AccessToken res = [] \<and> w' = w4
      else \<exists>at w5. issue_access env cfg (u_ID user) False w4 = (Inr at, w5) \<and> lr_AccessToken res = at \<and>
             w' = AuthService_logAudit env S ctx (u_ID user) ActionLogin ResultOK w5)"
proof -
  obtain x1 w1 where 1: "on_store (Users_GetByUsername (Store_Users S) un) w = (x1, w1)" by fastforce
  obtain user where x1: "x1 = Inr user"
    using assms 1 unfolding AuthService_Login_def by (cases x1) (auto split: if_splits)
  obtain u where u: "ev_bcrypt_compare env (u_PasswordHash user) pw = Inr u"
    using assms 1 x1 unfolding AuthService_Login_def
    by (cases "ev_bcrypt_compare env (u_PasswordHash user) pw") auto
  obtain x2 w2 where 2: "issue_refresh env cfg (u_ID user) w1 = (x2, w2)" by fastforce
  obtain tok where x2: "x2 = Inr tok" using assms 1 x1 u 2 unfolding AuthService_Login_def by (cases x2) auto
  obtain now w3 where 3: "time_Now env w2 = (now, w3)" by fastforce
  obtain x4 w4 where 4: "on_store (Sessions_Create (Store_Sessions S) (login_session user tok now)) w3 = (x4, w4)"
    by fastforce
  have rest: "(case x4 of Inl e \<Rightarrow> (Inl (fmt_Errorf ''create session: %w'' e), w4)
     | Inr session \<Rightarrow>
         (let res = (\<lambda>tk. \<lparr>lr_AccessToken = tk, lr_RefreshToken = tok,
                  lr_SessionID = s_ID session, lr_NeedsMFA = u_MFARequired user,
                  lr_KDFParamsJSON = u_KDFParams user, lr_VaultSymKey = u_VaultSymKey user\<rparr>)
          in if \<not> u_MFARequired user
             then (case issue_access env cfg (u_ID user) False w4 of
                     (Inl e, w5) \<Rightarrow> (Inl (fmt_Errorf ''issue access token: %w'' e), w5)
                   | (Inr tk, w5) \<Rightarrow>
                       (Inr (res tk), AuthService_logAudit env S ctx (u_ID user) ActionLogin ResultOK w5))
             else (Inr (res []), w4))) = (Inr res, w')"
    using assms 1 x1 u 2 x2 3 4 [unfolded login_session_def] unfolding AuthService_Login_def by simp
  obtain ses where x4: "x4 = Inr ses" using rest by (cases x4) auto
  show thesis
  proof (rule that [OF 1 [unfolded x1] u 2 [unfolded x2] 3 4 [unfolded x4]])
    show "if u_MFARequired user then lr_AccessToken res = [] \<and> w' = w4
      else \<exists>at w5. issue_access env cfg (u_ID user) False w4 = (Inr at, w5) \<and> lr_AccessToken res = at \<and>
             w' = AuthService_logAudit env S ctx (u_ID user) ActionLogin ResultOK w5"
      using rest x4 by (auto simp: Let_def split: if_splits prod.splits sum.splits)
  qed (use rest x4 in \<open>auto simp: Let_def split: if_splits prod.splits sum.splits\<close>)
qed

lemma issue_refresh_eq:
  "issue_refresh env cfg u w = (r, w1) \<Longrightarrow>
   r = IssueRefreshToken (ev_jwt env) cfg (ev_clock env (w_clk w)) (ev_clock env (Suc (w_clk w))) u \<and>
   w1 = w\<lparr>w_clk := Suc (Suc (w_clk w))\<rparr>"
  by (auto simp: issue_refresh_def time_Now_def)

lemma issue_access_eq:
  "issue_access env cfg u b w = (r, w1) \<Longrightarrow>
   r = IssueAccessToken (ev_jwt env) cfg (ev_clock env (w_clk w)) (ev_clock env (Suc (w_clk w))) u b \<and>
   w1 = w\<lparr>w_clk := Suc (Suc (w_clk w))\<rparr>"
  by (auto simp: issue_access_def time_Now_def)

lemma on_store_fst: "on_store f w = (r, w1) \<longleftrightarrow> f (w_store w) = (r, w_store w1) \<and> w1 = w\<lparr>w_store := w_store w1\<rparr>"
  by (auto simp: on_store_def split: prod.splits)

lemma sessionRepo_Create_stored:
  assumes "pg_inv d" and "sessionRepo_Create E x d = (Inr x', d')"
  shows "\<exists>u. pg_parse_uuid E (s_UserID x) = Some u \<and>
    pg_sess d' = (pg_sess d)(s_RefreshToken x \<mapsto> x'\<lparr>s_UserID := u\<rparr>) \<and> s_MFAVerified x' = s_MFAVerified x \<and>
    s_ExpiresAt x' = s_ExpiresAt x"
proof -
  obtain row where row: "insert_session E x d = Inr row" and d': "d' = (sent d)\<lparr>sessions := sessions d @ [row]\<rparr>"
    and x': "x' = x\<lparr>s_ID := s_ID row, s_CreatedAt := s_CreatedAt row\<rparr>"
    using assms(2) by (auto simp: sessionRepo_Create_def split: sum.splits)
  obtain u where u: "pg_parse_uuid E (s_UserID x) = Some u"
    "row = x\<lparr>s_ID := pg_uuid E (qno d), s_UserID := u, s_CreatedAt := pg_now E (qno d)\<rparr>"
    and new: "s_RefreshToken row \<notin> s_RefreshToken ` set (sessions d)"
    using row unfolding insert_session_Inr by blast
  have "row = x'\<lparr>s_UserID := u\<rparr>" "s_RefreshToken row = s_RefreshToken x" using u(2) x' by simp_all
  then have "pg_sess d' = (pg_sess d)(s_RefreshToken x \<mapsto> x'\<lparr>s_UserID := u\<rparr>)"
    using row_of_append_new [OF new] by (simp add: pg_sess_def d')
  then show ?thesis using u(1) x' by simp
qed

text \<open>
  C9. A login that succeeds, over PostgreSQL: the user exists and the password matches the
  stored hash; the session stored under the refresh token belongs to that user and counts
  as verified only if the account needs no second factor; with a second factor no access
  token is given, without one the access token is accepted for exactly this user until it
  expires.
\<close>

theorem login_sound:
  assumes "jwt_contract (ev_jwt env) (jc_Secret cfg)" and "pg_inv (w_store w)"
    and "AuthService_Login env (DB_Store E) cfg ctx un pw w = (Inr res, w')"
  shows "\<exists>user \<in> set (users (w_store w)). u_Username user = un \<and>
    ev_bcrypt_compare env (u_PasswordHash user) pw = Inr () \<and> lr_NeedsMFA res = u_MFARequired user \<and>
    (\<exists>ses. pg_sess (w_store w') (lr_RefreshToken res) = Some ses \<and>
       pg_parse_uuid E (u_ID user) = Some (s_UserID ses) \<and> s_MFAVerified ses = (\<not> u_MFARequired user)) \<and>
    (if u_MFARequired user then lr_AccessToken res = []
     else \<exists>c. c_Subject c = u_ID user \<and> \<not> c_MFAVerified c \<and>
       (\<forall>now. ParseAccessToken (ev_jwt env) cfg now (lr_AccessToken res) =
          (if now < c_ExpiresAt c * second then Inr c else Inl (Sentinel ErrTokenExpired))))"
  using assms(3)
proof (rule Login_InrE)
  fix user w1 u tok w2 now w3 ses w4
  assume get: "on_store (Users_GetByUsername (Store_Users (DB_Store E)) un) w = (Inr user, w1)"
    and pw: "ev_bcrypt_compare env (u_PasswordHash user) pw = Inr u"
    and tok: "issue_refresh env cfg (u_ID user) w1 = (Inr tok, w2)" and now: "time_Now env w2 = (now, w3)"
    and ses: "on_store (Sessions_Create (Store_Sessions (DB_Store E)) (login_session user tok now)) w3 = (Inr ses, w4)"
    and res: "lr_RefreshToken res = tok" "lr_NeedsMFA res = u_MFARequired user"
    and last: "if u_MFARequired user then lr_AccessToken res = [] \<and> w' = w4
      else \<exists>at w5. issue_access env cfg (u_ID user) False w4 = (Inr at, w5) \<and> lr_AccessToken res = at \<and>
             w' = AuthService_logAudit env (DB_Store E) ctx (u_ID user) ActionLogin ResultOK w5"
  have user: "user \<in> set (users (w_store w))" "u_Username user = un" "w_store w1 = sent (w_store w)"
    using get by (auto simp: on_store_fst userRepo_GetByUsername_def userRepo_scanUser_def exec_def
        split: option.splits if_splits dest: row_of_SomeD)
  have w3: "w_store w3 = w_store w1" "pg_inv (w_store w3)"
    using issue_refresh_eq [OF tok] now assms(2) user(3) by (auto simp: time_Now_def)
  have stored: "\<exists>s. pg_sess (w_store w4) tok = Some s \<and> pg_parse_uuid E (u_ID user) = Some (s_UserID s) \<and>
      s_MFAVerified s = (\<not> u_MFARequired user)"
    using sessionRepo_Create_stored [OF w3(2), of E "login_session user tok now" ses "w_store w4"] ses
    by (auto simp: on_store_fst login_session_def)
  have "pg_sess (w_store w') = pg_sess (w_store w4)"
    using last issue_access_eq by (fastforce simp: logAudit_eq frame_simps split: if_splits)
  moreover have "if u_MFARequired user then lr_AccessToken res = []
     else \<exists>c. c_Subject c = u_ID user \<and> \<not> c_MFAVerified c \<and>
       (\<forall>now. ParseAccessToken (ev_jwt env) cfg now (lr_AccessToken res) =
          (if now < c_ExpiresAt c * second then Inr c else Inl (Sentinel ErrTokenExpired)))"
  proof (cases "u_MFARequired user")
    case False
    then obtain at w5 where "issue_access env cfg (u_ID user) False w4 = (Inr at, w5)" "lr_AccessToken res = at"
      using last by auto
    then have "jl_SignedString (ev_jwt env) (jc_Secret cfg) \<lparr>c_Subject = u_ID user,
        c_IssuedAt = NewNumericDate (ev_clock env (w_clk w4)),
        c_ExpiresAt = NewNumericDate (ev_clock env (Suc (w_clk w4)) + jc_AccessTokenTTL cfg),
        c_MFAVerified = False\<rparr> = Inr (lr_AccessToken res)"
      using issue_access_eq by (fastforce simp: IssueAccessToken_def)
    from ParseAccessToken_signed [OF assms(1) this] show ?thesis using False by (auto intro!: exI)
  qed (use last in simp)
  ultimately show ?thesis using user pw res stored by (metis (full_types) old.unit.exhaust)
qed

lemmas run_defs = AuthService_Login_def AuthService_Register_def AuthService_Refresh_def AuthService_Logout_def
  on_store_def userRepo_GetByUsername_def userRepo_scanUser_def exec_def row_of_def issue_refresh_def issue_access_def
  IssueRefreshToken_def IssueAccessToken_def time_Now_def sessionRepo_Create_def insert_session_def uuid_arg_def check_def
  Let_def fmt_Errorf_def

lemmas demo_defs = demo_world_def demo_db_def demo_user_def demo_item_def db_empty_def zero_defs demo_jwt_def demo_sign_def

lemma demo_login_bob:
  "\<exists>res w'. AuthService_Login demo_env (DB_Store demo_pg) demo_cfg ctx ''bob'' ''pw'' demo_world = (Inr res, w') \<and>
     \<not> lr_NeedsMFA res"
  by (simp add: run_defs demo_defs)

theorem login_sound_witness:
  "\<exists>res w'. AuthService_Login demo_env (DB_Store demo_pg) demo_cfg (demo_ctx []) ''bob'' ''pw'' demo_world = (Inr res, w') \<and>
    \<not> lr_NeedsMFA res \<and>
    (\<exists>user \<in> set (users demo_db). u_Username user = ''bob'' \<and>
      ev_bcrypt_compare demo_env (u_PasswordHash user) ''pw'' = Inr () \<and> lr_NeedsMFA res = u_MFARequired user \<and>
      (\<exists>ses. pg_sess (w_store w') (lr_RefreshToken res) = Some ses \<and>
         pg_parse_uuid demo_pg (u_ID user) = Some (s_UserID ses) \<and> s_MFAVerified ses = (\<not> u_MFARequired user)) \<and>
      (if u_MFARequired user then lr_AccessToken res = []
       else \<exists>c. c_Subject c = u_ID user \<and> \<not> c_MFAVerified c \<and>
         (\<forall>now. ParseAccessToken (ev_jwt demo_env) demo_cfg now (lr_AccessToken res) =
            (if now < c_ExpiresAt c * second then Inr c else Inl (Sentinel ErrTokenExpired)))))"
proof -
  obtain res w' where run: "AuthService_Login demo_env (DB_Store demo_pg) demo_cfg (demo_ctx []) ''bob'' ''pw'' demo_world = (Inr res, w')"
    and no: "\<not> lr_NeedsMFA res" using demo_login_bob [of "demo_ctx []"] by blast
  have c: "jwt_contract (ev_jwt demo_env) (jc_Secret demo_cfg)" by simp
  have inv: "pg_inv (w_store demo_world)" by (simp add: demo_db_inv)
  have st: "w_store demo_world = demo_db" by simp
  show ?thesis using login_sound [OF c inv run, unfolded st] run no by blast
qed

text \<open>
  C38. No enumeration of user names: over a database that answers, an unknown user name and
  a wrong password get the very same response, and neither opens a session.
\<close>

theorem login_uniform_rejection:
  assumes "\<not> pg_fault E (qno (w_store w))"
    and "\<forall>user \<in> set (users (w_store w)). u_Username user = un \<longrightarrow>
           (\<exists>e. ev_bcrypt_compare env (u_PasswordHash user) pw = Inl e)"
  shows "fst (AuthHandler_Login env (DB_Store E) cfg ctx un pw w) =
      Inl (StatusErr Unauthenticated ''invalid credentials'') \<and>
    sessions (w_store (snd (AuthHandler_Login env (DB_Store E) cfg ctx un pw w))) = sessions (w_store w)"
proof (cases "row_of u_Username (users (w_store w)) un")
  case None
  then show ?thesis using assms(1)
    by (simp add: AuthHandler_Login_def AuthService_Login_def on_store_def userRepo_GetByUsername_def
        userRepo_scanUser_def exec_def)
next
  case (Some user)
  then obtain e where "ev_bcrypt_compare env (u_PasswordHash user) pw = Inl e"
    using assms(2) row_of_SomeD [OF Some] by auto
  then show ?thesis using assms(1) Some
    by (simp add: AuthHandler_Login_def AuthService_Login_def on_store_def userRepo_GetByUsername_def
        userRepo_scanUser_def exec_def logAudit_eq frame_simps)
qed

theorem login_uniform_rejection_witness:
  "fst (AuthHandler_Login demo_env (DB_Store demo_pg) demo_cfg (demo_ctx []) ''bob'' ''wrong'' demo_world) =
     Inl (StatusErr Unauthenticated ''invalid credentials'') \<and>
   sessions (w_store (snd (AuthHandler_Login demo_env (DB_Store demo_pg) demo_cfg (demo_ctx []) ''bob'' ''wrong'' demo_world))) = []"
proof -
  have "\<forall>user \<in> set (users (w_store demo_world)). u_Username user = ''bob'' \<longrightarrow>
           (\<exists>e. ev_bcrypt_compare demo_env (u_PasswordHash user) ''wrong'' = Inl e)"
    by (simp add: demo_defs)
  from login_uniform_rejection [where E = demo_pg, OF _ this] show ?thesis by (simp add: demo_defs)
qed

section \<open>Refresh and logout\<close>

lemma Refresh_Inr:
  assumes "AuthService_Refresh env S cfg ctx tok w = (Inr at, w')"
  shows "\<exists>ses w1. on_store (Sessions_GetByRefreshToken (Store_Sessions S) tok) w = (Inr ses, w1) \<and>
    \<not> ev_clock env (w_clk w1) > s_ExpiresAt ses \<and>
    IssueAccessToken (ev_jwt env) cfg (ev_clock env (Suc (w_clk w1))) (ev_clock env (Suc (Suc (w_clk w1))))
      (s_UserID ses) (s_MFAVerified ses) = Inr at"
proof -
  obtain x w1 where get: "on_store (Sessions_GetByRefreshToken (Store_Sessions S) tok) w = (x, w1)" by fastforce
  obtain ses where x: "x = Inr ses" using assms get unfolding AuthService_Refresh_def by (cases x) auto
  have "\<not> ev_clock env (w_clk w1) > s_ExpiresAt ses"
    using assms get x unfolding AuthService_Refresh_def by (auto simp: time_Now_def)
  moreover from this have "fst (issue_access env cfg (s_UserID ses) (s_MFAVerified ses) (w1\<lparr>w_clk := Suc (w_clk w1)\<rparr>)) = Inr at"
    using assms get x unfolding AuthService_Refresh_def by (auto simp: time_Now_def split: prod.splits sum.splits)
  ultimately show ?thesis using get x by (simp add: issue_access_def time_Now_def)
qed

text \<open>
  C10. What a refresh token is worth, over PostgreSQL: a refresh succeeds only for a token
  of a stored session that has not expired at the reading of the clock, and the access
  token it returns is accepted for exactly the owner of that session, carrying that
  session's MFA flag.
\<close>

theorem refresh_sound:
  assumes "jwt_contract (ev_jwt env) (jc_Secret cfg)" and "pg_inv (w_store w)"
    and "AuthService_Refresh env (DB_Store E) cfg ctx tok w = (Inr at, w')"
  shows "\<exists>ses. pg_sess (w_store w) tok = Some ses \<and> ev_clock env (w_clk w) \<le> s_ExpiresAt ses \<and>
    (\<exists>c. c_Subject c = s_UserID ses \<and> c_MFAVerified c = s_MFAVerified ses \<and>
       (\<forall>now. ParseAccessToken (ev_jwt env) cfg now at =
          (if now < c_ExpiresAt c * second then Inr c else Inl (Sentinel ErrTokenExpired))))"
proof -
  obtain ses w1 where get: "on_store (Sessions_GetByRefreshToken (Store_Sessions (DB_Store E)) tok) w = (Inr ses, w1)"
    and exp: "\<not> ev_clock env (w_clk w1) > s_ExpiresAt ses"
    and at: "IssueAccessToken (ev_jwt env) cfg (ev_clock env (Suc (w_clk w1)))
            (ev_clock env (Suc (Suc (w_clk w1)))) (s_UserID ses) (s_MFAVerified ses) = Inr at"
    using Refresh_Inr [OF assms(3)] by blast
  have s: "pg_sess (w_store w) tok = Some ses"
    using get pgs.sess_get_ok [OF assms(2), of E tok ses "w_store w1"]
    by (auto simp: on_store_fst DB_Sessions_def)
  have clk: "w_clk w1 = w_clk w" using get by (auto simp: on_store_def split: prod.splits)
  from ParseAccessToken_signed [OF assms(1) at [unfolded IssueAccessToken_def]]
  show ?thesis using s exp clk by (intro exI [of _ ses]) (auto intro!: exI)
qed

text \<open>
  C12. After a logout that the database carried out, the refresh token is dead: the next
  refresh with it is answered \<^verbatim>\<open>Unauthenticated\<close>.
\<close>

theorem logout_revokes:
  assumes "pg_inv (w_store w)" and "AuthService_Logout env (DB_Store E) ctx u tok w = (Inr (), w')"
  shows "fst (AuthHandler_Refresh env (DB_Store E) cfg ctx' tok w') =
    Inl (StatusErr Unauthenticated ''invalid refresh token'')"
proof -
  obtain d1 where del: "Sessions_Delete (DB_Sessions E) tok (w_store w) = (Inr (), d1)"
    and w': "w' = AuthService_logAudit env (DB_Store E) ctx u ActionLogout ResultOK (w\<lparr>w_store := d1\<rparr>)"
    using assms(2) unfolding AuthService_Logout_def Let_def
    by (auto simp: on_store_def DB_Store_def split: prod.splits)
  note d1 = pgs.sess_delete_ok [OF assms(1) del]
  have st: "pg_inv (w_store w')" "pg_sess (w_store w') tok = None"
    using d1 by (simp_all add: w' logAudit_eq frame_simps)
  obtain r s where g: "Sessions_GetByRefreshToken (DB_Sessions E) tok (w_store w') = (r, s)" by fastforce
  have "\<exists>e. r = Inl e" using pgs.sess_get_ok [OF st(1)] st(2) g by (cases r) fastforce+
  then show ?thesis using g
    by (auto simp: AuthHandler_Refresh_def AuthService_Refresh_def on_store_def DB_Store_def status_of_def)
qed

definition demo_session :: Session where
  "demo_session = \<lparr>s_ID = ''s1'', s_UserID = ''b'', s_RefreshToken = ''rt'', s_ExpiresAt = 1000 * second,
     s_MFAVerified = False, s_CreatedAt = 0\<rparr>"

definition demo_world_ses :: "db world" where
  "demo_world_ses = demo_world\<lparr>w_store := demo_db\<lparr>sessions := [demo_session]\<rparr>\<rparr>"

lemma demo_world_ses_inv: "pg_inv (w_store demo_world_ses)"
  by (simp add: pg_inv_def user_keys_def session_keys_def owned_by_users_def item_row_ok_def demo_world_ses_def demo_session_def
      item_types_def max_bigint_def demo_defs)

theorem refresh_sound_witness:
  "\<exists>at w'. AuthService_Refresh demo_env (DB_Store demo_pg) demo_cfg (demo_ctx []) ''rt'' demo_world_ses = (Inr at, w') \<and>
    (\<exists>ses. pg_sess (w_store demo_world_ses) ''rt'' = Some ses \<and> ev_clock demo_env (w_clk demo_world_ses) \<le> s_ExpiresAt ses \<and>
      (\<exists>c. c_Subject c = s_UserID ses \<and> c_MFAVerified c = s_MFAVerified ses \<and>
         (\<forall>now. ParseAccessToken (ev_jwt demo_env) demo_cfg now at =
            (if now < c_ExpiresAt c * second then Inr c else Inl (Sentinel ErrTokenExpired)))))"
proof -
  obtain at w' where run: "AuthService_Refresh demo_env (DB_Store demo_pg) demo_cfg (demo_ctx []) ''rt'' demo_world_ses = (Inr at, w')"
    by (simp add: run_defs demo_defs demo_world_ses_def demo_session_def sessionRepo_GetByRefreshToken_def)
  have c: "jwt_contract (ev_jwt demo_env) (jc_Secret demo_cfg)" by simp
  show ?thesis using refresh_sound [OF c demo_world_ses_inv run] run by blast
qed

theorem logout_revokes_witness:
  "\<exists>w'. AuthService_Logout demo_env (DB_Store demo_pg) (demo_ctx []) ''b'' ''rt'' demo_world_ses = (Inr (), w') \<and>
    fst (AuthHandler_Refresh demo_env (DB_Store demo_pg) demo_cfg (demo_ctx []) ''rt'' w') =
      Inl (StatusErr Unauthenticated ''invalid refresh token'')"
proof -
  obtain w' where run: "AuthService_Logout demo_env (DB_Store demo_pg) (demo_ctx []) ''b'' ''rt'' demo_world_ses = (Inr (), w')"
    by (simp add: run_defs demo_defs demo_world_ses_def demo_session_def sessionRepo_Delete_def)
  show ?thesis using logout_revokes [OF demo_world_ses_inv run] run by blast
qed

section \<open>The second factor\<close>

text \<open>
  C39. The second factor does not hold: when a login answers that a second factor is
  needed, the refresh token it returns is itself accepted as an access token of that user,
  until 30 days (the refresh lifetime) have passed.
\<close>

theorem mfa_bypassed_by_refresh_token:
  assumes "jwt_contract (ev_jwt env) (jc_Secret cfg)"
    and "AuthService_Login env (DB_Store E) cfg ctx un pw w = (Inr res, w')" and "lr_NeedsMFA res"
  shows "\<exists>user \<in> set (users (w_store w)). u_Username user = un \<and> u_MFARequired user \<and>
    (\<exists>c. c_Subject c = u_ID user \<and> c_ExpiresAt c = NewNumericDate (ev_clock env (Suc (w_clk w)) + jc_RefreshTokenTTL cfg) \<and>
      (\<forall>now. ParseAccessToken (ev_jwt env) cfg now (lr_RefreshToken res) =
         (if now < c_ExpiresAt c * second then Inr c else Inl (Sentinel ErrTokenExpired))))"
  using assms(2)
proof (rule Login_InrE)
  fix user w1 u tok w2 now w3 ses w4
  assume get: "on_store (Users_GetByUsername (Store_Users (DB_Store E)) un) w = (Inr user, w1)"
    and tok: "issue_refresh env cfg (u_ID user) w1 = (Inr tok, w2)"
    and res: "lr_RefreshToken res = tok" "lr_NeedsMFA res = u_MFARequired user"
  have user: "user \<in> set (users (w_store w))" "u_Username user = un"
    using get by (auto simp: on_store_fst userRepo_GetByUsername_def userRepo_scanUser_def exec_def
        split: option.splits if_splits dest: row_of_SomeD)
  have clk: "w_clk w1 = w_clk w" using get by (auto simp: on_store_def split: prod.splits)
  let ?c = "\<lparr>c_Subject = u_ID user, c_IssuedAt = NewNumericDate (ev_clock env (w_clk w)),
        c_ExpiresAt = NewNumericDate (ev_clock env (Suc (w_clk w)) + jc_RefreshTokenTTL cfg), c_MFAVerified = False\<rparr>"
  have "jl_SignedString (ev_jwt env) (jc_Secret cfg) ?c = Inr tok"
    using issue_refresh_eq [OF tok] clk by (simp add: IssueRefreshToken_def)
  from ParseAccessToken_signed [OF assms(1) this]
  have "\<forall>now. ParseAccessToken (ev_jwt env) cfg now (lr_RefreshToken res) =
         (if now < c_ExpiresAt ?c * second then Inr ?c else Inl (Sentinel ErrTokenExpired))" using res(1) by blast
  moreover have "c_Subject ?c = u_ID user" by simp
  moreover have "c_ExpiresAt ?c = NewNumericDate (ev_clock env (Suc (w_clk w)) + jc_RefreshTokenTTL cfg)" by simp
  ultimately show ?thesis using user res(2) assms(3) by blast
qed

text \<open>The refresh token of alice, whose account needs a second factor, reads her vault.\<close>

theorem mfa_bypassed_by_refresh_token_witness:
  "\<exists>res w'. AuthService_Login demo_env (DB_Store demo_pg) demo_cfg (demo_ctx []) ''alice'' ''pw'' demo_world = (Inr res, w') \<and>
     lr_NeedsMFA res \<and>
     (\<exists>c. c_Subject c = ''a'' \<and> ParseAccessToken demo_jwt demo_cfg (5 * second) (lr_RefreshToken res) = Inr c)"
proof -
  obtain res w' where run: "AuthService_Login demo_env (DB_Store demo_pg) demo_cfg (demo_ctx []) ''alice'' ''pw'' demo_world = (Inr res, w')"
    and mfa: "lr_NeedsMFA res"
    by (simp add: run_defs demo_defs)
  have c: "jwt_contract (ev_jwt demo_env) (jc_Secret demo_cfg)" by simp
  obtain user c' where user: "user \<in> set (users demo_db)" "u_Username user = ''alice''" and c': "c_Subject c' = u_ID user"
    "c_ExpiresAt c' = NewNumericDate (ev_clock demo_env (Suc (w_clk demo_world)) + jc_RefreshTokenTTL demo_cfg)"
    and parse: "\<forall>now. ParseAccessToken (ev_jwt demo_env) demo_cfg now (lr_RefreshToken res) =
         (if now < c_ExpiresAt c' * second then Inr c' else Inl (Sentinel ErrTokenExpired))"
    using mfa_bypassed_by_refresh_token [OF c run mfa] by auto
  have "u_ID user = ''a''" using user by (auto simp: demo_defs)
  moreover have "5 * second < c_ExpiresAt c' * second"
    using c'(2) by (simp add: NewNumericDate_def demo_cfg_def DefaultConfig_def demo_world_def)
  ultimately show ?thesis using run mfa c'(1) parse by (intro exI [of _ res] exI [of _ w']) auto
qed

text \<open>
  The method that would check the second factor cannot succeed: \<^verbatim>\<open>VerifyMFA\<close> is
  public, so the middleware never puts a user into its context, and its handler refuses a
  context without a user. Every call that comes from the network is answered with an error.
\<close>

theorem verify_mfa_unreachable:
  assumes "cx_user ctx = None"
  shows "\<exists>e. fst (serve_unary R env S cfg ctx (RVerifyMFA sid code) sv) = Inl e"
proof -
  obtain r sv' where run: "serve_unary R env S cfg ctx (RVerifyMFA sid code) sv = (r, sv')" by fastforce
  have pub: "full_method (RVerifyMFA sid code) \<in> set publicMethods" by (simp add: publicMethods_def)
  have "fst (dispatch_rpc env S cfg ctx (RVerifyMFA sid code) w0) = Inl (StatusErr Unauthenticated ''unauthenticated'')" for w0
    using assms by (simp add: AuthHandler_VerifyMFA_def userIDFromCtx_def UserIDFromContext_def map_resp_def)
  then show ?thesis using serve_unary_path [OF run] pub run unfolding path_ok_def admitted_def by auto
qed

theorem verify_mfa_unreachable_witness:
  "cx_user (demo_ctx []) = None \<and>
   (\<exists>e. fst (serve_unary demo_rate demo_env (DB_Store demo_pg) demo_cfg (demo_ctx []) (RVerifyMFA ''s1'' ''123456'') demo_sv) = Inl e)"
proof -
  have n: "cx_user (demo_ctx []) = None" by (simp add: demo_ctx_def)
  show ?thesis using verify_mfa_unreachable [OF n] n by blast
qed

text \<open>
  A token says nothing but its user and two dates in seconds: a second login of the
  same user within the same second issues the token of a session that is already stored,
  the unique index refuses it, and the login fails with an internal error.
\<close>

theorem login_twice_in_a_second:
  assumes "row_of u_Username (users (w_store w)) un = Some user"
    and "ev_bcrypt_compare env (u_PasswordHash user) pw = Inr ()"
    and "IssueRefreshToken (ev_jwt env) cfg t1 t2 (u_ID user) = Inr tok"
    and "tok \<in> s_RefreshToken ` set (sessions (w_store w))"
    and "NewNumericDate (ev_clock env (w_clk w)) = NewNumericDate t1"
    and "NewNumericDate (ev_clock env (Suc (w_clk w)) + jc_RefreshTokenTTL cfg) = NewNumericDate (t2 + jc_RefreshTokenTTL cfg)"
  shows "fst (AuthHandler_Login env (DB_Store E) cfg ctx un pw w) = Inl (StatusErr Internal ''login failed'')"
proof -
  have tok: "IssueRefreshToken (ev_jwt env) cfg (ev_clock env (w_clk w)) (ev_clock env (Suc (w_clk w))) (u_ID user) = Inr tok"
    using assms(3,5,6) by (simp add: IssueRefreshToken_def)
  have ins: "\<exists>code. insert_session E (login_session user tok now) (sent (w_store w)) = Inl code" for now
  proof (cases "insert_session E (login_session user tok now) (sent (w_store w))")
    case (Inr row)
    then have "tok \<notin> s_RefreshToken ` set (sessions (w_store w))"
      unfolding insert_session_Inr by (auto simp: login_session_def)
    then show ?thesis using assms(4) by simp
  qed simp
  show ?thesis
  proof (cases "pg_fault E (qno (w_store w))")
    case True
    then show ?thesis
      by (simp add: AuthHandler_Login_def AuthService_Login_def on_store_def userRepo_GetByUsername_def
        userRepo_scanUser_def exec_def fmt_Errorf_def status_of_def)
  next
    case False
    then show ?thesis using assms(1,2) tok ins [of "ev_clock env (Suc (Suc (w_clk w)))", unfolded login_session_def]
      by (auto simp: AuthHandler_Login_def AuthService_Login_def on_store_def userRepo_GetByUsername_def Let_def
        userRepo_scanUser_def exec_def issue_refresh_def time_Now_def sessionRepo_Create_def fmt_Errorf_def status_of_def)
  qed
qed

definition demo_token :: string where
  "demo_token = demo_tok demo_key \<lparr>c_Subject = ''b'', c_IssuedAt = 0, c_ExpiresAt = NewNumericDate (1 * second + jc_RefreshTokenTTL demo_cfg),
     c_MFAVerified = False\<rparr>"

definition demo_world_tok :: "db world" where
  "demo_world_tok = demo_world\<lparr>w_store := demo_db\<lparr>sessions := [demo_session\<lparr>s_RefreshToken := demo_token\<rparr>]\<rparr>\<rparr>"

theorem login_twice_in_a_second_witness:
  "fst (AuthHandler_Login demo_env (DB_Store demo_pg) demo_cfg (demo_ctx []) ''bob'' ''pw'' demo_world_tok) =
     Inl (StatusErr Internal ''login failed'')"
proof (rule login_twice_in_a_second [where user = "demo_user ''b'' ''bob'' False" and ?t1.0 = 0 and ?t2.0 = "1 * second" and tok = demo_token])
  show "IssueRefreshToken (ev_jwt demo_env) demo_cfg 0 (1 * second) (u_ID (demo_user ''b'' ''bob'' False)) = Inr demo_token"
    by (simp add: IssueRefreshToken_def demo_token_def demo_defs NewNumericDate_def)
qed (simp_all add: demo_world_tok_def demo_defs row_of_def)

section \<open>Registration and enrolment\<close>



lemma match_totp_True:
  "match_totp env code rs w = (True, w') \<Longrightarrow>
   \<exists>r \<in> set rs. \<exists>n. ev_totp_validate env code (t_Secret r) (ev_clock env n) totp_opts = Inr True"
proof (induction rs arbitrary: w)
  case (Cons a rs)
  show ?case
  proof (cases "ev_totp_validate env code (t_Secret a) (ev_clock env (w_clk w)) totp_opts = Inr True")
    case False
    then have "match_totp env code rs (w\<lparr>w_clk := Suc (w_clk w)\<rparr>) = (True, w')"
      using Cons.prems by (simp add: time_Now_def)
    from Cons.IH [OF this] show ?thesis by auto
  qed auto
qed simp

lemma match_totp_store: "w_store (snd (match_totp env code rs w)) = w_store w"
  by (induction rs arbitrary: w) (auto simp: time_Now_def)

text \<open>
  C13. The second factor itself is checked: \<^verbatim>\<open>VerifyTOTP\<close> issues tokens, opens a
  session or marks one as verified only if the code is valid, at a reading of the clock, for
  a confirmed secret of exactly this user.
\<close>

theorem verify_totp_sound:
  assumes "(\<exists>toks. fst (MFAService_VerifyTOTP env (DB_Store E) cfg ctx i w) = Inr toks) \<or>
    sessions (w_store (snd (MFAService_VerifyTOTP env (DB_Store E) cfg ctx i w))) \<noteq> sessions (w_store w)"
  shows "\<exists>r \<in> set (mfa_totp (w_store w)). t_Confirmed r \<and> pg_parse_uuid E (vm_UserID i) = Some (t_UserID r) \<and>
    (\<exists>n. ev_totp_validate env (vm_TOTPCode i) (t_Secret r) (ev_clock env n) totp_opts = Inr True)"
proof -
  obtain x w1 where l: "on_store (mfaRepo_ListTOTP E (vm_UserID i)) w = (x, w1)" by fastforce
  have "w_store w1 = sent (w_store w)"
    using arg_cong [OF l, of "\<lambda>p. w_store (snd p)"]
    by (auto simp: on_store_def mfaRepo_ListTOTP_def split: sum.splits)
  then have w1: "sessions (w_store w1) = sessions (w_store w)" by simp
  have x: "\<exists>rs. x = Inr rs" using assms l w1 by (cases x) (auto simp: MFAService_VerifyTOTP_def)
  then obtain rs where x: "x = Inr rs" by blast
  have rs: "\<forall>r \<in> set rs. r \<in> set (mfa_totp (w_store w)) \<and> t_Confirmed r \<and> pg_parse_uuid E (vm_UserID i) = Some (t_UserID r)"
    using l x set_stream by (fastforce simp: on_store_fst mfaRepo_ListTOTP_def sql_bind_Inr split: sum.splits)
  obtain b w2 where m: "match_totp env (vm_TOTPCode i) rs w1 = (b, w2)" by fastforce
  have "b"
  proof (rule ccontr)
    assume "\<not> b"
    moreover have "w_store w2 = w_store w1" using match_totp_store [of env "vm_TOTPCode i" rs w1] m by simp
    ultimately show False using assms l x m w1 by (simp add: MFAService_VerifyTOTP_def logAudit_eq frame_simps)
  qed
  then have "match_totp env (vm_TOTPCode i) rs w1 = (True, w2)" using m by simp
  from match_totp_True [OF this] show ?thesis using rs by blast
qed

definition demo_totp :: TOTPRecord where
  "demo_totp = TOTPRecord_zero\<lparr>t_ID := ''t1'', t_UserID := ''a'', t_Secret := ''SECRET'', t_Confirmed := True\<rparr>"

definition demo_world_totp :: "db world" where
  "demo_world_totp = demo_world\<lparr>w_store := demo_db\<lparr>mfa_totp := [demo_totp], sessions := [demo_session]\<rparr>\<rparr>"

definition demo_verify :: VerifyMFAInput where
  "demo_verify = \<lparr>vm_SessionID = ''s1'', vm_TOTPCode = ''123456'', vm_UserID = ''a''\<rparr>"

theorem verify_totp_sound_witness:
  "(\<exists>toks. fst (MFAService_VerifyTOTP demo_env (DB_Store demo_pg) demo_cfg (demo_ctx []) demo_verify demo_world_totp) = Inr toks) \<and>
   (\<exists>r \<in> set (mfa_totp (w_store demo_world_totp)). t_Confirmed r \<and>
      pg_parse_uuid demo_pg (vm_UserID demo_verify) = Some (t_UserID r) \<and>
      (\<exists>n. ev_totp_validate demo_env (vm_TOTPCode demo_verify) (t_Secret r) (ev_clock demo_env n) totp_opts = Inr True))"
proof -
  have "demo_tok demo_key c \<noteq> ''rt''" for c by (simp add: demo_tok_def demo_key_def)
  then have run: "\<exists>toks. fst (MFAService_VerifyTOTP demo_env (DB_Store demo_pg) demo_cfg (demo_ctx []) demo_verify demo_world_totp) = Inr toks"
    by (simp add: MFAService_VerifyTOTP_def run_defs demo_defs demo_world_totp_def demo_session_def demo_totp_def demo_verify_def
        mfaRepo_ListTOTP_def stream_def sessionRepo_SetMFAVerified_def update_where_def NewNumericDate_def)
  show ?thesis using verify_totp_sound [OF disjI1 [OF run]] run by blast
qed

end
