(* ===== verification/VaultProps.thy ===== *)
theory VaultProps
  imports DemoEnv AuthSvc
begin

text \<open>
  Properties of the stored vault: integrity of the tables in every reachable state, what an
  item looks like after the operations on it, what a page of a listing holds, and what the
  stream handler sends to a client that reconnects.
\<close>

section \<open>Integrity\<close>


definition demo_reached :: db where
  "demo_reached = snd (userRepo_Create demo_pg (demo_user [] ''alice'' False) db_empty)"


section \<open>An item and its operations\<close>

lemma find_unique_key:
  "distinct (map vi_ID rows) \<Longrightarrow> it \<in> set rows \<Longrightarrow>
   find (\<lambda>r. vi_ID r = vi_ID it \<and> vi_UserID r = vi_UserID it) rows = Some it"
  by (induction rows) auto

lemma pg_get_fault_free:
  assumes "pg_inv d" and "\<not> pg_fault E (qno d)" and "pg_parse_uuid E k = Some c" and "pg_items d c = Some it"
    and "pg_parse_uuid E u = Some (vi_UserID it)"
  shows "vaultRepo_Get E k u d = (Inr it, sent d)"
proof -
  have dist: "distinct (map vi_ID (vault_items d))" using assms(1) by (simp add: pg_inv_def)
  have mem: "it \<in> set (vault_items d)" "vi_ID it = c" using assms(4) row_of_SomeD unfolding pg_items_def by fast+
  have "find (\<lambda>r. vi_ID r = c \<and> vi_UserID r = vi_UserID it) (vault_items d) = Some it"
    using find_unique_key [OF dist mem(1)] mem(2) by blast
  then show ?thesis using assms(2,3,5) by (simp add: vaultRepo_Get_def select_item_def exec_def uuid_arg_def vaultRepo_scanItem_def)
qed

lemma svc_get_fault_free:
  assumes "pg_inv (w_store w)" and "\<not> pg_fault E (qno (w_store w))" and "pg_parse_uuid E k = Some c"
    and "pg_items (w_store w) c = Some it" and "pg_parse_uuid E u = Some (vi_UserID it)"
  shows "fst (VaultService_Get env (DB_Store E) ctx k u w) = Inr it"
  using pg_get_fault_free [OF assms] by (simp add: VaultService_Get_def on_store_def DB_Vault_def)

text \<open>
  C7. Zero-knowledge storage keeps every byte: an item that was created is read back by its
  owner with the same type, payload and metadata and version 1; after an update it is read
  back with the new payload and metadata, its type, owner and creation time unchanged, and
  the version one higher. (Over PostgreSQL, when the reading statements do not fail and the
  identifiers have their canonical form.)
\<close>

theorem vault_roundtrip:
  assumes "pg_inv (w_store w)" and "pg_parse_uuid E u = Some u"
    and "VaultService_Create env (DB_Store E) ctx u typ p m w = (Inr it, w1)"
    and "pg_parse_uuid E (vi_ID it) = Some (vi_ID it)"
    and "VaultService_Update env (DB_Store E) ctx (vi_ID it) u p2 m2 w1 = (Inr it2, w2)"
    and "\<not> pg_fault E (qno (w_store w1))" and "\<not> pg_fault E (qno (w_store w2))"
  shows "fst (VaultService_Get env (DB_Store E) ctx (vi_ID it) u w1) = Inr it \<and>
    vi_Type it = typ \<and> vi_Payload it = p \<and> vi_Metadata it = m \<and> vi_Version it = 1 \<and>
    fst (VaultService_Get env (DB_Store E) ctx (vi_ID it) u w2) = Inr it2 \<and>
    (\<exists>t. it2 = it\<lparr>vi_Payload := p2, vi_Metadata := m2, vi_Version := 2, vi_UpdatedAt := t\<rparr>)"
proof -
  note c = pgav.svc_create_stored [OF DB_ops(14,15) assms(1,3)]
  have it: "vi_UserID it = u" "vi_Version it = 1" using c by auto
  then have st1: "pg_items (w_store w1) (vi_ID it) = Some it" "pg_inv (w_store w1)"
    using c assms(2) by auto
  note d = pgav.svc_update_stored [OF DB_ops(14,15) st1(2) assms(5)]
  have id2: "vi_ID it2 = vi_ID it" using d assms(4) by simp
  obtain t where it2: "it2 = it\<lparr>vi_Payload := p2, vi_Metadata := m2, vi_Version := vi_Version it + 1, vi_UpdatedAt := t\<rparr>"
    using d st1(1) id2 by auto
  have st2: "pg_items (w_store w2) (vi_ID it) = Some it2" "pg_inv (w_store w2)" using d id2 by auto
  have "vi_UserID it2 = u" using it2 it by simp
  then have "fst (VaultService_Get env (DB_Store E) ctx (vi_ID it) u w2) = Inr it2"
    using svc_get_fault_free [OF st2(2) assms(7,4) st2(1)] assms(2) by simp
  moreover have "fst (VaultService_Get env (DB_Store E) ctx (vi_ID it) u w1) = Inr it"
    using svc_get_fault_free [OF st1(2) assms(6,4) st1(1)] assms(2) it by simp
  moreover have "it2 = it\<lparr>vi_Payload := p2, vi_Metadata := m2, vi_Version := 2, vi_UpdatedAt := t\<rparr>"
    using it2 it by simp
  ultimately show ?thesis using c by blast
qed

lemmas vault_run_defs = VaultService_Create_def VaultService_Update_def VaultService_Get_def on_store_def DB_Vault_def
  vaultRepo_Create_def insert_item_def vaultRepo_Update_def update_item_def select_item_def vaultRepo_scanItem_def
  exec_def uuid_arg_def check_def item_types_def max_bigint_def logAudit_eq on_sync_def NotifyUpsert_def notify_def
  slots_def NewSyncService_def auditRepo_Append_def audit_entry_def ResultOK_def Let_def update_where_def sent_def

lemmas demo_db_defs = demo_world_def demo_db_def demo_user_def demo_item_def db_empty_def zero_defs

theorem vault_roundtrip_witness:
  "\<exists>it w1 it2 w2. VaultService_Create demo_env (DB_Store demo_pg) (demo_ctx []) ''b'' ''text'' ''p1'' ''m1'' demo_world = (Inr it, w1) \<and>
    VaultService_Update demo_env (DB_Store demo_pg) (demo_ctx []) (vi_ID it) ''b'' ''p2'' ''m2'' w1 = (Inr it2, w2) \<and>
    fst (VaultService_Get demo_env (DB_Store demo_pg) (demo_ctx []) (vi_ID it) ''b'' w1) = Inr it \<and>
    vi_Type it = ''text'' \<and> vi_Payload it = ''p1'' \<and> vi_Metadata it = ''m1'' \<and> vi_Version it = 1 \<and>
    fst (VaultService_Get demo_env (DB_Store demo_pg) (demo_ctx []) (vi_ID it) ''b'' w2) = Inr it2 \<and>
    (\<exists>t. it2 = it\<lparr>vi_Payload := ''p2'', vi_Metadata := ''m2'', vi_Version := 2, vi_UpdatedAt := t\<rparr>)"
proof -
  obtain it w1 where c: "VaultService_Create demo_env (DB_Store demo_pg) (demo_ctx []) ''b'' ''text'' ''p1'' ''m1'' demo_world = (Inr it, w1)"
    by (simp add: vault_run_defs demo_db_defs)
  obtain it2 w2 where d: "VaultService_Update demo_env (DB_Store demo_pg) (demo_ctx []) (vi_ID it) ''b'' ''p2'' ''m2'' w1 = (Inr it2, w2)"
    using c by (auto simp: vault_run_defs demo_db_defs)
  have inv: "pg_inv (w_store demo_world)" by (simp add: demo_db_inv)
  have "fst (VaultService_Get demo_env (DB_Store demo_pg) (demo_ctx []) (vi_ID it) ''b'' w1) = Inr it \<and>
    vi_Type it = ''text'' \<and> vi_Payload it = ''p1'' \<and> vi_Metadata it = ''m1'' \<and> vi_Version it = 1 \<and>
    fst (VaultService_Get demo_env (DB_Store demo_pg) (demo_ctx []) (vi_ID it) ''b'' w2) = Inr it2 \<and>
    (\<exists>t. it2 = it\<lparr>vi_Payload := ''p2'', vi_Metadata := ''m2'', vi_Version := 2, vi_UpdatedAt := t\<rparr>)"
    by (rule vault_roundtrip [OF inv _ c _ d]) simp_all
  then show ?thesis using c d by blast
qed

text \<open>
  C14. Deleting: a delete that succeeds removes exactly the caller's item, and the item is
  then not found by anyone; a user who does not own the item gets \<^verbatim>\<open>NotFound\<close> for a
  read, an update and a delete alike, when the database answers.
\<close>

theorem vault_delete_and_ownership:
  assumes "pg_inv (w_store w)" and "\<not> pg_fault E (qno (w_store w))" and "pg_parse_uuid E k = Some c"
    and "pg_items (w_store w) c = Some it" and "pg_parse_uuid E v = Some v'" and "v' \<noteq> vi_UserID it"
    and "VaultService_Delete env (DB_Store E) ctx k u w = (Inr (), w1)"
  shows "pg_items (w_store w1) = (pg_items (w_store w))(c := None) \<and> pg_parse_uuid E u = Some (vi_UserID it) \<and>
    fst (VaultHandler_GetItem env (DB_Store E) (ctx\<lparr>cx_user := Some v\<rparr>) k w) = Inl (StatusErr NotFound ''item not found'') \<and>
    fst (VaultHandler_UpdateItem env (DB_Store E) (ctx\<lparr>cx_user := Some v\<rparr>) k p m w) = Inl (StatusErr NotFound ''item not found'') \<and>
    fst (VaultHandler_DeleteItem env (DB_Store E) (ctx\<lparr>cx_user := Some v\<rparr>) k w) = Inl (StatusErr NotFound ''item not found'')"
proof -
  have "\<exists>d1. vaultRepo_Delete E k u (w_store w) = (Inr (), d1)"
    using assms(7) by (auto simp: VaultService_Delete_def on_store_def DB_Vault_def split: prod.splits sum.splits)
  then obtain d1 where del: "vaultRepo_Delete E k u (w_store w) = (Inr (), d1)" by blast
  have eff: "pg_items d1 = (pg_items (w_store w))(c := None)" "pg_parse_uuid E u = Some (vi_UserID it)"
    using vaultRepo_Delete_cases [OF assms(1) del] assms(3,4) by auto
  have w1: "pg_items (w_store w1) = pg_items d1"
    using assms(7) del by (auto simp: VaultService_Delete_def on_store_def DB_Vault_def logAudit_eq frame_simps
        dest!: arg_cong [where f = "\<lambda>x. pg_items (w_store (snd x))"])
  have dist: "distinct (map vi_ID (vault_items (w_store w)))" using assms(1) by (simp add: pg_inv_def)
  have none: "\<not> (vi_ID r = c \<and> vi_UserID r = v')" if "r \<in> set (vault_items (w_store w))" for r
    using row_of_eqI [OF dist that] assms(4,6) by (auto simp: pg_items_def)
  then have find: "find (\<lambda>r. vi_ID r = c \<and> vi_UserID r = v') (vault_items (w_store w)) = None"
    by (auto simp: find_None_iff)
  have filt: "filter (\<lambda>r. vi_ID r = c \<and> vi_UserID r = v') (vault_items (w_store w)) = []"
    using none by (auto simp: filter_empty_conv)
  show ?thesis using eff w1 assms(2,3,5) find filt
    by (simp add: VaultHandler_GetItem_def VaultHandler_UpdateItem_def VaultHandler_DeleteItem_def userIDFromCtx_def
        UserIDFromContext_def VaultService_Get_def VaultService_Update_def VaultService_Delete_def on_store_def DB_Vault_def
        vaultRepo_Get_def vaultRepo_Update_def update_item_def select_item_def vaultRepo_scanItem_def vaultRepo_Delete_def
        exec_def uuid_arg_def Let_def)
qed

theorem vault_delete_and_ownership_witness:
  "\<exists>w1. VaultService_Delete demo_env (DB_Store demo_pg) (demo_ctx []) ''i1'' ''a'' demo_world = (Inr (), w1) \<and>
    pg_items (w_store w1) = (pg_items demo_db)(''i1'' := None) \<and>
    fst (VaultHandler_DeleteItem demo_env (DB_Store demo_pg) ((demo_ctx [])\<lparr>cx_user := Some ''b''\<rparr>) ''i1'' demo_world) =
      Inl (StatusErr NotFound ''item not found'')"
proof -
  obtain w1 where d: "VaultService_Delete demo_env (DB_Store demo_pg) (demo_ctx []) ''i1'' ''a'' demo_world = (Inr (), w1)"
    by (simp add: VaultService_Delete_def vaultRepo_Delete_def NotifyDelete_def vault_run_defs demo_db_defs)
  have inv: "pg_inv (w_store demo_world)" by (simp add: demo_db_inv)
  have it: "pg_items (w_store demo_world) ''i1'' = Some demo_item" by (simp add: pg_items_def row_of_def demo_db_defs)
  have ne: "''b'' \<noteq> vi_UserID demo_item" by (simp add: demo_db_defs)
  show ?thesis using vault_delete_and_ownership [OF inv _ _ it _ ne d, where v = "''b''"] d by simp
qed

section \<open>Listing\<close>

definition page_key :: "VaultItem \<Rightarrow> int \<times> string" where
  "page_key = (\<lambda>r. (- vi_UpdatedAt r, vi_ID r))"

definition matching :: "string \<Rightarrow> ListFilter \<Rightarrow> string \<Rightarrow> db \<Rightarrow> VaultItem list" where
  "matching uid f cur d = sort_key page_key (filter (\<lambda>r. vi_UserID r = uid \<and>
     (f_TypeFilter f = [] \<or> vi_Type r = f_TypeFilter f) \<and> (f_Cursor f = [] \<or> vi_ID r > cur)) (vault_items d))"

lemma select_items_matching:
  "select_items E u (f_TypeFilter f) (f_Cursor f) lim d = Inr rows \<longleftrightarrow>
   \<not> pg_fault E (qno d) \<and> (\<exists>uid cur. pg_parse_uuid E u = Some uid \<and>
     (if f_Cursor f = [] then cur = [] else pg_parse_uuid E (f_Cursor f) = Some cur) \<and> rows = take lim (matching uid f cur d))"
  by (auto simp: select_items_def sql_bind_Inr matching_def page_key_def split: if_splits)

lemma list_limit_bounds: "1 \<le> list_limit l" "list_limit l \<le> 200"
  by (simp_all add: list_limit_def)

lemma List_page:
  assumes "vaultRepo_List E u f d = (Inr (its, next), d')" and "pg_cut E (qno d) = None"
  obtains uid cur where "pg_parse_uuid E u = Some uid"
    and "if f_Cursor f = [] then cur = [] else pg_parse_uuid E (f_Cursor f) = Some cur"
    and "its = take (nat (list_limit (f_Limit f))) (matching uid f cur d)"
    and "if length (matching uid f cur d) \<le> nat (list_limit (f_Limit f)) then next = []
         else next = vi_ID (matching uid f cur d ! nat (list_limit (f_Limit f)))"
    and "\<not> pg_fault E (qno d)" and "d' = sent d"
proof -
  let ?n = "nat (list_limit (f_Limit f))"
  have n: "nat (list_limit (f_Limit f) + 1) = Suc ?n" "0 < ?n" "int ?n = list_limit (f_Limit f)"
    using list_limit_bounds(1) [of "f_Limit f"] by auto
  obtain rows where sel: "select_items E u (f_TypeFilter f) (f_Cursor f) (Suc ?n) d = Inr rows"
    and res: "(if int (length rows) > list_limit (f_Limit f) then (take ?n rows, vi_ID (rows ! ?n)) else (rows, [])) = (its, next)"
      "d' = sent d"
    using assms n(1) by (auto simp: vaultRepo_List_def Let_def split: sum.splits if_splits)
  obtain uid cur where m: "\<not> pg_fault E (qno d)" "pg_parse_uuid E u = Some uid"
    "if f_Cursor f = [] then cur = [] else pg_parse_uuid E (f_Cursor f) = Some cur" "rows = take (Suc ?n) (matching uid f cur d)"
    using sel unfolding select_items_matching by blast
  show thesis
  proof (rule that [OF m(2,3) _ _ m(1) res(2)])
    show "its = take ?n (matching uid f cur d)"
      using res(1) m(4) n(3) by (auto split: if_splits simp: min_def)
    show "if length (matching uid f cur d) \<le> ?n then next = [] else next = vi_ID (matching uid f cur d ! ?n)"
      using res(1) m(4) n(3) by (auto split: if_splits)
  qed
qed

text \<open>
  C15. One page of a listing, when the result stream is intact: at most the effective limit
  of items (between 1 and 200), newest first, no item twice, each an item of this user
  of the wanted type; and when no next cursor is returned and none was given, the page is
  complete: it holds every such item.
\<close>

theorem list_page:
  assumes "pg_inv d" and "vaultRepo_List E u f d = (Inr (its, next), d')" and "pg_cut E (qno d) = None"
    and "\<forall>it \<in> set (vault_items d). vi_ID it \<noteq> []"
  shows "\<exists>uid. pg_parse_uuid E u = Some uid \<and> length its \<le> nat (list_limit (f_Limit f)) \<and>
    sorted (map page_key its) \<and> distinct (map vi_ID its) \<and>
    set its \<subseteq> {r \<in> set (vault_items d). vi_UserID r = uid \<and> (f_TypeFilter f = [] \<or> vi_Type r = f_TypeFilter f)} \<and>
    (next = [] \<and> f_Cursor f = [] \<longrightarrow>
       set its = {r \<in> set (vault_items d). vi_UserID r = uid \<and> (f_TypeFilter f = [] \<or> vi_Type r = f_TypeFilter f)})"
  using assms(2,3)
proof (rule List_page)
  fix uid cur
  let ?n = "nat (list_limit (f_Limit f))" and ?m = "matching uid f cur d"
  assume u: "pg_parse_uuid E u = Some uid" and its: "its = take ?n ?m"
    and nx: "if length ?m \<le> ?n then next = [] else next = vi_ID (?m ! ?n)"
  have set: "set ?m = {r \<in> set (vault_items d). vi_UserID r = uid \<and>
     (f_TypeFilter f = [] \<or> vi_Type r = f_TypeFilter f) \<and> (f_Cursor f = [] \<or> vi_ID r > cur)}"
    by (auto simp: matching_def)
  have "sorted (map page_key ?m)" by (simp add: matching_def)
  then have srt: "sorted (map page_key its)" unfolding its take_map [symmetric] by (rule sorted_wrt_take)
  have "distinct (map vi_ID (vault_items d))" using assms(1) by (simp add: pg_inv_def)
  then have "distinct (map vi_ID ?m)"
    unfolding matching_def by (simp add: distinct_map inj_on_def)
  then have dst: "distinct (map vi_ID its)" unfolding its take_map [symmetric] by (rule distinct_take)
  have sub: "set its \<subseteq> set ?m" unfolding its by (rule set_take_subset)
  have full: "set its = set ?m" if "next = []" "f_Cursor f = []"
  proof (cases "length ?m \<le> ?n")
    case True
    then show ?thesis using its by simp
  next
    case False
    then have "vi_ID (?m ! ?n) = []" "?m ! ?n \<in> set ?m" using nx that(1) by simp_all
    then show ?thesis using assms(4) unfolding set by blast
  qed
  show ?thesis using u its srt dst sub set full by auto
qed

theorem list_page_witness:
  "\<exists>d'. vaultRepo_List demo_pg ''a'' ListFilter_zero demo_db = (Inr ([demo_item], []), d') \<and>
    set [demo_item] = {r \<in> set (vault_items demo_db). vi_UserID r = ''a'' \<and> (f_TypeFilter ListFilter_zero = [] \<or> vi_Type r = f_TypeFilter ListFilter_zero)}"
proof -
  obtain d' where run: "vaultRepo_List demo_pg ''a'' ListFilter_zero demo_db = (Inr ([demo_item], []), d')"
    by (simp add: vaultRepo_List_def select_items_def exec_def uuid_arg_def list_limit_def demo_db_defs)
  have ids: "\<forall>it \<in> set (vault_items demo_db). vi_ID it \<noteq> []" by (simp add: demo_db_defs)
  have "f_Cursor ListFilter_zero = []" by (simp add: zero_defs)
  then show ?thesis using list_page [OF demo_db_inv run _ ids] run by simp
qed



text \<open>
  Paging loses items: when a page comes with a next cursor, the cursor is the identifier
  of a matching item that is not on the page, and no page that is asked for with this cursor
  contains that item either.
\<close>

theorem paging_skips_cursor_item:
  assumes "pg_inv d" and "vaultRepo_List E u f d = (Inr (its, next), d')" and "pg_cut E (qno d) = None"
    and "f_Cursor f = []" and "next \<noteq> []" and "pg_parse_uuid E next = Some next"
    and "vaultRepo_List E u (f\<lparr>f_Cursor := next\<rparr>) d2 = (Inr (its2, next2), d3)"
  shows "\<exists>it \<in> set (vault_items d). vi_ID it = next \<and> pg_parse_uuid E u = Some (vi_UserID it) \<and>
    (f_TypeFilter f = [] \<or> vi_Type it = f_TypeFilter f) \<and> next \<notin> vi_ID ` set its \<and> next \<notin> vi_ID ` set its2"
  using assms(2,3)
proof (rule List_page)
  fix uid cur
  let ?n = "nat (list_limit (f_Limit f))" and ?m = "matching uid f cur d"
  assume u: "pg_parse_uuid E u = Some uid" and its: "its = take ?n ?m"
    and nx: "if length ?m \<le> ?n then next = [] else next = vi_ID (?m ! ?n)"
  have len: "?n < length ?m" and id: "next = vi_ID (?m ! ?n)" using nx assms(5) by (auto split: if_splits)
  have mem: "?m ! ?n \<in> set ?m" using len by simp
  have "distinct (map vi_ID (vault_items d))" using assms(1) by (simp add: pg_inv_def)
  then have dst: "distinct (map vi_ID ?m)" unfolding matching_def by (simp add: distinct_map inj_on_def)
  have "next \<notin> vi_ID ` set its"
  proof
    assume "next \<in> vi_ID ` set its"
    then obtain j where j: "j < ?n" "vi_ID (?m ! j) = next" using len unfolding its by (auto simp: in_set_conv_nth)
    then have "map vi_ID ?m ! j = map vi_ID ?m ! ?n" using len id by simp
    then show False using nth_eq_iff_index_eq [OF dst, of j ?n] j(1) len by simp
  qed
  moreover have "next \<notin> vi_ID ` set its2"
  proof -
    have "\<exists>rows. select_items E u (f_TypeFilter f) next (nat (list_limit (f_Limit f) + 1)) d2 = Inr rows \<and> set its2 \<subseteq> set rows"
      using assms(7) set_stream
      by (fastforce simp: vaultRepo_List_def Let_def split: sum.splits if_splits dest: in_set_takeD)
    then show ?thesis using assms(5,6)
      by (auto simp: select_items_def sql_bind_Inr dest!: in_set_takeD subsetD)
  qed
  ultimately show ?thesis using mem u id by (auto simp: matching_def)
qed

text \<open>
  A result stream that breaks off goes unnoticed: the rows read so far are returned as
  a complete page, with no error and no next cursor.
\<close>

theorem broken_stream_looks_complete:
  assumes "select_items E u (f_TypeFilter f) (f_Cursor f) (nat (list_limit (f_Limit f) + 1)) d = Inr rows"
    and "pg_cut E (qno d) = Some k" and "int k \<le> list_limit (f_Limit f)"
  shows "fst (vaultRepo_List E u f d) = Inr (take k rows, [])"
proof -
  have "\<not> int (length (take k rows)) > list_limit (f_Limit f)" using assms(3) by simp
  then show ?thesis using assms(1,2) by (simp add: vaultRepo_List_def Let_def stream_def)
qed

definition demo_two_items :: db where
  "demo_two_items = demo_db\<lparr>vault_items := [demo_item, demo_item\<lparr>vi_ID := ''i2''\<rparr>]\<rparr>"

definition demo_cut :: pg_env where
  "demo_cut = demo_pg\<lparr>pg_cut := (\<lambda>_. Some 1)\<rparr>"

lemmas list_run_defs = vaultRepo_List_def select_items_def exec_def uuid_arg_def list_limit_def stream_def
  demo_two_items_def demo_db_defs

theorem paging_skips_cursor_item_witness:
  "\<exists>its d' its2 next2 d3. vaultRepo_List demo_pg ''a'' (ListFilter_zero\<lparr>f_Limit := 1\<rparr>) demo_two_items = (Inr (its, ''i2''), d') \<and>
     vaultRepo_List demo_pg ''a'' (ListFilter_zero\<lparr>f_Limit := 1, f_Cursor := ''i2''\<rparr>) d' = (Inr (its2, next2), d3) \<and>
     (\<exists>it \<in> set (vault_items demo_two_items). vi_ID it = ''i2'' \<and> pg_parse_uuid demo_pg ''a'' = Some (vi_UserID it) \<and>
        ''i2'' \<notin> vi_ID ` set its \<and> ''i2'' \<notin> vi_ID ` set its2)"
proof -
  let ?f = "ListFilter_zero\<lparr>f_Limit := 1\<rparr>"
  obtain its d' where p1: "vaultRepo_List demo_pg ''a'' ?f demo_two_items = (Inr (its, ''i2''), d')"
    by (simp add: list_run_defs)
  obtain its2 next2 d3 where p2: "vaultRepo_List demo_pg ''a'' (?f\<lparr>f_Cursor := ''i2''\<rparr>) d' = (Inr (its2, next2), d3)"
    using p1 by (auto simp: list_run_defs)
  have inv: "pg_inv demo_two_items"
    by (simp add: pg_inv_def user_keys_def session_keys_def owned_by_users_def item_row_ok_def demo_two_items_def
        item_types_def max_bigint_def demo_db_defs)
  have cur: "f_Cursor ?f = []" by (simp add: zero_defs)
  show ?thesis using paging_skips_cursor_item [OF inv p1 _ cur _ _ p2] p1 p2 by auto
qed

theorem broken_stream_looks_complete_witness:
  "fst (vaultRepo_List demo_cut ''a'' ListFilter_zero demo_two_items) = Inr (take 1 [demo_item, demo_item\<lparr>vi_ID := ''i2''\<rparr>], [])"
proof (rule broken_stream_looks_complete)
  show "select_items demo_cut ''a'' (f_TypeFilter ListFilter_zero) (f_Cursor ListFilter_zero)
      (nat (list_limit (f_Limit ListFilter_zero) + 1)) demo_two_items = Inr [demo_item, demo_item\<lparr>vi_ID := ''i2''\<rparr>]"
    by (simp add: list_run_defs demo_cut_def)
qed (simp_all add: demo_cut_def list_limit_def zero_defs)

section \<open>Catching up\<close>

text \<open>
  What a reconnecting client is sent: when no send fails, exactly the listed items that
  are unknown to the client or newer than the version it has, in the order of the listing;
  a failing send ends the phase with that error after a prefix of these events.
\<close>

theorem send_missing_exact:
  "(\<forall>j. send j = None) \<Longrightarrow>
   send_missing send known items n = (map (\<lambda>it. PbUpsert (storageItemToProto it)) (filter (wants known) items), None)"
  by (induction items arbitrary: n) auto

theorem send_missing_exact_witness:
  "send_missing (\<lambda>_. None) (known_versions [(''i1'', 1)]) [demo_item, demo_item\<lparr>vi_ID := ''i2''\<rparr>] 0 =
     (map (\<lambda>it. PbUpsert (storageItemToProto it)) (filter (wants (known_versions [(''i1'', 1)])) [demo_item, demo_item\<lparr>vi_ID := ''i2''\<rparr>]), None) \<and>
   filter (wants (known_versions [(''i1'', 1)])) [demo_item, demo_item\<lparr>vi_ID := ''i2''\<rparr>] = [demo_item\<lparr>vi_ID := ''i2''\<rparr>]"
proof
  show "send_missing (\<lambda>_. None) (known_versions [(''i1'', 1)]) [demo_item, demo_item\<lparr>vi_ID := ''i2''\<rparr>] 0 =
     (map (\<lambda>it. PbUpsert (storageItemToProto it)) (filter (wants (known_versions [(''i1'', 1)])) [demo_item, demo_item\<lparr>vi_ID := ''i2''\<rparr>]), None)"
    by (rule send_missing_exact) simp
  show "filter (wants (known_versions [(''i1'', 1)])) [demo_item, demo_item\<lparr>vi_ID := ''i2''\<rparr>] = [demo_item\<lparr>vi_ID := ''i2''\<rparr>]"
    by (simp add: wants_def known_versions_def demo_db_defs)
qed

text \<open>
  What the stream handler sends has lost its type: every item that reaches a client over
  the stream, in the catch-up and as a live event, has the unspecified type.
\<close>

theorem streamed_items_untyped:
  "(PbUpsert i \<in> set (fst (send_missing send known items n)) \<longrightarrow> pb_Type i = ItemType_UNSPECIFIED) \<and>
   (toProtoEvent evt = Inr (PbUpsert i) \<longrightarrow> pb_Type i = ItemType_UNSPECIFIED)"
proof
  have "PbUpsert i \<in> set (fst (send_missing send known items n)) \<Longrightarrow> pb_Type i = ItemType_UNSPECIFIED"
    by (induction send known items n rule: send_missing.induct)
      (auto simp: storageItemToProto_def case_prod_beta split: if_splits option.splits)
  then show "PbUpsert i \<in> set (fst (send_missing send known items n)) \<longrightarrow> pb_Type i = ItemType_UNSPECIFIED" ..
  show "toProtoEvent evt = Inr (PbUpsert i) \<longrightarrow> pb_Type i = ItemType_UNSPECIFIED"
    by (auto simp: toProtoEvent_def storageItemToProto_def split: if_splits option.splits)
qed

theorem streamed_items_untyped_witness:
  "toProtoItemType (vi_Type demo_item) = ItemType_TEXT \<and>
   pb_Type (storageItemToProto demo_item) = ItemType_UNSPECIFIED"
proof
  show "toProtoItemType (vi_Type demo_item) = ItemType_TEXT" by (simp add: toProtoItemType_def demo_db_defs)
  have "toProtoEvent \<lparr>se_Type = ''upsert'', se_Item = Some demo_item, se_DeletedID = []\<rparr> = Inr (PbUpsert (storageItemToProto demo_item))"
    by (simp add: toProtoEvent_def)
  then show "pb_Type (storageItemToProto demo_item) = ItemType_UNSPECIFIED" using streamed_items_untyped by blast
qed

section \<open>The audit log\<close>

text \<open>
  The audit log stays empty: the peer address is written into a column of type
  \<^verbatim>\<open>inet\<close>, which does not read a host with a port; whenever the address is refused, a
  vault operation succeeds or fails as usual and leaves no trace in the log.
\<close>

theorem audit_entry_lost:
  assumes "\<not> pg_inet E (svc_peerIP ctx)"
  shows "audit_log (w_store (snd (VaultService_Get env (DB_Store E) ctx k u w))) = audit_log (w_store w) \<and>
    audit_log (w_store (AuthService_logAudit env (DB_Store E) ctx u a res w)) = audit_log (w_store w)"
proof -
  have "audit_log (snd (auditRepo_Append E e d)) = audit_log d" if "ae_IP e = svc_peerIP ctx" for e d
    using assms that by (auto simp: auditRepo_Append_def sql_bind_Inr split: sum.splits)
  then have "audit_log (w_store (VaultService_logAudit env (DB_Store E) ctx u' a' dt w')) = audit_log (w_store w')"
    "audit_log (w_store (AuthService_logAudit env (DB_Store E) ctx u' a' res w')) = audit_log (w_store w')" for u' a' dt w'
    by (simp_all add: logAudit_eq audit_entry_def)
  then show ?thesis
    by (simp add: VaultService_Get_def on_store_def DB_Vault_def vaultRepo_Get_def split: prod.splits sum.splits)
qed

theorem audit_entry_lost_witness:
  "audit_log (w_store (snd (VaultService_Get demo_env (DB_Store (demo_pg\<lparr>pg_inet := (\<lambda>_. False)\<rparr>)) (demo_ctx []) ''i1'' ''a'' demo_world))) = [] \<and>
   fst (VaultService_Get demo_env (DB_Store (demo_pg\<lparr>pg_inet := (\<lambda>_. False)\<rparr>)) (demo_ctx []) ''i1'' ''a'' demo_world) = Inr demo_item"
proof
  let ?E = "demo_pg\<lparr>pg_inet := (\<lambda>_. False)\<rparr>"
  have no: "\<not> pg_inet ?E (svc_peerIP (demo_ctx []))" by simp
  have "audit_log (w_store demo_world) = []" by (simp add: demo_db_defs)
  then show "audit_log (w_store (snd (VaultService_Get demo_env (DB_Store ?E) (demo_ctx []) ''i1'' ''a'' demo_world))) = []"
    using audit_entry_lost [OF no, of demo_env "''i1''" "''a''" demo_world "[]" "[]"] by simp
  show "fst (VaultService_Get demo_env (DB_Store ?E) (demo_ctx []) ''i1'' ''a'' demo_world) = Inr demo_item"
    by (simp add: VaultService_Get_def on_store_def DB_Vault_def vaultRepo_Get_def select_item_def exec_def uuid_arg_def
        vaultRepo_scanItem_def demo_db_defs)
qed

end
