(* ===== verification/Crypto.thy ===== *)
theory Crypto
  imports Prelude
begin

text \<open>
  The cryptographic helpers of \<^verbatim>\<open>src/internal/shared/crypto\<close>: authenticated encryption
  (\<^verbatim>\<open>aead.go\<close>), the vault key hierarchy (\<^verbatim>\<open>vault_key.go\<close>, \<^verbatim>\<open>argon2.go\<close>) and
  keyfiles (\<^verbatim>\<open>keyfile.go\<close>).

  The primitives are the parameter \<open>crypto_lib\<close>: XChaCha20-Poly1305 sealing and opening,
  HKDF-SHA256, Argon2id, SHA-256. Random bytes come from \<open>rnd\<close>: the \<open>n\<close>-th read of
  \<^verbatim>\<open>crypto/rand\<close> gives the requested number of bytes, or fails.
\<close>

type_synonym rand_bytes = "nat \<Rightarrow> nat \<Rightarrow> bytes option"

record KDFParams =
  kp_Algo :: string
  kp_Memory :: "32 word"
  kp_Time :: "32 word"
  kp_Threads :: "8 word"
  kp_Salt :: bytes

record crypto_lib =
  cl_Seal :: "bytes \<Rightarrow> bytes \<Rightarrow> bytes \<Rightarrow> bytes"
  cl_Open :: "bytes \<Rightarrow> bytes \<Rightarrow> bytes \<Rightarrow> bytes option"
  cl_hkdf :: "bytes \<Rightarrow> bytes \<Rightarrow> bytes \<Rightarrow> nat \<Rightarrow> nat \<Rightarrow> bytes option"
  cl_argon2id :: "bytes \<Rightarrow> bytes \<Rightarrow> 32 word \<Rightarrow> 32 word \<Rightarrow> 8 word \<Rightarrow> nat \<Rightarrow> bytes"
  cl_sha256 :: "bytes \<Rightarrow> bytes"

text \<open>
  What the code relies on: opening undoes sealing, and only what was sealed with the same key
  and nonce opens; keys and digests have the lengths their documentation states.
\<close>

definition aead_contract :: "crypto_lib \<Rightarrow> bool" where
  "aead_contract C \<longleftrightarrow>
     (\<forall>k n p. cl_Open C k n (cl_Seal C k n p) = Some p) \<and>
     (\<forall>k n c p. cl_Open C k n c = Some p \<longrightarrow> c = cl_Seal C k n p)"

definition kdf_contract :: "crypto_lib \<Rightarrow> bool" where
  "kdf_contract C \<longleftrightarrow> (\<forall>pw s t m p n. length (cl_argon2id C pw s t m p n) = n) \<and>
     (\<forall>k s i. \<exists>bs. cl_hkdf C k s i 0 64 = Some bs \<and> length bs = 64) \<and> (\<forall>b. length (cl_sha256 C b) = 32)"

definition rand_ok :: "rand_bytes \<Rightarrow> bool" where
  "rand_ok rnd \<longleftrightarrow> (\<forall>n k. \<exists>bs. rnd n k = Some bs \<and> length bs = k)"

section \<open>aead.go\<close>

definition key_size :: nat where "key_size = 32"
definition nonce_size :: nat where "nonce_size = 24"

definition bad_key :: err where
  "bad_key = Wrapf ''create aead: %w'' (ErrText ''chacha20poly1305: bad key length'')"

definition Encrypt :: "crypto_lib \<Rightarrow> rand_bytes \<Rightarrow> nat \<Rightarrow> bytes \<Rightarrow> bytes \<Rightarrow> bytes result" where
  "Encrypt C rnd n key plaintext =
     (if length key \<noteq> key_size then Inl bad_key
      else (case rnd n nonce_size of
              None \<Rightarrow> Inl (Wrapf ''generate nonce: %w'' (ErrText ''rand''))
            | Some nonce \<Rightarrow> Inr (nonce @ cl_Seal C key nonce plaintext)))"

definition Decrypt :: "crypto_lib \<Rightarrow> bytes \<Rightarrow> bytes \<Rightarrow> bytes result" where
  "Decrypt C key d =
     (if length key \<noteq> key_size then Inl bad_key
      else if length d < nonce_size then Inl (Sentinel ErrDecryptFailed)
      else (case cl_Open C key (take nonce_size d) (drop nonce_size d) of
              None \<Rightarrow> Inl (Sentinel ErrDecryptFailed)
            | Some plaintext \<Rightarrow> Inr plaintext))"

section \<open>argon2.go, vault\_key.go\<close>

definition DefaultKDFParams :: "rand_bytes \<Rightarrow> nat \<Rightarrow> KDFParams result" where
  "DefaultKDFParams rnd n =
     (case rnd n 32 of
        None \<Rightarrow> Inl (Wrapf ''generate salt: %w'' (ErrText ''rand''))
      | Some salt \<Rightarrow> Inr \<lparr>kp_Algo = ''argon2id'', kp_Memory = 64 * 1024, kp_Time = 3, kp_Threads = 4, kp_Salt = salt\<rparr>)"

definition DeriveKey :: "crypto_lib \<Rightarrow> bytes \<Rightarrow> KDFParams \<Rightarrow> bytes" where
  "DeriveKey C password p = cl_argon2id C password (kp_Salt p) (kp_Time p) (kp_Memory p) (kp_Threads p) 32"

definition StretchKey :: "crypto_lib \<Rightarrow> bytes \<Rightarrow> (bytes \<times> bytes) result" where
  "StretchKey C masterKey =
     (case cl_hkdf C masterKey [] ''gophkeeper-vault-key-stretch-v1'' 0 64 of
        None \<Rightarrow> Inl (Panic ''hkdf read failed'')
      | Some stretched \<Rightarrow> Inr (take 32 stretched, drop 32 stretched))"

definition GenerateVaultSymKey :: "rand_bytes \<Rightarrow> nat \<Rightarrow> bytes result" where
  "GenerateVaultSymKey rnd n =
     (case rnd n 32 of None \<Rightarrow> Inl (Wrapf ''generate vault key: %w'' (ErrText ''rand'')) | Some key \<Rightarrow> Inr key)"

definition SealVaultSymKey :: "crypto_lib \<Rightarrow> rand_bytes \<Rightarrow> nat \<Rightarrow> bytes \<Rightarrow> bytes \<Rightarrow> bytes result" where
  "SealVaultSymKey C rnd n vaultKey encKey = Encrypt C rnd n encKey vaultKey"

definition OpenVaultSymKey :: "crypto_lib \<Rightarrow> bytes \<Rightarrow> bytes \<Rightarrow> bytes result" where
  "OpenVaultSymKey C sealed encKey = Decrypt C encKey sealed"

text \<open>A nil keyfile is \<^term>\<open>None\<close>; an empty keyfile that is not nil takes part.\<close>

definition CompositeKey :: "crypto_lib \<Rightarrow> bytes \<Rightarrow> bytes option \<Rightarrow> KDFParams \<Rightarrow> bytes" where
  "CompositeKey C password keyfileData p =
     DeriveKey C (case keyfileData of None \<Rightarrow> password | Some kf \<Rightarrow> password @ cl_sha256 C kf) p"

section \<open>keyfile.go\<close>

text \<open>Files are a map from paths to contents; a write may be refused.\<close>

type_synonym files = "string \<Rightarrow> bytes option"

definition GenerateKeyfile ::
  "rand_bytes \<Rightarrow> nat \<Rightarrow> (string \<Rightarrow> bool) \<Rightarrow> string \<Rightarrow> files \<Rightarrow> bytes result \<times> files" where
  "GenerateKeyfile rnd n writable path fs =
     (case rnd n 64 of
        None \<Rightarrow> (Inl (Wrapf ''generate keyfile data: %w'' (ErrText ''rand'')), fs)
      | Some d \<Rightarrow>
          (if writable path then (Inr d, fs(path \<mapsto> d))
           else (Inl (Wrapf ''write keyfile: %w'' (ErrText path)), fs)))"

definition LoadKeyfile :: "string \<Rightarrow> files \<Rightarrow> bytes result" where
  "LoadKeyfile path fs =
     (case fs path of None \<Rightarrow> Inl (Wrapf ''read keyfile %q: %w'' (ErrText path)) | Some d \<Rightarrow> Inr d)"

section \<open>Properties\<close>

lemma aeadD:
  assumes "aead_contract C"
  shows "cl_Open C k n (cl_Seal C k n p) = Some p" and "cl_Open C k n c = Some p \<Longrightarrow> c = cl_Seal C k n p"
proof -
  have "\<forall>k n p. cl_Open C k n (cl_Seal C k n p) = Some p" using assms unfolding aead_contract_def by (rule conjunct1)
  then show "cl_Open C k n (cl_Seal C k n p) = Some p" by blast
  have "\<forall>k n c p. cl_Open C k n c = Some p \<longrightarrow> c = cl_Seal C k n p" using assms unfolding aead_contract_def by (rule conjunct2)
  then show "cl_Open C k n c = Some p \<Longrightarrow> c = cl_Seal C k n p" by blast
qed

lemma Encrypt_Inr:
  assumes "rand_ok rnd" and "Encrypt C rnd n key p = Inr d"
  obtains nonce where "rnd n nonce_size = Some nonce" "length nonce = nonce_size" "length key = key_size"
    "d = nonce @ cl_Seal C key nonce p"
proof -
  obtain nonce where n: "rnd n nonce_size = Some nonce" "length nonce = nonce_size"
    using assms(1) unfolding rand_ok_def by blast
  then show thesis using that [OF n] assms(2) unfolding Encrypt_def by (auto split: if_splits)
qed

lemma Decrypt_Encrypt:
  assumes "aead_contract C" and "rand_ok rnd" and "Encrypt C rnd n key p = Inr d"
  shows "Decrypt C key d = Inr p"
  using assms(2,3)
proof (rule Encrypt_Inr)
  fix nonce
  assume "rnd n nonce_size = Some nonce" "length nonce = nonce_size" "length key = key_size"
    "d = nonce @ cl_Seal C key nonce p"
  then show ?thesis using aeadD(1) [OF assms(1)] by (simp add: Decrypt_def)
qed


text \<open>A library that meets the contracts, for the witnesses: it seals by prefixing key and nonce.\<close>

definition demo_crypto :: crypto_lib where
  "demo_crypto = \<lparr>cl_Seal = (\<lambda>k n p. k @ n @ p),
     cl_Open = (\<lambda>k n c. if strings_HasPrefix c (k @ n) then Some (drop (length (k @ n)) c) else None),
     cl_hkdf = (\<lambda>k s i off n. Some (replicate n CHR ''h'')),
     cl_argon2id = (\<lambda>pw s t m p n. replicate n CHR ''a''),
     cl_sha256 = (\<lambda>b. replicate 32 CHR ''s'')\<rparr>"

definition demo_rand :: rand_bytes where
  "demo_rand n k = Some (replicate k CHR ''r'')"

lemma demo_crypto_contract [simp]: "aead_contract demo_crypto" "kdf_contract demo_crypto" "rand_ok demo_rand"
proof -
  have "cl_Open demo_crypto k n c = Some p \<Longrightarrow> c = cl_Seal demo_crypto k n p" for k n c p
    by (auto simp: demo_crypto_def strings_HasPrefix_def split: if_splits) (metis append_assoc append_take_drop_id length_append)
  then show "aead_contract demo_crypto"
    unfolding aead_contract_def by (auto simp: demo_crypto_def strings_HasPrefix_def)
  show "kdf_contract demo_crypto" by (simp add: kdf_contract_def demo_crypto_def)
  show "rand_ok demo_rand" by (simp add: rand_ok_def demo_rand_def)
qed

definition demo_key32 :: bytes where "demo_key32 = replicate 32 CHR ''k''"




end
