(* ===== verification/PassGen.thy ===== *)
theory PassGen
  imports Crypto "HOL-Library.Multiset"
begin

text \<open>
  Password generation of \<^verbatim>\<open>src/internal/shared/crypto/passgen.go\<close>. A draw of
  \<^verbatim>\<open>rand.Int\<close> is the next value of the source \<open>rnd\<close> reduced below the bound, or a
  failure of the source; the state is the number of draws made. The deterministic derivation
  reads HKDF streams through \<open>crypto_lib\<close>; its loop has no bound in the code and runs here
  on fuel.
\<close>

type_synonym rand_draws = "nat \<Rightarrow> nat option"

definition charsetLower :: string where "charsetLower = ''abcdefghijklmnopqrstuvwxyz''"
definition charsetUpper :: string where "charsetUpper = ''ABCDEFGHIJKLMNOPQRSTUVWXYZ''"
definition charsetDigits :: string where "charsetDigits = ''0123456789''"
definition charsetSymbols :: string where "charsetSymbols = ''!@#$%^&*()-_=+[]{}|;:,.<>?''"
definition charsetAmbig :: string where "charsetAmbig = ''l1IO0''"

lemmas charset_defs = charsetLower_def charsetUpper_def charsetDigits_def charsetSymbols_def charsetAmbig_def

record PasswordOpts =
  po_Length :: int
  po_Upper :: bool
  po_Digits :: bool
  po_Symbols :: bool
  po_NoAmbiguous :: bool

definition DefaultPasswordOpts :: PasswordOpts where
  "DefaultPasswordOpts = \<lparr>po_Length = 20, po_Upper = True, po_Digits = True, po_Symbols = True, po_NoAmbiguous = False\<rparr>"

definition drop_ambig :: "bool \<Rightarrow> string \<Rightarrow> string" where
  "drop_ambig b s = (if \<not> b then s else filter (\<lambda>c. c \<notin> set charsetAmbig) s)"

definition build_charset :: "PasswordOpts \<Rightarrow> string" where
  "build_charset opts = drop_ambig (po_NoAmbiguous opts)
     (charsetLower @ (if po_Upper opts then charsetUpper else []) @
      (if po_Digits opts then charsetDigits else []) @ (if po_Symbols opts then charsetSymbols else []))"

definition rand_Int :: "rand_draws \<Rightarrow> nat \<Rightarrow> nat \<Rightarrow> nat option" where
  "rand_Int rnd n k = map_option (\<lambda>v. v mod n) (rnd k)"

definition mustRandChar :: "rand_draws \<Rightarrow> string \<Rightarrow> nat \<Rightarrow> char result \<times> nat" where
  "mustRandChar rnd charset k =
     (case rand_Int rnd (length charset) k of
        None \<Rightarrow> (Inl (Panic ''crypto/rand failed''), Suc k)
      | Some n \<Rightarrow> (Inr (charset ! n), Suc k))"

text \<open>One character drawn from each of a list of character sets, in order.\<close>

fun rand_chars :: "rand_draws \<Rightarrow> string list \<Rightarrow> nat \<Rightarrow> string result \<times> nat" where
  "rand_chars rnd [] k = (Inr [], k)"
| "rand_chars rnd (cs # css) k =
     (case mustRandChar rnd cs k of
        (Inl e, k1) \<Rightarrow> (Inl e, k1)
      | (Inr c, k1) \<Rightarrow>
          (case rand_chars rnd css k1 of (Inl e, k2) \<Rightarrow> (Inl e, k2) | (Inr s, k2) \<Rightarrow> (Inr (c # s), k2)))"

fun shuffle_from :: "rand_draws \<Rightarrow> nat \<Rightarrow> string \<Rightarrow> nat \<Rightarrow> string result \<times> nat" where
  "shuffle_from rnd 0 b k = (Inr b, k)"
| "shuffle_from rnd (Suc i) b k =
     (case rand_Int rnd (Suc i + 1) k of
        None \<Rightarrow> (Inl (ErrText ''rand''), Suc k)
      | Some j \<Rightarrow> shuffle_from rnd i (b[Suc i := b ! j, j := b ! Suc i]) (Suc k))"

definition shuffle :: "rand_draws \<Rightarrow> string \<Rightarrow> nat \<Rightarrow> string result \<times> nat" where
  "shuffle rnd b k = shuffle_from rnd (length b - 1) b k"

definition required_sets :: "PasswordOpts \<Rightarrow> string list" where
  "required_sets opts =
     (let f = drop_ambig (po_NoAmbiguous opts) in
      filter (\<lambda>s. s \<noteq> []) [f charsetLower] @
      (if po_Upper opts then filter (\<lambda>s. s \<noteq> []) [f charsetUpper] else []) @
      (if po_Digits opts then filter (\<lambda>s. s \<noteq> []) [f charsetDigits] else []) @
      (if po_Symbols opts then [charsetSymbols] else []))"

definition GeneratePassword :: "rand_draws \<Rightarrow> PasswordOpts \<Rightarrow> nat \<Rightarrow> string result \<times> nat" where
  "GeneratePassword rnd opts k =
     (if po_Length opts < 4 then (Inl (ErrText ''password length must be at least 4''), k)
      else let charset = build_charset opts in
        if charset = [] then (Inl (ErrText ''charset is empty''), k)
        else (case rand_chars rnd (required_sets opts) k of
                (Inl e, k1) \<Rightarrow> (Inl e, k1)
              | (Inr required, k1) \<Rightarrow>
                  (case rand_chars rnd (replicate (nat (po_Length opts)) charset) k1 of
                     (Inl e, k2) \<Rightarrow> (Inl e, k2)
                   | (Inr res, k2) \<Rightarrow>
                       (case shuffle rnd (required @ drop (length required) res) k2 of
                          (Inl e, k3) \<Rightarrow> (Inl (Wrapf ''shuffle: %w'' e), k3)
                        | (Inr pw, k3) \<Rightarrow> (Inr pw, k3)))))"

section \<open>Deterministic derivation\<close>

record DeterministicOpts =
  do_Realm :: string
  do_Length :: int
  do_Opts :: PasswordOpts

text \<open>The threshold of the rejection sampling, in 32-bit arithmetic.\<close>

definition threshold :: "32 word \<Rightarrow> 32 word" where
  "threshold modLen = (- 1 - (- 1) mod modLen) + 1"

definition chunk :: "bytes \<Rightarrow> nat \<Rightarrow> 32 word" where
  "chunk st i = of_nat (((of_char (st ! (i * 4)) * 256 + of_char (st ! (i * 4 + 1))) * 256 +
     of_char (st ! (i * 4 + 2))) * 256 + of_char (st ! (i * 4 + 3)))"

fun derive_loop ::
  "crypto_lib \<Rightarrow> bytes \<Rightarrow> string \<Rightarrow> nat \<Rightarrow> string \<Rightarrow> nat \<Rightarrow> bytes \<Rightarrow> nat \<Rightarrow> string \<Rightarrow> string result option" where
  "derive_loop C key realm len charset 0 st i res = (if length res \<ge> len then Some (Inr res) else None)"
| "derive_loop C key realm len charset (Suc fuel) st i res =
     (if length res \<ge> len then Some (Inr res)
      else let body = (\<lambda>st i.
             let v = chunk st i; modLen = of_nat (length charset) in
             if v \<ge> threshold modLen then derive_loop C key realm len charset fuel st (Suc i) res
             else derive_loop C key realm len charset fuel st (Suc i) (res @ [charset ! unat (v mod modLen)]))
        in if i * 4 + 3 \<ge> length st
           then (case cl_hkdf C key (''gophkeeper-passgen-v1-refill-'' @ itoa i) realm 0 (len * 4) of
                   None \<Rightarrow> Some (Inl (ErrText ''hkdf''))
                 | Some st' \<Rightarrow> body st' 0)
           else body st i)"

definition DerivePassword :: "nat \<Rightarrow> crypto_lib \<Rightarrow> bytes \<Rightarrow> DeterministicOpts \<Rightarrow> string result option" where
  "DerivePassword fuel C masterKey opts =
     (if do_Realm opts = [] then Some (Inl (ErrText ''realm must not be empty''))
      else if do_Length opts < 4 then Some (Inl (ErrText ''password length must be at least 4''))
      else let charset = build_charset (do_Opts opts); len = nat (do_Length opts) in
        if charset = [] then Some (Inl (ErrText ''charset is empty''))
        else (case cl_hkdf C masterKey ''gophkeeper-passgen-v1'' (do_Realm opts) 0 (len * 4) of
                None \<Rightarrow> Some (Inl (Wrapf ''hkdf read: %w'' (ErrText ''hkdf'')))
              | Some st \<Rightarrow> derive_loop C masterKey (do_Realm opts) len charset fuel st 0 []))"

section \<open>Random passwords\<close>

text \<open>The classes that the options ask for, without the ambiguous characters if they are excluded.\<close>

definition wanted_classes :: "PasswordOpts \<Rightarrow> string list" where
  "wanted_classes opts = map (drop_ambig (po_NoAmbiguous opts))
     ([charsetLower] @ (if po_Upper opts then [charsetUpper] else []) @
      (if po_Digits opts then [charsetDigits] else []) @ (if po_Symbols opts then [charsetSymbols] else []))"

lemma required_sets_eq: "required_sets opts = wanted_classes opts"
  by (simp add: required_sets_def wanted_classes_def drop_ambig_def charset_defs Let_def)

lemma charset_nonempty: "build_charset opts \<noteq> []"
  by (simp add: build_charset_def drop_ambig_def charset_defs)

lemma required_nonempty: "s \<in> set (required_sets opts) \<Longrightarrow> s \<noteq> []"
  by (auto simp: required_sets_eq wanted_classes_def drop_ambig_def charset_defs split: if_splits)

lemma mustRandChar_ok:
  assumes "\<forall>k. rnd k \<noteq> None" and "cs \<noteq> []"
  shows "\<exists>c \<in> set cs. mustRandChar rnd cs k = (Inr c, Suc k)"
proof -
  obtain v where "rnd k = Some v" using assms(1) by blast
  then show ?thesis using assms(2) by (simp add: mustRandChar_def rand_Int_def)
qed

lemma rand_chars_ok:
  assumes "\<forall>k. rnd k \<noteq> None" and "\<forall>cs \<in> set css. cs \<noteq> []"
  shows "\<exists>s k'. rand_chars rnd css k = (Inr s, k') \<and> list_all2 (\<lambda>c cs. c \<in> set cs) s css"
  using assms(2)
proof (induction css arbitrary: k)
  case (Cons cs css)
  obtain c where c: "c \<in> set cs" "mustRandChar rnd cs k = (Inr c, Suc k)"
    using mustRandChar_ok [OF assms(1), of cs k] Cons.prems by auto
  obtain s k' where "rand_chars rnd css (Suc k) = (Inr s, k')" "list_all2 (\<lambda>c cs. c \<in> set cs) s css"
    using Cons.IH [of "Suc k"] Cons.prems by auto
  then show ?case using c by simp
qed simp

lemma shuffle_from_ok:
  assumes "\<forall>k. rnd k \<noteq> None" and "i < length b"
  shows "\<exists>b' k'. shuffle_from rnd i b k = (Inr b', k') \<and> mset b' = mset b \<and> length b' = length b"
  using assms(2)
proof (induction i arbitrary: b k)
  case (Suc i)
  obtain v where v: "rnd k = Some v" using assms(1) by blast
  let ?j = "v mod Suc (Suc i)"
  have j: "?j < length b" using Suc.prems by (meson less_trans_Suc mod_less_divisor zero_less_Suc order.strict_trans1 less_Suc_eq_le)
  let ?b = "b[Suc i := b ! ?j, ?j := b ! Suc i]"
  have m: "mset ?b = mset b" using mset_swap [OF j Suc.prems] by simp
  obtain b' k' where "shuffle_from rnd i ?b (Suc k) = (Inr b', k')" "mset b' = mset ?b" "length b' = length ?b"
    using Suc.IH [of ?b "Suc k"] Suc.prems by auto
  then show ?case using v m by (simp add: rand_Int_def)
qed simp

lemma required_length: "length (required_sets opts) \<le> 4"
  by (simp add: required_sets_eq wanted_classes_def)

lemma required_subset: "cs \<in> set (required_sets opts) \<Longrightarrow> set cs \<subseteq> set (build_charset opts)"
  by (auto simp: required_sets_eq wanted_classes_def build_charset_def drop_ambig_def split: if_splits)

text \<open>
  C35. Random passwords: with a random source that does not fail, a password of at least four
  characters is generated for every choice of options; it has exactly the requested length,
  uses only characters of the enabled classes (none of the ambiguous ones, if they are
  excluded), and contains at least one character of every enabled class.
\<close>

theorem generated_password:
  assumes "\<forall>k. rnd k \<noteq> None" and "4 \<le> po_Length opts"
  shows "\<exists>pw k'. GeneratePassword rnd opts k = (Inr pw, k') \<and> int (length pw) = po_Length opts \<and>
    set pw \<subseteq> set (build_charset opts) \<and> (po_NoAmbiguous opts \<longrightarrow> set pw \<inter> set ''l1IO0'' = {}) \<and>
    (\<forall>cls \<in> set (wanted_classes opts). set pw \<inter> set cls \<noteq> {})"
proof -
  let ?n = "nat (po_Length opts)" and ?cs = "build_charset opts"
  have ne: "\<forall>cs \<in> set (required_sets opts). cs \<noteq> []" "\<forall>cs \<in> set (replicate ?n ?cs). cs \<noteq> []"
    using charset_nonempty required_nonempty by auto
  obtain req k1 where req: "rand_chars rnd (required_sets opts) k = (Inr req, k1)"
    "list_all2 (\<lambda>c cs. c \<in> set cs) req (required_sets opts)" using rand_chars_ok [OF assms(1) ne(1)] by blast
  obtain res k2 where res: "rand_chars rnd (replicate ?n ?cs) k1 = (Inr res, k2)"
    "list_all2 (\<lambda>c cs. c \<in> set cs) res (replicate ?n ?cs)" using rand_chars_ok [OF assms(1) ne(2)] by blast
  have len: "length req \<le> 4" "length res = ?n" "4 \<le> ?n"
    using req(2) res(2) required_length [of opts] assms(2) by (auto dest: list_all2_lengthD)
  let ?b = "req @ drop (length req) res"
  have lb: "length ?b = ?n" using len by simp
  obtain pw k3 where pw: "shuffle rnd ?b k2 = (Inr pw, k3)" "mset pw = mset ?b" "length pw = length ?b"
    using shuffle_from_ok [OF assms(1), of "length ?b - 1" ?b k2] lb len(3) unfolding shuffle_def by auto
  have run: "GeneratePassword rnd opts k = (Inr pw, k3)"
    using assms(2) charset_nonempty req(1) res(1) pw(1) by (simp add: GeneratePassword_def)
  have set: "set pw = set req \<union> set (drop (length req) res)" using mset_eq_setD [OF pw(2)] by simp
  have "set req \<subseteq> set ?cs"
    using req(2) required_subset by (fastforce simp: list_all2_conv_all_nth in_set_conv_nth)
  moreover have "set res \<subseteq> set ?cs" using res(2) by (auto simp: list_all2_conv_all_nth in_set_conv_nth)
  ultimately have sub: "set pw \<subseteq> set ?cs" using set by (auto dest: in_set_dropD)
  have amb: "set ?cs \<inter> set ''l1IO0'' = {}" if "po_NoAmbiguous opts"
    using that by (auto simp: build_charset_def drop_ambig_def charsetAmbig_def)
  have cls: "set pw \<inter> set cls \<noteq> {}" if c: "cls \<in> set (wanted_classes opts)" for cls
  proof -
    obtain j where "j < length (required_sets opts)" "required_sets opts ! j = cls"
      using c unfolding required_sets_eq [symmetric] in_set_conv_nth by blast
    then have "req ! j \<in> set cls" "req ! j \<in> set req" using req(2) by (auto simp: list_all2_conv_all_nth)
    then show ?thesis using set by blast
  qed
  show ?thesis using run sub amb cls pw(3) lb len assms(2) by auto
qed

definition demo_opts :: PasswordOpts where
  "demo_opts = \<lparr>po_Length = 6, po_Upper = True, po_Digits = True, po_Symbols = False, po_NoAmbiguous = True\<rparr>"

theorem generated_password_witness:
  "\<exists>pw k'. GeneratePassword (\<lambda>k. Some (7 * k + 3)) demo_opts 0 = (Inr pw, k') \<and> length pw = 6 \<and> set pw \<inter> set ''l1IO0'' = {}"
  using generated_password [of "\<lambda>k. Some (7 * k + 3)" demo_opts 0] by (auto simp: demo_opts_def)

section \<open>Derived passwords\<close>

definition derived_char :: "string \<Rightarrow> bytes \<Rightarrow> nat \<Rightarrow> char" where
  "derived_char charset st i = charset ! unat (chunk st i mod of_nat (length charset))"

lemma length_charset: "0 < length (build_charset opts)" "length (build_charset opts) < 2 ^ 32"
  by (simp_all add: charset_nonempty) (simp add: build_charset_def drop_ambig_def charset_defs)

lemma unat_of_nat32: "n < 2 ^ 32 \<Longrightarrow> unat (of_nat n :: 32 word) = n"
  by (simp add: unsigned_of_nat take_bit_nat_eq_self)

lemma unat_mod_charset: "0 < n \<Longrightarrow> n < 2 ^ 32 \<Longrightarrow> unat ((v :: 32 word) mod of_nat n) < n"
  by (simp add: unat_mod unat_of_nat32)

lemma derive_loop_sound:
  assumes "derive_loop C key realm len charset fuel st i res = Some (Inr pw)"
    and "charset \<noteq> []" "length charset < 2 ^ 32" "length res \<le> len" "set res \<subseteq> set charset"
  shows "length pw = len \<and> set pw \<subseteq> set charset"
  using assms(1,4,5)
proof (induction fuel arbitrary: st i res)
  case 0
  then show ?case by (auto split: if_splits)
next
  case (Suc fuel)
  have ix: "charset ! unat (v mod of_nat (length charset)) \<in> set charset" for v :: "32 word"
    using unat_mod_charset assms(2,3) by simp
  show ?case
  proof (cases "length res \<ge> len")
    case True
    then show ?thesis using Suc.prems by simp
  next
    case False
    have body: "length pw = len \<and> set pw \<subseteq> set charset"
      if "(if chunk st i \<ge> threshold (of_nat (length charset)) then derive_loop C key realm len charset fuel st (Suc i) res
           else derive_loop C key realm len charset fuel st (Suc i) (res @ [charset ! unat (chunk st i mod of_nat (length charset))]))
          = Some (Inr pw)" for st i
      using that Suc.IH [of st "Suc i"] Suc.prems(2,3) False ix by (auto split: if_splits)
    show ?thesis using Suc.prems(1) False body by (auto simp: Let_def split: if_splits option.splits)
  qed
qed

lemma derive_loop_run:
  assumes "\<And>j. j < len \<Longrightarrow> chunk st j < threshold (of_nat (length charset))"
    and "length st = len * 4" and "i \<le> len" and "len - i \<le> fuel"
    and "res = map (derived_char charset st) [0..<i]"
  shows "derive_loop C key realm len charset fuel st i res = Some (Inr (map (derived_char charset st) [0..<len]))"
  using assms(3-)
proof (induction fuel arbitrary: i res)
  case 0
  then show ?case by simp
next
  case (Suc fuel)
  show ?case
  proof (cases "i = len")
    case False
    then have i: "i < len" using Suc.prems by simp
    then have "\<not> i * 4 + 3 \<ge> length st" using assms(2) by simp
    moreover have "\<not> chunk st i \<ge> threshold (of_nat (length charset))" using assms(1) [OF i] by simp
    moreover have "derive_loop C key realm len charset fuel st (Suc i) (res @ [derived_char charset st i])
        = Some (Inr (map (derived_char charset st) [0..<len]))"
      by (rule Suc.IH) (use Suc.prems i in simp_all)
    ultimately show ?thesis using Suc.prems i by (simp add: Let_def derived_char_def)
  qed (use Suc.prems in simp)
qed

text \<open>
  Derived passwords: a password that \<^verbatim>\<open>DerivePassword\<close> returns has exactly the requested
  length and only characters of the enabled classes; when no chunk of the first HKDF stream is
  rejected the derivation ends after one pass, and the password is the pointwise image of the
  stream. The result depends on nothing but the master key, the realm and the options.
\<close>

theorem derived_password:
  assumes "do_Realm opts \<noteq> []" and "4 \<le> do_Length opts"
  shows "(\<forall>fuel pw. DerivePassword fuel C key opts = Some (Inr pw) \<longrightarrow>
        int (length pw) = do_Length opts \<and> set pw \<subseteq> set (build_charset (do_Opts opts))) \<and>
    (\<forall>st fuel. cl_hkdf C key ''gophkeeper-passgen-v1'' (do_Realm opts) 0 (nat (do_Length opts) * 4) = Some st \<and>
        length st = nat (do_Length opts) * 4 \<and> nat (do_Length opts) \<le> fuel \<and>
        (\<forall>j < nat (do_Length opts). chunk st j < threshold (of_nat (length (build_charset (do_Opts opts))))) \<longrightarrow>
        DerivePassword fuel C key opts =
          Some (Inr (map (derived_char (build_charset (do_Opts opts)) st) [0..<nat (do_Length opts)])))"
proof (intro conjI allI impI)
  fix fuel pw
  assume r: "DerivePassword fuel C key opts = Some (Inr pw)"
  have "\<exists>st. derive_loop C key (do_Realm opts) (nat (do_Length opts)) (build_charset (do_Opts opts)) fuel st 0 [] = Some (Inr pw)"
    using r assms charset_nonempty by (auto simp: DerivePassword_def Let_def split: option.splits)
  then have "length pw = nat (do_Length opts) \<and> set pw \<subseteq> set (build_charset (do_Opts opts))"
    using derive_loop_sound charset_nonempty length_charset(2) by fastforce
  then show "int (length pw) = do_Length opts" "set pw \<subseteq> set (build_charset (do_Opts opts))" using assms(2) by auto
next
  fix st fuel
  let ?n = "nat (do_Length opts)" and ?cs = "build_charset (do_Opts opts)"
  assume h: "cl_hkdf C key ''gophkeeper-passgen-v1'' (do_Realm opts) 0 (?n * 4) = Some st \<and> length st = ?n * 4 \<and> ?n \<le> fuel \<and>
    (\<forall>j < ?n. chunk st j < threshold (of_nat (length ?cs)))"
  have "derive_loop C key (do_Realm opts) ?n ?cs fuel st 0 [] = Some (Inr (map (derived_char ?cs st) [0..<?n]))"
    by (rule derive_loop_run) (use h in auto)
  then show "DerivePassword fuel C key opts = Some (Inr (map (derived_char ?cs st) [0..<?n]))"
    using h assms charset_nonempty by (simp add: DerivePassword_def Let_def)
qed

lemma threshold_val:
  assumes "0 < m" "m < 2 ^ 32"
  shows "unat (threshold (of_nat m)) = (((2 ^ 32 - 1) div m) * m + 1) mod 2 ^ 32"
proof -
  have m: "unat (of_nat m :: 32 word) = m" by (rule unat_of_nat32 [OF assms(2)])
  have one: "unat (- 1 :: 32 word) = 2 ^ 32 - 1" by (simp add: unsigned_minus_1_eq_mask mask_eq_exp_minus_1)
  have r: "unat ((- 1 :: 32 word) mod of_nat m) = (2 ^ 32 - 1) mod m" by (simp only: unat_mod m one)
  have "unat ((- 1 :: 32 word) - (- 1) mod of_nat m) = (2 ^ 32 - 1) - (2 ^ 32 - 1) mod m"
    by (subst unat_sub) (simp_all only: one r, simp)
  also have "\<dots> = ((2 ^ 32 - 1) div m) * m" by (simp only: minus_mod_eq_div_mult)
  finally have e: "unat ((- 1 :: 32 word) - (- 1) mod of_nat m) = ((2 ^ 32 - 1) div m) * m" .
  show ?thesis unfolding threshold_def unat_word_ariths(1) e by simp
qed

lemma mult_div_le_pow: "0 < m \<Longrightarrow> \<not> m dvd (2 ^ 32 - 1 :: nat) \<Longrightarrow> ((2 ^ 32 - 1) div m) * m + 1 < (2 ^ 32 :: nat)"
  by (metis dvd_triv_right div_times_less_eq_dividend le_neq_implies_less less_diff_conv)

lemma card_residues:
  assumes "j < m"
  shows "card {n :: nat. n < q * m + 1 \<and> n mod m = j} = q + (if j = 0 then 1 else 0)"
proof -
  let ?f = "\<lambda>i. i * m + j"
  have "{n. n < q * m + 1 \<and> n mod m = j} = ?f ` {..<q + (if j = 0 then 1 else 0)}"
  proof (intro set_eqI iffI)
    fix n assume n: "n \<in> {n. n < q * m + 1 \<and> n mod m = j}"
    then have e: "n = ?f (n div m)" by (metis (mono_tags, lifting) div_mult_mod_eq mem_Collect_eq)
    have le: "(n div m) * m + j \<le> q * m" using n e by simp
    have "n div m < q + (if j = 0 then 1 else 0)"
    proof (cases "j = 0")
      case True
      then show ?thesis using le assms by simp
    next
      case False
      then have "(n div m) * m < q * m" using le by linarith
      then show ?thesis using False by simp
    qed
    then show "n \<in> ?f ` {..<q + (if j = 0 then 1 else 0)}" using e by blast
  next
    fix n assume "n \<in> ?f ` {..<q + (if j = 0 then 1 else 0)}"
    then obtain i where i: "i < q + (if j = 0 then 1 else 0)" "n = i * m + j" by blast
    have "i * m + j \<le> q * m"
    proof (cases "j = 0")
      case False
      then have "Suc i * m \<le> q * m" using i(1) by (intro mult_le_mono1) simp
      then show ?thesis using assms by simp
    qed (use i in simp)
    then show "n \<in> {n. n < q * m + 1 \<and> n mod m = j}" using i(2) assms by simp
  qed
  moreover have "inj_on ?f {..<q + (if j = 0 then 1 else 0)}" using assms by (auto simp: inj_on_def)
  ultimately show ?thesis by (simp add: card_image)
qed

lemma card_word_image: "card {v :: 32 word. P (unat v)} = card {n. n < 2 ^ 32 \<and> P n}"
proof -
  have "unat ` {v :: 32 word. P (unat v)} = {n. n < 2 ^ 32 \<and> P n}"
  proof (intro set_eqI iffI)
    fix n assume "n \<in> {n. n < 2 ^ 32 \<and> P n}"
    then have "unat (of_nat n :: 32 word) = n" "P n" by (simp_all add: unat_of_nat32)
    then show "n \<in> unat ` {v :: 32 word. P (unat v)}" by (metis (mono_tags) image_eqI mem_Collect_eq)
  next
    fix n assume "n \<in> unat ` {v :: 32 word. P (unat v)}"
    then obtain v :: "32 word" where v: "n = unat v" "P (unat v)" by blast
    have "unat v < 2 ^ 32" using unsigned_less [of v] by simp
    then show "n \<in> {n. n < 2 ^ 32 \<and> P n}" using v by simp
  qed
  moreover have "inj_on unat {v :: 32 word. P (unat v)}" by (auto simp: inj_on_def word_unat_eq_iff)
  then have "card (unat ` {v :: 32 word. P (unat v)}) = card {v :: 32 word. P (unat v)}" by (rule card_image)
  ultimately show ?thesis by (simp only:)
qed

text \<open>
  The rejection sampling does not remove the modulo bias: for every character set whose
  size does not divide \<open>2\<^sup>3\<^sup>2 - 1\<close>, the first character is produced by one more of the accepted
  32-bit values than every other character, because the threshold lies one past the last
  multiple of the size.
\<close>

theorem derivation_biased:
  assumes "0 < m" and "m < 2 ^ 32" and "\<not> m dvd 2 ^ 32 - 1" and "j < m"
  shows "card {v :: 32 word. v < threshold (of_nat m) \<and> unat (v mod of_nat m) = j} =
    (2 ^ 32 - 1) div m + (if j = 0 then 1 else 0)"
proof -
  let ?q = "(2 ^ 32 - 1) div m"
  have lt: "?q * m + 1 < 2 ^ 32" using mult_div_le_pow assms(1,3) by blast
  have t: "unat (threshold (of_nat m)) = ?q * m + 1"
    unfolding threshold_val [OF assms(1,2)] using lt by (rule mod_less)
  have m: "unat (of_nat m :: 32 word) = m" by (rule unat_of_nat32 [OF assms(2)])
  have a: "card {v :: 32 word. v < threshold (of_nat m) \<and> unat (v mod of_nat m) = j}
      = card {v :: 32 word. unat v < ?q * m + 1 \<and> unat v mod m = j}"
    by (simp only: word_less_nat_alt t unat_mod m)
  have b: "card {v :: 32 word. unat v < ?q * m + 1 \<and> unat v mod m = j} = card {n. n < 2 ^ 32 \<and> n < ?q * m + 1 \<and> n mod m = j}"
    by (rule card_word_image [of "\<lambda>n. n < ?q * m + 1 \<and> n mod m = j"])
  have c: "{n. n < 2 ^ 32 \<and> n < ?q * m + 1 \<and> n mod m = j} = {n. n < ?q * m + 1 \<and> n mod m = j}"
    by (intro Collect_cong) (meson lt order.strict_trans)
  show ?thesis unfolding a b c card_residues [OF assms(4)] by (rule refl)
qed

lemma derive_loop_diverges:
  assumes "threshold (of_nat (length charset)) = 0" and "\<forall>salt. cl_hkdf C key salt realm 0 (len * 4) \<noteq> None"
    and "length res < len"
  shows "derive_loop C key realm len charset fuel st i res = None"
  using assms(3)
proof (induction fuel arbitrary: st i)
  case 0
  then show ?case by simp
next
  case (Suc fuel)
  obtain st' where "cl_hkdf C key (''gophkeeper-passgen-v1-refill-'' @ itoa i) realm 0 (len * 4) = Some st'"
    using assms(2) by blast
  then show ?case using Suc by (simp add: Let_def assms(1))
qed

lemma threshold_zero_iff:
  "threshold (of_nat (length (build_charset opts))) = 0 \<longleftrightarrow>
     \<not> po_Upper opts \<and> \<not> po_Digits opts \<and> po_Symbols opts \<and> po_NoAmbiguous opts"
  by (cases "po_Upper opts"; cases "po_Digits opts"; cases "po_Symbols opts"; cases "po_NoAmbiguous opts")
     (simp_all add: build_charset_def drop_ambig_def charset_defs threshold_def)

text \<open>
  With lower-case letters and symbols only and the ambiguous characters excluded the set
  has 51 characters, 51 divides \<open>2\<^sup>3\<^sup>2 - 1\<close>, the threshold wraps around to zero, and
  \<^verbatim>\<open>DerivePassword\<close> never returns: every chunk of every stream is rejected. This is the only
  choice of options for which the threshold is zero.
\<close>

theorem derivation_never_returns:
  assumes "do_Realm opts \<noteq> []" and "4 \<le> do_Length opts"
    and "\<forall>salt. cl_hkdf C key salt (do_Realm opts) 0 (nat (do_Length opts) * 4) \<noteq> None"
    and "\<not> po_Upper (do_Opts opts)" "\<not> po_Digits (do_Opts opts)" "po_Symbols (do_Opts opts)" "po_NoAmbiguous (do_Opts opts)"
  shows "DerivePassword fuel C key opts = None \<and>
    (\<forall>o'. threshold (of_nat (length (build_charset o'))) = 0 \<longleftrightarrow>
       \<not> po_Upper o' \<and> \<not> po_Digits o' \<and> po_Symbols o' \<and> po_NoAmbiguous o')"
proof
  obtain st where st: "cl_hkdf C key ''gophkeeper-passgen-v1'' (do_Realm opts) 0 (nat (do_Length opts) * 4) = Some st"
    using assms(3) by blast
  have t: "threshold (of_nat (length (build_charset (do_Opts opts)))) = 0"
    unfolding threshold_zero_iff using assms(4-) by simp
  have "derive_loop C key (do_Realm opts) (nat (do_Length opts)) (build_charset (do_Opts opts)) fuel st 0 [] = None"
    by (rule derive_loop_diverges [OF t assms(3)]) (use assms(2) in simp)
  then show "DerivePassword fuel C key opts = None"
    using assms(1,2) st charset_nonempty by (simp add: DerivePassword_def Let_def)
qed (simp add: threshold_zero_iff)

definition demo_dopts :: DeterministicOpts where
  "demo_dopts = \<lparr>do_Realm = ''github.com'', do_Length = 5, do_Opts = demo_opts\<rparr>"

definition demo_hang :: DeterministicOpts where
  "demo_hang = \<lparr>do_Realm = ''github.com'', do_Length = 16,
     do_Opts = \<lparr>po_Length = 16, po_Upper = False, po_Digits = False, po_Symbols = True, po_NoAmbiguous = True\<rparr>\<rparr>"

theorem derivation_never_returns_witness: "DerivePassword 1000 demo_crypto ''key'' demo_hang = None"
proof -
  have r: "do_Realm demo_hang \<noteq> []" by (simp add: demo_hang_def)
  have n: "4 \<le> do_Length demo_hang" by (simp add: demo_hang_def)
  have h: "\<forall>salt. cl_hkdf demo_crypto ''key'' salt (do_Realm demo_hang) 0 (nat (do_Length demo_hang) * 4) \<noteq> None"
    by (simp add: demo_crypto_def)
  have o: "\<not> po_Upper (do_Opts demo_hang)" "\<not> po_Digits (do_Opts demo_hang)" "po_Symbols (do_Opts demo_hang)"
    "po_NoAmbiguous (do_Opts demo_hang)" by (simp_all add: demo_hang_def)
  show ?thesis using derivation_never_returns [OF r n h o, of 1000] by (rule conjunct1)
qed

lemma demo_chunk: "j < 5 \<Longrightarrow> chunk (replicate 20 CHR ''h'') j = 1751672936"
  by (simp add: chunk_def)

lemma demo_charset_length: "length (build_charset demo_opts) = 57"
  by (simp add: build_charset_def drop_ambig_def charset_defs demo_opts_def)

theorem derived_password_witness:
  "\<exists>pw. DerivePassword 5 demo_crypto ''key'' demo_dopts = Some (Inr pw) \<and> length pw = 5"
proof -
  have r: "do_Realm demo_dopts \<noteq> []" and n: "4 \<le> do_Length demo_dopts" by (simp_all add: demo_dopts_def)
  have t: "\<forall>j < 5. chunk (replicate 20 CHR ''h'') j < threshold (of_nat (length (build_charset demo_opts)))"
    by (simp add: demo_chunk demo_charset_length threshold_def)
  show ?thesis using derived_password [OF r n, of demo_crypto "''key''"] t
    by (auto simp: demo_dopts_def demo_crypto_def)
qed

theorem derivation_biased_witness:
  "card {v :: 32 word. v < threshold 26 \<and> unat (v mod 26) = 0} = 165191050 \<and>
   card {v :: 32 word. v < threshold 26 \<and> unat (v mod 26) = 1} = 165191049"
proof -
  have m: "0 < (26 :: nat)" "26 < (2 :: nat) ^ 32" "\<not> 26 dvd (2 :: nat) ^ 32 - 1" "0 < (26 :: nat)" "1 < (26 :: nat)"
    by simp_all
  show ?thesis using derivation_biased [OF m(1,2,3) m(4)] derivation_biased [OF m(1,2,3) m(5)] by simp
qed

end
