(* ===== verification/Passphrase.thy ===== *)
theory Passphrase
  imports PassGen
begin

text \<open>
  Passphrase generation of \<^verbatim>\<open>src/internal/shared/crypto/passphrase.go\<close>, with the
  built-in word list as it stands in the source.
\<close>

record PassphraseOpts =
  pp_Words :: int
  pp_Separator :: string
  pp_Capitalize :: bool
  pp_IncludeNum :: bool

definition DefaultPassphraseOpts :: PassphraseOpts where
  "DefaultPassphraseOpts = \<lparr>pp_Words = 5, pp_Separator = ''-'', pp_Capitalize = True, pp_IncludeNum = True\<rparr>"

definition passphraseWordlist :: "string list" where
  "passphraseWordlist = [
    ''able'', ''acid'', ''aged'', ''also'', ''area'', ''army'', ''away'', ''baby'',
    ''back'', ''ball'', ''band'', ''bank'', ''base'', ''bath'', ''bear'', ''beat'',
    ''bell'', ''best'', ''bird'', ''blow'', ''blue'', ''bold'', ''bond'', ''bone'',
    ''book'', ''boot'', ''born'', ''bowl'', ''burn'', ''calm'', ''came'', ''camp'',
    ''card'', ''care'', ''cart'', ''case'', ''cash'', ''cast'', ''cave'', ''cell'',
    ''chip'', ''city'', ''clan'', ''clay'', ''clip'', ''club'', ''coal'', ''coat'',
    ''code'', ''coin'', ''cold'', ''comb'', ''come'', ''cook'', ''cool'', ''copy'',
    ''core'', ''corn'', ''cost'', ''crew'', ''crop'', ''cube'', ''cure'', ''curl'',
    ''dame'', ''damp'', ''dare'', ''dark'', ''dash'', ''data'', ''dawn'', ''days'',
    ''dead'', ''deal'', ''dean'', ''deep'', ''deer'', ''desk'', ''dirt'', ''disk'',
    ''doll'', ''dome'', ''door'', ''dose'', ''down'', ''draw'', ''drop'', ''drum'',
    ''dual'', ''dusk'', ''dust'', ''duty'', ''each'', ''earn'', ''ease'', ''east'',
    ''edge'', ''epic'', ''even'', ''ever'', ''exam'', ''face'', ''fact'', ''fail'',
    ''fair'', ''fall'', ''fame'', ''farm'', ''fast'', ''fate'', ''felt'', ''file'',
    ''fill'', ''film'', ''find'', ''fire'', ''fish'', ''fist'', ''flag'', ''flat'',
    ''flew'', ''flip'', ''flow'', ''foam'', ''folk'', ''font'', ''food'', ''foot'',
    ''ford'', ''fork'', ''form'', ''fort'', ''four'', ''free'', ''from'', ''fuel'',
    ''full'', ''fund'', ''fury'', ''fuse'', ''gain'', ''game'', ''gate'', ''gave'',
    ''gear'', ''gift'', ''girl'', ''glad'', ''glow'', ''glue'', ''goal'', ''gold'',
    ''golf'', ''gone'', ''good'', ''grab'', ''gram'', ''gray'', ''grew'', ''grid'',
    ''grim'', ''grip'', ''grow'', ''gulf'', ''guru'', ''hand'', ''hang'', ''hard'',
    ''harm'', ''hash'', ''haul'', ''have'', ''hawk'', ''head'', ''heat'', ''heel'',
    ''held'', ''helm'', ''help'', ''hero'', ''high'', ''hike'', ''hill'', ''hint'',
    ''hold'', ''hole'', ''home'', ''hook'', ''hope'', ''horn'', ''host'', ''hour'',
    ''huge'', ''hull'', ''hunt'', ''hurt'', ''icon'', ''idea'', ''idle'', ''inch'',
    ''iron'', ''item'', ''jade'', ''jazz'', ''jest'', ''join'', ''jump'', ''just'',
    ''keen'', ''kept'', ''kind'', ''king'', ''knot'', ''know'', ''lack'', ''lake'',
    ''lamp'', ''land'', ''last'', ''late'', ''lead'', ''leaf'', ''lean'', ''leap'',
    ''left'', ''lens'', ''less'', ''life'', ''lift'', ''like'', ''lime'', ''line'',
    ''link'', ''lion'', ''list'', ''load'', ''lock'', ''loft'', ''lone'', ''long'',
    ''look'', ''loop'', ''loss'', ''lost'', ''loud'', ''love'', ''luck'', ''made'',
    ''main'', ''make'', ''mall'', ''many'', ''mark'', ''mars'', ''mask'', ''math'',
    ''maze'', ''meal'', ''meet'', ''melt'', ''menu'', ''mesa'', ''mesh'', ''mind'',
    ''mint'', ''miss'', ''mist'', ''mode'', ''monk'', ''moon'', ''more'', ''most'',
    ''move'', ''much'', ''mute'', ''myth'', ''name'', ''navy'', ''near'', ''neck'',
    ''need'', ''nest'', ''next'', ''nice'', ''nine'', ''node'', ''none'', ''noon'',
    ''norm'', ''note'', ''nova'', ''null'', ''oath'', ''once'', ''only'', ''open'',
    ''oral'', ''orca'', ''over'', ''pace'', ''pack'', ''page'', ''paid'', ''pain'',
    ''pair'', ''palm'', ''park'', ''part'', ''pass'', ''path'', ''peak'', ''peer'',
    ''pick'', ''pier'', ''pine'', ''pink'', ''plan'', ''play'', ''plot'', ''plow'',
    ''plus'', ''poet'', ''pole'', ''poll'', ''pond'', ''pool'', ''poor'', ''port'',
    ''post'', ''pour'', ''prey'', ''pure'', ''push'', ''quad'', ''race'', ''rack'',
    ''ramp'', ''rank'', ''read'', ''real'', ''reef'', ''rely'', ''rent'', ''rest'',
    ''rice'', ''rich'', ''ride'', ''ring'', ''rise'', ''risk'', ''road'', ''rock'',
    ''role'', ''roll'', ''roof'', ''room'', ''root'', ''rope'', ''rose'', ''ruin'',
    ''rule'', ''rush'', ''safe'', ''sail'', ''sake'', ''sale'', ''salt'', ''same'',
    ''save'', ''scan'', ''seal'', ''seed'', ''seek'', ''seem'', ''self'', ''sell'',
    ''send'', ''ship'', ''shoe'', ''shop'', ''shot'', ''show'', ''side'', ''sign'',
    ''silk'', ''silt'', ''site'', ''size'', ''skin'', ''skip'', ''slab'', ''slam'',
    ''slim'', ''slip'', ''slow'', ''snap'', ''snow'', ''soft'', ''soil'', ''sole'',
    ''some'', ''song'', ''sort'', ''soul'', ''span'', ''spin'', ''spot'', ''star'',
    ''stay'', ''stem'', ''step'', ''stop'', ''such'', ''suit'', ''surf'', ''swap'',
    ''swim'', ''tail'', ''task'', ''team'', ''tear'', ''tell'', ''term'', ''text'',
    ''than'', ''them'', ''then'', ''they'', ''thin'', ''this'', ''tile'', ''time'',
    ''tiny'', ''tire'', ''toll'', ''tone'', ''tool'', ''tops'', ''tour'', ''town'',
    ''trap'', ''trek'', ''trim'', ''trio'', ''true'', ''tube'', ''tune'', ''turn'',
    ''type'', ''unit'', ''upon'', ''used'', ''user'', ''vast'', ''verb'', ''very'',
    ''view'', ''vine'', ''void'', ''volt'', ''vote'', ''wade'', ''wage'', ''wake'',
    ''walk'', ''wall'', ''warm'', ''warp'', ''wary'', ''wave'', ''weak'', ''wear'',
    ''weed'', ''well'', ''went'', ''were'', ''west'', ''what'', ''when'', ''wide'',
    ''wild'', ''will'', ''wind'', ''wine'', ''wire'', ''wise'', ''wish'', ''with'',
    ''wolf'', ''wood'', ''word'', ''wore'', ''work'', ''worm'', ''worn'', ''wrap'',
    ''yard'', ''year'', ''your'', ''zero'', ''zinc'', ''zone'', ''zoom'', ''barn'']"

text \<open>\<^verbatim>\<open>strings.ToUpper\<close> of an ASCII byte.\<close>

definition upper_char :: "char \<Rightarrow> char" where
  "upper_char c = (if CHR ''a'' \<le> c \<and> c \<le> CHR ''z'' then char_of (of_char c - 32 :: nat) else c)"

definition capitalize :: "string \<Rightarrow> string" where
  "capitalize w = (case w of [] \<Rightarrow> [] | c # cs \<Rightarrow> upper_char c # cs)"

fun strings_Join :: "string list \<Rightarrow> string \<Rightarrow> string" where
  "strings_Join [] sep = []"
| "strings_Join [w] sep = w"
| "strings_Join (w # ws) sep = w @ sep @ strings_Join ws sep"

fun pick_words :: "rand_draws \<Rightarrow> bool \<Rightarrow> nat \<Rightarrow> nat \<Rightarrow> string list result \<times> nat" where
  "pick_words rnd caps 0 k = (Inr [], k)"
| "pick_words rnd caps (Suc n) k =
     (case rand_Int rnd (length passphraseWordlist) k of
        None \<Rightarrow> (Inl (Wrapf ''rand: %w'' (ErrText ''rand'')), Suc k)
      | Some idx \<Rightarrow>
          let w = passphraseWordlist ! idx; w = (if caps then capitalize w else w) in
          (case pick_words rnd caps n (Suc k) of
             (Inl e, k') \<Rightarrow> (Inl e, k')
           | (Inr ws, k') \<Rightarrow> (Inr (w # ws), k')))"

definition GeneratePassphrase :: "rand_draws \<Rightarrow> PassphraseOpts \<Rightarrow> nat \<Rightarrow> string result \<times> nat" where
  "GeneratePassphrase rnd opts k =
     (let n = (if pp_Words opts < 2 then 2 else pp_Words opts) in
      case pick_words rnd (pp_Capitalize opts) (nat n) k of
        (Inl e, k1) \<Rightarrow> (Inl e, k1)
      | (Inr ws, k1) \<Rightarrow>
          let res = strings_Join ws (pp_Separator opts) in
          if pp_IncludeNum opts then
            (case rand_Int rnd 9000 k1 of
               None \<Rightarrow> (Inl (Wrapf ''rand num: %w'' (ErrText ''rand'')), Suc k1)
             | Some num \<Rightarrow> (Inr (res @ pp_Separator opts @ itoa (num + 1000)), Suc k1))
          else (Inr res, k1))"

lemma length_wordlist: "length passphraseWordlist = 504"
  by (simp add: passphraseWordlist_def)


section \<open>The word list\<close>

text \<open>The words are read as numbers; all but the last stand in ascending order.\<close>

definition word_num :: "string \<Rightarrow> int" where
  "word_num w = foldl (\<lambda>n c. n * 256 + of_char c) 0 w"

fun lower_word :: "string \<Rightarrow> bool" where
  "lower_word w = (length w = 4 \<and> list_all (\<lambda>c. 97 \<le> (of_char c :: int) \<and> of_char c \<le> (122 :: int)) w)"

fun wordlist_ok :: "int \<Rightarrow> string list \<Rightarrow> bool" where
  "wordlist_ok n [] = False"
| "wordlist_ok n (w # ws) =
     (if ws = [] then w = ''barn''
      else let m = word_num w in n < m \<and> w \<noteq> ''barn'' \<and> lower_word w \<and> wordlist_ok m ws)"

lemma wordlist_ok_D:
  "wordlist_ok n ws \<Longrightarrow> distinct ws \<and> (\<forall>w \<in> set ws. lower_word w \<and> (w = ''barn'' \<or> n < word_num w))"
proof (induction ws arbitrary: n)
  case (Cons w ws)
  show ?case
  proof (cases "ws = []")
    case True
    then show ?thesis using Cons.prems by simp
  next
    case False
    then have "n < word_num w" "w \<noteq> ''barn''" "lower_word w" "wordlist_ok (word_num w) ws"
      using Cons.prems by (simp_all add: Let_def)
    then show ?thesis using Cons.IH [of "word_num w"] by fastforce
  qed
qed simp

lemma wordlist_checked: "wordlist_ok 0 passphraseWordlist"
  by code_simp

lemma wordlist_distinct: "distinct passphraseWordlist"
  using wordlist_ok_D [OF wordlist_checked] by (rule conjunct1)

lemma wordlist_word: "w \<in> set passphraseWordlist \<Longrightarrow> lower_word w"
  using wordlist_ok_D [OF wordlist_checked] by blast

section \<open>The passphrases\<close>

definition style :: "bool \<Rightarrow> string \<Rightarrow> string" where
  "style caps w = (if caps then capitalize w else w)"

lemma upper_char_inj:
  assumes "97 \<le> (of_char a :: int)" "of_char a \<le> (122 :: int)" "97 \<le> (of_char b :: int)" "of_char b \<le> (122 :: int)"
    and "upper_char a = upper_char b"
  shows "a = b"
proof -
  have lower: "CHR ''a'' \<le> c \<and> c \<le> CHR ''z''" if "97 \<le> (of_char c :: int)" "of_char c \<le> (122 :: int)" for c
    using that unfolding less_eq_char_def by simp (metis of_nat_le_iff of_nat_numeral of_nat_of_char)
  have nat: "97 \<le> (of_char c :: nat)" if "97 \<le> (of_char c :: int)" for c
    using that by (metis of_nat_le_iff of_nat_numeral of_nat_of_char)
  have "char_of (of_char a - 32 :: nat) = (char_of (of_char b - 32 :: nat) :: char)"
    using assms lower unfolding upper_char_def by simp
  then have "(of_char a - 32 :: nat) mod 256 = (of_char b - 32) mod 256" by (metis of_char_of)
  moreover have "(of_char a :: nat) < 256" "(of_char b :: nat) < 256" by simp_all
  ultimately have "(of_char a - 32 :: nat) = of_char b - 32" by simp
  then have "(of_char a :: nat) = of_char b" using nat [OF assms(1)] nat [OF assms(3)] by linarith
  then show ?thesis by simp
qed

lemma style_length: "length (style caps w) = length w"
  by (simp add: style_def capitalize_def split: list.split)

lemma style_inj: "lower_word v \<Longrightarrow> lower_word w \<Longrightarrow> style caps v = style caps w \<Longrightarrow> v = w"
  by (cases v; cases w) (auto simp: style_def capitalize_def dest: upper_char_inj split: if_splits)

lemma map_style_inj:
  assumes "set vs \<subseteq> set passphraseWordlist" "set ws \<subseteq> set passphraseWordlist" "map (style caps) vs = map (style caps) ws"
  shows "vs = ws"
proof -
  have "inj_on (style caps) (set vs \<union> set ws)"
    using assms(1,2) wordlist_word style_inj unfolding inj_on_def by blast
  then show ?thesis using assms(3) by (simp add: map_inj_on)
qed

lemma length_Join: "\<forall>w \<in> set ws. length w = 4 \<Longrightarrow> \<forall>w \<in> set vs. length w = 4 \<Longrightarrow> length ws = length vs \<Longrightarrow>
    length (strings_Join ws sep) = length (strings_Join vs sep)"
proof (induction ws sep arbitrary: vs rule: strings_Join.induct)
  case (2 w sep)
  then show ?case by (cases vs) auto
next
  case (3 w x ws sep)
  then obtain v y us where "vs = v # y # us" by (cases vs; cases "tl vs") auto
  then show ?case using 3 by simp
qed simp

lemma Join_inj: "\<forall>w \<in> set ws. length w = 4 \<Longrightarrow> \<forall>w \<in> set vs. length w = 4 \<Longrightarrow> length ws = length vs \<Longrightarrow>
    strings_Join ws sep = strings_Join vs sep \<Longrightarrow> ws = vs"
proof (induction ws sep arbitrary: vs rule: strings_Join.induct)
  case (2 w sep)
  then show ?case by (cases vs) auto
next
  case (3 w x ws sep)
  then obtain v y us where "vs = v # y # us" by (cases vs; cases "tl vs") auto
  then show ?case using "3.prems" "3.IH" [of "y # us"] by simp
qed simp

lemma pick_words_range:
  "pick_words rnd caps n k = (Inr ws, k') \<Longrightarrow>
     \<exists>vs. ws = map (style caps) vs \<and> length vs = n \<and> set vs \<subseteq> set passphraseWordlist"
proof (induction n arbitrary: k ws k')
  case (Suc n)
  obtain idx where idx: "rand_Int rnd (length passphraseWordlist) k = Some idx"
    using Suc.prems by (cases "rand_Int rnd (length passphraseWordlist) k") auto
  then have lt: "idx < length passphraseWordlist" by (auto simp: rand_Int_def length_wordlist)
  obtain us where us: "pick_words rnd caps n (Suc k) = (Inr us, k')" "ws = style caps (passphraseWordlist ! idx) # us"
    using Suc.prems idx by (auto simp: Let_def style_def split: prod.splits sum.splits if_splits)
  then obtain vs where "us = map (style caps) vs" "length vs = n" "set vs \<subseteq> set passphraseWordlist"
    using Suc.IH by blast
  then show ?case using us(2) lt by (intro exI [of _ "passphraseWordlist ! idx # vs"]) simp
qed simp

lemma pick_words_reach:
  assumes "\<And>i. i < length vs \<Longrightarrow> rnd (k + i) = Some (ix (vs ! i))"
    and "\<And>v. v \<in> set vs \<Longrightarrow> ix v < length passphraseWordlist \<and> passphraseWordlist ! ix v = v"
  shows "pick_words rnd caps (length vs) k = (Inr (map (style caps) vs), k + length vs)"
  using assms
proof (induction vs arbitrary: k)
  case (Cons v vs)
  have "rnd k = Some (ix v)" using Cons.prems(1) [of 0] by simp
  moreover have "pick_words rnd caps (length vs) (Suc k) = (Inr (map (style caps) vs), Suc k + length vs)"
  proof (rule Cons.IH)
    fix i assume "i < length vs"
    then show "rnd (Suc k + i) = Some (ix (vs ! i))" using Cons.prems(1) [of "Suc i"] by simp
  qed (use Cons.prems(2) in simp)
  ultimately show ?case using Cons.prems(2) [of v] by (simp add: rand_Int_def Let_def style_def)
qed simp

lemma length_itoa: "length (itoa n) = (if n < 10 then 1 else Suc (length (itoa (n div 10))))"
  by (subst itoa.simps) simp

lemma length_itoa4:
  assumes "num < 9000"
  shows "length (itoa (num + 1000)) = 4"
proof -
  let ?n = "num + 1000"
  have "\<not> ?n < 10" "\<not> ?n div 10 < 10" "\<not> ?n div 10 div 10 < 10" "?n div 10 div 10 div 10 < 10" using assms by simp_all
  then show ?thesis
    by (simp only: length_itoa [of ?n] length_itoa [of "?n div 10"] length_itoa [of "?n div 10 div 10"]
      length_itoa [of "?n div 10 div 10 div 10"] if_True if_False)
qed

text \<open>The passphrase for a choice of words and of the number.\<close>

definition phrase :: "PassphraseOpts \<Rightarrow> string list \<times> nat \<Rightarrow> string" where
  "phrase opts = (\<lambda>(vs, num). strings_Join (map (style (pp_Capitalize opts)) vs) (pp_Separator opts) @
     (if pp_IncludeNum opts then pp_Separator opts @ itoa (num + 1000) else []))"

definition choices :: "PassphraseOpts \<Rightarrow> (string list \<times> nat) set" where
  "choices opts = {vs. set vs \<subseteq> set passphraseWordlist \<and> length vs = nat (max 2 (pp_Words opts))} \<times>
     {..<if pp_IncludeNum opts then 9000 else 1}"

lemma phrase_inj: "inj_on (phrase opts) (choices opts)"
proof (rule inj_onI)
  fix x y assume x: "x \<in> choices opts" and y: "y \<in> choices opts" and e: "phrase opts x = phrase opts y"
  obtain vs a ws b where xy: "x = (vs, a)" "y = (ws, b)" by (cases x; cases y) auto
  let ?f = "map (style (pp_Capitalize opts))" and ?sep = "pp_Separator opts"
  have sub: "set vs \<subseteq> set passphraseWordlist" "set ws \<subseteq> set passphraseWordlist" and len: "length vs = length ws"
    using x y xy by (auto simp: choices_def)
  have four: "\<forall>w \<in> set (?f vs). length w = 4" "\<forall>w \<in> set (?f ws). length w = 4"
    using sub wordlist_word by (auto simp: style_length)
  have "length (strings_Join (?f vs) ?sep) = length (strings_Join (?f ws) ?sep)"
    using length_Join [OF four] len by simp
  then have j: "strings_Join (?f vs) ?sep = strings_Join (?f ws) ?sep" and n: "pp_IncludeNum opts \<longrightarrow> a = b"
    using e unfolding xy phrase_def by (auto split: if_splits)
  have "?f vs = ?f ws" by (rule Join_inj [OF four _ j]) (simp add: len)
  then have "vs = ws" by (rule map_style_inj [OF sub])
  then show "x = y" using x y xy n by (auto simp: choices_def split: if_splits)
qed


lemma generated_phrases:
  "{p. \<exists>rnd k k'. GeneratePassphrase rnd opts k = (Inr p, k')} = phrase opts ` choices opts"
proof (intro set_eqI iffI)
  let ?n = "nat (max 2 (pp_Words opts))" and ?caps = "pp_Capitalize opts"
  have n: "nat (if pp_Words opts < 2 then 2 else pp_Words opts) = ?n" by auto
  fix p
  {
    assume "p \<in> {p. \<exists>rnd k k'. GeneratePassphrase rnd opts k = (Inr p, k')}"
    then obtain rnd k k' where g: "GeneratePassphrase rnd opts k = (Inr p, k')" by blast
    obtain ws k1 where ws: "pick_words rnd ?caps ?n k = (Inr ws, k1)"
      using g unfolding GeneratePassphrase_def Let_def n by (auto split: prod.splits sum.splits)
    obtain vs where vs: "ws = map (style ?caps) vs" "length vs = ?n" "set vs \<subseteq> set passphraseWordlist"
      using pick_words_range [OF ws] by blast
    show "p \<in> phrase opts ` choices opts"
    proof (cases "pp_IncludeNum opts")
      case True
      obtain num where num: "rand_Int rnd 9000 k1 = Some num"
        using g True ws unfolding GeneratePassphrase_def Let_def n by (auto split: option.splits)
      then have "p = phrase opts (vs, num)" "num < 9000"
        using g True ws vs(1) unfolding GeneratePassphrase_def Let_def n by (auto simp: phrase_def rand_Int_def)
      then show ?thesis using vs True by (auto simp: choices_def)
    next
      case False
      then have "p = phrase opts (vs, 0)"
        using g ws vs(1) unfolding GeneratePassphrase_def Let_def n by (auto simp: phrase_def)
      then show ?thesis using vs False by (auto simp: choices_def)
    qed
  }
  assume "p \<in> phrase opts ` choices opts"
  then obtain vs num where c: "(vs, num) \<in> choices opts" "p = phrase opts (vs, num)" by auto
  define ix where "ix v = (SOME i. i < length passphraseWordlist \<and> passphraseWordlist ! i = v)" for v
  have ix: "ix v < length passphraseWordlist \<and> passphraseWordlist ! ix v = v" if v: "v \<in> set vs" for v
  proof -
    have "v \<in> set passphraseWordlist" using v c(1) by (auto simp: choices_def)
    then show ?thesis unfolding ix_def in_set_conv_nth by (rule someI_ex)
  qed
  have len: "length vs = ?n" using c(1) by (simp add: choices_def)
  let ?rnd = "\<lambda>i. Some (if i < ?n then ix (vs ! i) else num)"
  have w: "pick_words ?rnd ?caps ?n 0 = (Inr (map (style ?caps) vs), ?n)"
    using pick_words_reach [of vs ?rnd 0 ix ?caps] ix len by simp
  have "num < 9000" if "pp_IncludeNum opts" using c(1) that by (simp add: choices_def)
  then have "\<exists>k'. GeneratePassphrase ?rnd opts 0 = (Inr p, k')"
    using w unfolding GeneratePassphrase_def Let_def n c(2) by (simp add: phrase_def rand_Int_def)
  then show "p \<in> {p. \<exists>rnd k k'. GeneratePassphrase rnd opts k = (Inr p, k')}" by blast
qed

text \<open>
  Passphrases: whatever the separator and the options, the passphrases that can be generated
  are exactly the joins of at least two words of the list, with a number between 1000 and
  9999 if one is asked for; distinct choices give distinct passphrases. So there are
  \<open>504\<^sup>n\<close> of them for \<open>n\<close> words (times 9000 with a number): the list has 504 distinct
  four-letter words, not 512.
\<close>

theorem passphrase_space:
  "{p. \<exists>rnd k k'. GeneratePassphrase rnd opts k = (Inr p, k')} = phrase opts ` choices opts \<and>
   inj_on (phrase opts) (choices opts) \<and>
   card {p. \<exists>rnd k k'. GeneratePassphrase rnd opts k = (Inr p, k')} =
     504 ^ nat (max 2 (pp_Words opts)) * (if pp_IncludeNum opts then 9000 else 1)"
proof (intro conjI)
  have "card (set passphraseWordlist) = 504"
    using distinct_card [OF wordlist_distinct] by (simp add: length_wordlist)
  then have "card {vs. set vs \<subseteq> set passphraseWordlist \<and> length vs = nat (max 2 (pp_Words opts))} = 504 ^ nat (max 2 (pp_Words opts))"
    by (simp add: card_lists_length_eq)
  then have "card (choices opts) = 504 ^ nat (max 2 (pp_Words opts)) * (if pp_IncludeNum opts then 9000 else 1)"
    unfolding choices_def card_cartesian_product by simp
  then show "card {p. \<exists>rnd k k'. GeneratePassphrase rnd opts k = (Inr p, k')} =
     504 ^ nat (max 2 (pp_Words opts)) * (if pp_IncludeNum opts then 9000 else 1)"
    unfolding generated_phrases card_image [OF phrase_inj] .
qed (rule generated_phrases, rule phrase_inj)

end
