(* ===== verification/KeyGen.thy ===== *)
theory KeyGen
  imports Crypto
begin

text \<open>
  Key generation of \<^verbatim>\<open>src/internal/shared/crypto/keygen.go\<close>. A reader gives the next
  bytes of its stream at a position, or fails; \<^verbatim>\<open>rand.Reader\<close> and the HKDF stream are two
  of them. The key algorithms and the encodings of Go's \<^verbatim>\<open>crypto\<close> packages are the parameter
  \<open>key_lib\<close>. The documentation of \<^verbatim>\<open>rsa.GenerateKey\<close> and \<^verbatim>\<open>ecdsa.GenerateKey\<close> does not
  promise a result that depends on the reader alone, so both take a second argument.
\<close>

type_synonym reader = "nat \<Rightarrow> nat \<Rightarrow> bytes option"

datatype curve = P256 | P384

record key_lib =
  kl_ed25519_NewKeyFromSeed :: "bytes \<Rightarrow> bytes"
  kl_ed25519_Public :: "bytes \<Rightarrow> bytes"
  kl_ssh_NewPublicKey :: "bytes \<Rightarrow> bytes option"
  kl_ssh_MarshalAuthorizedKey :: "bytes \<Rightarrow> bytes"
  kl_MarshalPKCS8 :: "bytes \<Rightarrow> bytes option"
  kl_MarshalPKIX :: "bytes \<Rightarrow> bytes option"
  kl_pem :: "string \<Rightarrow> bytes \<Rightarrow> bytes"
  kl_rsa_GenerateKey :: "reader \<Rightarrow> nat \<Rightarrow> nat \<Rightarrow> (bytes \<times> bytes) option"
  kl_ecdsa_GenerateKey :: "curve \<Rightarrow> reader \<Rightarrow> nat \<Rightarrow> (bytes \<times> bytes) option"
  kl_P256_NewPrivateKey :: "bytes \<Rightarrow> bytes option"
  kl_P256_Public :: "bytes \<Rightarrow> bytes"
  kl_X25519_NewPrivateKey :: "bytes \<Rightarrow> bytes option"
  kl_X25519_Public :: "bytes \<Rightarrow> bytes"

type_synonym KeyType = string

definition KeyTypeRaw :: KeyType where "KeyTypeRaw = ''raw''"
definition KeyTypeEd25519 :: KeyType where "KeyTypeEd25519 = ''ed25519''"
definition KeyTypeRSA2048 :: KeyType where "KeyTypeRSA2048 = ''rsa2048''"
definition KeyTypeRSA4096 :: KeyType where "KeyTypeRSA4096 = ''rsa4096''"
definition KeyTypeP256 :: KeyType where "KeyTypeP256 = ''p256''"
definition KeyTypeP384 :: KeyType where "KeyTypeP384 = ''p384''"
definition KeyTypeX25519 :: KeyType where "KeyTypeX25519 = ''x25519''"

lemmas KeyType_defs = KeyTypeRaw_def KeyTypeEd25519_def KeyTypeRSA2048_def KeyTypeRSA4096_def
  KeyTypeP256_def KeyTypeP384_def KeyTypeX25519_def

record GeneratedKey =
  gk_Type :: KeyType
  gk_PrivateKey :: bytes
  gk_PublicKey :: bytes

text \<open>A missing value of a step is the step's error, wrapped by the code's message.\<close>

definition or_err :: "string \<Rightarrow> 'a option \<Rightarrow> ('a \<Rightarrow> 'b result) \<Rightarrow> 'b result" where
  "or_err msg x f = (case x of None \<Rightarrow> Inl (Wrapf msg (ErrText ''cause'')) | Some v \<Rightarrow> f v)"

definition generateRaw :: "reader \<Rightarrow> nat \<Rightarrow> GeneratedKey result" where
  "generateRaw r off = or_err ''generate raw key: %w'' (r off 32) (\<lambda>key.
     Inr \<lparr>gk_Type = KeyTypeRaw, gk_PrivateKey = key, gk_PublicKey = []\<rparr>)"

definition marshalEd25519Private :: "key_lib \<Rightarrow> bytes \<Rightarrow> bytes result" where
  "marshalEd25519Private K key = or_err ''marshal ed25519: %w'' (kl_MarshalPKCS8 K key) (\<lambda>b. Inr (kl_pem K ''PRIVATE KEY'' b))"

definition generateEd25519 :: "key_lib \<Rightarrow> reader \<Rightarrow> nat \<Rightarrow> GeneratedKey result" where
  "generateEd25519 K r off = or_err ''read seed: %w'' (r off 32) (\<lambda>seed.
     let privKey = kl_ed25519_NewKeyFromSeed K seed; pubKey = kl_ed25519_Public K privKey in
     case marshalEd25519Private K privKey of
       Inl e \<Rightarrow> Inl e
     | Inr privPEM \<Rightarrow> or_err ''ssh public key: %w'' (kl_ssh_NewPublicKey K pubKey) (\<lambda>sshPub.
         Inr \<lparr>gk_Type = KeyTypeEd25519, gk_PrivateKey = privPEM, gk_PublicKey = kl_ssh_MarshalAuthorizedKey K sshPub\<rparr>))"

definition generateRSAFromReader :: "key_lib \<Rightarrow> reader \<Rightarrow> nat \<Rightarrow> nat \<Rightarrow> GeneratedKey result" where
  "generateRSAFromReader K r coin bits =
     or_err (''generate rsa-'' @ itoa bits @ '': %w'') (kl_rsa_GenerateKey K r coin bits) (\<lambda>(priv, pub).
     or_err ''marshal rsa private: %w'' (kl_MarshalPKCS8 K priv) (\<lambda>privDER.
     or_err ''marshal rsa public: %w'' (kl_MarshalPKIX K pub) (\<lambda>pubDER.
       Inr \<lparr>gk_Type = (if bits = 4096 then KeyTypeRSA4096 else KeyTypeRSA2048),
            gk_PrivateKey = kl_pem K ''PRIVATE KEY'' privDER, gk_PublicKey = kl_pem K ''PUBLIC KEY'' pubDER\<rparr>)))"

definition generateRSA :: "key_lib \<Rightarrow> reader \<Rightarrow> nat \<Rightarrow> nat \<Rightarrow> GeneratedKey result" where
  "generateRSA K rand_Reader coin bits = generateRSAFromReader K rand_Reader coin bits"

text \<open>The loop over the blocks of the stream; \<^term>\<open>None\<close> when the fuel does not suffice.\<close>

fun deriveECDSAP256_from :: "key_lib \<Rightarrow> reader \<Rightarrow> nat \<Rightarrow> nat \<Rightarrow> GeneratedKey result option" where
  "deriveECDSAP256_from K r 0 off = None"
| "deriveECDSAP256_from K r (Suc fuel) off =
     (case r off 32 of
        None \<Rightarrow> Some (Inl (Wrapf ''read p256 scalar: %w'' (ErrText ''cause'')))
      | Some buf \<Rightarrow>
          (case kl_P256_NewPrivateKey K buf of
             None \<Rightarrow> deriveECDSAP256_from K r fuel (off + 32)
           | Some privKey \<Rightarrow> Some (
               or_err ''marshal p256 private: %w'' (kl_MarshalPKCS8 K privKey) (\<lambda>privDER.
               or_err ''marshal p256 public: %w'' (kl_MarshalPKIX K (kl_P256_Public K privKey)) (\<lambda>pubDER.
                 Inr \<lparr>gk_Type = KeyTypeP256, gk_PrivateKey = kl_pem K ''PRIVATE KEY'' privDER,
                      gk_PublicKey = kl_pem K ''PUBLIC KEY'' pubDER\<rparr>)))))"

definition deriveECDSAP256 :: "nat \<Rightarrow> key_lib \<Rightarrow> reader \<Rightarrow> GeneratedKey result option" where
  "deriveECDSAP256 fuel K r = deriveECDSAP256_from K r fuel 0"

definition generateECDSA :: "key_lib \<Rightarrow> curve \<Rightarrow> reader \<Rightarrow> nat \<Rightarrow> GeneratedKey result" where
  "generateECDSA K cv rand_Reader coin =
     or_err ''generate ecdsa: %w'' (kl_ecdsa_GenerateKey K cv rand_Reader coin) (\<lambda>(priv, pub).
     or_err ''marshal ecdsa private: %w'' (kl_MarshalPKCS8 K priv) (\<lambda>privDER.
     or_err ''marshal ecdsa public: %w'' (kl_MarshalPKIX K pub) (\<lambda>pubDER.
       Inr \<lparr>gk_Type = (if cv = P384 then KeyTypeP384 else KeyTypeP256),
            gk_PrivateKey = kl_pem K ''PRIVATE KEY'' privDER, gk_PublicKey = kl_pem K ''PUBLIC KEY'' pubDER\<rparr>)))"

definition generateX25519 :: "key_lib \<Rightarrow> reader \<Rightarrow> nat \<Rightarrow> GeneratedKey result" where
  "generateX25519 K r off =
     or_err ''x25519 seed: %w'' (r off 32) (\<lambda>seed.
     or_err ''x25519 private key: %w'' (kl_X25519_NewPrivateKey K seed) (\<lambda>privKey.
     or_err ''marshal x25519 private: %w'' (kl_MarshalPKCS8 K privKey) (\<lambda>privDER.
     or_err ''marshal x25519 public: %w'' (kl_MarshalPKIX K (kl_X25519_Public K privKey)) (\<lambda>pubDER.
       Inr \<lparr>gk_Type = KeyTypeX25519, gk_PrivateKey = kl_pem K ''PRIVATE KEY'' privDER,
            gk_PublicKey = kl_pem K ''PUBLIC KEY'' pubDER\<rparr>))))"

definition GenerateKey :: "key_lib \<Rightarrow> rand_bytes \<Rightarrow> nat \<Rightarrow> nat \<Rightarrow> KeyType \<Rightarrow> GeneratedKey result" where
  "GenerateKey K rnd n coin keyType =
     (if keyType = KeyTypeRaw then generateRaw rnd n
      else if keyType = KeyTypeEd25519 then generateEd25519 K rnd n
      else if keyType = KeyTypeRSA2048 then generateRSA K rnd coin 2048
      else if keyType = KeyTypeRSA4096 then generateRSA K rnd coin 4096
      else if keyType = KeyTypeP256 then generateECDSA K P256 rnd coin
      else if keyType = KeyTypeP384 then generateECDSA K P384 rnd coin
      else if keyType = KeyTypeX25519 then generateX25519 K rnd n
      else Inl (ErrText (''unknown key type: '' @ keyType)))"

definition keygen_info :: "KeyType \<Rightarrow> string \<Rightarrow> bytes" where
  "keygen_info keyType realm = keyType @ '':'' @ realm"

definition keygen_stream :: "crypto_lib \<Rightarrow> bytes \<Rightarrow> string \<Rightarrow> KeyType \<Rightarrow> reader" where
  "keygen_stream C masterKey realm keyType = cl_hkdf C masterKey ''gophkeeper-keygen-v1'' (keygen_info keyType realm)"

definition DeriveKeyFromMaster ::
  "nat \<Rightarrow> crypto_lib \<Rightarrow> key_lib \<Rightarrow> nat \<Rightarrow> bytes \<Rightarrow> string \<Rightarrow> KeyType \<Rightarrow> GeneratedKey result option" where
  "DeriveKeyFromMaster fuel C K coin masterKey realm keyType =
     (if realm = [] then Some (Inl (ErrText ''realm must not be empty''))
      else let rd = keygen_stream C masterKey realm keyType in
        if keyType = KeyTypeRaw then Some (generateRaw rd 0)
        else if keyType = KeyTypeEd25519 then Some (generateEd25519 K rd 0)
        else if keyType = KeyTypeP256 then deriveECDSAP256 fuel K rd
        else if keyType = KeyTypeX25519 then Some (generateX25519 K rd 0)
        else if keyType = KeyTypeRSA2048 \<or> keyType = KeyTypeRSA4096
          then Some (generateRSAFromReader K rd coin (if keyType = KeyTypeRSA4096 then 4096 else 2048))
        else Some (Inl (ErrText (''unsupported deterministic key type: '' @ keyType))))"

section \<open>Generated keys have the requested type\<close>

lemma or_err_Inr: "or_err msg x f = Inr y \<longleftrightarrow> (\<exists>v. x = Some v \<and> f v = Inr y)"
  by (simp add: or_err_def split: option.splits)

lemma Inr_or_err: "Inr y = or_err msg x f \<longleftrightarrow> (\<exists>v. x = Some v \<and> f v = Inr y)"
  using or_err_Inr by (metis (no_types))

lemma generate_types:
  "generateRaw r off = Inr k \<Longrightarrow> gk_Type k = KeyTypeRaw"
  "generateEd25519 K r off = Inr k \<Longrightarrow> gk_Type k = KeyTypeEd25519"
  "generateRSAFromReader K r coin bits = Inr k \<Longrightarrow> gk_Type k = (if bits = 4096 then KeyTypeRSA4096 else KeyTypeRSA2048)"
  "generateECDSA K cv r coin = Inr k \<Longrightarrow> gk_Type k = (if cv = P384 then KeyTypeP384 else KeyTypeP256)"
  "generateX25519 K r off = Inr k \<Longrightarrow> gk_Type k = KeyTypeX25519"
proof -
  show "generateEd25519 K r off = Inr k \<Longrightarrow> gk_Type k = KeyTypeEd25519"
  proof -
    assume "generateEd25519 K r off = Inr k"
    then obtain seed where s: "(case marshalEd25519Private K (kl_ed25519_NewKeyFromSeed K seed) of Inl e \<Rightarrow> Inl e
        | Inr privPEM \<Rightarrow> or_err ''ssh public key: %w'' (kl_ssh_NewPublicKey K (kl_ed25519_Public K (kl_ed25519_NewKeyFromSeed K seed))) (\<lambda>sshPub.
         Inr \<lparr>gk_Type = KeyTypeEd25519, gk_PrivateKey = privPEM, gk_PublicKey = kl_ssh_MarshalAuthorizedKey K sshPub\<rparr>)) = Inr k"
      by (auto simp: generateEd25519_def or_err_Inr Let_def)
    then show ?thesis by (cases "marshalEd25519Private K (kl_ed25519_NewKeyFromSeed K seed)") (auto simp: or_err_Inr)
  qed
qed (auto simp: generateRaw_def generateRSAFromReader_def generateECDSA_def generateX25519_def or_err_Inr)

lemma p256_type: "deriveECDSAP256_from K r fuel off = Some (Inr k) \<Longrightarrow> gk_Type k = KeyTypeP256"
  by (induction fuel arbitrary: off) (auto simp: or_err_Inr split: option.splits)

definition supported_types :: "KeyType list" where
  "supported_types = [KeyTypeRaw, KeyTypeEd25519, KeyTypeRSA2048, KeyTypeRSA4096, KeyTypeP256, KeyTypeP384, KeyTypeX25519]"

lemma supported_distinct: "distinct supported_types"
  by (simp add: supported_types_def KeyType_defs)

lemma GenerateKey_type: "GenerateKey K rnd n coin kt = Inr k \<Longrightarrow> gk_Type k = kt \<and> kt \<in> set supported_types"
  unfolding GenerateKey_def generateRSA_def supported_types_def by (auto split: if_splits dest: generate_types)

lemma DeriveKeyFromMaster_type:
  "DeriveKeyFromMaster fuel C K coin key realm kt = Some (Inr k) \<Longrightarrow>
     gk_Type k = kt \<and> kt \<in> set supported_types - {KeyTypeP384} \<and> realm \<noteq> []"
proof (intro conjI)
  assume g: "DeriveKeyFromMaster fuel C K coin key realm kt = Some (Inr k)"
  then show "gk_Type k = kt" unfolding DeriveKeyFromMaster_def Let_def deriveECDSAP256_def
    by (auto split: if_splits dest: generate_types p256_type)
  show "kt \<in> set supported_types - {KeyTypeP384}" "realm \<noteq> []"
    using g unfolding DeriveKeyFromMaster_def supported_types_def Let_def by (auto simp: KeyType_defs split: if_splits)
qed


section \<open>Derivation terminates\<close>

text \<open>
  HKDF with SHA-256 gives at most 255 blocks of 32 bytes; a read past the end fails.
\<close>

definition hkdf_limited :: "crypto_lib \<Rightarrow> bool" where
  "hkdf_limited C \<longleftrightarrow> (\<forall>key salt info off n. off + n > 8160 \<longrightarrow> cl_hkdf C key salt info off n = None)"

lemma p256_terminates:
  assumes "\<And>off. off + 32 > 8160 \<Longrightarrow> r off 32 = None" and "8160 < off + 32 * fuel" and "fuel \<noteq> 0"
  shows "deriveECDSAP256_from K r fuel off \<noteq> None"
  using assms(2,3)
proof (induction fuel arbitrary: off)
  case (Suc fuel)
  show ?case
  proof (cases "r off 32 = None")
    case False
    then have "off + 32 \<le> 8160" using assms(1) by (meson not_le)
    then have "8160 < off + 32 + 32 * fuel" "fuel \<noteq> 0" using Suc.prems(1) by auto
    then have "deriveECDSAP256_from K r fuel (off + 32) \<noteq> None" by (rule Suc.IH)
    then show ?thesis using False by (auto split: option.splits)
  qed simp
qed simp

lemma p256_first_block:
  assumes "\<And>j. j < i \<Longrightarrow> \<exists>b. r (off + 32 * j) 32 = Some b \<and> kl_P256_NewPrivateKey K b = None"
    and "r (off + 32 * i) 32 = Some buf" and "kl_P256_NewPrivateKey K buf = Some priv" and "i < fuel"
  shows "deriveECDSAP256_from K r fuel off =
    Some (or_err ''marshal p256 private: %w'' (kl_MarshalPKCS8 K priv) (\<lambda>privDER.
          or_err ''marshal p256 public: %w'' (kl_MarshalPKIX K (kl_P256_Public K priv)) (\<lambda>pubDER.
            Inr \<lparr>gk_Type = KeyTypeP256, gk_PrivateKey = kl_pem K ''PRIVATE KEY'' privDER,
                 gk_PublicKey = kl_pem K ''PUBLIC KEY'' pubDER\<rparr>)))"
  using assms
proof (induction i arbitrary: off fuel)
  case 0
  then show ?case by (cases fuel) simp_all
next
  case (Suc i)
  obtain f where f: "fuel = Suc f" using Suc.prems(4) by (cases fuel) auto
  obtain b where b: "r off 32 = Some b" "kl_P256_NewPrivateKey K b = None" using Suc.prems(1) [of 0] by auto
  have sh: "off + 32 + 32 * j = off + 32 * Suc j" for j by simp
  have "deriveECDSAP256_from K r fuel off = deriveECDSAP256_from K r f (off + 32)" using b f by simp
  also have "\<dots> = Some (or_err ''marshal p256 private: %w'' (kl_MarshalPKCS8 K priv) (\<lambda>privDER.
          or_err ''marshal p256 public: %w'' (kl_MarshalPKIX K (kl_P256_Public K priv)) (\<lambda>pubDER.
            Inr \<lparr>gk_Type = KeyTypeP256, gk_PrivateKey = kl_pem K ''PRIVATE KEY'' privDER,
                 gk_PublicKey = kl_pem K ''PUBLIC KEY'' pubDER\<rparr>)))"
  proof (rule Suc.IH)
    show "\<exists>b. r (off + 32 + 32 * j) 32 = Some b \<and> kl_P256_NewPrivateKey K b = None" if "j < i" for j
      using Suc.prems(1) [of "Suc j"] that unfolding sh by simp
    show "r (off + 32 + 32 * i) 32 = Some buf" unfolding sh by (rule Suc.prems(2))
  qed (use Suc.prems(3,4) f in simp_all)
  finally show ?case .
qed

lemma derive_key_total:
  assumes "hkdf_limited C" and "256 \<le> fuel"
  shows "\<exists>res. DeriveKeyFromMaster fuel C K coin key realm kt = Some res"
proof -
  let ?r = "keygen_stream C key realm kt"
  have "deriveECDSAP256_from K ?r fuel 0 \<noteq> None"
  proof (rule p256_terminates)
    fix off :: nat assume "off + 32 > 8160"
    then show "?r off 32 = None" using assms(1) unfolding hkdf_limited_def keygen_stream_def by blast
  qed (use assms(2) in simp_all)
  then have "DeriveKeyFromMaster fuel C K coin key realm kt \<noteq> None"
    unfolding DeriveKeyFromMaster_def deriveECDSAP256_def Let_def by (cases "kt = KeyTypeP256") auto
  then show ?thesis by blast
qed

text \<open>
  Deriving a key terminates: HKDF gives 255 blocks, so the rejection loop of the P-256
  derivation ends after at most 256 reads, for every master key, realm and key type; the
  scalar it takes is the first block in range.
\<close>

theorem key_derivation_terminates:
  assumes "hkdf_limited C" and "256 \<le> fuel"
  shows "\<exists>res. DeriveKeyFromMaster fuel C K coin key realm kt = Some res \<and>
    (\<forall>i buf priv. kt = KeyTypeP256 \<and> realm \<noteq> [] \<and> i < fuel \<and>
       (\<forall>j < i. \<exists>b. keygen_stream C key realm kt (32 * j) 32 = Some b \<and> kl_P256_NewPrivateKey K b = None) \<and>
       keygen_stream C key realm kt (32 * i) 32 = Some buf \<and> kl_P256_NewPrivateKey K buf = Some priv \<longrightarrow>
       (\<forall>gk. res = Inr gk \<longrightarrow>
          (\<exists>privDER. kl_MarshalPKCS8 K priv = Some privDER \<and> gk_PrivateKey gk = kl_pem K ''PRIVATE KEY'' privDER)))"
proof -
  let ?r = "keygen_stream C key realm kt"
  obtain res where res: "DeriveKeyFromMaster fuel C K coin key realm kt = Some res"
    using derive_key_total [OF assms] by blast
  {
    fix i buf priv gk
    assume h: "kt = KeyTypeP256" "realm \<noteq> []" "i < fuel" "?r (32 * i) 32 = Some buf" "kl_P256_NewPrivateKey K buf = Some priv"
      "\<forall>j < i. \<exists>b. ?r (32 * j) 32 = Some b \<and> kl_P256_NewPrivateKey K b = None" and gk: "res = Inr gk"
    have "deriveECDSAP256_from K ?r fuel 0 = Some (Inr gk)"
      using res h(1,2) gk by (simp add: DeriveKeyFromMaster_def deriveECDSAP256_def Let_def KeyType_defs)
    then have "\<exists>privDER. kl_MarshalPKCS8 K priv = Some privDER \<and> gk_PrivateKey gk = kl_pem K ''PRIVATE KEY'' privDER"
      using p256_first_block [of i ?r 0 K buf priv fuel] h by (auto simp: or_err_Inr Inr_or_err)
  }
  then show ?thesis using res by blast
qed

text \<open>
  Derived keys are separated by type and realm: for the supported types two different pairs
  of type and realm never share an HKDF info string.
\<close>

theorem key_streams_separated:
  assumes "kt \<in> set supported_types" and "kt' \<in> set supported_types"
  shows "keygen_info kt realm = keygen_info kt' realm' \<longleftrightarrow> kt = kt' \<and> realm = realm'"
proof
  have colon: "CHR '':'' \<notin> set k" if "k \<in> set supported_types" for k
    using that by (auto simp: supported_types_def KeyType_defs)
  assume e: "keygen_info kt realm = keygen_info kt' realm'"
  have "takeWhile (\<lambda>c. c \<noteq> CHR '':'') (keygen_info k r) = k" if "CHR '':'' \<notin> set k" for k r
    using that unfolding keygen_info_def by (subst takeWhile_append2) auto
  then have "kt = kt'" using e colon assms by metis
  then show "kt = kt' \<and> realm = realm'" using e by (simp add: keygen_info_def)
qed simp

definition demo_keys :: key_lib where
  "demo_keys = \<lparr>kl_ed25519_NewKeyFromSeed = id, kl_ed25519_Public = id, kl_ssh_NewPublicKey = Some,
     kl_ssh_MarshalAuthorizedKey = id, kl_MarshalPKCS8 = Some, kl_MarshalPKIX = Some, kl_pem = (\<lambda>t b. t @ b),
     kl_rsa_GenerateKey = (\<lambda>r c n. None), kl_ecdsa_GenerateKey = (\<lambda>cv r c. None),
     kl_P256_NewPrivateKey = (\<lambda>b. if b = replicate 32 CHR ''0'' then None else Some b), kl_P256_Public = id,
     kl_X25519_NewPrivateKey = Some, kl_X25519_Public = id\<rparr>"

definition limited_crypto :: crypto_lib where
  "limited_crypto = demo_crypto\<lparr>cl_hkdf := (\<lambda>k s i off n. if off + n > 8160 then None
     else Some (replicate n (if off = 0 then CHR ''0'' else CHR ''h'')))\<rparr>"

lemma limited_crypto_limited: "hkdf_limited limited_crypto"
  by (simp add: hkdf_limited_def limited_crypto_def)

theorem key_derivation_terminates_witness:
  "\<exists>res. DeriveKeyFromMaster 256 limited_crypto demo_keys 0 ''master'' ''github.com'' KeyTypeP256 = Some res"
  using key_derivation_terminates [OF limited_crypto_limited order_refl, of demo_keys 0 "''master''" "''github.com''" KeyTypeP256] by blast

theorem key_streams_separated_witness: "keygen_info KeyTypeP256 ''a'' \<noteq> keygen_info KeyTypeRaw ''a''"
  using key_streams_separated [of KeyTypeP256 KeyTypeRaw "''a''" "''a''"]
  by (simp add: supported_types_def KeyType_defs)


end
