(* ===== verification/Json.thy ===== *)
theory Json
  imports Prelude
begin

text \<open>
  The part of Go's \<^verbatim>\<open>encoding/json\<close> and \<^verbatim>\<open>encoding/base64\<close> that the client calls: the
  compact printing of values, with the escapes of \<^verbatim>\<open>json.Marshal\<close>, the parser of
  \<^verbatim>\<open>json.Unmarshal\<close>, and the standard base64 in which byte slices are written. The round
  trips of the client's file formats and payloads rest on the lemmas proved here.
\<close>

datatype json =
    JNull | JBool bool | JNum string | JStr string
  | JArr "json list" | JObj "(string \<times> json) list"

section \<open>Strings\<close>

definition byte :: "char \<Rightarrow> nat" where "byte c = of_char c"

definition between :: "nat \<Rightarrow> char \<Rightarrow> nat \<Rightarrow> bool" where
  "between lo c hi \<longleftrightarrow> lo \<le> byte c \<and> byte c \<le> hi"

text \<open>\<^verbatim>\<open>utf8.DecodeRune\<close>: the length of the valid UTF-8 sequence a string starts with, or 0.\<close>

definition utf8_2 :: "char \<Rightarrow> char \<Rightarrow> bool" where
  "utf8_2 a b \<longleftrightarrow> between 194 a 223 \<and> between 128 b 191"

definition utf8_3 :: "char \<Rightarrow> char \<Rightarrow> char \<Rightarrow> bool" where
  "utf8_3 a b c \<longleftrightarrow> (byte a = 224 \<and> between 160 b 191 \<or> byte a = 237 \<and> between 128 b 159 \<or>
     (between 225 a 236 \<or> between 238 a 239) \<and> between 128 b 191) \<and> between 128 c 191"

definition utf8_4 :: "char \<Rightarrow> char \<Rightarrow> char \<Rightarrow> char \<Rightarrow> bool" where
  "utf8_4 a b c d \<longleftrightarrow> (byte a = 240 \<and> between 144 b 191 \<or> byte a = 244 \<and> between 128 b 143 \<or>
     between 241 a 243 \<and> between 128 b 191) \<and> between 128 c 191 \<and> between 128 d 191"

fun utf8_len :: "string \<Rightarrow> nat" where
  "utf8_len [] = 0"
| "utf8_len [a] = (if byte a < 128 then 1 else 0)"
| "utf8_len [a, b] = (if byte a < 128 then 1 else if utf8_2 a b then 2 else 0)"
| "utf8_len [a, b, c] = (if byte a < 128 then 1 else if utf8_2 a b then 2 else if utf8_3 a b c then 3 else 0)"
| "utf8_len (a # b # c # d # _) =
     (if byte a < 128 then 1 else if utf8_2 a b then 2 else if utf8_3 a b c then 3 else if utf8_4 a b c d then 4 else 0)"

definition hex_digit :: "nat \<Rightarrow> char" where
  "hex_digit n = ''0123456789abcdef'' ! n"

definition unicode_escape :: "nat \<Rightarrow> string" where
  "unicode_escape r = [CHR 0x5C, CHR ''u''] @ [hex_digit (r div 4096 mod 16), hex_digit (r div 256 mod 16),
     hex_digit (r div 16 mod 16), hex_digit (r mod 16)]"

definition escape_byte :: "char \<Rightarrow> string" where
  "escape_byte c =
     (let n = byte c in
      if n = 34 \<or> n = 92 then [CHR 0x5C, c]
      else if n = 8 then [CHR 0x5C, CHR ''b'']
      else if n = 12 then [CHR 0x5C, CHR ''f'']
      else if n = 10 then [CHR 0x5C, CHR ''n'']
      else if n = 13 then [CHR 0x5C, CHR ''r'']
      else if n = 9 then [CHR 0x5C, CHR ''t'']
      else if n < 32 \<or> n = 60 \<or> n = 62 \<or> n = 38 then unicode_escape n
      else [c])"

text \<open>The body of a quoted string: invalid UTF-8 becomes the replacement character.\<close>

fun quote_body :: "string \<Rightarrow> string" where
  "quote_body [] = []"
| "quote_body (c # cs) =
     (if byte c < 128 then escape_byte c @ quote_body cs
      else let n = utf8_len (c # cs) in
        if n = 0 then unicode_escape 65533 @ quote_body cs
        else let r = take n (c # cs) in
          (if r = [CHR 0xE2, CHR 0x80, CHR 0xA8] then unicode_escape 8232
           else if r = [CHR 0xE2, CHR 0x80, CHR 0xA9] then unicode_escape 8233 else r)
          @ quote_body (drop (n - 1) cs))"

definition quote :: "string \<Rightarrow> string" where
  "quote s = [CHR 0x22] @ quote_body s @ [CHR 0x22]"

text \<open>Reading a string: the characters after the opening quote.\<close>

definition hex_val :: "char \<Rightarrow> nat option" where
  "hex_val c = (let n = byte c in
     if 48 \<le> n \<and> n \<le> 57 then Some (n - 48)
     else if 97 \<le> n \<and> n \<le> 102 then Some (n - 87)
     else if 65 \<le> n \<and> n \<le> 70 then Some (n - 55) else None)"

definition hex4 :: "string \<Rightarrow> nat option" where
  "hex4 s = (case s of
      a # b # c # d # _ \<Rightarrow>
        (case (hex_val a, hex_val b, hex_val c, hex_val d) of
           (Some w, Some x, Some y, Some z) \<Rightarrow> Some (((w * 16 + x) * 16 + y) * 16 + z)
         | _ \<Rightarrow> None)
    | _ \<Rightarrow> None)"

definition encode_rune :: "nat \<Rightarrow> string" where
  "encode_rune r =
     (if r < 128 then [char_of r]
      else if r < 2048 then [char_of (192 + r div 64), char_of (128 + r mod 64)]
      else if r < 65536 then [char_of (224 + r div 4096), char_of (128 + r div 64 mod 64), char_of (128 + r mod 64)]
      else [char_of (240 + r div 262144), char_of (128 + r div 4096 mod 64), char_of (128 + r div 64 mod 64),
            char_of (128 + r mod 64)])"

definition surrogate :: "nat \<Rightarrow> bool" where
  "surrogate r \<longleftrightarrow> 55296 \<le> r \<and> r < 57344"

definition escaped :: "char \<Rightarrow> char option" where
  "escaped c =
     (if c \<in> {CHR 0x22, CHR 0x5C, CHR ''/''} then Some c
      else if c = CHR ''b'' then Some (char_of (8 :: nat))
      else if c = CHR ''f'' then Some (char_of (12 :: nat))
      else if c = CHR ''n'' then Some (char_of (10 :: nat))
      else if c = CHR ''r'' then Some (char_of (13 :: nat))
      else if c = CHR ''t'' then Some (char_of (9 :: nat)) else None)"

text \<open>The rune of an escape, with the second half of a surrogate pair; and what follows it.\<close>

definition escaped_rune :: "string \<Rightarrow> (nat \<times> string) option" where
  "escaped_rune s = (case hex4 s of
      None \<Rightarrow> None
    | Some r \<Rightarrow>
        let rest = drop 4 s in
        if \<not> surrogate r then Some (r, rest)
        else if r < 56320 \<and> strings_HasPrefix rest [CHR 0x5C, CHR ''u''] then
          (case hex4 (drop 2 rest) of
             None \<Rightarrow> None
           | Some r2 \<Rightarrow> if 56320 \<le> r2 \<and> r2 < 57344
               then Some ((r - 55296) * 1024 + (r2 - 56320) + 65536, drop 6 rest) else Some (65533, rest))
        else Some (65533, rest))"

lemma hex4_length: "hex4 s = Some r \<Longrightarrow> 4 \<le> length s"
  by (auto simp: hex4_def split: list.splits)

lemma escaped_rune_length: "escaped_rune s = Some (r, rest) \<Longrightarrow> length rest < length s"
  by (auto simp: escaped_rune_def Let_def split: option.splits if_splits dest!: hex4_length)

function unquote :: "string \<Rightarrow> (string \<times> string) option" where
  "unquote [] = None"
| "unquote (c # cs) =
     (if c = CHR 0x22 then Some ([], cs)
      else if byte c < 32 then None
      else if c = CHR 0x5C then
        (case cs of
           [] \<Rightarrow> None
         | e # r \<Rightarrow>
             if e = CHR ''u'' then
               (case escaped_rune r of
                  None \<Rightarrow> None
                | Some (n, r2) \<Rightarrow> map_option (\<lambda>(s, t). (encode_rune n @ s, t)) (unquote r2))
             else (case escaped e of
                 None \<Rightarrow> None
               | Some x \<Rightarrow> map_option (\<lambda>(s, t). (x # s, t)) (unquote r)))
      else if byte c < 128 then map_option (\<lambda>(s, t). (c # s, t)) (unquote cs)
      else let n = utf8_len (c # cs) in
        if n = 0 then map_option (\<lambda>(s, t). (encode_rune 65533 @ s, t)) (unquote cs)
        else map_option (\<lambda>(s, t). (take n (c # cs) @ s, t)) (unquote (drop (n - 1) cs)))"
  by pat_completeness auto
termination
  by (relation "measure length") (auto dest: escaped_rune_length)

text \<open>Valid UTF-8 strings.\<close>

fun utf8_valid :: "string \<Rightarrow> bool" where
  "utf8_valid [] = True"
| "utf8_valid (c # cs) = (let n = utf8_len (c # cs) in n \<noteq> 0 \<and> utf8_valid (drop (n - 1) cs))"

declare unquote.simps [simp del] quote_body.simps [simp del] utf8_valid.simps [simp del]

subsection \<open>Strings are read back\<close>

lemma byte_simps [simp]: "char_of (byte c) = c" "byte c < 256" "byte c = byte d \<longleftrightarrow> c = d"
  by (simp_all add: byte_def)

lemma byte_char_of [simp]: "n < 256 \<Longrightarrow> byte (char_of n) = n"
  by (simp add: byte_def)

lemma hex_val_digit: "d < 16 \<Longrightarrow> hex_val (hex_digit d) = Some d"
proof -
  have "\<forall>d \<in> set [0..<16]. hex_val (hex_digit d) = Some d" by code_simp
  then show "d < 16 \<Longrightarrow> hex_val (hex_digit d) = Some d" by simp
qed

lemma hex4_escape:
  assumes "r < 65536"
  shows "hex4 (drop 2 (unicode_escape r) @ t) = Some r"
proof -
  define a b where "a = r div 16" and "b = a div 16"
  have e: "r div 256 = b" "r div 4096 = b div 16" unfolding a_def b_def by (simp_all add: div_mult2_eq [symmetric])
  have "b div 16 mod 16 = b div 16" using assms e by simp
  moreover have "b = b div 16 * 16 + b mod 16" "a = b * 16 + a mod 16" "r = a * 16 + r mod 16"
    unfolding a_def b_def by simp_all
  ultimately have "((r div 4096 mod 16 * 16 + r div 256 mod 16) * 16 + r div 16 mod 16) * 16 + r mod 16 = r"
    unfolding e a_def [symmetric] by simp
  moreover have "r div 4096 mod 16 = r div 4096" "r div 4096 < 16" using assms by simp_all
  ultimately show ?thesis by (simp add: hex4_def unicode_escape_def hex_val_digit)
qed

lemma unquote_unicode:
  assumes "r < 65536" and "\<not> surrogate r"
  shows "unquote (unicode_escape r @ t) = map_option (\<lambda>(s, u). (encode_rune r @ s, u)) (unquote t)"
proof -
  let ?h = "drop 2 (unicode_escape r)"
  have e: "unicode_escape r = CHR 0x5C # CHR ''u'' # ?h" "length ?h = 4" by (simp_all add: unicode_escape_def)
  have "escaped_rune (?h @ t) = Some (r, t)"
    using hex4_escape [OF assms(1), of t] assms(2) e(2) by (simp add: escaped_rune_def)
  then show ?thesis by (subst e(1)) (simp add: unquote.simps byte_def)
qed

lemma unquote_escape_byte:
  assumes "byte c < 128"
  shows "unquote (escape_byte c @ t) = map_option (\<lambda>(s, u). (c # s, u)) (unquote t)"
proof -
  have special: "byte c = n \<Longrightarrow> n < 256 \<Longrightarrow> c = char_of n" for n by auto
  consider (bs) "byte c \<in> {34, 92, 8, 12, 10, 13, 9}"
    | (uni) "byte c \<notin> {34, 92, 8, 12, 10, 13, 9}" "byte c < 32 \<or> byte c \<in> {60, 62, 38}"
    | (plain) "byte c \<notin> {34, 92, 8, 12, 10, 13, 9}" "\<not> byte c < 32" "byte c \<notin> {60, 62, 38}" by blast
  then show ?thesis
  proof cases
    case bs
    show ?thesis using bs unfolding insert_iff empty_iff
      by (elim disjE FalseE) (drule special, simp, simp add: escape_byte_def unquote.simps escaped_def byte_def char_of_eq_iff)+
  next
    case uni
    then have "escape_byte c = unicode_escape (byte c)" by (auto simp: escape_byte_def)
    moreover have "\<not> surrogate (byte c)" "byte c < 65536" using assms by (simp_all add: surrogate_def)
    moreover have "encode_rune (byte c) = [c]" using assms by (simp add: encode_rune_def)
    ultimately show ?thesis using unquote_unicode [of "byte c" t] by simp
  next
    case plain
    then have "escape_byte c = [c]" by (simp add: escape_byte_def)
    moreover have "c \<noteq> CHR 0x22" "c \<noteq> CHR 0x5C" using plain(1) by (auto simp: byte_def)
    ultimately show ?thesis using plain assms by (simp add: unquote.simps)
  qed
qed

lemma utf8_len_length: "utf8_len s \<le> length s"
  by (cases s rule: utf8_len.cases) auto

lemma utf8_len_ascii: "byte c < 128 \<Longrightarrow> utf8_len (c # cs) = 1"
  by (cases "c # cs" rule: utf8_len.cases) auto

lemma utf8_len_2: "\<not> byte a < 128 \<Longrightarrow> utf8_2 a b \<Longrightarrow> utf8_len (a # b # t) = 2"
  by (cases "a # b # t" rule: utf8_len.cases) auto

lemma utf8_len_3: "\<not> byte a < 128 \<Longrightarrow> \<not> utf8_2 a b \<Longrightarrow> utf8_3 a b c \<Longrightarrow> utf8_len (a # b # c # t) = 3"
  by (cases "a # b # c # t" rule: utf8_len.cases) auto

lemma utf8_len_take: "utf8_len s \<noteq> 0 \<Longrightarrow> utf8_len (take (utf8_len s) s @ t) = utf8_len s"
  by (cases s rule: utf8_len.cases) (auto simp: utf8_len_ascii utf8_len_2 utf8_len_3 split: if_splits)

lemma unquote_sequence:
  assumes "\<not> byte c < 128" and "utf8_len (c # cs) = n" and "n \<noteq> 0"
  shows "unquote (take n (c # cs) @ t) = map_option (\<lambda>(s, u). (take n (c # cs) @ s, u)) (unquote t)"
proof -
  obtain m where m: "n = Suc m" using assms(3) by (cases n) auto
  have len: "length (take m cs) = m" using utf8_len_length [of "c # cs"] assms(2) m by simp
  have u: "utf8_len (c # take m cs @ t) = n" using utf8_len_take [of "c # cs" t] assms(2,3) m by simp
  have "c \<noteq> CHR 0x22" "c \<noteq> CHR 0x5C" "\<not> byte c < 32" using assms(1) by (auto simp: byte_def)
  then show ?thesis using assms(1,3) u len m by (simp add: unquote.simps Let_def)
qed

lemma encode_rune_separators:
  "encode_rune 8232 = [CHR 0xE2, CHR 0x80, CHR 0xA8]" "encode_rune 8233 = [CHR 0xE2, CHR 0x80, CHR 0xA9]"
  by (simp_all add: encode_rune_def char_of_eq_iff)

lemma unquote_quote_body: "utf8_valid s \<Longrightarrow> unquote (quote_body s @ CHR 0x22 # rest) = Some (s, rest)"
proof (induction s rule: utf8_valid.induct)
  case 1
  then show ?case by (simp add: quote_body.simps unquote.simps)
next
  case (2 c cs)
  let ?n = "utf8_len (c # cs)"
  have n: "?n \<noteq> 0" and v: "utf8_valid (drop (?n - 1) cs)" using 2(2) unfolding utf8_valid.simps(2) Let_def by auto
  have IH: "unquote (quote_body (drop (?n - 1) cs) @ CHR 0x22 # rest) = Some (drop (?n - 1) cs, rest)"
    using 2(1) [OF refl] v by simp
  have split: "take ?n (c # cs) @ drop (?n - 1) cs = c # cs" using n by (cases ?n) auto
  show ?case
  proof (cases "byte c < 128")
    case True
    then show ?thesis using IH by (simp add: utf8_len_ascii quote_body.simps unquote_escape_byte)
  next
    case False
    let ?r = "take ?n (c # cs)" and ?q = "quote_body (drop (?n - 1) cs) @ CHR 0x22 # rest"
    let ?e = "if ?r = [CHR 0xE2, CHR 0x80, CHR 0xA8] then unicode_escape 8232
        else if ?r = [CHR 0xE2, CHR 0x80, CHR 0xA9] then unicode_escape 8233 else ?r"
    have "quote_body (c # cs) @ CHR 0x22 # rest = ?e @ ?q" using False n by (simp add: quote_body.simps Let_def)
    moreover have "unquote (?e @ ?q) = map_option (\<lambda>(s, u). (?r @ s, u)) (unquote ?q)"
      using unquote_sequence [OF False refl n, of ?q] unquote_unicode [of 8232 ?q] unquote_unicode [of 8233 ?q]
      by (auto simp: encode_rune_separators surrogate_def)
    ultimately show ?thesis using IH split by simp
  qed
qed

section \<open>Values\<close>

fun jprint :: "json \<Rightarrow> string" and jprint_arr :: "json list \<Rightarrow> string" and jprint_obj :: "(string \<times> json) list \<Rightarrow> string" where
  "jprint JNull = ''null''"
| "jprint (JBool b) = (if b then ''true'' else ''false'')"
| "jprint (JNum l) = l"
| "jprint (JStr s) = quote s"
| "jprint (JArr vs) = ''['' @ jprint_arr vs @ '']''"
| "jprint (JObj kvs) = ''{'' @ jprint_obj kvs @ ''}''"
| "jprint_arr [] = []"
| "jprint_arr (v # vs) = jprint v @ (if vs = [] then [] else '','' @ jprint_arr vs)"
| "jprint_obj [] = []"
| "jprint_obj ((k, v) # kvs) = quote k @ '':'' @ jprint v @ (if kvs = [] then [] else '','' @ jprint_obj kvs)"

definition is_space :: "char \<Rightarrow> bool" where
  "is_space c \<longleftrightarrow> byte c \<in> {32, 9, 10, 13}"

definition skip_ws :: "string \<Rightarrow> string" where
  "skip_ws s = dropWhile is_space s"

definition is_digit :: "char \<Rightarrow> bool" where
  "is_digit c \<longleftrightarrow> between 48 c 57"

text \<open>The literal of a number: sign, integer part, fraction, exponent.\<close>

definition scan_digits :: "string \<Rightarrow> (string \<times> string) option" where
  "scan_digits s = (let d = takeWhile is_digit s in if d = [] then None else Some (d, dropWhile is_digit s))"

definition scan_int :: "string \<Rightarrow> (string \<times> string) option" where
  "scan_int s = (case s of CHR ''0'' # r \<Rightarrow> Some (''0'', r) | _ \<Rightarrow> scan_digits s)"

definition scan_frac :: "string \<Rightarrow> (string \<times> string) option" where
  "scan_frac s = (case s of CHR ''.'' # r \<Rightarrow> map_option (\<lambda>(d, t). (CHR ''.'' # d, t)) (scan_digits r) | _ \<Rightarrow> Some ([], s))"

definition scan_exp :: "string \<Rightarrow> (string \<times> string) option" where
  "scan_exp s = (case s of
      [] \<Rightarrow> Some ([], s)
    | e # r \<Rightarrow>
        if e \<in> {CHR ''e'', CHR ''E''} then
          (case r of
             [] \<Rightarrow> None
           | g # r2 \<Rightarrow>
               if g \<in> {CHR ''+'', CHR ''-''} then map_option (\<lambda>(d, t). (e # g # d, t)) (scan_digits r2)
               else map_option (\<lambda>(d, t). (e # d, t)) (scan_digits r))
        else Some ([], s))"

definition scan_unsigned :: "string \<Rightarrow> (string \<times> string) option" where
  "scan_unsigned s = (case scan_int s of None \<Rightarrow> None | Some (i, r) \<Rightarrow>
     (case scan_frac r of None \<Rightarrow> None | Some (f, r2) \<Rightarrow>
     (case scan_exp r2 of None \<Rightarrow> None | Some (e, r3) \<Rightarrow> Some (i @ f @ e, r3))))"

definition scan_number :: "string \<Rightarrow> (string \<times> string) option" where
  "scan_number s = (case s of
      CHR ''-'' # r \<Rightarrow> map_option (\<lambda>(d, t). (CHR ''-'' # d, t)) (scan_unsigned r)
    | _ \<Rightarrow> scan_unsigned s)"

definition expect :: "string \<Rightarrow> json \<Rightarrow> string \<Rightarrow> (json \<times> string) option" where
  "expect word v s = (if strings_HasPrefix s word then Some (v, drop (length word) s) else None)"

fun pval :: "nat \<Rightarrow> string \<Rightarrow> (json \<times> string) option"
  and parr :: "nat \<Rightarrow> string \<Rightarrow> (json list \<times> string) option"
  and pobj :: "nat \<Rightarrow> string \<Rightarrow> ((string \<times> json) list \<times> string) option" where
  "pval 0 s = None"
| "pval (Suc f) s =
     (case skip_ws s of
        [] \<Rightarrow> None
      | c # r \<Rightarrow>
          if c = CHR 0x22 then map_option (\<lambda>(x, t). (JStr x, t)) (unquote r)
          else if c = CHR ''['' then
            (if strings_HasPrefix (skip_ws r) '']'' then Some (JArr [], tl (skip_ws r))
             else map_option (\<lambda>(vs, t). (JArr vs, t)) (parr f r))
          else if c = CHR ''{'' then
            (if strings_HasPrefix (skip_ws r) ''}'' then Some (JObj [], tl (skip_ws r))
             else map_option (\<lambda>(kvs, t). (JObj kvs, t)) (pobj f r))
          else if c = CHR ''t'' then expect ''true'' (JBool True) (c # r)
          else if c = CHR ''f'' then expect ''false'' (JBool False) (c # r)
          else if c = CHR ''n'' then expect ''null'' JNull (c # r)
          else map_option (\<lambda>(l, t). (JNum l, t)) (scan_number (c # r)))"
| "parr 0 s = None"
| "parr (Suc f) s =
     (case pval f s of
        None \<Rightarrow> None
      | Some (v, r) \<Rightarrow>
          (case skip_ws r of
             [] \<Rightarrow> None
           | c # t \<Rightarrow>
               if c = CHR '','' then map_option (\<lambda>(vs, u). (v # vs, u)) (parr f t)
               else if c = CHR '']'' then Some ([v], t) else None))"
| "pobj 0 s = None"
| "pobj (Suc f) s =
     (case skip_ws s of
        [] \<Rightarrow> None
      | q # r \<Rightarrow>
          if q \<noteq> CHR 0x22 then None
          else (case unquote r of
                  None \<Rightarrow> None
                | Some (k, r2) \<Rightarrow>
                    (case skip_ws r2 of
                       [] \<Rightarrow> None
                     | d # r3 \<Rightarrow>
                         if d \<noteq> CHR '':'' then None
                         else (case pval f r3 of
                                 None \<Rightarrow> None
                               | Some (v, r4) \<Rightarrow>
                                   (case skip_ws r4 of
                                      [] \<Rightarrow> None
                                    | c # t \<Rightarrow>
                                        if c = CHR '','' then map_option (\<lambda>(kvs, u). ((k, v) # kvs, u)) (pobj f t)
                                        else if c = CHR ''}'' then Some ([(k, v)], t) else None)))))"

text \<open>A document is one value with white space around it. Two units of fuel per byte suffice.\<close>

definition json_parse :: "string \<Rightarrow> json option" where
  "json_parse s = (case pval (2 * length s + 1) s of
      None \<Rightarrow> None
    | Some (v, r) \<Rightarrow> if skip_ws r = [] then Some v else None)"

subsection \<open>Values are read back\<close>

definition int_lit :: "string \<Rightarrow> bool" where
  "int_lit l = (let d = (if take 1 l = ''-'' then tl l else l) in
     d \<noteq> [] \<and> list_all is_digit d \<and> (hd d \<noteq> CHR ''0'' \<or> d = ''0''))"

text \<open>The values the program writes: valid UTF-8 strings and integer numbers.\<close>

fun jok :: "json \<Rightarrow> bool" and jok_arr :: "json list \<Rightarrow> bool" and jok_obj :: "(string \<times> json) list \<Rightarrow> bool" where
  "jok JNull = True"
| "jok (JBool b) = True"
| "jok (JNum l) = int_lit l"
| "jok (JStr s) = utf8_valid s"
| "jok (JArr vs) = jok_arr vs"
| "jok (JObj kvs) = jok_obj kvs"
| "jok_arr [] = True"
| "jok_arr (v # vs) = (jok v \<and> jok_arr vs)"
| "jok_obj [] = True"
| "jok_obj ((k, v) # kvs) = (utf8_valid k \<and> jok v \<and> jok_obj kvs)"

definition follow :: "string \<Rightarrow> bool" where
  "follow rest \<longleftrightarrow> rest = [] \<or> hd rest \<in> {CHR '','', CHR '']'', CHR ''}''}"

lemma follow_simps [simp]: "follow []" "follow (CHR '','' # r)" "follow (CHR '']'' # r)" "follow (CHR ''}'' # r)"
  by (simp_all add: follow_def)

lemma follow_nondigit: "follow rest \<Longrightarrow> takeWhile is_digit rest = []"
  by (cases rest) (auto simp: follow_def is_digit_def between_def byte_def)

lemma is_digit_cases: "is_digit c \<Longrightarrow> c \<notin> {CHR ''-'', CHR ''.'', CHR ''e'', CHR ''E'', CHR 0x22, CHR ''['', CHR ''{'', CHR ''t'', CHR ''f'', CHR ''n'', CHR '']''} \<and> \<not> is_space c"
  by (auto simp: is_digit_def between_def byte_def is_space_def)

lemma scan_unsigned_int:
  assumes "d \<noteq> []" "list_all is_digit d" "hd d \<noteq> CHR ''0'' \<or> d = ''0''" "follow rest"
  shows "scan_unsigned (d @ rest) = Some (d, rest)"
proof -
  have t: "takeWhile is_digit (d @ rest) = d" "dropWhile is_digit (d @ rest) = rest"
    using assms(2) follow_nondigit [OF assms(4)]
    by (simp_all add: list_all_iff takeWhile_append dropWhile_append takeWhile_eq_Nil_iff dropWhile_eq_self_iff)
  have "scan_int (d @ rest) = Some (d, rest)"
  proof (cases "d = ''0''")
    case False
    then have "hd (d @ rest) \<noteq> CHR ''0''" using assms(1,3) by simp
    then have "scan_int (d @ rest) = scan_digits (d @ rest)"
      using assms(1) unfolding scan_int_def by (cases "d @ rest") (auto split: list.splits char.splits bool.splits)
    then show ?thesis using t assms(1) by (simp add: scan_digits_def)
  qed (simp add: scan_int_def)
  moreover have "scan_frac rest = Some ([], rest)" "scan_exp rest = Some ([], rest)"
    using assms(4) by (cases rest; auto simp: follow_def scan_frac_def scan_exp_def)+
  ultimately show ?thesis by (simp add: scan_unsigned_def)
qed

lemma scan_number_int:
  assumes "int_lit l" "follow rest"
  shows "scan_number (l @ rest) = Some (l, rest)"
proof (cases "take 1 l = ''-''")
  case True
  then obtain d where l: "l = CHR ''-'' # d" by (cases l) auto
  then show ?thesis using scan_unsigned_int [of d rest] assms by (simp add: int_lit_def scan_number_def)
next
  case False
  then have d: "l \<noteq> []" "list_all is_digit l" "hd l \<noteq> CHR ''0'' \<or> l = ''0''" using assms(1) by (simp_all add: int_lit_def)
  then have "scan_number (l @ rest) = scan_unsigned (l @ rest)"
    using is_digit_cases [of "hd l"] unfolding scan_number_def by (cases l) (auto split: list.splits char.splits bool.splits)
  then show ?thesis using scan_unsigned_int [OF d assms(2)] by simp
qed

lemma jprint_head:
  assumes "jok v"
  obtains c t where "jprint v = c # t" "\<not> is_space c" "c \<noteq> CHR '']''"
proof (cases v)
  case (JNum l)
  then have "int_lit l" using assms by simp
  then show ?thesis using that [of "hd l" "tl l"] is_digit_cases [of "hd l"] JNum
    by (cases l) (auto simp: int_lit_def is_space_def byte_def split: if_splits)
next
  case (JBool b)
  then show ?thesis using that by (cases b) (auto simp: is_space_def byte_def)
qed (use that in \<open>auto simp: quote_def is_space_def byte_def\<close>)

lemma skip_ws_nonspace: "\<not> is_space c \<Longrightarrow> skip_ws (c # t) = c # t"
  by (simp add: skip_ws_def)

lemma skip_ws_punct [simp]:
  "skip_ws (CHR '','' # t) = CHR '','' # t" "skip_ws (CHR '']'' # t) = CHR '']'' # t"
  "skip_ws (CHR ''}'' # t) = CHR ''}'' # t" "skip_ws (CHR '':'' # t) = CHR '':'' # t"
  "skip_ws (CHR 0x22 # t) = CHR 0x22 # t" "skip_ws (CHR ''['' # t) = CHR ''['' # t"
  "skip_ws (CHR ''{'' # t) = CHR ''{'' # t" "skip_ws (CHR ''t'' # t) = CHR ''t'' # t"
  "skip_ws (CHR ''f'' # t) = CHR ''f'' # t" "skip_ws (CHR ''n'' # t) = CHR ''n'' # t" "skip_ws [] = []"
  by (simp_all add: skip_ws_def is_space_def byte_def)

lemma skip_ws_jprint: "jok v \<Longrightarrow> skip_ws (jprint v @ t) = jprint v @ t"
  by (erule jprint_head) (simp add: skip_ws_nonspace)

lemma skip_ws_jprint_arr: "jok_arr vs \<Longrightarrow> vs \<noteq> [] \<Longrightarrow>
    skip_ws (jprint_arr vs @ t) = jprint_arr vs @ t \<and> \<not> strings_HasPrefix (jprint_arr vs @ t) '']''"
  by (cases vs) (auto elim!: jprint_head simp: skip_ws_nonspace strings_HasPrefix_def)

lemma unquote_quote [simp]: "utf8_valid s \<Longrightarrow> unquote (quote_body s @ CHR 0x22 # rest) = Some (s, rest)"
  by (rule unquote_quote_body)

lemma pval_number: "int_lit l \<Longrightarrow> follow rest \<Longrightarrow> pval (Suc f) (l @ rest) = Some (JNum l, rest)"
proof -
  assume l: "int_lit l" and r: "follow rest"
  obtain c t where c: "l = c # t" "is_digit c \<or> c = CHR ''-''" using l by (cases l) (auto simp: int_lit_def split: if_splits)
  then have w: "skip_ws (l @ rest) = c # t @ rest"
    using is_digit_cases [of c] by (auto simp: skip_ws_def is_space_def byte_def)
  have ne: "c \<noteq> CHR 0x22" "c \<noteq> CHR ''[''" "c \<noteq> CHR ''{''" "c \<noteq> CHR ''t''" "c \<noteq> CHR ''f''" "c \<noteq> CHR ''n''"
    using c(2) is_digit_cases [of c] by blast+
  have "scan_number (c # t @ rest) = Some (l, rest)" using scan_number_int [OF l r] c(1) by simp
  then show ?thesis unfolding pval.simps w list.case using ne by (simp only: if_False option.map case_prod_conv)
qed

lemma parse_print:
  "jok v \<Longrightarrow> (\<forall>rest f. follow rest \<and> length (jprint v) \<le> f \<longrightarrow> pval f (jprint v @ rest) = Some (v, rest))"
  "jok_arr vs \<Longrightarrow> (\<forall>rest f. vs \<noteq> [] \<and> length (jprint_arr vs) + 1 \<le> f \<longrightarrow> parr f (jprint_arr vs @ CHR '']'' # rest) = Some (vs, rest))"
  "jok_obj kvs \<Longrightarrow> (\<forall>rest f. kvs \<noteq> [] \<and> length (jprint_obj kvs) + 1 \<le> f \<longrightarrow> pobj f (jprint_obj kvs @ CHR ''}'' # rest) = Some (kvs, rest))"
proof (induction v and vs and kvs rule: jprint_jprint_arr_jprint_obj.induct)
  case 1
  show ?case by (intro allI impI, case_tac f) (auto simp: expect_def strings_HasPrefix_def)
next
  case (2 b)
  show ?case by (intro allI impI, case_tac f) (auto simp: expect_def strings_HasPrefix_def split: if_splits)
next
  case (3 l)
  then have "0 < length l" by (auto simp: int_lit_def)
  show ?case
  proof (intro allI impI)
    fix rest f assume h: "follow rest \<and> length (jprint (JNum l)) \<le> f"
    then obtain g where "f = Suc g" using \<open>0 < length l\<close> by (cases f) auto
    then show "pval f (jprint (JNum l) @ rest) = Some (JNum l, rest)" using pval_number [of l rest g] 3 h by simp
  qed
next
  case (4 s)
  then show ?case by (intro allI impI, case_tac f) (auto simp: quote_def)
next
  case (5 vs)
  show ?case
  proof (intro allI impI)
    fix rest f assume h: "follow rest \<and> length (jprint (JArr vs)) \<le> f"
    then obtain g where g: "f = Suc g" by (cases f) auto
    show "pval f (jprint (JArr vs) @ rest) = Some (JArr vs, rest)"
    proof (cases "vs = []")
      case False
      have "parr g (jprint_arr vs @ CHR '']'' # rest) = Some (vs, rest)" using 5 False h g by simp
      then show ?thesis using skip_ws_jprint_arr [of vs "CHR '']'' # rest"] 5(2) False g by simp
    qed (simp add: g strings_HasPrefix_def)
  qed
next
  case (6 kvs)
  show ?case
  proof (intro allI impI)
    fix rest f assume h: "follow rest \<and> length (jprint (JObj kvs)) \<le> f"
    then obtain g where g: "f = Suc g" by (cases f) auto
    show "pval f (jprint (JObj kvs) @ rest) = Some (JObj kvs, rest)"
    proof (cases kvs)
      case (Cons kv kvs')
      then obtain k v where kv: "kvs = (k, v) # kvs'" by (cases kv) auto
      have "pobj g (jprint_obj kvs @ CHR ''}'' # rest) = Some (kvs, rest)" using 6 Cons h g by simp
      then show ?thesis using kv g by (simp add: quote_def strings_HasPrefix_def)
    qed (simp add: g strings_HasPrefix_def)
  qed
next
  case (8 v vs)
  show ?case
  proof (intro allI impI)
    fix rest f assume h: "v # vs \<noteq> [] \<and> length (jprint_arr (v # vs)) + 1 \<le> f"
    then obtain g where g: "f = Suc g" by (cases f) auto
    show "parr f (jprint_arr (v # vs) @ CHR '']'' # rest) = Some (v # vs, rest)"
      using 8 h g by (cases "vs = []") auto
  qed
next
  case (10 k v kvs)
  show ?case
  proof (intro allI impI)
    fix rest f assume h: "(k, v) # kvs \<noteq> [] \<and> length (jprint_obj ((k, v) # kvs)) + 1 \<le> f"
    then obtain g where g: "f = Suc g" by (cases f) auto
    show "pobj f (jprint_obj ((k, v) # kvs) @ CHR ''}'' # rest) = Some ((k, v) # kvs, rest)"
      using 10 h g by (cases "kvs = []") (auto simp: quote_def)
  qed
qed simp_all

lemma json_parse_print: "jok v \<Longrightarrow> json_parse (jprint v) = Some v"
  using parse_print(1) [of v, rule_format, of "[]" "2 * length (jprint v) + 1"] by (simp add: json_parse_def)

end
