(* ===== verification/JsonCodec.thy ===== *)
theory JsonCodec
  imports Json
begin

text \<open>
  How \<^verbatim>\<open>encoding/json\<close> writes and reads the field types of the program's structs: strings,
  booleans, integers, byte slices (base64) and times (RFC 3339), and the reading of a JSON
  object into a struct: a key selects a field up to case, a later key overrides an earlier
  one, \<^verbatim>\<open>null\<close> leaves a field as it is, unknown keys are skipped, and a value of the wrong
  type is an error that does not stop the decoding of the other fields.
\<close>

section \<open>Base64\<close>

definition b64_alphabet :: string where
  "b64_alphabet = ''ABCDEFGHIJKLMNOPQRSTUVWXYZabcdefghijklmnopqrstuvwxyz0123456789+/''"

definition b64_char :: "nat \<Rightarrow> char" where "b64_char n = b64_alphabet ! n"

definition b64_val :: "char \<Rightarrow> nat option" where
  "b64_val c = (let n = byte c in
     if 65 \<le> n \<and> n \<le> 90 then Some (n - 65)
     else if 97 \<le> n \<and> n \<le> 122 then Some (n - 71)
     else if 48 \<le> n \<and> n \<le> 57 then Some (n + 4)
     else if n = 43 then Some 62 else if n = 47 then Some 63 else None)"

fun base64_encode :: "bytes \<Rightarrow> string" where
  "base64_encode [] = []"
| "base64_encode [a] = [b64_char (byte a div 4), b64_char (byte a mod 4 * 16), CHR ''='', CHR ''='']"
| "base64_encode [a, b] = [b64_char (byte a div 4), b64_char (byte a mod 4 * 16 + byte b div 16),
     b64_char (byte b mod 16 * 4), CHR ''='']"
| "base64_encode (a # b # c # r) = [b64_char (byte a div 4), b64_char (byte a mod 4 * 16 + byte b div 16),
     b64_char (byte b mod 16 * 4 + byte c div 64), b64_char (byte c mod 64)] @ base64_encode r"

fun decode_quads :: "string \<Rightarrow> bytes option" where
  "decode_quads [] = Some []"
| "decode_quads (w # x # y # z # r) =
     (case (b64_val w, b64_val x) of
        (Some a, Some b) \<Rightarrow>
          if y = CHR ''='' then
            (if z = CHR ''='' \<and> r = [] then Some [char_of (a * 4 + b div 16)] else None)
          else (case b64_val y of
              None \<Rightarrow> None
            | Some c \<Rightarrow>
                if z = CHR ''='' then
                  (if r = [] then Some [char_of (a * 4 + b div 16), char_of (b mod 16 * 16 + c div 4)] else None)
                else (case (b64_val z, decode_quads r) of
                    (Some d, Some t) \<Rightarrow>
                      Some (char_of (a * 4 + b div 16) # char_of (b mod 16 * 16 + c div 4) # char_of (c mod 4 * 64 + d) # t)
                  | _ \<Rightarrow> None))
      | _ \<Rightarrow> None)"
| "decode_quads _ = None"

definition base64_decode :: "string \<Rightarrow> bytes option" where
  "base64_decode s = decode_quads (filter (\<lambda>c. byte c \<noteq> 10 \<and> byte c \<noteq> 13) s)"

lemma b64_table: "map b64_val b64_alphabet = map Some [0..<64]" "length b64_alphabet = 64"
  "list_all (\<lambda>c. c \<noteq> CHR ''='' \<and> byte c \<noteq> 10 \<and> byte c \<noteq> 13 \<and> byte c < 128) b64_alphabet"
  by (simp_all add: b64_alphabet_def b64_val_def byte_def upt_rec)

lemma b64_char_simps [simp]:
  assumes "n < 64"
  shows "b64_val (b64_char n) = Some n" "b64_char n \<noteq> CHR ''=''" "byte (b64_char n) \<noteq> 10" "byte (b64_char n) \<noteq> 13"
    "byte (b64_char n) < 128"
proof -
  show "b64_val (b64_char n) = Some n"
    using arg_cong [OF b64_table(1), of "\<lambda>xs. xs ! n"] assms by (simp add: b64_char_def b64_table(2))
  have "b64_char n \<in> set b64_alphabet" using assms b64_table(2) by (simp add: b64_char_def)
  then show "b64_char n \<noteq> CHR ''=''" "byte (b64_char n) \<noteq> 10" "byte (b64_char n) \<noteq> 13" "byte (b64_char n) < 128"
    using b64_table(3) by (auto simp: list_all_iff)
qed

lemma byte_div [simp]: "byte a div 4 < 64" "byte b div 16 < 16" "byte c div 64 < 4"
proof -
  have "byte a < 64 * 4" "byte b < 16 * 16" "byte c < 4 * 64" using byte_simps(2) by simp_all
  then show "byte a div 4 < 64" "byte b div 16 < 16" "byte c div 64 < 4" by (simp_all only: less_mult_imp_div_less)
qed

lemma sextets [simp]:
  "byte a div 4 < 64" "byte a mod 4 * 16 < 64" "byte a mod 4 * 16 + byte b div 16 < 64" "byte b mod 16 * 4 < 64"
  "byte b mod 16 * 4 + byte c div 64 < 64" "byte c mod 64 < 64"
  "byte a div 4 * 4 + (byte a mod 4 * 16) div 16 = byte a"
  "byte a div 4 * 4 + (byte a mod 4 * 16 + byte b div 16) div 16 = byte a"
  "(byte a mod 4 * 16 + byte b div 16) mod 16 * 16 + (byte b mod 16 * 4) div 4 = byte b"
  "(byte a mod 4 * 16 + byte b div 16) mod 16 * 16 + (byte b mod 16 * 4 + byte c div 64) div 4 = byte b"
  "(byte b mod 16 * 4 + byte c div 64) mod 4 * 64 + byte c mod 64 = byte c"
proof -
  have d: "byte b div 16 < 16" "byte c div 64 < 4" "byte a mod 4 < 4" "byte b mod 16 < 16" "byte a div 4 < 64" by simp_all
  show "byte a div 4 < 64" "byte a mod 4 * 16 < 64" "byte b mod 16 * 4 < 64" "byte c mod 64 < 64" using d by simp_all
  show "byte a mod 4 * 16 + byte b div 16 < 64" "byte b mod 16 * 4 + byte c div 64 < 64" using d by linarith+
  show "byte a div 4 * 4 + (byte a mod 4 * 16) div 16 = byte a" by simp
  show "byte a div 4 * 4 + (byte a mod 4 * 16 + byte b div 16) div 16 = byte a" using d by simp
  show "(byte a mod 4 * 16 + byte b div 16) mod 16 * 16 + (byte b mod 16 * 4) div 4 = byte b" using d by simp
  show "(byte a mod 4 * 16 + byte b div 16) mod 16 * 16 + (byte b mod 16 * 4 + byte c div 64) div 4 = byte b" using d by simp
  show "(byte b mod 16 * 4 + byte c div 64) mod 4 * 64 + byte c mod 64 = byte c" using d by simp
qed

lemma decode_quads_encode: "decode_quads (base64_encode b) = Some b"
  by (induction b rule: base64_encode.induct) simp_all

lemma base64_plain: "\<forall>c \<in> set (base64_encode b). byte c < 128 \<and> byte c \<noteq> 10 \<and> byte c \<noteq> 13"
proof (induction b rule: base64_encode.induct)
  have "byte CHR ''='' = 61" by (simp add: byte_def)
  then show "\<forall>c \<in> set (base64_encode [a]). byte c < 128 \<and> byte c \<noteq> 10 \<and> byte c \<noteq> 13"
    "\<forall>c \<in> set (base64_encode [a, b]). byte c < 128 \<and> byte c \<noteq> 10 \<and> byte c \<noteq> 13" for a b by simp_all
qed simp_all

lemma base64_roundtrip [simp]: "base64_decode (base64_encode b) = Some b"
  unfolding base64_decode_def using base64_plain [of b] by (simp add: filter_id_conv [THEN iffD2] decode_quads_encode)

lemma ascii_utf8: "\<forall>c \<in> set s. byte c < 128 \<Longrightarrow> utf8_valid s"
  by (induction s) (simp_all add: utf8_valid.simps utf8_len_ascii)

lemma base64_utf8 [simp]: "utf8_valid (base64_encode b)"
  using base64_plain by (auto intro: ascii_utf8)

section \<open>Integers\<close>

definition int_text :: "int \<Rightarrow> string" where
  "int_text i = (if i < 0 then CHR ''-'' # itoa (nat (- i)) else itoa (nat i))"

definition int_of_text :: "string \<Rightarrow> int" where
  "int_of_text l = (if take 1 l = ''-'' then - int (atoi (tl l)) else int (atoi l))"

lemma digit_char_digit: "d < 10 \<Longrightarrow> is_digit (digit_char d)"
  by (simp add: digit_char_def is_digit_def between_def)

lemma itoa_digits: "list_all is_digit (itoa n)"
proof (induction n rule: itoa.induct)
  case (1 n)
  then show ?case by (subst itoa.simps) (auto simp: digit_char_digit)
qed

lemma itoa_head: "hd (itoa n) \<noteq> CHR ''0'' \<or> itoa n = ''0''"
proof (induction n rule: itoa.induct)
  case (1 n)
  show ?case
  proof (cases "n < 10")
    case True
    then have "itoa n = [digit_char n]" by (subst itoa.simps) simp
    moreover have "digit_char n = CHR ''0'' \<Longrightarrow> n = 0"
      using True by (simp add: digit_char_def char_of_eq_iff take_bit_eq_mod)
    moreover have "digit_char 0 = CHR ''0''" by (simp add: digit_char_def char_of_eq_iff)
    ultimately show ?thesis by auto
  next
    case False
    then have e: "itoa n = itoa (n div 10) @ [digit_char (n mod 10)]" by (subst itoa.simps) simp
    have "itoa (n div 10) \<noteq> ''0''"
    proof
      assume "itoa (n div 10) = ''0''"
      then have "atoi (itoa (n div 10)) = 0" by (simp add: atoi_def digit_val_def)
      then show False using False by simp
    qed
    then show ?thesis using 1 False e by simp
  qed
qed

lemma int_text_lit: "int_lit (int_text i)"
proof -
  have nd: "take 1 (itoa n) \<noteq> ''-''" for n
    using itoa_digits [of n] is_digit_cases by (cases "itoa n") auto
  show ?thesis using itoa_digits itoa_head nd by (auto simp: int_lit_def int_text_def Let_def)
qed

lemma int_of_text_text [simp]: "int_of_text (int_text i) = i"
proof -
  have "take 1 (itoa n) \<noteq> ''-''" for n
    using itoa_digits [of n] is_digit_cases by (cases "itoa n") auto
  then show ?thesis by (auto simp: int_of_text_def int_text_def)
qed

section \<open>Times\<close>

text \<open>A \<^verbatim>\<open>time.Time\<close> as it is printed: the civil time and the offset from UTC in minutes.\<close>

record gotime =
  t_year :: nat
  t_month :: nat
  t_day :: nat
  t_hour :: nat
  t_min :: nat
  t_sec :: nat
  t_nsec :: nat
  t_off :: int

definition gotime_zero :: gotime where
  "gotime_zero = \<lparr>t_year = 1, t_month = 1, t_day = 1, t_hour = 0, t_min = 0, t_sec = 0, t_nsec = 0, t_off = 0\<rparr>"

definition leap :: "nat \<Rightarrow> bool" where
  "leap y \<longleftrightarrow> y mod 4 = 0 \<and> (y mod 100 \<noteq> 0 \<or> y mod 400 = 0)"

definition days_in :: "nat \<Rightarrow> nat \<Rightarrow> nat" where
  "days_in y m = (if m = 2 then (if leap y then 29 else 28) else if m \<in> {4, 6, 9, 11} then 30 else 31)"

definition gotime_ok :: "gotime \<Rightarrow> bool" where
  "gotime_ok t \<longleftrightarrow> t_year t < 10000 \<and> 1 \<le> t_month t \<and> t_month t \<le> 12 \<and> 1 \<le> t_day t \<and> t_day t \<le> days_in (t_year t) (t_month t) \<and>
     t_hour t < 24 \<and> t_min t < 60 \<and> t_sec t < 60 \<and> t_nsec t < 1000000000 \<and> \<bar>t_off t\<bar> < 1440"

fun pad :: "nat \<Rightarrow> nat \<Rightarrow> string" where
  "pad 0 n = []"
| "pad (Suc w) n = pad w (n div 10) @ [digit_char (n mod 10)]"

definition frac_text :: "nat \<Rightarrow> string" where
  "frac_text ns = (if ns = 0 then [] else CHR ''.'' # rev (dropWhile (\<lambda>c. c = CHR ''0'') (rev (pad 9 ns))))"

definition zone_text :: "int \<Rightarrow> string" where
  "zone_text off = (if off = 0 then ''Z''
     else (if off < 0 then ''-'' else ''+'') @ pad 2 (nat \<bar>off\<bar> div 60) @ '':'' @ pad 2 (nat \<bar>off\<bar> mod 60))"

text \<open>\<^verbatim>\<open>Time.MarshalJSON\<close>, without the quotes.\<close>

definition time_text :: "gotime \<Rightarrow> string" where
  "time_text t = pad 4 (t_year t) @ ''-'' @ pad 2 (t_month t) @ ''-'' @ pad 2 (t_day t) @ ''T'' @
     pad 2 (t_hour t) @ '':'' @ pad 2 (t_min t) @ '':'' @ pad 2 (t_sec t) @ frac_text (t_nsec t) @ zone_text (t_off t)"

definition take_num :: "nat \<Rightarrow> string \<Rightarrow> (nat \<times> string) option" where
  "take_num w s = (if length s < w \<or> \<not> list_all is_digit (take w s) then None else Some (atoi (take w s), drop w s))"

definition take_char :: "char \<Rightarrow> string \<Rightarrow> string option" where
  "take_char c s = (case s of [] \<Rightarrow> None | x # r \<Rightarrow> if x = c then Some r else None)"

definition take_frac :: "string \<Rightarrow> (nat \<times> string) option" where
  "take_frac s = (case take_char (CHR ''.'') s of
      None \<Rightarrow> Some (0, s)
    | Some r \<Rightarrow> let d = takeWhile is_digit r in
        if d = [] then None else Some (atoi (take 9 (d @ replicate 9 (CHR ''0''))), drop (length d) r))"

definition take_zone :: "string \<Rightarrow> int option" where
  "take_zone s = (if s = ''Z'' then Some 0 else
     (case s of [] \<Rightarrow> None | sign # r \<Rightarrow>
       if sign \<notin> {CHR ''+'', CHR ''-''} then None
       else (case take_num 2 r of None \<Rightarrow> None | Some (h, r2) \<Rightarrow>
            (case take_char (CHR '':'') r2 of None \<Rightarrow> None | Some r3 \<Rightarrow>
            (case take_num 2 r3 of None \<Rightarrow> None | Some (m, r4) \<Rightarrow>
               if r4 = [] \<and> h < 24 \<and> m < 60 then Some (if sign = CHR ''-'' then - int (h * 60 + m) else int (h * 60 + m))
               else None)))))"

definition bind :: "'a option \<Rightarrow> ('a \<Rightarrow> 'b option) \<Rightarrow> 'b option" where
  "bind x f = (case x of None \<Rightarrow> None | Some v \<Rightarrow> f v)"

text \<open>The strict RFC 3339 reading of \<^verbatim>\<open>Time.UnmarshalJSON\<close>.\<close>

definition time_of_text :: "string \<Rightarrow> gotime option" where
  "time_of_text s =
     bind (take_num 4 s) (\<lambda>(y, s). bind (take_char (CHR ''-'') s) (\<lambda>s.
     bind (take_num 2 s) (\<lambda>(mo, s). bind (take_char (CHR ''-'') s) (\<lambda>s.
     bind (take_num 2 s) (\<lambda>(d, s). bind (take_char (CHR ''T'') s) (\<lambda>s.
     bind (take_num 2 s) (\<lambda>(h, s). bind (take_char (CHR '':'') s) (\<lambda>s.
     bind (take_num 2 s) (\<lambda>(mi, s). bind (take_char (CHR '':'') s) (\<lambda>s.
     bind (take_num 2 s) (\<lambda>(sec, s). bind (take_frac s) (\<lambda>(ns, s). bind (take_zone s) (\<lambda>off.
       let t = \<lparr>t_year = y, t_month = mo, t_day = d, t_hour = h, t_min = mi, t_sec = sec, t_nsec = ns, t_off = off\<rparr> in
       if gotime_ok t then Some t else None)))))))))))))"

lemma bind_Some [simp]: "bind (Some v) f = f v"
  by (simp add: bind_def)

lemma length_pad [simp]: "length (pad w n) = w"
  by (induction w arbitrary: n) auto

lemma pad_digits: "list_all is_digit (pad w n)"
  by (induction w arbitrary: n) (auto simp: digit_char_digit)

lemma atoi_snoc: "atoi (s @ [c]) = 10 * atoi s + digit_val c"
  by (simp add: atoi_def)

lemma atoi_pad: "n < 10 ^ w \<Longrightarrow> atoi (pad w n) = n"
proof (induction w arbitrary: n)
  case 0
  then show ?case by (simp add: atoi_def)
next
  case (Suc w)
  then have "n div 10 < 10 ^ w" by (simp add: less_mult_imp_div_less mult.commute)
  then show ?case using Suc.IH by (simp add: atoi_snoc digit_val_digit_char)
qed

lemma take_num_pad: "n < 10 ^ w \<Longrightarrow> take_num w (pad w n @ s) = Some (n, s)"
  by (simp add: take_num_def pad_digits atoi_pad)

lemma take_char_Cons [simp]: "take_char c (c # s) = Some s"
  by (simp add: take_char_def)

lemma strip_zeros:
  fixes s :: string
  defines "d \<equiv> rev (dropWhile (\<lambda>c. c = CHR ''0'') (rev s))"
  shows "s = d @ replicate (length s - length d) (CHR ''0'')" and "length d \<le> length s" and "set d \<subseteq> set s"
proof -
  let ?z = "takeWhile (\<lambda>c. c = CHR ''0'') (rev s)"
  have "rev s = ?z @ rev d" unfolding d_def by simp
  then have s: "s = d @ rev ?z" by (metis rev_append rev_rev_ident)
  have "?z = replicate (length ?z) (CHR ''0'')"
    by (rule replicate_eqI) (auto dest: set_takeWhileD)
  then have "rev ?z = replicate (length ?z) (CHR ''0'')" by (metis rev_replicate)
  moreover have "length ?z = length s - length d" using arg_cong [OF s, of length] by simp
  ultimately show "s = d @ replicate (length s - length d) (CHR ''0'')" using s by metis
  show "length d \<le> length s" using arg_cong [OF s, of length] by simp
  show "set d \<subseteq> set s" using arg_cong [OF s, of set] by auto
qed

lemma zone_head: "\<exists>c r. zone_text off = c # r \<and> \<not> is_digit c \<and> c \<noteq> CHR ''.''"
  by (auto simp: zone_text_def is_digit_def between_def byte_def)

lemma atoi_zeros: "atoi (replicate n (CHR ''0'')) = 0"
proof (induction n)
  case (Suc n)
  have "replicate (Suc n) (CHR ''0'') = replicate n (CHR ''0'') @ [CHR ''0'']" by (simp add: replicate_append_same)
  then show ?case using Suc atoi_snoc [of "replicate n (CHR ''0'')" "CHR ''0''"] by (simp add: digit_val_def)
qed (simp add: atoi_def)

lemma take_frac_text:
  assumes "ns < 1000000000"
  shows "take_frac (frac_text ns @ zone_text off) = Some (ns, zone_text off)"
proof (cases "ns = 0")
  case True
  then show ?thesis using zone_head [of off] by (auto simp: frac_text_def take_frac_def take_char_def)
next
  case False
  let ?d = "rev (dropWhile (\<lambda>c. c = CHR ''0'') (rev (pad 9 ns)))"
  have p: "pad 9 ns = ?d @ replicate (9 - length ?d) (CHR ''0'')" and l: "length ?d \<le> 9"
    using strip_zeros [of "pad 9 ns"] by simp_all
  have n: "atoi (pad 9 ns) = ns" using assms by (intro atoi_pad) simp
  have d: "list_all is_digit ?d" using pad_digits [of 9 ns] strip_zeros(3) [of "pad 9 ns"] unfolding list_all_iff by blast
  have ne: "?d \<noteq> []" using p n False atoi_zeros by force
  obtain c r where z: "zone_text off = c # r" "\<not> is_digit c" using zone_head by blast
  have tw: "takeWhile is_digit (?d @ zone_text off) = ?d"
    using d z by (subst takeWhile_append2) (simp_all add: list_all_iff)
  have "take 9 (e @ replicate 9 x) = e @ replicate (9 - length e) x" if "length e \<le> 9" for e :: string and x
    using that by (simp add: min_def)
  from this [OF l, of "CHR ''0''"] p have t: "take 9 (?d @ replicate 9 (CHR ''0'')) = pad 9 ns" by (simp only:)
  have dr: "drop (length e) (e @ z) = z" for e z :: string by simp
  have "take_frac (CHR ''.'' # ?d @ zone_text off) = Some (atoi (take 9 (?d @ replicate 9 (CHR ''0''))), zone_text off)"
    unfolding take_frac_def take_char_Cons option.case Let_def tw using ne by (simp only: dr if_False simp_thms)
  then show ?thesis using False unfolding t n frac_text_def by (simp only: if_False append_Cons)
qed

lemma take_zone_text: "\<bar>off\<bar> < 1440 \<Longrightarrow> take_zone (zone_text off) = Some off"
proof -
  assume a: "\<bar>off\<bar> < 1440"
  let ?n = "nat \<bar>off\<bar>"
  have n: "?n div 60 < 24" "?n mod 60 < 60" "?n div 60 * 60 + ?n mod 60 = ?n" using a by auto
  then have t: "take_num 2 (pad 2 (?n div 60) @ s) = Some (?n div 60, s)" "take_num 2 (pad 2 (?n mod 60) @ s) = Some (?n mod 60, s)" for s
    by (intro take_num_pad, simp)+
  show ?thesis
  proof (cases "off = 0")
    case False
    have "take_num 2 (pad 2 (?n mod 60)) = Some (?n mod 60, [])" using t(2) [of "[]"] by simp
    then show ?thesis using False t n by (auto simp: take_zone_def zone_text_def)
  qed (simp add: take_zone_def zone_text_def)
qed

lemma days_in_le: "days_in y m \<le> 31"
  by (simp add: days_in_def)

lemma time_of_text_text: "gotime_ok t \<Longrightarrow> time_of_text (time_text t) = Some t"
proof -
  assume t: "gotime_ok t"
  have "t_day t \<le> 31" using t days_in_le [of "t_year t" "t_month t"] unfolding gotime_ok_def by linarith
  then have b: "t_year t < 10 ^ 4" "t_month t < 10 ^ 2" "t_day t < 10 ^ 2" "t_hour t < 10 ^ 2" "t_min t < 10 ^ 2" "t_sec t < 10 ^ 2"
    "t_nsec t < 1000000000" "\<bar>t_off t\<bar> < 1440" using t by (simp_all add: gotime_ok_def)
  have e: "\<lparr>t_year = t_year t, t_month = t_month t, t_day = t_day t, t_hour = t_hour t, t_min = t_min t, t_sec = t_sec t,
      t_nsec = t_nsec t, t_off = t_off t\<rparr> = t" by simp
  show ?thesis unfolding time_of_text_def time_text_def
    using t by (simp add: e take_num_pad [OF b(1)] take_num_pad [OF b(2)] take_num_pad [OF b(3)] take_num_pad [OF b(4)]
      take_num_pad [OF b(5)] take_num_pad [OF b(6)] take_frac_text [OF b(7)] take_zone_text [OF b(8)] Let_def)
qed

lemma time_text_utf8 [simp]: "utf8_valid (time_text t)"
proof (rule ascii_utf8)
  have p: "c \<in> set (pad w n) \<Longrightarrow> byte c < 128" for c w n
    using pad_digits [of w n] unfolding list_all_iff is_digit_def between_def by force
  have f: "c \<in> set (frac_text n) \<Longrightarrow> byte c < 128" for c n
    using p [of c 9 n] strip_zeros(3) [of "pad 9 n"] by (auto simp: frac_text_def byte_def split: if_splits)
  show "\<forall>c \<in> set (time_text t). byte c < 128"
    unfolding time_text_def zone_text_def using p f by (auto simp: byte_def)
qed

section \<open>Fields\<close>

text \<open>
  Keys are compared after folding: ASCII letters up to case, and the two other characters
  whose case folding is an ASCII letter, the long s and the Kelvin sign.
\<close>

fun fold_name :: "string \<Rightarrow> string" where
  "fold_name [] = []"
| "fold_name (c # cs) =
     (if take 2 (c # cs) = [CHR 0xC5, CHR 0xBF] then CHR ''S'' # fold_name (drop 1 cs)
      else if take 3 (c # cs) = [CHR 0xE2, CHR 0x84, CHR 0xAA] then CHR ''K'' # fold_name (drop 2 cs)
      else (if between 97 c 122 then char_of (byte c - 32) else c) # fold_name cs)"

definition obj_vals :: "string \<Rightarrow> (string \<times> json) list \<Rightarrow> json list" where
  "obj_vals name kvs = map snd (filter (\<lambda>(k, v). fold_name k = fold_name name) kvs)"

text \<open>
  A decoder updates the field and says whether the value has the right type; the values of
  a key are decoded in order.
\<close>

type_synonym 'a decoder = "json \<Rightarrow> 'a \<Rightarrow> 'a \<times> bool"

fun dec_all :: "'a decoder \<Rightarrow> json list \<Rightarrow> 'a \<Rightarrow> 'a \<times> bool" where
  "dec_all d [] x = (x, True)"
| "dec_all d (v # vs) x = (let (y, ok) = d v x; (z, ok') = dec_all d vs y in (z, ok \<and> ok'))"

definition dec_field :: "'a decoder \<Rightarrow> string \<Rightarrow> (string \<times> json) list \<Rightarrow> 'a \<Rightarrow> 'a \<times> bool" where
  "dec_field d name kvs x = dec_all d (obj_vals name kvs) x"

definition d_str :: "string decoder" where
  "d_str v x = (case v of JStr s \<Rightarrow> (s, True) | JNull \<Rightarrow> (x, True) | _ \<Rightarrow> (x, False))"

definition d_bool :: "bool decoder" where
  "d_bool v x = (case v of JBool b \<Rightarrow> (b, True) | JNull \<Rightarrow> (x, True) | _ \<Rightarrow> (x, False))"

definition d_int :: "int \<Rightarrow> int \<Rightarrow> int decoder" where
  "d_int lo hi v x = (case v of
      JNum l \<Rightarrow> (let n = int_of_text l in if int_lit l \<and> lo \<le> n \<and> n \<le> hi then (n, True) else (x, False))
    | JNull \<Rightarrow> (x, True) | _ \<Rightarrow> (x, False))"

definition d_bytes :: "bytes option decoder" where
  "d_bytes v x = (case v of
      JStr s \<Rightarrow> (case base64_decode s of Some b \<Rightarrow> (Some b, True) | None \<Rightarrow> (x, False))
    | JNull \<Rightarrow> (None, True)
    | JArr vs \<Rightarrow> (Some (map (\<lambda>e. char_of (nat (fst (d_int 0 255 e 0)))) vs), list_all (\<lambda>e. snd (d_int 0 255 e 0)) vs)
    | _ \<Rightarrow> (x, False))"

definition d_time :: "gotime decoder" where
  "d_time v x = (case v of
      JStr s \<Rightarrow> (case time_of_text s of Some t \<Rightarrow> (t, True) | None \<Rightarrow> (x, False))
    | JNull \<Rightarrow> (x, True) | _ \<Rightarrow> (x, False))"

text \<open>A slice of structs; \<^verbatim>\<open>null\<close> makes it nil.\<close>

definition d_list :: "'a decoder \<Rightarrow> 'a \<Rightarrow> 'a list decoder" where
  "d_list d zero v x = (case v of
      JArr vs \<Rightarrow> (map (\<lambda>e. fst (d e zero)) vs, list_all (\<lambda>e. snd (d e zero)) vs)
    | JNull \<Rightarrow> ([], True) | _ \<Rightarrow> (x, False))"

text \<open>A struct from the members of an object.\<close>

definition d_struct :: "((string \<times> json) list \<Rightarrow> 'a \<Rightarrow> 'a \<times> bool) \<Rightarrow> 'a decoder" where
  "d_struct members v x = (case v of JObj kvs \<Rightarrow> members kvs x | JNull \<Rightarrow> (x, True) | _ \<Rightarrow> (x, False))"

text \<open>\<^verbatim>\<open>json.Unmarshal\<close>: a syntax error decodes nothing.\<close>

definition json_Unmarshal :: "'a decoder \<Rightarrow> string \<Rightarrow> 'a \<Rightarrow> 'a \<times> bool" where
  "json_Unmarshal d raw x = (case json_parse raw of None \<Rightarrow> (x, False) | Some v \<Rightarrow> d v x)"

text \<open>What \<^verbatim>\<open>json.Marshal\<close> writes for the field types.\<close>

definition e_int :: "int \<Rightarrow> json" where "e_int i = JNum (int_text i)"
definition e_bytes :: "bytes option \<Rightarrow> json" where
  "e_bytes b = (case b of None \<Rightarrow> JNull | Some x \<Rightarrow> JStr (base64_encode x))"
definition e_time :: "gotime \<Rightarrow> json" where "e_time t = JStr (time_text t)"

lemma json_Unmarshal_print: "jok v \<Longrightarrow> json_Unmarshal d (jprint v) x = d v x"
  by (simp add: json_Unmarshal_def json_parse_print)

lemma dec_single [simp]: "dec_all d [v] x = d v x"
  by (simp split: prod.split)

lemma d_encoded [simp]:
  "d_str (JStr s) x = (s, True)" "d_bool (JBool b) y = (b, True)"
  "lo \<le> i \<Longrightarrow> i \<le> hi \<Longrightarrow> d_int lo hi (e_int i) n = (i, True)"
  "d_bytes (e_bytes bs) z = (bs, True)" "gotime_ok t \<Longrightarrow> d_time (e_time t) u = (t, True)"
  by (simp_all add: d_str_def d_bool_def d_int_def e_int_def int_text_lit d_bytes_def e_bytes_def d_time_def e_time_def
    time_of_text_text split: option.split)

lemma jok_encoded [simp]: "jok (e_int i)" "jok (e_bytes b)" "jok (e_time t)"
  by (simp_all add: e_int_def int_text_lit e_bytes_def e_time_def split: option.split)

end
