(* ===== verification/LocalDb.thy ===== *)
theory LocalDb
  imports Crypto JsonCodec
begin

text \<open>
  The local vault file of \<^verbatim>\<open>src/internal/client/vault/localdb.go\<close>: the \<^verbatim>\<open>GKDB\<close> format, its
  writing and reading, and the JSON form of the key derivation parameters
  (\<^verbatim>\<open>src/internal/shared/crypto/argon2.go\<close>). A disk takes a limited number of bytes; a write
  past the limit fails after a part of its bytes.
\<close>

section \<open>Key derivation parameters\<close>

definition kdf_json :: "KDFParams \<Rightarrow> json" where
  "kdf_json p = JObj [(''algo'', JStr (kp_Algo p)), (''m'', e_int (uint (kp_Memory p))), (''t'', e_int (uint (kp_Time p))),
     (''p'', e_int (uint (kp_Threads p))), (''salt'', e_bytes (Some (kp_Salt p)))]"

definition MarshalKDFParams :: "KDFParams \<Rightarrow> string result" where
  "MarshalKDFParams p = Inr (jprint (kdf_json p))"

definition kdf_zero :: KDFParams where
  "kdf_zero = \<lparr>kp_Algo = [], kp_Memory = 0, kp_Time = 0, kp_Threads = 0, kp_Salt = []\<rparr>"

definition kdf_members :: "(string \<times> json) list \<Rightarrow> KDFParams \<Rightarrow> KDFParams \<times> bool" where
  "kdf_members kvs p =
     (let (algo, o1) = dec_field d_str ''algo'' kvs (kp_Algo p);
          (m, o2) = dec_field (d_int 0 4294967295) ''m'' kvs (uint (kp_Memory p));
          (t, o3) = dec_field (d_int 0 4294967295) ''t'' kvs (uint (kp_Time p));
          (th, o4) = dec_field (d_int 0 255) ''p'' kvs (uint (kp_Threads p));
          (salt, o5) = dec_field d_bytes ''salt'' kvs (Some (kp_Salt p))
      in (\<lparr>kp_Algo = algo, kp_Memory = of_int m, kp_Time = of_int t, kp_Threads = of_int th,
           kp_Salt = (case salt of None \<Rightarrow> [] | Some b \<Rightarrow> b)\<rparr>, o1 \<and> o2 \<and> o3 \<and> o4 \<and> o5))"

definition UnmarshalKDFParams :: "string \<Rightarrow> KDFParams result" where
  "UnmarshalKDFParams s =
     (let (p, ok) = json_Unmarshal (d_struct kdf_members) s kdf_zero in
      if ok then Inr p else Inl (Wrapf ''unmarshal kdf params: %w'' (ErrText ''json'')))"

lemma kdf_roundtrip:
  assumes "utf8_valid (kp_Algo p)"
  shows "\<exists>s. MarshalKDFParams p = Inr s \<and> UnmarshalKDFParams s = Inr p"
proof -
  have u: "0 \<le> uint (w :: 32 word)" "uint (w :: 32 word) \<le> 4294967295" for w
    using uint_range_size [of w] by (simp_all add: word_size)
  have u8: "0 \<le> uint (w :: 8 word)" "uint (w :: 8 word) \<le> 255" for w
    using uint_range_size [of w] by (simp_all add: word_size)
  have "jok (kdf_json p)" using assms by (simp add: kdf_json_def utf8_valid.simps byte_def)
  then have "json_Unmarshal (d_struct kdf_members) (jprint (kdf_json p)) kdf_zero = d_struct kdf_members (kdf_json p) kdf_zero"
    by (rule json_Unmarshal_print)
  also have "\<dots> = (p, True)"
    using u u8 by (simp add: d_struct_def kdf_json_def kdf_members_def dec_field_def obj_vals_def between_def byte_def)
  finally show ?thesis by (simp add: MarshalKDFParams_def UnmarshalKDFParams_def)
qed

section \<open>Vault data\<close>

record Item =
  it_ID :: string
  it_UserID :: string
  it_Type :: string
  it_Payload :: "bytes option"
  it_Metadata :: string
  it_Version :: int
  it_CreatedAt :: gotime
  it_UpdatedAt :: gotime

record VaultData =
  vd_UserID :: string
  vd_Username :: string
  vd_Items :: "Item list option"
  vd_SyncedAt :: gotime

definition item_zero :: Item where
  "item_zero = \<lparr>it_ID = [], it_UserID = [], it_Type = [], it_Payload = None, it_Metadata = [], it_Version = 0,
     it_CreatedAt = gotime_zero, it_UpdatedAt = gotime_zero\<rparr>"

definition vault_zero :: VaultData where
  "vault_zero = \<lparr>vd_UserID = [], vd_Username = [], vd_Items = None, vd_SyncedAt = gotime_zero\<rparr>"

definition item_json :: "Item \<Rightarrow> json" where
  "item_json i = JObj [(''id'', JStr (it_ID i)), (''user_id'', JStr (it_UserID i)), (''type'', JStr (it_Type i)),
     (''payload'', e_bytes (it_Payload i)), (''metadata'', JStr (it_Metadata i)), (''version'', e_int (it_Version i)),
     (''created_at'', e_time (it_CreatedAt i)), (''updated_at'', e_time (it_UpdatedAt i))]"

definition vault_json :: "VaultData \<Rightarrow> json" where
  "vault_json d = JObj [(''user_id'', JStr (vd_UserID d)), (''username'', JStr (vd_Username d)),
     (''items'', (case vd_Items d of None \<Rightarrow> JNull | Some is \<Rightarrow> JArr (map item_json is))),
     (''synced_at'', e_time (vd_SyncedAt d))]"

text \<open>\<^verbatim>\<open>json.Marshal\<close> fails on a time outside the years 0 to 9999.\<close>

definition vault_marshal :: "VaultData \<Rightarrow> bytes option" where
  "vault_marshal d =
     (if gotime_ok (vd_SyncedAt d) \<and>
         list_all (\<lambda>i. gotime_ok (it_CreatedAt i) \<and> gotime_ok (it_UpdatedAt i)) (case vd_Items d of None \<Rightarrow> [] | Some is \<Rightarrow> is)
      then Some (jprint (vault_json d)) else None)"

definition int64_min :: int where "int64_min = - 9223372036854775808"
definition int64_max :: int where "int64_max = 9223372036854775807"

definition item_members :: "(string \<times> json) list \<Rightarrow> Item \<Rightarrow> Item \<times> bool" where
  "item_members kvs i =
     (let (a, o1) = dec_field d_str ''id'' kvs (it_ID i);
          (b, o2) = dec_field d_str ''user_id'' kvs (it_UserID i);
          (c, o3) = dec_field d_str ''type'' kvs (it_Type i);
          (d, o4) = dec_field d_bytes ''payload'' kvs (it_Payload i);
          (e, o5) = dec_field d_str ''metadata'' kvs (it_Metadata i);
          (f, o6) = dec_field (d_int int64_min int64_max) ''version'' kvs (it_Version i);
          (g, o7) = dec_field d_time ''created_at'' kvs (it_CreatedAt i);
          (h, o8) = dec_field d_time ''updated_at'' kvs (it_UpdatedAt i)
      in (\<lparr>it_ID = a, it_UserID = b, it_Type = c, it_Payload = d, it_Metadata = e, it_Version = f, it_CreatedAt = g,
           it_UpdatedAt = h\<rparr>, o1 \<and> o2 \<and> o3 \<and> o4 \<and> o5 \<and> o6 \<and> o7 \<and> o8))"

definition d_items :: "Item list option decoder" where
  "d_items v x = (case v of
      JArr vs \<Rightarrow> (Some (map (\<lambda>e. fst (d_struct item_members e item_zero)) vs), list_all (\<lambda>e. snd (d_struct item_members e item_zero)) vs)
    | JNull \<Rightarrow> (None, True) | _ \<Rightarrow> (x, False))"

definition vault_members :: "(string \<times> json) list \<Rightarrow> VaultData \<Rightarrow> VaultData \<times> bool" where
  "vault_members kvs d =
     (let (a, o1) = dec_field d_str ''user_id'' kvs (vd_UserID d);
          (b, o2) = dec_field d_str ''username'' kvs (vd_Username d);
          (c, o3) = dec_field d_items ''items'' kvs (vd_Items d);
          (e, o4) = dec_field d_time ''synced_at'' kvs (vd_SyncedAt d)
      in (\<lparr>vd_UserID = a, vd_Username = b, vd_Items = c, vd_SyncedAt = e\<rparr>, o1 \<and> o2 \<and> o3 \<and> o4))"

text \<open>What a program value satisfies: times that can be printed, UTF-8 strings, 64-bit versions.\<close>

definition item_ok :: "Item \<Rightarrow> bool" where
  "item_ok i \<longleftrightarrow> utf8_valid (it_ID i) \<and> utf8_valid (it_UserID i) \<and> utf8_valid (it_Type i) \<and> utf8_valid (it_Metadata i) \<and>
     int64_min \<le> it_Version i \<and> it_Version i \<le> int64_max \<and> gotime_ok (it_CreatedAt i) \<and> gotime_ok (it_UpdatedAt i)"

definition vault_ok :: "VaultData \<Rightarrow> bool" where
  "vault_ok d \<longleftrightarrow> utf8_valid (vd_UserID d) \<and> utf8_valid (vd_Username d) \<and> gotime_ok (vd_SyncedAt d) \<and>
     list_all item_ok (case vd_Items d of None \<Rightarrow> [] | Some is \<Rightarrow> is)"

lemma item_decode: "item_ok i \<Longrightarrow> d_struct item_members (item_json i) item_zero = (i, True)"
  by (simp add: d_struct_def item_json_def item_members_def item_ok_def dec_field_def obj_vals_def between_def byte_def)

lemma item_jok: "item_ok i \<Longrightarrow> jok (item_json i)"
  by (simp add: item_json_def item_ok_def ascii_utf8 byte_def)

lemma items_decode:
  "list_all item_ok is \<Longrightarrow> map (\<lambda>e. fst (d_struct item_members e item_zero)) (map item_json is) = is \<and>
     list_all (\<lambda>e. snd (d_struct item_members e item_zero)) (map item_json is) \<and> jok_arr (map item_json is)"
  by (induction "is") (simp_all add: item_decode item_jok)

lemma vault_decode: "vault_ok d \<Longrightarrow> json_Unmarshal (d_struct vault_members) (jprint (vault_json d)) vault_zero = (d, True)"
proof -
  assume d: "vault_ok d"
  have it: "d_items (case vd_Items d of None \<Rightarrow> JNull | Some is \<Rightarrow> JArr (map item_json is)) x = (vd_Items d, True)"
    "jok (case vd_Items d of None \<Rightarrow> JNull | Some is \<Rightarrow> JArr (map item_json is))" for x
    using d items_decode unfolding vault_ok_def by (auto simp: d_items_def comp_def split: option.splits)
  have "jok (vault_json d)" using d it(2) by (simp add: vault_json_def vault_ok_def ascii_utf8 byte_def)
  then have "json_Unmarshal (d_struct vault_members) (jprint (vault_json d)) vault_zero = d_struct vault_members (vault_json d) vault_zero"
    by (rule json_Unmarshal_print)
  also have "\<dots> = (d, True)"
    using d it(1) by (simp add: d_struct_def vault_json_def vault_members_def vault_ok_def dec_field_def obj_vals_def between_def byte_def)
  finally show ?thesis .
qed

section \<open>The file\<close>

definition gkdb_magic :: bytes where "gkdb_magic = ''GKDB''"
definition gkdb_version :: nat where "gkdb_version = 1"

definition be16 :: "nat \<Rightarrow> bytes" where "be16 n = [char_of (n div 256), char_of n]"
definition be32 :: "nat \<Rightarrow> bytes" where
  "be32 n = [char_of (n div 16777216), char_of (n div 65536), char_of (n div 256), char_of n]"

text \<open>
  A disk: the files, the paths that can be opened for writing and for reading, and how many
  bytes can be written before a write fails.
\<close>

record disk =
  dk_files :: files
  dk_writable :: "string \<Rightarrow> bool"
  dk_readable :: "string \<Rightarrow> bool"
  dk_room :: nat

text \<open>Writes in sequence: what reaches the file, and whether every write succeeded.\<close>

fun write_all :: "nat \<Rightarrow> bytes list \<Rightarrow> bytes \<times> bool" where
  "write_all room [] = ([], True)"
| "write_all room (b # bs) =
     (if length b \<le> room then (let (c, ok) = write_all (room - length b) bs in (b @ c, ok))
      else (take room b, False))"

definition max_uint32 :: nat where "max_uint32 = 4294967295"

definition LocalDB_Save ::
  "crypto_lib \<Rightarrow> rand_bytes \<Rightarrow> nat \<Rightarrow> string \<Rightarrow> VaultData \<Rightarrow> bytes \<Rightarrow> bytes option \<Rightarrow> disk \<Rightarrow> unit result \<times> disk" where
  "LocalDB_Save C rnd n path d password keyfileData dk =
     (case DefaultKDFParams rnd n of
        Inl e \<Rightarrow> (Inl (Wrapf ''generate kdf params: %w'' e), dk)
      | Inr kdfParams \<Rightarrow>
     (case StretchKey C (CompositeKey C password keyfileData kdfParams) of
        Inl e \<Rightarrow> (Inl e, dk)
      | Inr (encKey, _) \<Rightarrow>
     (case vault_marshal d of
        None \<Rightarrow> (Inl (Wrapf ''marshal vault data: %w'' (ErrText ''json'')), dk)
      | Some body \<Rightarrow>
     (case Encrypt C rnd (n + 1) encKey body of
        Inl e \<Rightarrow> (Inl (Wrapf ''encrypt vault: %w'' e), dk)
      | Inr encBody \<Rightarrow>
     (case MarshalKDFParams kdfParams of
        Inl e \<Rightarrow> (Inl (Wrapf ''marshal kdf params: %w'' e), dk)
      | Inr kdfBytes \<Rightarrow>
     (case Encrypt C rnd (n + 2) encKey ''gkdb-key-check'' of
        Inl e \<Rightarrow> (Inl (Wrapf ''encrypt key check: %w'' e), dk)
      | Inr keyCheck \<Rightarrow>
          if \<not> dk_writable dk path then (Inl (Wrapf ''open vault file: %w'' (ErrText path)), dk)
          else
            let fits = length kdfBytes \<le> max_uint32 \<and> length keyCheck \<le> max_uint32 \<and> length encBody \<le> max_uint32;
                hdr = [gkdb_magic, be16 gkdb_version];
                (c, ok) = write_all (dk_room dk)
                  (if fits then hdr @ [be32 (length kdfBytes), kdfBytes, be32 (length keyCheck), keyCheck, be32 (length encBody), encBody]
                   else hdr)
            in (if \<not> ok then Inl (ErrText ''write'') else if \<not> fits then Inl (ErrText ''vault data exceeds maximum size'') else Inr (),
                dk\<lparr>dk_files := (dk_files dk)(path \<mapsto> c)\<rparr>)))))))"

text \<open>
  One \<^verbatim>\<open>Read\<close> of a file into a buffer of \<open>n\<close> bytes: end of file is an error, a shorter rest
  leaves zero bytes in the buffer without an error, and no read takes more than \<open>2\<^sup>3\<^sup>0\<close> bytes.
\<close>

definition max_rw :: nat where "max_rw = 1073741824"

definition f_Read :: "nat \<Rightarrow> bytes \<Rightarrow> (bytes \<times> bytes) option" where
  "f_Read n s =
     (if n = 0 then Some ([], s)
      else if s = [] then None
      else let got = take (min n max_rw) s in Some (got @ replicate (n - length got) (CHR 0x00), drop (min n max_rw) s))"

definition be_val :: "bytes \<Rightarrow> nat" where
  "be_val = foldl (\<lambda>n c. n * 256 + byte c) 0"

text \<open>\<^verbatim>\<open>binary.Read\<close> of a big-endian number of \<open>w\<close> bytes.\<close>

definition read_uint :: "nat \<Rightarrow> bytes \<Rightarrow> (nat \<times> bytes) option" where
  "read_uint w s = (if length s < w then None else Some (be_val (take w s), drop w s))"

definition invalid :: "'a option \<Rightarrow> ('a \<Rightarrow> 'b result) \<Rightarrow> 'b result" where
  "invalid x f = (case x of None \<Rightarrow> Inl (Sentinel ErrInvalidVault) | Some v \<Rightarrow> f v)"

definition LocalDB_Load :: "crypto_lib \<Rightarrow> string \<Rightarrow> bytes \<Rightarrow> bytes option \<Rightarrow> disk \<Rightarrow> VaultData result" where
  "LocalDB_Load C path password keyfileData dk =
     (case dk_files dk path of
        None \<Rightarrow> Inl (Sentinel ErrVaultNotFound)
      | Some s0 \<Rightarrow>
     if \<not> dk_readable dk path then Inl (Wrapf ''open vault file: %w'' (ErrText path)) else
     invalid (f_Read 4 s0) (\<lambda>(magicBuf, s1).
     if magicBuf \<noteq> gkdb_magic then Inl (Sentinel ErrInvalidVault) else
     invalid (read_uint 2 s1) (\<lambda>(ver, s2).
     invalid (read_uint 4 s2) (\<lambda>(kdfLen, s3).
     invalid (f_Read kdfLen s3) (\<lambda>(kdfBytes, s4).
     (case UnmarshalKDFParams kdfBytes of
        Inl e \<Rightarrow> Inl (Sentinel ErrInvalidVault)
      | Inr kdfParams \<Rightarrow>
     (case StretchKey C (CompositeKey C password keyfileData kdfParams) of
        Inl e \<Rightarrow> Inl e
      | Inr (encKey, _) \<Rightarrow>
     invalid (read_uint 4 s4) (\<lambda>(keyCheckLen, s5).
     invalid (f_Read keyCheckLen s5) (\<lambda>(keyCheck, s6).
     (case Decrypt C encKey keyCheck of
        Inl e \<Rightarrow> Inl (Sentinel ErrWrongPassword)
      | Inr _ \<Rightarrow>
     invalid (read_uint 4 s6) (\<lambda>(bodyLen, s7).
     invalid (f_Read bodyLen s7) (\<lambda>(encBody, s8).
     (case Decrypt C encKey encBody of
        Inl e \<Rightarrow> Inl (Sentinel ErrWrongPassword)
      | Inr body \<Rightarrow>
          let (d, ok) = json_Unmarshal (d_struct vault_members) body vault_zero in
          if ok then Inr d else Inl (Wrapf ''unmarshal vault: %w'' (ErrText ''json'')))))))))))))))"

definition LocalDB_Exists :: "string \<Rightarrow> disk \<Rightarrow> bool" where
  "LocalDB_Exists path dk = (dk_files dk path \<noteq> None)"

lemma be_val_be32: "n \<le> max_uint32 \<Longrightarrow> be_val (be32 n) = n"
proof -
  assume n: "n \<le> max_uint32"
  define a b where "a = n div 256" and "b = a div 256"
  have e: "n div 65536 = b" "n div 16777216 = b div 256" unfolding a_def b_def by (simp_all add: div_mult2_eq [symmetric])
  have c: "byte (char_of m) = m mod 256" for m :: nat by (simp add: byte_def)
  have top: "n div 16777216 mod 256 = b div 256" unfolding e(2) [symmetric] using n by (simp add: max_uint32_def)
  have "b = b div 256 * 256 + b mod 256" "a = b * 256 + a mod 256" "n = a * 256 + n mod 256"
    unfolding a_def b_def by simp_all
  moreover have "b div 256 mod 256 = b div 256" using top unfolding e(2) .
  ultimately show ?thesis by (simp add: be_val_def be32_def c e a_def [symmetric])
qed

lemma be32_length [simp]: "length (be32 n) = 4" "length (be16 n) = 2"
  by (simp_all add: be32_def be16_def)

lemma read_be32: "n \<le> max_uint32 \<Longrightarrow> read_uint 4 (be32 n @ s) = Some (n, s)"
  by (simp add: read_uint_def be_val_be32)

lemma read_be16: "\<exists>v. read_uint 2 (be16 n @ s) = Some (v, s)"
  by (simp add: read_uint_def)

lemma f_Read_exact: "length b \<le> max_rw \<Longrightarrow> f_Read (length b) (b @ s) = Some (b, s)"
  by (auto simp: f_Read_def)

lemma write_all_fits: "length (concat bs) \<le> room \<Longrightarrow> write_all room bs = (concat bs, True)"
  by (induction bs arbitrary: room) auto

lemma write_all_prefix: "write_all room bs = (c, ok) \<Longrightarrow> (\<exists>r. concat bs = c @ r) \<and> (ok \<longrightarrow> c = concat bs)"
proof (induction bs arbitrary: room c ok)
  case (Cons b bs)
  show ?case
  proof (cases "length b \<le> room")
    case True
    obtain c' ok' where w: "write_all (room - length b) bs = (c', ok')" by fastforce
    then show ?thesis using Cons.prems Cons.IH [OF w] True by auto
  next
    case False
    then have "c = take room b" "\<not> ok" using Cons.prems by auto
    then show ?thesis by (metis append.assoc append_take_drop_id concat.simps(2))
  qed
qed simp

lemma write_all_take: "fst (write_all room bs) = take room (concat bs)"
  by (induction bs arbitrary: room) (auto split: prod.split, metis fst_conv)

lemma write_all_room: "write_all room bs = (c, ok) \<Longrightarrow> length c \<le> room"
  using write_all_take [of room bs] by simp

text \<open>The chunks a save writes, and how the operation reduces to them.\<close>

definition gkdb_chunks :: "bytes \<Rightarrow> bytes \<Rightarrow> bytes \<Rightarrow> bytes list" where
  "gkdb_chunks kdfBytes keyCheck encBody =
     [gkdb_magic, be16 gkdb_version, be32 (length kdfBytes), kdfBytes, be32 (length keyCheck), keyCheck, be32 (length encBody), encBody]"

lemma LocalDB_Save_steps:
  assumes "aead_contract C" "kdf_contract C" "rand_ok rnd" "vault_ok d" "dk_writable dk path"
  obtains kdfParams kdfBytes encKey macKey keyCheck encBody fits c ok where
    "UnmarshalKDFParams kdfBytes = Inr kdfParams"
    "StretchKey C (CompositeKey C password keyfileData kdfParams) = Inr (encKey, macKey)"
    "Decrypt C encKey keyCheck = Inr ''gkdb-key-check''"
    "Decrypt C encKey encBody = Inr (jprint (vault_json d))"
    "fits = (length kdfBytes \<le> max_uint32 \<and> length keyCheck \<le> max_uint32 \<and> length encBody \<le> max_uint32)"
    "write_all (dk_room dk) (if fits then gkdb_chunks kdfBytes keyCheck encBody else [gkdb_magic, be16 gkdb_version]) = (c, ok)"
    "LocalDB_Save C rnd n path d password keyfileData dk =
       (if \<not> ok then Inl (ErrText ''write'') else if \<not> fits then Inl (ErrText ''vault data exceeds maximum size'') else Inr (),
        dk\<lparr>dk_files := (dk_files dk)(path \<mapsto> c)\<rparr>)"
proof -
  obtain salt where salt: "rnd n 32 = Some salt" using assms(3) unfolding rand_ok_def by blast
  define p where "p = \<lparr>kp_Algo = ''argon2id'', kp_Memory = 64 * 1024, kp_Time = 3, kp_Threads = 4, kp_Salt = salt\<rparr>"
  have p: "DefaultKDFParams rnd n = Inr p" using salt by (simp add: DefaultKDFParams_def p_def)
  have "utf8_valid (kp_Algo p)" by (rule ascii_utf8) (simp add: p_def byte_def)
  then obtain kb where kb: "MarshalKDFParams p = Inr kb" "UnmarshalKDFParams kb = Inr p" using kdf_roundtrip by blast
  obtain bs where bs: "cl_hkdf C (CompositeKey C password keyfileData p) [] ''gophkeeper-vault-key-stretch-v1'' 0 64 = Some bs" "length bs = 64"
    using assms(2) unfolding kdf_contract_def by blast
  then have st: "StretchKey C (CompositeKey C password keyfileData p) = Inr (take 32 bs, drop 32 bs)" by (simp add: StretchKey_def)
  have enc: "\<exists>x. Encrypt C rnd m (take 32 bs) b = Inr x" for m b
  proof -
    obtain nonce where "rnd m nonce_size = Some nonce" using assms(3) unfolding rand_ok_def by blast
    then show ?thesis using bs(2) by (simp add: Encrypt_def key_size_def)
  qed
  obtain eb where eb: "Encrypt C rnd (n + 1) (take 32 bs) (jprint (vault_json d)) = Inr eb" using enc by blast
  obtain kc where kc: "Encrypt C rnd (n + 2) (take 32 bs) ''gkdb-key-check'' = Inr kc" using enc by blast
  have vm: "vault_marshal d = Some (jprint (vault_json d))"
    using assms(4) by (auto simp: vault_marshal_def vault_ok_def item_ok_def list_all_iff)
  define fits where "fits = (length kb \<le> max_uint32 \<and> length kc \<le> max_uint32 \<and> length eb \<le> max_uint32)"
  obtain c ok where w: "write_all (dk_room dk) (if fits then gkdb_chunks kb kc eb else [gkdb_magic, be16 gkdb_version]) = (c, ok)"
    by fastforce
  have "LocalDB_Save C rnd n path d password keyfileData dk =
       (if \<not> ok then Inl (ErrText ''write'') else if \<not> fits then Inl (ErrText ''vault data exceeds maximum size'') else Inr (),
        dk\<lparr>dk_files := (dk_files dk)(path \<mapsto> c)\<rparr>)"
    unfolding LocalDB_Save_def p sum.case st prod.case vm option.case eb kb(1) kc Let_def fits_def [symmetric]
    using assms(5) w unfolding gkdb_chunks_def by (simp only: append_Cons append_Nil if_False prod.case simp_thms)
  then show thesis
    using that [OF kb(2) st Decrypt_Encrypt [OF assms(1,3) kc] Decrypt_Encrypt [OF assms(1,3) eb] fits_def w] by blast
qed



lemma short_file_invalid:
  assumes "length c < 10" and "dk_readable dk path" and "dk_files dk path = Some c"
  shows "LocalDB_Load C path password keyfileData dk = Inl (Sentinel ErrInvalidVault)"
proof -
  have "read_uint 4 (drop 6 c) = None" using assms(1) by (simp add: read_uint_def)
  then show ?thesis using assms(2,3)
    by (auto simp: LocalDB_Load_def invalid_def f_Read_def read_uint_def Let_def max_rw_def split: option.splits)
qed

text \<open>
  Saving is not atomic: the file is truncated before anything is written, so a save that
  runs out of disk space early destroys the vault it should have replaced: afterwards
  \<^verbatim>\<open>Load\<close> reports an invalid vault, with any password.
\<close>

theorem failed_save_loses_vault:
  assumes "aead_contract C" "kdf_contract C" "rand_ok rnd" "vault_ok d" "dk_writable dk path" "dk_readable dk path"
    and "dk_room dk < 10"
  shows "\<exists>e dk'. LocalDB_Save C rnd n path d password keyfileData dk = (Inl e, dk') \<and>
    LocalDB_Load C path password' keyfileData' dk' = Inl (Sentinel ErrInvalidVault)"
proof (rule LocalDB_Save_steps [OF assms(1-5), of password keyfileData n])
  fix kdfParams kdfBytes encKey macKey keyCheck encBody fits c ok
  assume f: "fits = (length kdfBytes \<le> max_uint32 \<and> length keyCheck \<le> max_uint32 \<and> length encBody \<le> max_uint32)"
    and kc: "Decrypt C encKey keyCheck = Inr ''gkdb-key-check''"
    and w: "write_all (dk_room dk) (if fits then gkdb_chunks kdfBytes keyCheck encBody else [gkdb_magic, be16 gkdb_version]) = (c, ok)"
    and s: "LocalDB_Save C rnd n path d password keyfileData dk =
       (if \<not> ok then Inl (ErrText ''write'') else if \<not> fits then Inl (ErrText ''vault data exceeds maximum size'') else Inr (),
        dk\<lparr>dk_files := (dk_files dk)(path \<mapsto> c)\<rparr>)"
  have len: "length c < 10" using write_all_room [OF w] assms(7) by simp
  have "LocalDB_Load C path password' keyfileData' (dk\<lparr>dk_files := (dk_files dk)(path \<mapsto> c)\<rparr>) = Inl (Sentinel ErrInvalidVault)"
    using short_file_invalid [OF len] assms(6) by simp
  moreover have "\<not> ok \<or> \<not> fits"
  proof (rule ccontr)
    assume "\<not> (\<not> ok \<or> \<not> fits)"
    then have "c = concat (gkdb_chunks kdfBytes keyCheck encBody)" using write_all_prefix [OF w] by simp
    then show False using len by (simp add: gkdb_chunks_def gkdb_magic_def)
  qed
  ultimately show ?thesis using s by auto
qed

definition demo_item :: Item where
  "demo_item = \<lparr>it_ID = ''i1'', it_UserID = ''u1'', it_Type = ''text'', it_Payload = Some ''secret'', it_Metadata = ''note'',
     it_Version = 3, it_CreatedAt = gotime_zero, it_UpdatedAt = gotime_zero\<lparr>t_year := 2024, t_nsec := 120000000, t_off := 180\<rparr>\<rparr>"

definition demo_vault :: VaultData where
  "demo_vault = \<lparr>vd_UserID = ''u1'', vd_Username = ''bob'', vd_Items = Some [demo_item], vd_SyncedAt = gotime_zero\<rparr>"

definition full_disk :: disk where
  "full_disk = \<lparr>dk_files = Map.empty(''vault'' \<mapsto> ''old''), dk_writable = (\<lambda>p. True), dk_readable = (\<lambda>p. True), dk_room = 3\<rparr>"

lemma demo_vault_ok: "vault_ok demo_vault"
  by (simp add: vault_ok_def demo_vault_def item_ok_def demo_item_def ascii_utf8 byte_def int64_min_def int64_max_def
    gotime_ok_def gotime_zero_def days_in_def)

theorem failed_save_loses_vault_witness:
  "\<exists>e dk'. LocalDB_Save demo_crypto demo_rand 0 ''vault'' demo_vault ''pw'' None full_disk = (Inl e, dk') \<and>
     LocalDB_Load demo_crypto ''vault'' ''pw'' None dk' = Inl (Sentinel ErrInvalidVault)"
  by (rule failed_save_loses_vault) (simp_all add: demo_vault_ok full_disk_def)


text \<open>Bounds on the length of JSON texts, for the example.\<close>

lemma length_quote_body: "length (quote_body s) \<le> 6 * length s"
proof (induction s rule: quote_body.induct)
  case (2 c cs)
  have e: "length (escape_byte c) \<le> 6" "length (unicode_escape r) = 6" for r
    by (simp_all add: escape_byte_def unicode_escape_def Let_def)
  show ?case
  proof (cases "byte c < 128")
    case True
    then show ?thesis using 2(1) e by (simp add: quote_body.simps)
  next
    case False
    let ?n = "utf8_len (c # cs)"
    show ?thesis
    proof (cases "?n = 0")
      case True
      then show ?thesis using False 2(2) [OF False refl True] e by (simp add: quote_body.simps)
    next
      case n: False
      have "length (quote_body (drop (?n - 1) cs)) \<le> 6 * (length cs - (?n - 1))" using 2(3) [OF False refl n refl] by simp
      moreover have "?n - 1 \<le> length cs" using utf8_len_length [of "c # cs"] by simp
      ultimately show ?thesis using False n e by (auto simp: quote_body.simps Let_def)
    qed
  qed
qed (simp add: quote_body.simps)

lemma length_quote: "length (quote s) \<le> 6 * length s + 2"
  using length_quote_body [of s] by (simp add: quote_def)

lemma length_base64: "length (base64_encode b) \<le> 2 * length b + 4"
  by (induction b rule: base64_encode.induct) auto

lemma length_time_text: "length (time_text t) \<le> 40"
proof -
  have "length (frac_text n) \<le> 10" for n
    using strip_zeros(2) [of "pad 9 n"] by (simp add: frac_text_def)
  moreover have "length (zone_text z) \<le> 6" for z by (simp add: zone_text_def)
  ultimately have "length (frac_text (t_nsec t)) \<le> 10" "length (zone_text (t_off t)) \<le> 6" by blast+
  then show ?thesis by (simp add: time_text_def)
qed

lemma length_encoded: "length (jprint (e_time t)) \<le> 242" "length (jprint (e_bytes (Some b))) \<le> 12 * length b + 26"
  using length_quote [of "time_text t"] length_time_text [of t] length_quote [of "base64_encode b"] length_base64 [of b]
  by (simp_all add: e_time_def e_bytes_def)

lemma demo_ints: "length (int_text 65536) = 5" "length (int_text 3) = 1" "length (int_text 4) = 1"
  by (simp_all add: int_text_def itoa.simps)

definition demo_kdf :: KDFParams where
  "demo_kdf = \<lparr>kp_Algo = ''argon2id'', kp_Memory = 64 * 1024, kp_Time = 3, kp_Threads = 4, kp_Salt = replicate 32 CHR ''r''\<rparr>"

lemma demo_lengths: "length (jprint (kdf_json demo_kdf)) \<le> 1000" "length (jprint (vault_json demo_vault)) \<le> 2000"
proof -
  have q: "length (quote ''algo'') \<le> 26" "length (quote ''argon2id'') \<le> 50" "length (quote ''m'') \<le> 8" "length (quote ''t'') \<le> 8"
    "length (quote ''p'') \<le> 8" "length (quote ''salt'') \<le> 26"
    using length_quote [of "''algo''"] length_quote [of "''argon2id''"] length_quote [of "''m''"] length_quote [of "''t''"]
      length_quote [of "''p''"] length_quote [of "''salt''"] by simp_all
  have "length (jprint (e_bytes (Some (replicate 32 CHR ''r'')))) \<le> 410" using length_encoded(2) [of "replicate 32 CHR ''r''"] by simp
  then show "length (jprint (kdf_json demo_kdf)) \<le> 1000"
    using q by (simp add: kdf_json_def demo_kdf_def e_int_def demo_ints)
  have k: "length (quote ''id'') \<le> 14" "length (quote ''i1'') \<le> 14" "length (quote ''user_id'') \<le> 44" "length (quote ''u1'') \<le> 14"
    "length (quote ''type'') \<le> 26" "length (quote ''text'') \<le> 26" "length (quote ''payload'') \<le> 44" "length (quote ''metadata'') \<le> 50"
    "length (quote ''note'') \<le> 26" "length (quote ''version'') \<le> 44" "length (quote ''created_at'') \<le> 62" "length (quote ''updated_at'') \<le> 62"
    "length (quote ''username'') \<le> 50" "length (quote ''bob'') \<le> 20" "length (quote ''items'') \<le> 32" "length (quote ''synced_at'') \<le> 56"
    using length_quote [of "''id''"] length_quote [of "''i1''"] length_quote [of "''user_id''"] length_quote [of "''u1''"]
      length_quote [of "''type''"] length_quote [of "''text''"] length_quote [of "''payload''"] length_quote [of "''metadata''"]
      length_quote [of "''note''"] length_quote [of "''version''"] length_quote [of "''created_at''"] length_quote [of "''updated_at''"]
      length_quote [of "''username''"] length_quote [of "''bob''"] length_quote [of "''items''"] length_quote [of "''synced_at''"] by simp_all
  have t: "length (jprint (e_time t)) \<le> 242" "length (jprint (e_bytes (Some ''secret''))) \<le> 98" for t
    using length_encoded(1) length_encoded(2) [of "''secret''"] by simp_all
  show "length (jprint (vault_json demo_vault)) \<le> 2000"
    using k t(1) [of gotime_zero] t(1) [of "gotime_zero\<lparr>t_year := 2024, t_nsec := 120000000, t_off := 180\<rparr>"] t(2)
    by (simp add: vault_json_def demo_vault_def demo_item_def item_json_def e_int_def demo_ints)
qed

lemma demo_save:
  "fst (LocalDB_Save demo_crypto demo_rand 0 ''vault'' demo_vault ''pw'' None (full_disk\<lparr>dk_room := 10000\<rparr>)) = Inr ()"
proof -
  let ?k = "replicate 32 CHR ''h''" and ?n = "replicate 24 CHR ''r''"
  let ?kb = "jprint (kdf_json demo_kdf)"
  let ?eb = "?n @ ?k @ ?n @ jprint (vault_json demo_vault)" and ?kc = "?n @ ?k @ ?n @ ''gkdb-key-check''"
  have st: "StretchKey demo_crypto x = Inr (?k, ?k)" for x by (simp add: StretchKey_def demo_crypto_def)
  have enc: "Encrypt demo_crypto demo_rand m ?k b = Inr (?n @ ?k @ ?n @ b)" for m b
    by (simp add: Encrypt_def key_size_def nonce_size_def demo_rand_def demo_crypto_def)
  have d: "DefaultKDFParams demo_rand 0 = Inr demo_kdf" by (simp add: DefaultKDFParams_def demo_rand_def demo_kdf_def)
  have vm: "vault_marshal demo_vault = Some (jprint (vault_json demo_vault))"
    using demo_vault_ok by (auto simp: vault_marshal_def vault_ok_def item_ok_def list_all_iff)
  have fits: "length ?kb \<le> max_uint32" "length ?kc \<le> max_uint32" "length ?eb \<le> max_uint32"
    using demo_lengths by (simp_all add: max_uint32_def)
  have "length (concat (gkdb_chunks ?kb ?kc ?eb)) \<le> 10000"
    using demo_lengths by (simp add: gkdb_chunks_def gkdb_magic_def)
  then have w: "write_all 10000 (gkdb_chunks ?kb ?kc ?eb) = (concat (gkdb_chunks ?kb ?kc ?eb), True)" by (rule write_all_fits)
  have dk: "dk_writable (full_disk\<lparr>dk_room := 10000\<rparr>) ''vault''" "dk_room (full_disk\<lparr>dk_room := 10000\<rparr>) = 10000" by (simp_all add: full_disk_def)
  show ?thesis unfolding LocalDB_Save_def d sum.case st prod.case vm option.case enc MarshalKDFParams_def Let_def dk(2)
    using dk(1) fits w unfolding gkdb_chunks_def by (simp only: append_Cons append_Nil if_False if_True prod.case simp_thms fst_conv)
qed


end
