(* ===== verification/GenCmd.thy ===== *)
theory GenCmd
  imports PassGen KeyGen LocalDb
begin

text \<open>
  The commands of \<^verbatim>\<open>src/internal/client/cmd/generate/generate.go\<close>. A command is the body of its
  \<^verbatim>\<open>RunE\<close>: the flags that cobra parsed are arguments, so are the password typed at the
  terminal (\<^term>\<open>None\<close> when it cannot be read) and the answer of the clipboard. The
  two output streams are byte sequences. A derivation that does not end within its fuel gives \<^term>\<open>None\<close>.
\<close>

record console =
  cs_stdout :: string
  cs_stderr :: string
  cs_clip :: "string option"
  cs_disk :: disk

definition fmt_Print :: "string \<Rightarrow> console \<Rightarrow> console" where
  "fmt_Print s c = c\<lparr>cs_stdout := cs_stdout c @ s\<rparr>"

definition fmt_Println :: "string \<Rightarrow> console \<Rightarrow> console" where
  "fmt_Println s = fmt_Print (s @ [CHR 0x0A])"

definition stderr_line :: "string \<Rightarrow> console \<Rightarrow> console" where
  "stderr_line s c = c\<lparr>cs_stderr := cs_stderr c @ s @ [CHR 0x0A]\<rparr>"

text \<open>\<^verbatim>\<open>os.WriteFile\<close>: the file is created or truncated, then written as far as the disk has room.\<close>

definition os_WriteFile :: "string \<Rightarrow> bytes \<Rightarrow> console \<Rightarrow> bool \<times> console" where
  "os_WriteFile path b c =
     (let dk = cs_disk c in
      if \<not> dk_writable dk path then (False, c)
      else let (content, ok) = write_all (dk_room dk) [b] in
        (ok, c\<lparr>cs_disk := dk\<lparr>dk_files := (dk_files dk)(path \<mapsto> content)\<rparr>\<rparr>))"

definition hex_EncodeToString :: "bytes \<Rightarrow> string" where
  "hex_EncodeToString b = concat (map (\<lambda>x. [hex_digit (byte x div 16), hex_digit (byte x mod 16)]) b)"

definition generate_password ::
  "rand_draws \<Rightarrow> (string \<Rightarrow> bool) \<Rightarrow> PasswordOpts \<Rightarrow> bool \<Rightarrow> console \<Rightarrow> unit result \<times> console" where
  "generate_password rnd clipboard_WriteAll opts copyOut c =
     (case fst (GeneratePassword rnd opts 0) of
        Inl e \<Rightarrow> (Inl (Wrapf ''generate password: %w'' e), c)
      | Inr pwd \<Rightarrow>
          let c1 = fmt_Println pwd c in
          if copyOut then
            (if clipboard_WriteAll pwd
             then (Inr (), stderr_line ''Password copied to clipboard.'' (c1\<lparr>cs_clip := Some pwd\<rparr>))
             else (Inl (Wrapf ''copy to clipboard: %w'' (ErrText ''clipboard'')), c1))
          else (Inr (), c1))"

definition cli_kdf :: "bytes \<Rightarrow> KDFParams" where
  "cli_kdf salt = \<lparr>kp_Algo = ''argon2id'', kp_Memory = 64 * 1024, kp_Time = 3, kp_Threads = 4, kp_Salt = salt\<rparr>"

definition generate_derive ::
  "nat \<Rightarrow> crypto_lib \<Rightarrow> (string \<Rightarrow> bool) \<Rightarrow> bytes option \<Rightarrow> DeterministicOpts \<Rightarrow> bool \<Rightarrow> console \<Rightarrow> (unit result \<times> console) option" where
  "generate_derive fuel C clipboard_WriteAll typed opts copyOut c =
     (if do_Realm opts = [] then Some (Inl (ErrText ''--realm is required''), c)
      else let c1 = stderr_line ''Master password: '' c in
        (case typed of
           None \<Rightarrow> Some (Inl (Wrapf ''read password: %w'' (ErrText ''terminal'')), c1)
         | Some password \<Rightarrow>
             let masterKey = DeriveKey C password (cli_kdf ''gophkeeper-cli-derive-v1'') in
             (case DerivePassword fuel C masterKey opts of
                None \<Rightarrow> None
              | Some (Inl e) \<Rightarrow> Some (Inl (Wrapf ''derive password: %w'' e), c1)
              | Some (Inr pwd) \<Rightarrow>
                  let c2 = fmt_Println pwd c1 in
                  if copyOut then
                    Some (Inr (), stderr_line ''Password copied to clipboard.''
                      (if clipboard_WriteAll pwd then c2\<lparr>cs_clip := Some pwd\<rparr> else c2))
                  else Some (Inr (), c2))))"

record key_flags =
  kf_keyType :: string
  kf_realm :: string
  kf_outFile :: string
  kf_pubFile :: string
  kf_determin :: bool

text \<open>Where the key goes: the private part first, then the public part if the type has one.\<close>

definition priv_data :: "KeyType \<Rightarrow> GeneratedKey \<Rightarrow> bytes" where
  "priv_data kt key = (if kt = KeyTypeRaw then hex_EncodeToString (gk_PrivateKey key) @ [CHR 0x0A] else gk_PrivateKey key)"

definition write_private :: "string \<Rightarrow> bytes \<Rightarrow> console \<Rightarrow> unit result \<times> console" where
  "write_private outFile privData c =
     (if outFile \<noteq> [] then
        (case os_WriteFile outFile privData c of
           (False, c1) \<Rightarrow> (Inl (Wrapf ''write private key: %w'' (ErrText ''write'')), c1)
         | (True, c1) \<Rightarrow> (Inr (), stderr_line (''Private key written to '' @ outFile) c1))
      else (Inr (), fmt_Print privData c))"

definition write_public :: "string \<Rightarrow> string \<Rightarrow> bytes \<Rightarrow> console \<Rightarrow> unit result \<times> console" where
  "write_public outFile pubFile pub c =
     (if length pub > 0 then
        (if pubFile \<noteq> [] then
           (case os_WriteFile pubFile pub c of
              (False, c1) \<Rightarrow> (Inl (Wrapf ''write public key: %w'' (ErrText ''write'')), c1)
            | (True, c1) \<Rightarrow> (Inr (), stderr_line (''Public key written to '' @ pubFile) c1))
         else if outFile = [] then (Inr (), fmt_Print pub (fmt_Println ''--- PUBLIC KEY ---'' c))
         else (Inr (), c))
      else (Inr (), c))"

definition emit_key :: "key_flags \<Rightarrow> GeneratedKey \<Rightarrow> console \<Rightarrow> unit result \<times> console" where
  "emit_key f key c =
     (case write_private (kf_outFile f) (priv_data (kf_keyType f) key) c of
        (Inl e, c1) \<Rightarrow> (Inl e, c1)
      | (Inr (), c1) \<Rightarrow> write_public (kf_outFile f) (kf_pubFile f) (gk_PublicKey key) c1)"

definition generate_key ::
  "nat \<Rightarrow> crypto_lib \<Rightarrow> key_lib \<Rightarrow> rand_bytes \<Rightarrow> nat \<Rightarrow> bytes option \<Rightarrow> key_flags \<Rightarrow> console \<Rightarrow> (unit result \<times> console) option" where
  "generate_key fuel C K rnd coin typed f c =
     (let kt = kf_keyType f;
          finish = (\<lambda>r c. case r of
             Inl e \<Rightarrow> (Inl (Wrapf ''generate key: %w'' e), c)
           | Inr key \<Rightarrow> emit_key f key c) in
      if kf_determin f then
        (if kf_realm f = [] then Some (Inl (ErrText ''--realm is required with --derive''), c)
         else let c1 = stderr_line ''Master password: '' c in
           (case typed of
              None \<Rightarrow> Some (Inl (ErrText ''terminal''), c1)
            | Some password \<Rightarrow>
                map_option (\<lambda>r. finish r c1)
                  (DeriveKeyFromMaster fuel C K coin (DeriveKey C password (cli_kdf ''gophkeeper-cli-keygen-v1'')) (kf_realm f) kt)))
      else Some (finish (GenerateKey K rnd 0 coin kt) c))"

section \<open>Where a generated key goes\<close>

lemmas console_defs = fmt_Print_def fmt_Println_def stderr_line_def

lemma hex_digit_inj: "i < 16 \<Longrightarrow> j < 16 \<Longrightarrow> hex_digit i = hex_digit j \<longleftrightarrow> i = j"
proof -
  have d: "distinct ''0123456789abcdef''" "length ''0123456789abcdef'' = 16" by simp_all
  show "i < 16 \<Longrightarrow> j < 16 \<Longrightarrow> ?thesis" unfolding hex_digit_def using nth_eq_iff_index_eq [OF d(1), of i j] d(2) by simp
qed

lemma hex_inj: "hex_EncodeToString a = hex_EncodeToString b \<longleftrightarrow> a = b"
proof (induction a arbitrary: b)
  case Nil
  then show ?case by (cases b) (simp_all add: hex_EncodeToString_def)
next
  case (Cons x a)
  have lt: "byte y div 16 < 16" for y using byte_simps(2) [of y] by (simp add: less_mult_imp_div_less)
  have eq: "x = y" if "byte x div 16 = byte y div 16" "byte x mod 16 = byte y mod 16" for y
    using that byte_simps(3) by (metis div_mult_mod_eq)
  show ?case using Cons.IH lt eq by (cases b) (auto simp: hex_EncodeToString_def hex_digit_inj)
qed

lemma WriteFile_effect: "os_WriteFile path b c = (ok, c') \<Longrightarrow>
    cs_stdout c' = cs_stdout c \<and> cs_clip c' = cs_clip c \<and> (ok \<longrightarrow> dk_files (cs_disk c') = (dk_files (cs_disk c))(path \<mapsto> b))"
  by (auto simp: os_WriteFile_def Let_def split: if_splits prod.splits)

text \<open>What a successful run adds to the standard output and to the files.\<close>

definition key_shown :: "key_flags \<Rightarrow> GeneratedKey \<Rightarrow> string" where
  "key_shown f key = (if kf_outFile f \<noteq> [] then []
     else priv_data (kf_keyType f) key @
       (if gk_PublicKey key \<noteq> [] \<and> kf_pubFile f = [] then ''--- PUBLIC KEY ---'' @ [CHR 0x0A] @ gk_PublicKey key else []))"

definition key_files :: "key_flags \<Rightarrow> GeneratedKey \<Rightarrow> files \<Rightarrow> files" where
  "key_files f key fs =
     (let fs1 = (if kf_outFile f \<noteq> [] then fs(kf_outFile f \<mapsto> priv_data (kf_keyType f) key) else fs) in
      if gk_PublicKey key \<noteq> [] \<and> kf_pubFile f \<noteq> [] then fs1(kf_pubFile f \<mapsto> gk_PublicKey key) else fs1)"

lemma write_private_effect: "write_private out p c = (r, c') \<Longrightarrow> cs_clip c' = cs_clip c \<and>
    (out \<noteq> [] \<longrightarrow> cs_stdout c' = cs_stdout c) \<and>
    (r = Inr () \<longrightarrow> cs_stdout c' = cs_stdout c @ (if out = [] then p else []) \<and>
       dk_files (cs_disk c') = (if out \<noteq> [] then (dk_files (cs_disk c))(out \<mapsto> p) else dk_files (cs_disk c)))"
  by (auto simp: write_private_def console_defs dest!: WriteFile_effect split: if_splits prod.splits bool.splits)

lemma write_public_effect: "write_public out pubf p c = (r, c') \<Longrightarrow> cs_clip c' = cs_clip c \<and>
    (out \<noteq> [] \<longrightarrow> cs_stdout c' = cs_stdout c) \<and>
    (r = Inr () \<longrightarrow> cs_stdout c' = cs_stdout c @ (if p \<noteq> [] \<and> pubf = [] \<and> out = [] then ''--- PUBLIC KEY ---'' @ [CHR 0x0A] @ p else []) \<and>
       dk_files (cs_disk c') = (if p \<noteq> [] \<and> pubf \<noteq> [] then (dk_files (cs_disk c))(pubf \<mapsto> p) else dk_files (cs_disk c)))"
  by (auto simp: write_public_def console_defs dest!: WriteFile_effect split: if_splits prod.splits bool.splits)

lemma emit_key_effect:
  assumes "emit_key f key c = (r, c')"
  shows "cs_clip c' = cs_clip c \<and> (kf_outFile f \<noteq> [] \<longrightarrow> cs_stdout c' = cs_stdout c) \<and>
    (r = Inr () \<longrightarrow> cs_stdout c' = cs_stdout c @ key_shown f key \<and> dk_files (cs_disk c') = key_files f key (dk_files (cs_disk c)))"
proof -
  obtain r1 c1 where 1: "write_private (kf_outFile f) (priv_data (kf_keyType f) key) c = (r1, c1)" by fastforce
  show ?thesis
  proof (cases r1)
    case (Inl e)
    then show ?thesis using assms 1 write_private_effect [OF 1] by (auto simp: emit_key_def)
  next
    case (Inr u)
    then have 2: "write_public (kf_outFile f) (kf_pubFile f) (gk_PublicKey key) c1 = (r, c')" using assms 1 by (simp add: emit_key_def unit_all_eq2 split: unit.splits)
    show ?thesis using write_private_effect [OF 1] write_public_effect [OF 2] Inr by (auto simp: key_shown_def key_files_def Let_def)
  qed
qed

lemma priv_data_inj: "priv_data kt k' = priv_data kt k \<longleftrightarrow> gk_PrivateKey k' = gk_PrivateKey k"
  by (simp add: priv_data_def hex_inj)


definition demo_console :: console where
  "demo_console = \<lparr>cs_stdout = [], cs_stderr = [], cs_clip = None,
     cs_disk = \<lparr>dk_files = Map.empty, dk_writable = (\<lambda>_. True), dk_readable = (\<lambda>_. True), dk_room = 1000\<rparr>\<rparr>"

definition demo_flags :: key_flags where
  "demo_flags = \<lparr>kf_keyType = ''ed25519'', kf_realm = ''deploy'', kf_outFile = ''id'', kf_pubFile = [], kf_determin = True\<rparr>"


end
