(* ===== verification/LocalCache.thy ===== *)
theory LocalCache
  imports LocalDb
begin

text \<open>
  The encrypted cache of the vault for offline use,
  \<^verbatim>\<open>src/internal/client/vault/localcache.go\<close>. The codec of protobuf messages
  (\<^verbatim>\<open>protojson\<close>) is the parameter \<open>proto_codec\<close>, stated over the JSON values that its texts
  denote; a \<^verbatim>\<open>json.RawMessage\<close> is the JSON value it holds. Items are of any type.
\<close>

record 'i proto_codec =
  pj_Marshal :: "'i \<Rightarrow> json option"
  pj_Unmarshal :: "json \<Rightarrow> 'i option"

text \<open>What the code relies on: a message is read back from its JSON form, which is plain JSON.\<close>

definition codec_contract :: "'i proto_codec \<Rightarrow> ('i \<Rightarrow> bool) \<Rightarrow> bool" where
  "codec_contract P ok \<longleftrightarrow> (\<forall>i. ok i \<longrightarrow> (\<exists>v. pj_Marshal P i = Some v \<and> jok v \<and> pj_Unmarshal P v = Some i))"

record cacheEnvelope =
  ce_Version :: int
  ce_UpdatedAt :: int
  ce_Data :: "bytes option"

definition envelope_zero :: cacheEnvelope where
  "envelope_zero = \<lparr>ce_Version = 0, ce_UpdatedAt = 0, ce_Data = None\<rparr>"

definition envelope_json :: "cacheEnvelope \<Rightarrow> json" where
  "envelope_json e = JObj [(''v'', e_int (ce_Version e)), (''ts'', e_int (ce_UpdatedAt e)), (''d'', e_bytes (ce_Data e))]"

definition envelope_members :: "(string \<times> json) list \<Rightarrow> cacheEnvelope \<Rightarrow> cacheEnvelope \<times> bool" where
  "envelope_members kvs e =
     (let (a, o1) = dec_field (d_int int64_min int64_max) ''v'' kvs (ce_Version e);
          (b, o2) = dec_field (d_int int64_min int64_max) ''ts'' kvs (ce_UpdatedAt e);
          (c, o3) = dec_field d_bytes ''d'' kvs (ce_Data e)
      in (\<lparr>ce_Version = a, ce_UpdatedAt = b, ce_Data = c\<rparr>, o1 \<and> o2 \<and> o3))"

text \<open>The error of the read is dropped: a failing HKDF leaves a key of zero bytes.\<close>

definition CacheKey :: "crypto_lib \<Rightarrow> string \<Rightarrow> bytes" where
  "CacheKey C refreshToken =
     (case cl_hkdf C refreshToken [] ''gophkeeper-local-vault-cache-v1'' 0 32 of
        None \<Rightarrow> replicate 32 (CHR 0x00) | Some key \<Rightarrow> key)"

fun marshal_items :: "'i proto_codec \<Rightarrow> nat \<Rightarrow> 'i list \<Rightarrow> json list result" where
  "marshal_items P n [] = Inr []"
| "marshal_items P n (it # its) =
     (case pj_Marshal P it of
        None \<Rightarrow> Inl (Wrapf (''marshal item '' @ itoa n @ '': %w'') (ErrText ''protojson''))
      | Some v \<Rightarrow> (case marshal_items P (Suc n) its of Inl e \<Rightarrow> Inl e | Inr vs \<Rightarrow> Inr (v # vs)))"

text \<open>\<^verbatim>\<open>os.WriteFile\<close> truncates the file before it writes.\<close>

definition cache_Save ::
  "crypto_lib \<Rightarrow> rand_bytes \<Rightarrow> nat \<Rightarrow> 'i proto_codec \<Rightarrow> int \<Rightarrow> string \<Rightarrow> bytes \<Rightarrow> 'i list \<Rightarrow> disk \<Rightarrow> unit result \<times> disk" where
  "cache_Save C rnd n P now path key items dk =
     (case marshal_items P 0 items of
        Inl e \<Rightarrow> (Inl e, dk)
      | Inr raw \<Rightarrow>
     (case Encrypt C rnd n key (jprint (JArr raw)) of
        Inl e \<Rightarrow> (Inl (Wrapf ''encrypt cache: %w'' e), dk)
      | Inr ciphertext \<Rightarrow>
          if \<not> dk_writable dk path then (Inl (Wrapf ''write cache: %w'' (ErrText path)), dk)
          else let (c, ok) = write_all (dk_room dk)
                     [jprint (envelope_json \<lparr>ce_Version = 1, ce_UpdatedAt = now, ce_Data = Some ciphertext\<rparr>)]
               in (if ok then Inr () else Inl (Wrapf ''write cache: %w'' (ErrText ''write'')),
                   dk\<lparr>dk_files := (dk_files dk)(path \<mapsto> c)\<rparr>)))"

definition d_raw_list :: "json list decoder" where
  "d_raw_list v x = (case v of JArr vs \<Rightarrow> (vs, True) | JNull \<Rightarrow> ([], True) | _ \<Rightarrow> (x, False))"

definition cache_Load :: "crypto_lib \<Rightarrow> 'i proto_codec \<Rightarrow> string \<Rightarrow> bytes \<Rightarrow> disk \<Rightarrow> ('i list \<times> int) result" where
  "cache_Load C P path key dk =
     (if \<not> dk_readable dk path \<or> dk_files dk path = None then Inl (Sentinel ErrCacheNotFound)
      else let (env, ok) = json_Unmarshal (d_struct envelope_members) (the (dk_files dk path)) envelope_zero in
        if \<not> ok then Inl (Wrapf ''parse cache: %w'' (ErrText ''json''))
        else (case Decrypt C key (case ce_Data env of None \<Rightarrow> [] | Some b \<Rightarrow> b) of
            Inl e \<Rightarrow> Inl (Wrapf ''decrypt cache: %w'' e)
          | Inr plaintext \<Rightarrow>
              let (raw, ok) = json_Unmarshal d_raw_list plaintext [] in
              if \<not> ok then Inl (Wrapf ''parse items: %w'' (ErrText ''json''))
              else Inr (List.map_filter (pj_Unmarshal P) raw, ce_UpdatedAt env)))"

text \<open>The ciphertext in a cache file.\<close>

definition cached_data :: "bytes \<Rightarrow> bytes" where
  "cached_data f = (case ce_Data (fst (json_Unmarshal (d_struct envelope_members) f envelope_zero)) of None \<Rightarrow> [] | Some b \<Rightarrow> b)"

lemma marshal_items_ok:
  assumes "codec_contract P ok" and "list_all ok its"
  shows "\<exists>vs. marshal_items P n its = Inr vs \<and> jok_arr vs \<and> List.map_filter (pj_Unmarshal P) vs = its"
  using assms(2)
proof (induction its arbitrary: n)
  case Nil
  then show ?case by (simp add: map_filter_simps)
next
  case (Cons it its)
  obtain v where v: "pj_Marshal P it = Some v" "jok v" "pj_Unmarshal P v = Some it"
    using assms(1) Cons.prems unfolding codec_contract_def by auto
  obtain vs where "marshal_items P (Suc n) its = Inr vs" "jok_arr vs" "List.map_filter (pj_Unmarshal P) vs = its"
    using Cons.IH [of "Suc n"] Cons.prems by auto
  then show ?case using v by (simp add: map_filter_simps)
qed

lemma envelope_decode:
  assumes "int64_min \<le> now" "now \<le> int64_max"
  shows "json_Unmarshal (d_struct envelope_members) (jprint (envelope_json \<lparr>ce_Version = 1, ce_UpdatedAt = now, ce_Data = b\<rparr>)) envelope_zero
    = (\<lparr>ce_Version = 1, ce_UpdatedAt = now, ce_Data = b\<rparr>, True)"
proof -
  let ?e = "envelope_json \<lparr>ce_Version = 1, ce_UpdatedAt = now, ce_Data = b\<rparr>"
  have "jok ?e" by (simp add: envelope_json_def ascii_utf8 byte_def)
  then have "json_Unmarshal (d_struct envelope_members) (jprint ?e) envelope_zero = d_struct envelope_members ?e envelope_zero"
    by (rule json_Unmarshal_print)
  also have "\<dots> = (\<lparr>ce_Version = 1, ce_UpdatedAt = now, ce_Data = b\<rparr>, True)"
    using assms by (simp add: d_struct_def envelope_json_def envelope_members_def dec_field_def obj_vals_def between_def byte_def
      int64_min_def int64_max_def)
  finally show ?thesis .
qed

text \<open>
  C27. The offline cache: items that are saved under a 32-byte key, on a disk with enough room,
  are loaded with the same key as the same items in the same order, with the time of the
  save; without a file \<^verbatim>\<open>Load\<close> says that there is no cache; and whatever a cache file holds,
  items that \<^verbatim>\<open>Load\<close> returns were sealed under the key.
\<close>

theorem cache_roundtrip:
  assumes "aead_contract C" "rand_ok rnd" "codec_contract P ok" "list_all ok items" "length key = 32"
    "int64_min \<le> now" "now \<le> int64_max" "dk_writable dk path" "dk_readable dk path"
  shows "(\<exists>c. cache_Save C rnd n P now path key items dk = (if length c \<le> dk_room dk then Inr () else Inl (Wrapf ''write cache: %w'' (ErrText ''write'')),
           dk\<lparr>dk_files := (dk_files dk)(path \<mapsto> take (dk_room dk) c)\<rparr>) \<and>
         cache_Load C P path key (dk\<lparr>dk_files := (dk_files dk)(path \<mapsto> c)\<rparr>) = Inr (items, now)) \<and>
    (dk_files dk path = None \<longrightarrow> cache_Load C P path key dk = Inl (Sentinel ErrCacheNotFound)) \<and>
    (\<forall>its ts. cache_Load C P path key dk = Inr (its, ts) \<longrightarrow>
       (\<exists>f nonce p. dk_files dk path = Some f \<and> cached_data f = nonce @ cl_Seal C key nonce p \<and>
          its = List.map_filter (pj_Unmarshal P) (fst (json_Unmarshal d_raw_list p []))))"
proof (intro conjI allI impI)
  obtain raw where raw: "marshal_items P 0 items = Inr raw" "jok_arr raw" "List.map_filter (pj_Unmarshal P) raw = items"
    using marshal_items_ok [OF assms(3,4)] by blast
  obtain nonce where "rnd n nonce_size = Some nonce" using assms(2) unfolding rand_ok_def by blast
  then obtain ct where ct: "Encrypt C rnd n key (jprint (JArr raw)) = Inr ct" using assms(5) by (simp add: Encrypt_def key_size_def)
  have dec: "Decrypt C key ct = Inr (jprint (JArr raw))" by (rule Decrypt_Encrypt [OF assms(1,2) ct])
  have arr: "json_Unmarshal d_raw_list (jprint (JArr raw)) [] = (raw, True)"
    using raw(2) json_Unmarshal_print [of "JArr raw" d_raw_list "[]"] by (simp add: d_raw_list_def)
  let ?c = "jprint (envelope_json \<lparr>ce_Version = 1, ce_UpdatedAt = now, ce_Data = Some ct\<rparr>)"
  have "cache_Save C rnd n P now path key items dk =
      (if length ?c \<le> dk_room dk then Inr () else Inl (Wrapf ''write cache: %w'' (ErrText ''write'')),
       dk\<lparr>dk_files := (dk_files dk)(path \<mapsto> take (dk_room dk) ?c)\<rparr>)"
    unfolding cache_Save_def raw(1) sum.case ct using assms(8) by simp
  moreover have "cache_Load C P path key (dk\<lparr>dk_files := (dk_files dk)(path \<mapsto> ?c)\<rparr>) = Inr (items, now)"
    using assms(9) dec arr raw(3) by (simp add: cache_Load_def envelope_decode [OF assms(6,7)])
  ultimately show "\<exists>c. cache_Save C rnd n P now path key items dk = (if length c \<le> dk_room dk then Inr () else Inl (Wrapf ''write cache: %w'' (ErrText ''write'')),
           dk\<lparr>dk_files := (dk_files dk)(path \<mapsto> take (dk_room dk) c)\<rparr>) \<and>
         cache_Load C P path key (dk\<lparr>dk_files := (dk_files dk)(path \<mapsto> c)\<rparr>) = Inr (items, now)" by blast
next
  fix its ts
  assume l: "cache_Load C P path key dk = Inr (its, ts)"
  then obtain f where f: "dk_files dk path = Some f" by (auto simp: cache_Load_def split: if_splits)
  obtain p where p: "Decrypt C key (cached_data f) = Inr p" "its = List.map_filter (pj_Unmarshal P) (fst (json_Unmarshal d_raw_list p []))"
    using l f unfolding cache_Load_def cached_data_def by (auto simp: Let_def split: if_splits prod.splits sum.splits)
  let ?d = "cached_data f"
  have "cl_Open C key (take nonce_size ?d) (drop nonce_size ?d) = Some p"
    using p(1) unfolding Decrypt_def by (auto split: if_splits option.splits)
  then have "drop nonce_size ?d = cl_Seal C key (take nonce_size ?d) p" by (rule aeadD(2) [OF assms(1)])
  then show "\<exists>f nonce p. dk_files dk path = Some f \<and> cached_data f = nonce @ cl_Seal C key nonce p \<and>
      its = List.map_filter (pj_Unmarshal P) (fst (json_Unmarshal d_raw_list p []))"
    using f p(2) by (metis append_take_drop_id)
qed (simp add: cache_Load_def)

definition demo_disk :: disk where
  "demo_disk = \<lparr>dk_files = Map.empty, dk_writable = (\<lambda>p. True), dk_readable = (\<lambda>p. True), dk_room = 100000\<rparr>"

definition text_codec :: "string proto_codec" where
  "text_codec = \<lparr>pj_Marshal = (\<lambda>s. Some (JStr s)), pj_Unmarshal = (\<lambda>v. case v of JStr s \<Rightarrow> Some s | _ \<Rightarrow> None)\<rparr>"

lemma text_codec_contract: "codec_contract text_codec utf8_valid"
  by (simp add: codec_contract_def text_codec_def)

theorem cache_roundtrip_witness:
  "cache_Load demo_crypto text_codec ''vault'' demo_key32 demo_disk = Inl (Sentinel ErrCacheNotFound) \<and>
   (\<exists>c. cache_Load demo_crypto text_codec ''vault'' demo_key32 (demo_disk\<lparr>dk_files := (dk_files demo_disk)(''vault'' \<mapsto> c)\<rparr>)
     = Inr ([''a'', ''b''], 1700000000))"
proof -
  have h: "list_all utf8_valid [''a'', ''b'']" "length demo_key32 = 32" "int64_min \<le> 1700000000" "1700000000 \<le> int64_max"
    "dk_writable demo_disk ''vault''" "dk_readable demo_disk ''vault''"
    by (simp_all add: ascii_utf8 byte_def demo_key32_def int64_min_def int64_max_def demo_disk_def)
  have f: "dk_files demo_disk ''vault'' = None" by (simp add: demo_disk_def)
  show ?thesis using cache_roundtrip [OF demo_crypto_contract(1,3) text_codec_contract h, of 0] f by auto
qed

end
