(* ===== verification/Client.thy ===== *)
theory Client
  imports App LocalDb
begin

text \<open>
  The client's configuration (\<^verbatim>\<open>src/internal/client/config\<close>) and its connection
  (\<^verbatim>\<open>src/internal/client/grpcclient\<close>) with the interceptor that refreshes the access token.

  The server is reached through the parameter \<open>cn_send\<close>, over a remote state of any type; it
  gets the values of the \<^verbatim>\<open>authorization\<close> metadata and the request. The YAML files of viper
  are read and written by the parameters \<open>cn_read\<close> and \<open>cn_write\<close>.
\<close>

record client_Config =
  cf_ServerAddr :: string
  cf_TLSCertPath :: string
  cf_AccessToken :: string
  cf_RefreshToken :: string
  cf_VaultPath :: string
  cf_KeyfilePath :: string
  cf_Username :: string

record 'r client_env =
  cn_send :: "string list \<Rightarrow> rpc_req \<Rightarrow> 'r \<Rightarrow> (rpc_err + rpc_resp) \<times> 'r"
  cn_read :: "bytes \<Rightarrow> (string \<Rightarrow> string option) option"
  cn_write :: "(string \<times> string) list \<Rightarrow> bytes"
  cn_AppendCertsFromPEM :: "bytes \<Rightarrow> bool"
  cn_NewClient :: "string \<Rightarrow> bool"
  cn_home :: string
  cn_unicode_lower :: "string \<Rightarrow> string"

text \<open>What the code relies on: viper reads back the settings that it wrote.\<close>

definition yaml_contract :: "'r client_env \<Rightarrow> bool" where
  "yaml_contract E \<longleftrightarrow> (\<forall>kvs. distinct (map fst kvs) \<longrightarrow> cn_read E (cn_write E kvs) = Some (map_of kvs))"

text \<open>The client's side of the world: disk, server, the requests sent, what was printed, the clipboard.\<close>

record 'r cworld =
  cw_disk :: disk
  cw_remote :: 'r
  cw_sent :: "(string list \<times> rpc_req) list"
  cw_out :: "string list"
  cw_clip :: "string option"

section \<open>config.go\<close>

definition config_dir :: "'r client_env \<Rightarrow> string" where
  "config_dir E = cn_home E @ ''/.gophkeeper''"

definition config_path :: "'r client_env \<Rightarrow> string" where
  "config_path E = config_dir E @ ''/config.yaml''"

text \<open>A setting of the file, else its default, else the empty string.\<close>

definition setting :: "(string \<Rightarrow> string option) \<Rightarrow> (string \<Rightarrow> string option) \<Rightarrow> string \<Rightarrow> string" where
  "setting file defaults k = (case file k of Some v \<Rightarrow> v | None \<Rightarrow> (case defaults k of Some v \<Rightarrow> v | None \<Rightarrow> []))"

definition config_defaults :: "'r client_env \<Rightarrow> string \<Rightarrow> string option" where
  "config_defaults E = [''server_addr'' \<mapsto> ''localhost:50051'', ''vault_path'' \<mapsto> config_dir E @ ''/vault.gkdb'']"

definition config_of :: "(string \<Rightarrow> string option) \<Rightarrow> (string \<Rightarrow> string option) \<Rightarrow> client_Config" where
  "config_of file d = \<lparr>cf_ServerAddr = setting file d ''server_addr'', cf_TLSCertPath = setting file d ''tls_cert_path'',
     cf_AccessToken = setting file d ''access_token'', cf_RefreshToken = setting file d ''refresh_token'',
     cf_VaultPath = setting file d ''vault_path'', cf_KeyfilePath = setting file d ''keyfile_path'',
     cf_Username = setting file d ''username''\<rparr>"

definition config_Load :: "'r client_env \<Rightarrow> 'r cworld \<Rightarrow> client_Config result" where
  "config_Load E cw =
     (case dk_files (cw_disk cw) (config_path E) of
        None \<Rightarrow> Inr (config_of Map.empty (config_defaults E))
      | Some b \<Rightarrow>
          if \<not> dk_readable (cw_disk cw) (config_path E) then Inl (Wrapf ''read config: %w'' (ErrText ''open''))
          else (case cn_read E b of
                  None \<Rightarrow> Inl (Wrapf ''read config: %w'' (ErrText ''yaml''))
                | Some file \<Rightarrow> Inr (config_of file (config_defaults E))))"

definition config_settings :: "client_Config \<Rightarrow> (string \<times> string) list" where
  "config_settings cfg = [(''server_addr'', cf_ServerAddr cfg), (''tls_cert_path'', cf_TLSCertPath cfg),
     (''access_token'', cf_AccessToken cfg), (''refresh_token'', cf_RefreshToken cfg), (''vault_path'', cf_VaultPath cfg),
     (''keyfile_path'', cf_KeyfilePath cfg), (''username'', cf_Username cfg)]"

definition config_Save :: "'r client_env \<Rightarrow> client_Config \<Rightarrow> 'r cworld \<Rightarrow> unit result \<times> 'r cworld" where
  "config_Save E cfg cw =
     (let dk = cw_disk cw; path = config_path E in
      if \<not> dk_writable dk path then (Inl (Wrapf ''write config: %w'' (ErrText ''open'')), cw)
      else let (c, ok) = write_all (dk_room dk) [cn_write E (config_settings cfg)] in
        (if ok then Inr () else Inl (Wrapf ''write config: %w'' (ErrText ''write'')),
         cw\<lparr>cw_disk := dk\<lparr>dk_files := (dk_files dk)(path \<mapsto> c)\<rparr>\<rparr>))"

lemma config_roundtrip:
  assumes "yaml_contract E" "dk_readable (cw_disk cw) (config_path E)" "config_Save E cfg cw = (Inr (), cw')"
  shows "config_Load E cw' = Inr cfg"
proof -
  have "distinct (map fst (config_settings cfg))" by (simp add: config_settings_def)
  then have "cn_read E (cn_write E (config_settings cfg)) = Some (map_of (config_settings cfg))"
    using assms(1) unfolding yaml_contract_def by blast
  moreover have "config_of (map_of (config_settings cfg)) d = cfg" for d
    by (simp add: config_of_def setting_def config_settings_def)
  ultimately show ?thesis using assms(2,3)
    by (auto simp: config_Save_def config_Load_def Let_def split: if_splits)
qed

section \<open>client.go\<close>

definition Client_New :: "'r client_env \<Rightarrow> client_Config \<Rightarrow> 'r cworld \<Rightarrow> unit result" where
  "Client_New E cfg cw =
     (let path = cf_TLSCertPath cfg;
          cert = (if dk_readable (cw_disk cw) path then dk_files (cw_disk cw) path else None) in
      if path \<noteq> [] \<and> cert = None then Inl (Wrapf ''read tls cert: %w'' (ErrText path))
      else if path \<noteq> [] \<and> \<not> cn_AppendCertsFromPEM E (the cert) then Inl (ErrText ''parse tls cert'')
      else if \<not> cn_NewClient E (cf_ServerAddr cfg) then Inl (Wrapf ''dial: %w'' (ErrText (cf_ServerAddr cfg)))
      else Inr ())"

definition bearer :: "string \<Rightarrow> string" where "bearer tok = ''Bearer '' @ tok"

definition WithAuth :: "client_Config \<Rightarrow> string list \<Rightarrow> string list" where
  "WithAuth cfg md = (if cf_AccessToken cfg = [] then md else md @ [bearer (cf_AccessToken cfg)])"

text \<open>One request on the wire.\<close>

definition invoker :: "'r client_env \<Rightarrow> string list \<Rightarrow> rpc_req \<Rightarrow> 'r cworld \<Rightarrow> (rpc_err + rpc_resp) \<times> 'r cworld" where
  "invoker E md req cw =
     (let (r, rem) = cn_send E md req (cw_remote cw) in (r, cw\<lparr>cw_remote := rem, cw_sent := cw_sent cw @ [(md, req)]\<rparr>))"

fun status_Code :: "rpc_err \<Rightarrow> code option" where
  "status_Code (StatusErr c _) = Some c"
| "status_Code (Crash _) = None"

text \<open>
  The interceptor of every unary call. The \<^verbatim>\<open>Refresh\<close> call that it makes goes through the
  same interceptor, on a fresh context, and is never refreshed itself. The configuration is
  shared: it is returned with the new token, which is also written to disk.
\<close>

fun refresh_token_of :: "(rpc_err + rpc_resp) \<Rightarrow> string option" where
  "refresh_token_of (Inr (PRefresh tok)) = Some tok"
| "refresh_token_of _ = None"

definition refreshInterceptor ::
  "'r client_env \<Rightarrow> string list \<Rightarrow> rpc_req \<Rightarrow> client_Config \<Rightarrow> 'r cworld \<Rightarrow> (rpc_err + rpc_resp) \<times> client_Config \<times> 'r cworld" where
  "refreshInterceptor E md req cfg cw =
     (let (r, cw1) = invoker E (WithAuth cfg md) req cw in
      case r of
        Inr x \<Rightarrow> (r, cfg, cw1)
      | Inl err \<Rightarrow>
          if cf_RefreshToken cfg = [] \<or> full_method req = ''/auth.AuthService/Refresh'' then (r, cfg, cw1)
          else if status_Code err \<noteq> Some Unauthenticated then (r, cfg, cw1)
          else let (rr, cw2) = invoker E (WithAuth cfg []) (RRefresh (cf_RefreshToken cfg)) cw1 in
            (case refresh_token_of rr of
               None \<Rightarrow> (r, cfg, cw2)
             | Some tok \<Rightarrow>
                 let cfg' = cfg\<lparr>cf_AccessToken := tok\<rparr>;
                     (_, cw3) = config_Save E cfg' cw2;
                     (r', cw4) = invoker E [bearer tok] req cw3
                 in (r', cfg', cw4)))"

lemma refresh_token_of_Some: "refresh_token_of rr = Some tok \<longleftrightarrow> rr = Inr (PRefresh tok)"
  by (cases rr rule: refresh_token_of.cases) auto

lemma invoker_sent: "invoker E md req cw = (r, cw') \<Longrightarrow> cw_sent cw' = cw_sent cw @ [(md, req)] \<and> cw_disk cw' = cw_disk cw \<and>
    cn_send E md req (cw_remote cw) = (r, cw_remote cw')"
  by (auto simp: invoker_def split: prod.splits)

lemma config_Save_frame: "config_Save E cfg cw = (r, cw') \<Longrightarrow> cw_sent cw' = cw_sent cw \<and> cw_remote cw' = cw_remote cw"
  by (auto simp: config_Save_def Let_def split: if_splits)


end
