(* ===== verification/Payloads.thy ===== *)
theory Payloads
  imports JsonCodec
begin

text \<open>
  The payloads of vault items: the structs of \<^verbatim>\<open>src/internal/client/tui/payloads.go\<close>, of the
  credential and OTP commands, their JSON forms and the readers with their fallbacks for
  older formats. Errors of \<^verbatim>\<open>json.Unmarshal\<close> are ignored by these readers: what could be
  decoded is kept. \<^verbatim>\<open>FormatFileSize\<close> is in theory \<open>TuiVault\<close>.
\<close>

definition str_field :: "string \<Rightarrow> string \<Rightarrow> string \<times> json" where
  "str_field k s = (k, JStr s)"

text \<open>A string field with \<^verbatim>\<open>omitempty\<close>.\<close>

definition opt_field :: "string \<Rightarrow> string \<Rightarrow> (string \<times> json) list" where
  "opt_field k s = (if s = [] then [] else [(k, JStr s)])"

text \<open>The value of a string field after decoding an object into a zero struct.\<close>

definition get_str :: "string \<Rightarrow> (string \<times> json) list \<Rightarrow> string" where
  "get_str k kvs = fst (dec_field d_str k kvs [])"

text \<open>The members of a document that is an object; any other document decodes nothing.\<close>

definition members :: "bytes \<Rightarrow> (string \<times> json) list" where
  "members raw = (case json_parse raw of Some (JObj kvs) \<Rightarrow> kvs | _ \<Rightarrow> [])"

definition or_meta :: "string \<Rightarrow> string \<Rightarrow> string" where
  "or_meta name meta = (if name = [] then meta else name)"

section \<open>Logins\<close>

record PasswordHistoryEntry =
  ph_Password :: string
  ph_LastUsed :: gotime

record LoginPayload =
  lo_Name :: string
  lo_Username :: string
  lo_Password :: string
  lo_URL :: string
  lo_TOTPKey :: string
  lo_Notes :: string
  lo_History :: "PasswordHistoryEntry list"

definition history_json :: "PasswordHistoryEntry \<Rightarrow> json" where
  "history_json h = JObj [str_field ''password'' (ph_Password h), (''last_used'', e_time (ph_LastUsed h))]"

definition history_members :: "(string \<times> json) list \<Rightarrow> PasswordHistoryEntry \<Rightarrow> PasswordHistoryEntry \<times> bool" where
  "history_members kvs h =
     (let (p, o1) = dec_field d_str ''password'' kvs (ph_Password h);
          (t, o2) = dec_field d_time ''last_used'' kvs (ph_LastUsed h)
      in (\<lparr>ph_Password = p, ph_LastUsed = t\<rparr>, o1 \<and> o2))"

definition history_zero :: PasswordHistoryEntry where
  "history_zero = \<lparr>ph_Password = [], ph_LastUsed = gotime_zero\<rparr>"

definition login_json :: "LoginPayload \<Rightarrow> json" where
  "login_json p = JObj ([str_field ''name'' (lo_Name p), str_field ''username'' (lo_Username p), str_field ''password'' (lo_Password p)] @
     opt_field ''url'' (lo_URL p) @ opt_field ''totp_key'' (lo_TOTPKey p) @ opt_field ''notes'' (lo_Notes p) @
     (if lo_History p = [] then [] else [(''history'', JArr (map history_json (lo_History p)))]))"

definition old_login :: "bytes \<Rightarrow> string option" where
  "old_login raw =
     (let (l, ok) = json_Unmarshal (d_struct (\<lambda>kvs x. dec_field d_str ''login'' kvs x)) raw [] in
      if ok \<and> l \<noteq> [] then Some l else None)"

definition parseLoginPayload :: "bytes \<Rightarrow> string \<Rightarrow> LoginPayload" where
  "parseLoginPayload raw meta =
     (let kvs = members raw; u = get_str ''username'' kvs in
      \<lparr>lo_Name = or_meta (get_str ''name'' kvs) meta,
       lo_Username = (if u = [] then (case old_login raw of Some l \<Rightarrow> l | None \<Rightarrow> []) else u),
       lo_Password = get_str ''password'' kvs, lo_URL = get_str ''url'' kvs, lo_TOTPKey = get_str ''totp_key'' kvs,
       lo_Notes = get_str ''notes'' kvs,
       lo_History = fst (dec_field (d_list (d_struct history_members) history_zero) ''history'' kvs [])\<rparr>)"

section \<open>The other payloads of the TUI\<close>

record CardPayload =
  ca_Name :: string
  ca_CardholderName :: string
  ca_Number :: string
  ca_ExpMonth :: string
  ca_ExpYear :: string
  ca_CVV :: string
  ca_Notes :: string

definition card_json :: "CardPayload \<Rightarrow> json" where
  "card_json p = JObj ([str_field ''name'' (ca_Name p), str_field ''cardholder_name'' (ca_CardholderName p),
     str_field ''number'' (ca_Number p), str_field ''exp_month'' (ca_ExpMonth p), str_field ''exp_year'' (ca_ExpYear p),
     str_field ''cvv'' (ca_CVV p)] @ opt_field ''notes'' (ca_Notes p))"

definition parseCardPayload :: "bytes \<Rightarrow> string \<Rightarrow> CardPayload" where
  "parseCardPayload raw meta = (let kvs = members raw in
     \<lparr>ca_Name = or_meta (get_str ''name'' kvs) meta, ca_CardholderName = get_str ''cardholder_name'' kvs,
      ca_Number = get_str ''number'' kvs, ca_ExpMonth = get_str ''exp_month'' kvs, ca_ExpYear = get_str ''exp_year'' kvs,
      ca_CVV = get_str ''cvv'' kvs, ca_Notes = get_str ''notes'' kvs\<rparr>)"

record NotePayload =
  no_Name :: string
  no_Content :: string

definition note_json :: "NotePayload \<Rightarrow> json" where
  "note_json p = JObj [str_field ''name'' (no_Name p), str_field ''content'' (no_Content p)]"

definition parseNotePayload :: "bytes \<Rightarrow> string \<Rightarrow> NotePayload" where
  "parseNotePayload raw meta = (let kvs = members raw; c = get_str ''content'' kvs in
     \<lparr>no_Name = or_meta (get_str ''name'' kvs) meta, no_Content = (if c = [] then raw else c)\<rparr>)"

record IdentityPayload =
  id_Name :: string
  id_FirstName :: string
  id_LastName :: string
  id_Email :: string
  id_Phone :: string
  id_Company :: string
  id_Address :: string
  id_Notes :: string

definition identity_json :: "IdentityPayload \<Rightarrow> json" where
  "identity_json p = JObj ([str_field ''name'' (id_Name p), str_field ''first_name'' (id_FirstName p),
     str_field ''last_name'' (id_LastName p), str_field ''email'' (id_Email p), str_field ''phone'' (id_Phone p)] @
     opt_field ''company'' (id_Company p) @ opt_field ''address'' (id_Address p) @ opt_field ''notes'' (id_Notes p))"

definition parseIdentityPayload :: "bytes \<Rightarrow> string \<Rightarrow> IdentityPayload" where
  "parseIdentityPayload raw meta = (let kvs = members raw in
     \<lparr>id_Name = or_meta (get_str ''name'' kvs) meta, id_FirstName = get_str ''first_name'' kvs,
      id_LastName = get_str ''last_name'' kvs, id_Email = get_str ''email'' kvs, id_Phone = get_str ''phone'' kvs,
      id_Company = get_str ''company'' kvs, id_Address = get_str ''address'' kvs, id_Notes = get_str ''notes'' kvs\<rparr>)"

record AuthPayload =
  au_Name :: string
  au_Secret :: string
  au_Issuer :: string
  au_Label :: string

definition auth_json :: "AuthPayload \<Rightarrow> json" where
  "auth_json p = JObj ([str_field ''name'' (au_Name p), str_field ''secret'' (au_Secret p)] @
     opt_field ''issuer'' (au_Issuer p) @ opt_field ''label'' (au_Label p))"

definition parseAuthPayload :: "bytes \<Rightarrow> string \<Rightarrow> AuthPayload" where
  "parseAuthPayload raw meta = (let kvs = members raw in
     \<lparr>au_Name = or_meta (get_str ''name'' kvs) meta, au_Secret = get_str ''secret'' kvs,
      au_Issuer = get_str ''issuer'' kvs, au_Label = get_str ''label'' kvs\<rparr>)"

record SSHKeyPayload =
  sk_Name :: string
  sk_KeyType :: string
  sk_PrivateKey :: string
  sk_PublicKey :: string
  sk_Comment :: string
  sk_SSHKey :: bool

definition ssh_json :: "SSHKeyPayload \<Rightarrow> json" where
  "ssh_json p = JObj ([str_field ''name'' (sk_Name p), str_field ''key_type'' (sk_KeyType p), str_field ''private_key'' (sk_PrivateKey p)] @
     opt_field ''public_key'' (sk_PublicKey p) @ opt_field ''comment'' (sk_Comment p) @ [(''ssh_key'', JBool (sk_SSHKey p))])"

definition parseSSHKeyPayload :: "bytes \<Rightarrow> string \<Rightarrow> SSHKeyPayload" where
  "parseSSHKeyPayload raw meta = (let kvs = members raw in
     \<lparr>sk_Name = or_meta (get_str ''name'' kvs) meta, sk_KeyType = get_str ''key_type'' kvs,
      sk_PrivateKey = get_str ''private_key'' kvs, sk_PublicKey = get_str ''public_key'' kvs,
      sk_Comment = get_str ''comment'' kvs, sk_SSHKey = fst (dec_field d_bool ''ssh_key'' kvs False)\<rparr>)"

record FilePayload =
  fp_Name :: string
  fp_FileName :: string
  fp_MimeType :: string
  fp_Size :: int
  fp_Data :: "bytes option"
  fp_IsFile :: bool

definition file_json :: "FilePayload \<Rightarrow> json" where
  "file_json p = JObj [str_field ''name'' (fp_Name p), str_field ''file_name'' (fp_FileName p), str_field ''mime_type'' (fp_MimeType p),
     (''size'', e_int (fp_Size p)), (''data'', e_bytes (fp_Data p)), (''is_file'', JBool (fp_IsFile p))]"

definition parseFilePayload :: "bytes \<Rightarrow> string \<Rightarrow> FilePayload" where
  "parseFilePayload raw meta = (let kvs = members raw in
     \<lparr>fp_Name = or_meta (get_str ''name'' kvs) meta, fp_FileName = get_str ''file_name'' kvs,
      fp_MimeType = get_str ''mime_type'' kvs,
      fp_Size = fst (dec_field (d_int (- 9223372036854775808) 9223372036854775807) ''size'' kvs 0),
      fp_Data = fst (dec_field d_bytes ''data'' kvs None), fp_IsFile = fst (dec_field d_bool ''is_file'' kvs False)\<rparr>)"

section \<open>The payloads of the commands\<close>

record CredentialPayload =
  cp_Name :: string
  cp_Username :: string
  cp_Password :: string
  cp_URL :: string
  cp_Notes :: string

definition credential_json :: "CredentialPayload \<Rightarrow> json" where
  "credential_json p = JObj ([str_field ''name'' (cp_Name p), str_field ''username'' (cp_Username p), str_field ''password'' (cp_Password p)] @
     opt_field ''url'' (cp_URL p) @ opt_field ''notes'' (cp_Notes p))"

definition parsePayload :: "bytes \<Rightarrow> string \<Rightarrow> CredentialPayload" where
  "parsePayload raw meta =
     (let kvs = members raw; u = get_str ''username'' kvs in
      \<lparr>cp_Name = or_meta (get_str ''name'' kvs) meta,
       cp_Username = (if u = [] then (case old_login raw of Some l \<Rightarrow> l | None \<Rightarrow> []) else u),
       cp_Password = get_str ''password'' kvs, cp_URL = get_str ''url'' kvs, cp_Notes = get_str ''notes'' kvs\<rparr>)"

record OTPPayload =
  ot_Secret :: string
  ot_Label :: string
  ot_Issuer :: string

definition otp_json :: "OTPPayload \<Rightarrow> json" where
  "otp_json p = JObj [str_field ''secret'' (ot_Secret p), str_field ''label'' (ot_Label p), str_field ''issuer'' (ot_Issuer p)]"

definition otp_members :: "(string \<times> json) list \<Rightarrow> OTPPayload \<Rightarrow> OTPPayload \<times> bool" where
  "otp_members kvs p =
     (let (s, o1) = dec_field d_str ''secret'' kvs (ot_Secret p);
          (l, o2) = dec_field d_str ''label'' kvs (ot_Label p);
          (i, o3) = dec_field d_str ''issuer'' kvs (ot_Issuer p)
      in (\<lparr>ot_Secret = s, ot_Label = l, ot_Issuer = i\<rparr>, o1 \<and> o2 \<and> o3))"

definition otp_zero :: OTPPayload where "otp_zero = \<lparr>ot_Secret = [], ot_Label = [], ot_Issuer = []\<rparr>"

section \<open>Round trips\<close>

lemma members_print: "jok (JObj kvs) \<Longrightarrow> members (jprint (JObj kvs)) = kvs"
  by (simp add: members_def json_parse_print del: jprint.simps)

lemmas payload_decode = get_str_def dec_field_def obj_vals_def opt_field_def str_field_def or_meta_def between_def byte_def

lemma jok_obj_append [simp]: "jok_obj (a @ b) = (jok_obj a \<and> jok_obj b)"
  by (induction a) auto

lemma jok_opt_field: "utf8_valid k \<Longrightarrow> utf8_valid s \<Longrightarrow> jok_obj (opt_field k s)"
  by (simp add: opt_field_def)

definition history_ok :: "PasswordHistoryEntry \<Rightarrow> bool" where
  "history_ok h \<longleftrightarrow> utf8_valid (ph_Password h) \<and> gotime_ok (ph_LastUsed h)"

lemma history_decode: "history_ok h \<Longrightarrow> d_struct history_members (history_json h) x = (h, True)"
  by (simp add: d_struct_def history_json_def history_members_def history_ok_def payload_decode)

lemma history_list_decode:
  "list_all history_ok hs \<Longrightarrow> d_list (d_struct history_members) history_zero (JArr (map history_json hs)) x = (hs, True) \<and>
     jok_arr (map history_json hs)"
proof -
  assume "list_all history_ok hs"
  then have "map (\<lambda>h. fst (d_struct history_members (history_json h) history_zero)) hs = hs \<and>
      list_all (\<lambda>h. snd (d_struct history_members (history_json h) history_zero)) hs \<and> jok_arr (map history_json hs)"
    by (induction hs) (simp_all add: history_decode, simp add: history_json_def str_field_def history_ok_def ascii_utf8 byte_def)
  then show ?thesis by (simp add: d_list_def comp_def list_all_iff)
qed

lemma utf8_key: "list_all (\<lambda>c. byte c < 128) k \<Longrightarrow> utf8_valid k"
  by (simp add: ascii_utf8 list_all_iff)

lemmas payload_ok = jok_opt_field utf8_key str_field_def byte_def

definition login_ok :: "LoginPayload \<Rightarrow> bool" where
  "login_ok p \<longleftrightarrow> list_all utf8_valid [lo_Name p, lo_Username p, lo_Password p, lo_URL p, lo_TOTPKey p, lo_Notes p] \<and>
     list_all history_ok (lo_History p)"

lemma login_jok: "login_ok p \<Longrightarrow> jok (login_json p)"
  using history_list_decode [of "lo_History p"] by (auto simp: login_json_def login_ok_def payload_ok)

lemma old_login_none: "jok (JObj kvs) \<Longrightarrow> obj_vals ''login'' kvs = [] \<Longrightarrow> old_login (jprint (JObj kvs)) = None"
  by (simp add: old_login_def json_Unmarshal_print d_struct_def dec_field_def del: jprint.simps)

lemma login_members: "login_ok p \<Longrightarrow> members (jprint (login_json p)) = (case login_json p of JObj kvs \<Rightarrow> kvs | _ \<Rightarrow> [])"
  using login_jok [of p] members_print by (auto simp: login_json_def simp del: jprint.simps)

lemma obj_vals_append [simp]: "obj_vals k (a @ b) = obj_vals k a @ obj_vals k b"
  by (simp add: obj_vals_def)

lemma obj_vals_Cons: "obj_vals k ((n, v) # kvs) = (if fold_name n = fold_name k then [v] else []) @ obj_vals k kvs"
  by (simp add: obj_vals_def)

lemma obj_vals_Nil [simp]: "obj_vals k [] = []"
  by (simp add: obj_vals_def)

lemma obj_vals_opt: "obj_vals k (opt_field n s) = (if fold_name n = fold_name k \<and> s \<noteq> [] then [JStr s] else [])"
  by (simp add: opt_field_def obj_vals_def)

lemma dec_str_opt: "fst (dec_all d_str (if P \<and> s \<noteq> [] then [JStr s] else []) []) = (if P then s else [])"
  by simp

lemmas payload_eval = get_str_def dec_field_def obj_vals_Cons obj_vals_opt str_field_def or_meta_def between_def byte_def

lemma login_roundtrip: "login_ok p \<Longrightarrow> lo_Name p \<noteq> [] \<Longrightarrow> parseLoginPayload (jprint (login_json p)) meta = p"
proof -
  assume p: "login_ok p" and n: "lo_Name p \<noteq> []"
  obtain kvs where kvs: "login_json p = JObj kvs" by (simp add: login_json_def)
  have m: "members (jprint (login_json p)) = kvs" using login_jok [OF p] members_print kvs by simp
  have o: "old_login (jprint (login_json p)) = None" unfolding kvs
  proof (rule old_login_none)
    show "jok (JObj kvs)" using login_jok [OF p] kvs by simp
    show "obj_vals ''login'' kvs = []" using kvs by (auto simp: login_json_def payload_eval)
  qed
  have h: "d_list (d_struct history_members) history_zero (JArr (map history_json (lo_History p))) [] = (lo_History p, True)"
    using history_list_decode p unfolding login_ok_def by blast
  have k: "kvs = [str_field ''name'' (lo_Name p), str_field ''username'' (lo_Username p), str_field ''password'' (lo_Password p)] @
     opt_field ''url'' (lo_URL p) @ opt_field ''totp_key'' (lo_TOTPKey p) @ opt_field ''notes'' (lo_Notes p) @
     (if lo_History p = [] then [] else [(''history'', JArr (map history_json (lo_History p)))])" using kvs by (simp add: login_json_def)
  have f: "get_str ''name'' kvs = lo_Name p" "get_str ''username'' kvs = lo_Username p" "get_str ''password'' kvs = lo_Password p"
    "get_str ''url'' kvs = lo_URL p" "get_str ''totp_key'' kvs = lo_TOTPKey p" "get_str ''notes'' kvs = lo_Notes p"
    by (simp_all add: k payload_eval)
  have "fst (dec_field (d_list (d_struct history_members) history_zero) ''history'' kvs []) = lo_History p"
    using h by (simp add: k payload_eval)
  then show ?thesis using n by (simp add: parseLoginPayload_def m o f or_meta_def Let_def)
qed

text \<open>The payloads with string fields only, and those with a flag or data.\<close>

lemma card_roundtrip:
  assumes "list_all utf8_valid [ca_Name p, ca_CardholderName p, ca_Number p, ca_ExpMonth p, ca_ExpYear p, ca_CVV p, ca_Notes p]" "ca_Name p \<noteq> []"
  shows "parseCardPayload (jprint (card_json p)) meta = p"
proof -
  have "jok (card_json p)" using assms(1) by (simp add: card_json_def payload_ok)
  then have m: "members (jprint (card_json p)) = (case card_json p of JObj kvs \<Rightarrow> kvs | _ \<Rightarrow> [])"
    unfolding card_json_def json.case by (rule members_print)
  show ?thesis using assms(2) unfolding parseCardPayload_def m by (simp add: card_json_def payload_eval)
qed

lemma identity_roundtrip:
  assumes "list_all utf8_valid [id_Name p, id_FirstName p, id_LastName p, id_Email p, id_Phone p, id_Company p, id_Address p, id_Notes p]"
    "id_Name p \<noteq> []"
  shows "parseIdentityPayload (jprint (identity_json p)) meta = p"
proof -
  have "jok (identity_json p)" using assms(1) by (simp add: identity_json_def payload_ok)
  then have m: "members (jprint (identity_json p)) = (case identity_json p of JObj kvs \<Rightarrow> kvs | _ \<Rightarrow> [])"
    unfolding identity_json_def json.case by (rule members_print)
  show ?thesis using assms(2) unfolding parseIdentityPayload_def m by (simp add: identity_json_def payload_eval)
qed

lemma auth_roundtrip:
  assumes "list_all utf8_valid [au_Name p, au_Secret p, au_Issuer p, au_Label p]" "au_Name p \<noteq> []"
  shows "parseAuthPayload (jprint (auth_json p)) meta = p"
proof -
  have "jok (auth_json p)" using assms(1) by (simp add: auth_json_def payload_ok)
  then have m: "members (jprint (auth_json p)) = (case auth_json p of JObj kvs \<Rightarrow> kvs | _ \<Rightarrow> [])"
    unfolding auth_json_def json.case by (rule members_print)
  show ?thesis using assms(2) unfolding parseAuthPayload_def m by (simp add: auth_json_def payload_eval)
qed

lemma ssh_roundtrip:
  assumes "list_all utf8_valid [sk_Name p, sk_KeyType p, sk_PrivateKey p, sk_PublicKey p, sk_Comment p]" "sk_Name p \<noteq> []"
  shows "parseSSHKeyPayload (jprint (ssh_json p)) meta = p"
proof -
  have "jok (ssh_json p)" using assms(1) by (simp add: ssh_json_def payload_ok)
  then have m: "members (jprint (ssh_json p)) = (case ssh_json p of JObj kvs \<Rightarrow> kvs | _ \<Rightarrow> [])"
    unfolding ssh_json_def json.case by (rule members_print)
  show ?thesis using assms(2) unfolding parseSSHKeyPayload_def m by (simp add: ssh_json_def payload_eval)
qed

lemma file_roundtrip:
  assumes "list_all utf8_valid [fp_Name p, fp_FileName p, fp_MimeType p]" "fp_Name p \<noteq> []"
    "- 9223372036854775808 \<le> fp_Size p" "fp_Size p \<le> 9223372036854775807"
  shows "parseFilePayload (jprint (file_json p)) meta = p"
proof -
  have "jok (file_json p)" using assms(1) by (simp add: file_json_def payload_ok)
  then have m: "members (jprint (file_json p)) = (case file_json p of JObj kvs \<Rightarrow> kvs | _ \<Rightarrow> [])"
    unfolding file_json_def json.case by (rule members_print)
  show ?thesis using assms(2-4) unfolding parseFilePayload_def m by (simp add: file_json_def payload_eval)
qed

lemma note_parse:
  assumes "list_all utf8_valid [no_Name p, no_Content p]" "no_Name p \<noteq> []"
  shows "parseNotePayload (jprint (note_json p)) meta = p\<lparr>no_Content := (if no_Content p = [] then jprint (note_json p) else no_Content p)\<rparr>"
proof -
  have "jok (note_json p)" using assms(1) by (simp add: note_json_def payload_ok)
  then have m: "members (jprint (note_json p)) = (case note_json p of JObj kvs \<Rightarrow> kvs | _ \<Rightarrow> [])"
    unfolding note_json_def json.case by (rule members_print)
  show ?thesis using assms(2) unfolding parseNotePayload_def m by (simp add: note_json_def payload_eval)
qed


definition demo_card :: CardPayload where
  "demo_card = \<lparr>ca_Name = ''Visa'', ca_CardholderName = ''BOB'', ca_Number = ''4111'', ca_ExpMonth = ''01'', ca_ExpYear = ''30'', ca_CVV = ''123'', ca_Notes = []\<rparr>"

definition demo_note :: NotePayload where "demo_note = \<lparr>no_Name = ''todo'', no_Content = []\<rparr>"


text \<open>
  The commands and the TUI share the credential format: a login saved by the TUI is read by
  the credential command with the same name, user name, password, URL and notes, a
  credential added by the command is read by the TUI as the same login without TOTP key and
  history, and a payload of the older form with a \<^verbatim>\<open>login\<close> field is read by both with that
  login as the user name.
\<close>

theorem cli_tui_share_format:
  assumes "login_ok p" and "lo_Name p \<noteq> []"
  shows "parsePayload (jprint (login_json p)) meta =
      \<lparr>cp_Name = lo_Name p, cp_Username = lo_Username p, cp_Password = lo_Password p, cp_URL = lo_URL p, cp_Notes = lo_Notes p\<rparr> \<and>
    parseLoginPayload (jprint (credential_json \<lparr>cp_Name = lo_Name p, cp_Username = lo_Username p, cp_Password = lo_Password p,
      cp_URL = lo_URL p, cp_Notes = lo_Notes p\<rparr>)) meta = p\<lparr>lo_TOTPKey := [], lo_History := []\<rparr> \<and>
    (let old = jprint (JObj [(''login'', JStr (lo_Name p)), (''password'', JStr (lo_Password p))]) in
     lo_Username (parseLoginPayload old meta) = lo_Name p \<and> cp_Username (parsePayload old meta) = lo_Name p \<and>
     lo_Password (parseLoginPayload old meta) = lo_Password p \<and> lo_Name (parseLoginPayload old meta) = meta)"
proof (intro conjI)
  have l: "parseLoginPayload (jprint (login_json p)) meta = p" by (rule login_roundtrip [OF assms])
  then show "parsePayload (jprint (login_json p)) meta =
      \<lparr>cp_Name = lo_Name p, cp_Username = lo_Username p, cp_Password = lo_Password p, cp_URL = lo_URL p, cp_Notes = lo_Notes p\<rparr>"
    unfolding parsePayload_def Let_def using l [symmetric] unfolding parseLoginPayload_def Let_def by (metis LoginPayload.select_convs)
  let ?q = "p\<lparr>lo_TOTPKey := [], lo_History := []\<rparr>"
  have j: "credential_json \<lparr>cp_Name = lo_Name p, cp_Username = lo_Username p, cp_Password = lo_Password p, cp_URL = lo_URL p,
      cp_Notes = lo_Notes p\<rparr> = login_json ?q" by (simp add: credential_json_def login_json_def opt_field_def)
  have "login_ok ?q" using assms(1) by (simp add: login_ok_def utf8_valid.simps)
  then show "parseLoginPayload (jprint (credential_json \<lparr>cp_Name = lo_Name p, cp_Username = lo_Username p, cp_Password = lo_Password p,
      cp_URL = lo_URL p, cp_Notes = lo_Notes p\<rparr>)) meta = ?q" unfolding j using login_roundtrip [of ?q meta] assms(2) by simp
  let ?old = "JObj [(''login'', JStr (lo_Name p)), (''password'', JStr (lo_Password p))]"
  have o: "jok ?old" using assms(1) by (simp add: login_ok_def payload_ok)
  have m: "members (jprint ?old) = [(''login'', JStr (lo_Name p)), (''password'', JStr (lo_Password p))]" by (rule members_print [OF o])
  have n: "old_login (jprint ?old) = Some (lo_Name p)"
    unfolding old_login_def json_Unmarshal_print [OF o] using assms(2) by (simp add: d_struct_def payload_eval)
  show "let old = jprint ?old in
     lo_Username (parseLoginPayload old meta) = lo_Name p \<and> cp_Username (parsePayload old meta) = lo_Name p \<and>
     lo_Password (parseLoginPayload old meta) = lo_Password p \<and> lo_Name (parseLoginPayload old meta) = meta"
    unfolding Let_def parseLoginPayload_def parsePayload_def m n by (simp add: payload_eval)
qed

definition demo_login :: LoginPayload where
  "demo_login = \<lparr>lo_Name = ''mail'', lo_Username = ''bob'', lo_Password = ''pw'', lo_URL = ''u'', lo_TOTPKey = ''k'', lo_Notes = [], lo_History = []\<rparr>"

theorem cli_tui_share_format_witness:
  "login_ok demo_login \<and> cp_Username (parsePayload (jprint (login_json demo_login)) ''m'') = ''bob'' \<and>
   lo_TOTPKey (parseLoginPayload (jprint (credential_json \<lparr>cp_Name = ''mail'', cp_Username = ''bob'', cp_Password = ''pw'', cp_URL = ''u'', cp_Notes = []\<rparr>)) ''m'') = []"
proof -
  have l: "login_ok demo_login" by (simp add: demo_login_def login_ok_def payload_ok)
  have n: "lo_Name demo_login \<noteq> []" by (simp add: demo_login_def)
  show ?thesis using cli_tui_share_format [OF l n, of "''m''"] l by (simp add: demo_login_def)
qed

end
