(* ===== verification/Cli.thy ===== *)
theory Cli
  imports Client Payloads
begin

text \<open>
  The commands of \<^verbatim>\<open>src/internal/client/cmd\<close>: \<^verbatim>\<open>auth\<close>, \<^verbatim>\<open>credential\<close>, \<^verbatim>\<open>otp\<close> and \<^verbatim>\<open>sync\<close>.
  A command is the body of its \<^verbatim>\<open>RunE\<close>, with the flags and arguments that cobra parsed as
  arguments. What it prints is appended to \<open>cw_out\<close>, one entry per line. Passwords and codes
  typed at the terminal are arguments too; the prompts are not recorded.
\<close>

definition println :: "string \<Rightarrow> 'r cworld \<Rightarrow> 'r cworld" where
  "println l cw = cw\<lparr>cw_out := cw_out cw @ [l]\<rparr>"

text \<open>A gRPC error as a Go error.\<close>

fun rpc_error :: "rpc_err \<Rightarrow> err" where
  "rpc_error (StatusErr c m) = ErrText m"
| "rpc_error (Crash m) = ErrText m"

text \<open>The typed stubs: the payload of the expected response.\<close>

definition call ::
  "'r client_env \<Rightarrow> (rpc_resp \<Rightarrow> 'a option) \<Rightarrow> string list \<Rightarrow> rpc_req \<Rightarrow> client_Config \<Rightarrow> 'r cworld \<Rightarrow>
   (rpc_err + 'a) \<times> client_Config \<times> 'r cworld" where
  "call E f md req cfg cw =
     (case refreshInterceptor E md req cfg cw of
        (Inl e, cfg', cw') \<Rightarrow> (Inl e, cfg', cw')
      | (Inr x, cfg', cw') \<Rightarrow>
          (case f x of Some v \<Rightarrow> (Inr v, cfg', cw') | None \<Rightarrow> (Inl (StatusErr Internal ''unmarshal''), cfg', cw')))"

fun get_item :: "rpc_resp \<Rightarrow> pb_VaultItem option" where
  "get_item (PGetItem i) = Some i" | "get_item _ = None"
fun create_item :: "rpc_resp \<Rightarrow> pb_VaultItem option" where
  "create_item (PCreateItem i) = Some i" | "create_item _ = None"
fun list_items :: "rpc_resp \<Rightarrow> pb_VaultItem list option" where
  "list_items (PListItems is _) = Some is" | "list_items _ = None"
fun delete_item :: "rpc_resp \<Rightarrow> unit option" where
  "delete_item PDeleteItem = Some ()" | "delete_item _ = None"
fun login_resp :: "rpc_resp \<Rightarrow> LoginResponse option" where
  "login_resp (PLogin l) = Some l" | "login_resp _ = None"
fun register_resp :: "rpc_resp \<Rightarrow> string option" where
  "register_resp (PRegister u) = Some u" | "register_resp _ = None"
fun verify_resp :: "rpc_resp \<Rightarrow> (string \<times> string) option" where
  "verify_resp (PVerifyMFA a r) = Some (a, r)" | "verify_resp _ = None"
fun enroll_resp :: "rpc_resp \<Rightarrow> EnrollTOTPResult option" where
  "enroll_resp (PEnrollTOTP e) = Some e" | "enroll_resp _ = None"
fun confirm_resp :: "rpc_resp \<Rightarrow> bool option" where
  "confirm_resp (PConfirmTOTP b) = Some b" | "confirm_resp _ = None"

section \<open>credential\<close>

definition vaultClient :: "'r client_env \<Rightarrow> 'r cworld \<Rightarrow> client_Config result" where
  "vaultClient E cw =
     (case config_Load E cw of
        Inl e \<Rightarrow> Inl e
      | Inr cfg \<Rightarrow> (case Client_New E cfg cw of Inl e \<Rightarrow> Inl (Wrapf ''connect: %w'' e) | Inr _ \<Rightarrow> Inr cfg))"

text \<open>\<^verbatim>\<open>strings.ToLower\<close>: Unicode's tables are needed for strings that are not ASCII.\<close>

definition lower_char :: "char \<Rightarrow> char" where
  "lower_char c = (if between 65 c 90 then char_of (byte c + 32) else c)"

definition strings_ToLower :: "'r client_env \<Rightarrow> string \<Rightarrow> string" where
  "strings_ToLower E s = (if list_all (\<lambda>c. byte c < 128) s then map lower_char s else cn_unicode_lower E s)"

definition is_hex :: "char \<Rightarrow> bool" where
  "is_hex c \<longleftrightarrow> between 48 c 57 \<or> between 97 c 102 \<or> between 65 c 70"

definition looksLikeUUID :: "string \<Rightarrow> bool" where
  "looksLikeUUID s \<longleftrightarrow> length s = 36 \<and>
     list_all (\<lambda>(i, r). if i \<in> {8, 13, 18, 23} then r = CHR ''-'' else is_hex r) (zip [0..<36] s)"

definition findCredential ::
  "'r client_env \<Rightarrow> string list \<Rightarrow> string \<Rightarrow> client_Config \<Rightarrow> 'r cworld \<Rightarrow> pb_VaultItem result \<times> client_Config \<times> 'r cworld" where
  "findCredential E md query cfg cw =
     (if looksLikeUUID query then
        (case call E get_item md (RGetItem query) cfg cw of
           (Inl e, s) \<Rightarrow> (Inl (Wrapf ''get credential: %w'' (rpc_error e)), s)
         | (Inr item, s) \<Rightarrow> (Inr item, s))
      else
        (case call E list_items md (RListItems ItemType_CREDENTIAL 0 []) cfg cw of
           (Inl e, s) \<Rightarrow> (Inl (Wrapf ''list credentials: %w'' (rpc_error e)), s)
         | (Inr items, cfg', cw') \<Rightarrow>
             let matches = filter (\<lambda>it. strings_Contains (strings_ToLower E (pb_Metadata it)) (strings_ToLower E query)) items in
             (case matches of
                [] \<Rightarrow> (Inl (ErrText (''credential not found: '' @ query)), cfg', cw')
              | [m] \<Rightarrow> (Inr m, cfg', cw')
              | _ \<Rightarrow> (Inl (ErrText ''refine your query to match exactly one credential''), cfg',
                  cw'\<lparr>cw_out := cw_out cw' @ (''Multiple matches for '' @ query @ '':'') #
                    map (\<lambda>m. ''  '' @ pb_Id m @ ''  '' @ pb_Metadata m) matches\<rparr>))))"

definition credential_add ::
  "'r client_env \<Rightarrow> string \<Rightarrow> string \<Rightarrow> string \<Rightarrow> string \<Rightarrow> 'r cworld \<Rightarrow> unit result \<times> 'r cworld" where
  "credential_add E name username password url cw =
     (let payload = jprint (credential_json \<lparr>cp_Name = name, cp_Username = username, cp_Password = password, cp_URL = url, cp_Notes = []\<rparr>) in
      case vaultClient E cw of
        Inl e \<Rightarrow> (Inl e, cw)
      | Inr cfg \<Rightarrow>
          (case call E create_item (WithAuth cfg []) (RCreateItem ItemType_CREDENTIAL payload name) cfg cw of
             (Inl e, cfg', cw') \<Rightarrow> (Inl (Wrapf ''add credential: %w'' (rpc_error e)), cw')
           | (Inr item, cfg', cw') \<Rightarrow> (Inr (), println (''Created: '' @ pb_Id item) cw')))"

text \<open>The fields that can be selected by name.\<close>

definition credential_field :: "CredentialPayload \<Rightarrow> pb_VaultItem \<Rightarrow> string \<Rightarrow> string option" where
  "credential_field p item = map_of [(''name'', cp_Name p), (''username'', cp_Username p), (''login'', cp_Username p), (''user'', cp_Username p),
     (''password'', cp_Password p), (''pass'', cp_Password p), (''pwd'', cp_Password p), (''url'', cp_URL p), (''notes'', cp_Notes p),
     (''id'', pb_Id item)]"

text \<open>The indented encoding of a map: keys in order.\<close>

definition json_lines :: "(string \<times> string) list \<Rightarrow> string list" where
  "json_lines kvs = [''{''] @ map (\<lambda>(k, v). ''  '' @ quote k @ '': '' @ quote v @ '','') (butlast kvs) @
     map (\<lambda>(k, v). ''  '' @ quote k @ '': '' @ quote v) [last kvs] @ [''}'']"

definition credential_get ::
  "'r client_env \<Rightarrow> (string \<Rightarrow> bool) \<Rightarrow> bool \<Rightarrow> string \<Rightarrow> bool \<Rightarrow> string \<Rightarrow> 'r cworld \<Rightarrow> unit result \<times> 'r cworld" where
  "credential_get E clipboard_WriteAll copyPwd field asJSON arg cw =
     (case vaultClient E cw of
        Inl e \<Rightarrow> (Inl e, cw)
      | Inr cfg \<Rightarrow>
     (case findCredential E (WithAuth cfg []) arg cfg cw of
        (Inl e, cfg', cw1) \<Rightarrow> (Inl e, cw1)
      | (Inr item, cfg', cw1) \<Rightarrow>
          let p = parsePayload (pb_Payload item) (pb_Metadata item) in
          if field \<noteq> [] then
            (case credential_field p item (strings_ToLower E field) of
               None \<Rightarrow> (Inl (ErrText (''unknown field '' @ field)), cw1)
             | Some v \<Rightarrow> (Inr (), println v cw1))
          else if asJSON then
            (Inr (), cw1\<lparr>cw_out := cw_out cw1 @ json_lines [(''id'', pb_Id item), (''name'', cp_Name p), (''notes'', cp_Notes p),
               (''password'', cp_Password p), (''url'', cp_URL p), (''username'', cp_Username p)]\<rparr>)
          else
            let cw2 = cw1\<lparr>cw_out := cw_out cw1 @ [''Name:     '' @ cp_Name p, ''Username: '' @ cp_Username p, ''Password: '' @ cp_Password p] @
                  (if cp_URL p \<noteq> [] then [''URL:      '' @ cp_URL p] else []) @ (if cp_Notes p \<noteq> [] then [''Notes:    '' @ cp_Notes p] else []) @
                  [''ID:       '' @ pb_Id item]\<rparr> in
            if copyPwd then
              (if clipboard_WriteAll (cp_Password p)
               then (Inr (), println ''Password copied to clipboard.'' (cw2\<lparr>cw_clip := Some (cp_Password p)\<rparr>))
               else (Inl (Wrapf ''copy to clipboard: %w'' (ErrText ''clipboard'')), cw2))
            else (Inr (), cw2)))"

text \<open>A column of 30: shorter texts are filled with blanks.\<close>

definition pad_right :: "nat \<Rightarrow> string \<Rightarrow> string" where
  "pad_right n s = s @ replicate (n - length s) (CHR '' '')"

definition credential_list :: "'r client_env \<Rightarrow> 'r cworld \<Rightarrow> unit result \<times> 'r cworld" where
  "credential_list E cw =
     (case vaultClient E cw of
        Inl e \<Rightarrow> (Inl e, cw)
      | Inr cfg \<Rightarrow>
          (case call E list_items (WithAuth cfg []) (RListItems ItemType_CREDENTIAL 0 []) cfg cw of
             (Inl e, cfg', cw1) \<Rightarrow> (Inl (Wrapf ''list credentials: %w'' (rpc_error e)), cw1)
           | (Inr items, cfg', cw1) \<Rightarrow>
               if items = [] then (Inr (), println ''No credentials found.'' cw1)
               else (Inr (), cw1\<lparr>cw_out := cw_out cw1 @
                 [pad_right 30 ''Name'' @ ''  '' @ pad_right 30 ''Username'' @ ''  URL'', replicate 75 (CHR ''-'')] @
                 map (\<lambda>item. let p = parsePayload (pb_Payload item) (pb_Metadata item) in
                        pad_right 30 (cp_Name p) @ ''  '' @ pad_right 30 (cp_Username p) @ ''  '' @ cp_URL p) items\<rparr>)))"

definition credential_delete :: "'r client_env \<Rightarrow> string \<Rightarrow> 'r cworld \<Rightarrow> unit result \<times> 'r cworld" where
  "credential_delete E arg cw =
     (case vaultClient E cw of
        Inl e \<Rightarrow> (Inl e, cw)
      | Inr cfg \<Rightarrow>
          let md = WithAuth cfg [] in
          (case findCredential E md arg cfg cw of
             (Inl e, cfg1, cw1) \<Rightarrow> (Inl e, cw1)
           | (Inr item, cfg1, cw1) \<Rightarrow>
               (case call E delete_item md (RDeleteItem (pb_Id item)) cfg1 cw1 of
                  (Inl e, cfg2, cw2) \<Rightarrow> (Inl (Wrapf ''delete credential: %w'' (rpc_error e)), cw2)
                | (Inr _, cfg2, cw2) \<Rightarrow> (Inr (), println (''Deleted: '' @ pb_Metadata item) cw2))))"

section \<open>otp\<close>

definition otp_add :: "'r client_env \<Rightarrow> string \<Rightarrow> string \<Rightarrow> string \<Rightarrow> 'r cworld \<Rightarrow> unit result \<times> 'r cworld" where
  "otp_add E secret label issuer cw =
     (let payload = jprint (otp_json \<lparr>ot_Secret = secret, ot_Label = label, ot_Issuer = issuer\<rparr>) in
      case vaultClient E cw of
        Inl e \<Rightarrow> (Inl e, cw)
      | Inr cfg \<Rightarrow>
          (case call E create_item (WithAuth cfg []) (RCreateItem ItemType_OTP payload label) cfg cw of
             (Inl e, cfg', cw') \<Rightarrow> (Inl (Wrapf ''add otp: %w'' (rpc_error e)), cw')
           | (Inr item, cfg', cw') \<Rightarrow> (Inr (), println (''OTP secret added: '' @ pb_Id item) cw')))"

definition otp_list :: "'r client_env \<Rightarrow> 'r cworld \<Rightarrow> unit result \<times> 'r cworld" where
  "otp_list E cw =
     (case vaultClient E cw of
        Inl e \<Rightarrow> (Inl e, cw)
      | Inr cfg \<Rightarrow>
          (case call E list_items (WithAuth cfg []) (RListItems ItemType_OTP 0 []) cfg cw of
             (Inl e, cfg', cw1) \<Rightarrow> (Inl (Wrapf ''list otp: %w'' (rpc_error e)), cw1)
           | (Inr items, cfg', cw1) \<Rightarrow>
               (Inr (), cw1\<lparr>cw_out := cw_out cw1 @
                 map (\<lambda>item. let p = fst (json_Unmarshal (d_struct otp_members) (pb_Payload item) otp_zero) in
                        pad_right 36 (pb_Id item) @ ''  '' @ ot_Label p @ '' ('' @ ot_Issuer p @ '')'') items\<rparr>)))"

text \<open>The code generator is \<^verbatim>\<open>totp.GenerateCodeCustom\<close>; the clock is read twice.\<close>

definition otp_code ::
  "'r client_env \<Rightarrow> (string \<Rightarrow> time \<Rightarrow> string option) \<Rightarrow> (string \<Rightarrow> bool) \<Rightarrow> time \<Rightarrow> time \<Rightarrow> bool \<Rightarrow> string \<Rightarrow> 'r cworld \<Rightarrow>
   unit result \<times> 'r cworld" where
  "otp_code E totp_Generate clipboard_WriteAll now1 now2 copyCode arg cw =
     (case vaultClient E cw of
        Inl e \<Rightarrow> (Inl e, cw)
      | Inr cfg \<Rightarrow>
     (case call E get_item (WithAuth cfg []) (RGetItem arg) cfg cw of
        (Inl e, cfg', cw1) \<Rightarrow> (Inl (Wrapf ''get otp: %w'' (rpc_error e)), cw1)
      | (Inr item, cfg', cw1) \<Rightarrow>
          let (p, ok) = json_Unmarshal (d_struct otp_members) (pb_Payload item) otp_zero in
          if \<not> ok then (Inl (Wrapf ''decode otp payload: %w'' (ErrText ''json'')), cw1)
          else (case totp_Generate (ot_Secret p) now1 of
                  None \<Rightarrow> (Inl (Wrapf ''generate code: %w'' (ErrText ''totp'')), cw1)
                | Some c \<Rightarrow>
                    let cw2 = println (c @ ''  ('' @ itoa (nat (30 - now2 div second mod 30)) @ ''s remaining)'') cw1 in
                    if copyCode then
                      (if clipboard_WriteAll c then (Inr (), println ''Code copied to clipboard.'' (cw2\<lparr>cw_clip := Some c\<rparr>))
                       else (Inl (Wrapf ''copy to clipboard: %w'' (ErrText ''clipboard'')), cw2))
                    else (Inr (), cw2))))"

section \<open>auth\<close>

definition auth_register ::
  "'r client_env \<Rightarrow> crypto_lib \<Rightarrow> rand_bytes \<Rightarrow> nat \<Rightarrow> bytes result \<Rightarrow> bytes result \<Rightarrow> string \<Rightarrow> string \<Rightarrow> 'r cworld \<Rightarrow> unit result \<times> 'r cworld" where
  "auth_register E C rnd n pw1 pw2 username email cw =
     (case pw1 of Inl e \<Rightarrow> (Inl e, cw) | Inr password \<Rightarrow>
     (case pw2 of Inl e \<Rightarrow> (Inl e, cw) | Inr confirm \<Rightarrow>
     if password \<noteq> confirm then (Inl (ErrText ''passwords do not match''), cw) else
     (case DefaultKDFParams rnd n of Inl e \<Rightarrow> (Inl (Wrapf ''generate kdf params: %w'' e), cw) | Inr kdfParams \<Rightarrow>
     (case StretchKey C (DeriveKey C password kdfParams) of Inl e \<Rightarrow> (Inl e, cw) | Inr (encKey, _) \<Rightarrow>
     (case GenerateVaultSymKey rnd (n + 1) of Inl e \<Rightarrow> (Inl e, cw) | Inr vaultKey \<Rightarrow>
     (case SealVaultSymKey C rnd (n + 2) vaultKey encKey of Inl e \<Rightarrow> (Inl e, cw) | Inr sealedKey \<Rightarrow>
     (case MarshalKDFParams kdfParams of Inl e \<Rightarrow> (Inl e, cw) | Inr kdfJSON \<Rightarrow>
     (case vaultClient E cw of Inl e \<Rightarrow> (Inl e, cw) | Inr cfg \<Rightarrow>
     (case call E register_resp [] (RRegister \<lparr>rq_Username = username, rq_Email = email, rq_Password = password,
             rq_VaultSymKey = sealedKey, rq_KdfParamsJson = kdfJSON\<rparr>) cfg cw of
        (Inl e, cfg', cw') \<Rightarrow> (Inl (Wrapf ''register: %w'' (rpc_error e)), cw')
      | (Inr uid, cfg', cw') \<Rightarrow> (Inr (), println (''Registered successfully. User ID: '' @ uid) cw'))))))))))"

definition auth_login :: "'r client_env \<Rightarrow> bytes result \<Rightarrow> string \<Rightarrow> string \<Rightarrow> 'r cworld \<Rightarrow> unit result \<times> 'r cworld" where
  "auth_login E pw typed username cw =
     (case pw of Inl e \<Rightarrow> (Inl e, cw) | Inr password \<Rightarrow>
     (case vaultClient E cw of Inl e \<Rightarrow> (Inl e, cw) | Inr cfg \<Rightarrow>
     (case call E login_resp [] (RLogin username password) cfg cw of
        (Inl e, cfg1, cw1) \<Rightarrow> (Inl (Wrapf ''login: %w'' (rpc_error e)), cw1)
      | (Inr resp, cfg1, cw1) \<Rightarrow>
          let (tokens, cfg2, cw2) =
            (if lp_NeedsMfa resp then call E verify_resp [] (RVerifyMFA (lp_SessionId resp) typed) cfg1 cw1
             else (Inr (lp_AccessToken resp, lp_RefreshToken resp), cfg1, cw1)) in
          (case tokens of
             Inl e \<Rightarrow> (Inl (Wrapf ''mfa verify: %w'' (rpc_error e)), cw2)
           | Inr (a, r) \<Rightarrow>
               (case config_Save E (cfg2\<lparr>cf_AccessToken := a, cf_RefreshToken := r, cf_Username := username\<rparr>) cw2 of
                  (Inl e, cw3) \<Rightarrow> (Inl (Wrapf ''save config: %w'' e), cw3)
                | (Inr _, cw3) \<Rightarrow>
                    let cw4 = println (''Logged in as '' @ username) cw3 in
                    (Inr (), if lp_NeedsMfa resp then println ''MFA verified.'' cw4 else cw4))))))"

definition auth_totp_setup :: "'r client_env \<Rightarrow> string \<Rightarrow> 'r cworld \<Rightarrow> unit result \<times> 'r cworld" where
  "auth_totp_setup E typed cw =
     (case vaultClient E cw of Inl e \<Rightarrow> (Inl e, cw) | Inr cfg \<Rightarrow>
      let md = WithAuth cfg [] in
      (case call E enroll_resp md (REnrollTOTP (cf_Username cfg @ ''@GophKeeper'')) cfg cw of
         (Inl e, cfg1, cw1) \<Rightarrow> (Inl (Wrapf ''enroll totp: %w'' (rpc_error e)), cw1)
       | (Inr resp, cfg1, cw1) \<Rightarrow>
           let cw2 = cw1\<lparr>cw_out := cw_out cw1 @ [[], ''Scan this URL in your authenticator app:'', er_OTPAuthURL resp, [],
                 ''Or enter manually: '' @ er_Secret resp, []]\<rparr> in
           (case call E confirm_resp md (RConfirmTOTP (er_TOTPID resp) typed) cfg1 cw2 of
              (Inr True, cfg3, cw3) \<Rightarrow> (Inr (), println ''TOTP MFA enabled successfully.'' cw3)
            | (_, cfg3, cw3) \<Rightarrow> (Inl (ErrText ''TOTP confirmation failed''), cw3))))"

section \<open>sync\<close>

text \<open>What \<^verbatim>\<open>stream.Recv\<close> returns: an event, the end of the stream, or an error.\<close>

datatype recv = RecvEvent pb_SyncEvent | RecvEOF | RecvErr string

text \<open>The loop over a stream; \<open>cancelled\<close> says whether the context is done when an error arrives.\<close>

fun sync_loop :: "bool \<Rightarrow> recv list \<Rightarrow> string list \<Rightarrow> (unit result \<times> string list) option" where
  "sync_loop cancelled [] out = None"
| "sync_loop cancelled (RecvEOF # rs) out = Some (Inr (), out)"
| "sync_loop cancelled (RecvErr m # rs) out =
     Some (if cancelled then Inr () else Inl (Wrapf ''recv: %w'' (ErrText m)), out)"
| "sync_loop cancelled (RecvEvent ev # rs) out =
     sync_loop cancelled rs (out @ (case ev of
        PbUpsert it \<Rightarrow> [''[UPSERT] '' @ pb_Id it @ '' ('' @ pb_Metadata it @ '')'']
      | PbDelete k \<Rightarrow> [''[DELETE] '' @ k]
      | PbUnset \<Rightarrow> []))"

definition sync_cmd ::
  "'r client_env \<Rightarrow> (string list \<Rightarrow> recv list result) \<Rightarrow> bool \<Rightarrow> 'r cworld \<Rightarrow> (unit result \<times> 'r cworld) option" where
  "sync_cmd E open_stream cancelled cw =
     (case vaultClient E cw of
        Inl e \<Rightarrow> Some (Inl e, cw)
      | Inr cfg \<Rightarrow>
          (case open_stream (WithAuth cfg []) of
             Inl e \<Rightarrow> Some (Inl (Wrapf ''subscribe: %w'' e), cw)
           | Inr rs \<Rightarrow>
               map_option (\<lambda>(r, out). (r, cw\<lparr>cw_out := out\<rparr>))
                 (sync_loop cancelled rs (cw_out cw @ [''Listening for vault updates (Ctrl-C to stop)...'']))))"

section \<open>What the commands send\<close>

text \<open>A call sends its request, once or twice, and at most a refresh besides.\<close>

lemma interceptor_sent:
  assumes "refreshInterceptor E md req cfg cw = (r, cfg', cw')"
  shows "\<exists>sent. cw_sent cw' = cw_sent cw @ sent \<and> (\<forall>(m, q) \<in> set sent. q = req \<or> (\<exists>t. q = RRefresh t))"
proof -
  obtain r1 cw1 where 1: "invoker E (WithAuth cfg md) req cw = (r1, cw1)" by fastforce
  obtain rr cw2 where 2: "invoker E (WithAuth cfg []) (RRefresh (cf_RefreshToken cfg)) cw1 = (rr, cw2)" by fastforce
  obtain x cw3 where 3: "config_Save E (cfg\<lparr>cf_AccessToken := the (refresh_token_of rr)\<rparr>) cw2 = (x, cw3)" by fastforce
  obtain r4 cw4 where 4: "invoker E [bearer (the (refresh_token_of rr))] req cw3 = (r4, cw4)" by fastforce
  have "cw' = cw1 \<or> cw' = cw2 \<or> cw' = cw4"
    using assms 3 4 unfolding refreshInterceptor_def 1 Let_def prod.case 2
    by (auto split: sum.splits if_splits option.splits)
  then show ?thesis
    using invoker_sent [OF 1] invoker_sent [OF 2] config_Save_frame [OF 3] invoker_sent [OF 4] by auto
qed

lemma call_sent:
  assumes "call E f md req cfg cw = (r, cfg', cw')"
  shows "\<exists>sent. cw_sent cw' = cw_sent cw @ sent \<and> (\<forall>(m, q) \<in> set sent. q = req \<or> (\<exists>t. q = RRefresh t))"
proof -
  obtain r1 cfg1 cw1 where i: "refreshInterceptor E md req cfg cw = (r1, cfg1, cw1)" by (metis surj_pair)
  have "cw' = cw1" using assms i unfolding call_def by (auto split: sum.splits option.splits)
  then show ?thesis using interceptor_sent [OF i] by simp
qed

definition matching :: "'r client_env \<Rightarrow> string \<Rightarrow> pb_VaultItem list \<Rightarrow> pb_VaultItem list" where
  "matching E query = filter (\<lambda>it. strings_Contains (strings_ToLower E (pb_Metadata it)) (strings_ToLower E query))"

lemma findCredential_cases:
  assumes "findCredential E md query cfg cw = (r, cfg', cw')"
  shows "\<exists>sent. cw_sent cw' = cw_sent cw @ sent \<and> (\<forall>(m, q) \<in> set sent. \<forall>k. q \<noteq> RDeleteItem k)"
    and "r = Inr item \<Longrightarrow> if looksLikeUUID query then call E get_item md (RGetItem query) cfg cw = (Inr item, cfg', cw')
      else \<exists>items. call E list_items md (RListItems ItemType_CREDENTIAL 0 []) cfg cw = (Inr items, cfg', cw') \<and> matching E query items = [item]"
proof -
  obtain r1 cfg1 cw1 where g: "call E get_item md (RGetItem query) cfg cw = (r1, cfg1, cw1)" by (metis surj_pair)
  obtain r2 cfg2 cw2 where l: "call E list_items md (RListItems ItemType_CREDENTIAL 0 []) cfg cw = (r2, cfg2, cw2)" by (metis surj_pair)
  have "cw_sent cw' = cw_sent cw1 \<or> cw_sent cw' = cw_sent cw2"
    using assms unfolding findCredential_def g l Let_def by (auto split: if_splits sum.splits list.splits)
  then show "\<exists>sent. cw_sent cw' = cw_sent cw @ sent \<and> (\<forall>(m, q) \<in> set sent. \<forall>k. q \<noteq> RDeleteItem k)"
    using call_sent [OF g] call_sent [OF l] by (elim disjE) fastforce+
  assume r: "r = Inr item"
  show "if looksLikeUUID query then call E get_item md (RGetItem query) cfg cw = (Inr item, cfg', cw')
      else \<exists>items. call E list_items md (RListItems ItemType_CREDENTIAL 0 []) cfg cw = (Inr items, cfg', cw') \<and> matching E query items = [item]"
    using assms r unfolding findCredential_def g l Let_def matching_def [symmetric]
    by (auto split: if_splits sum.splits list.splits)
qed

text \<open>
  C30. Deleting a credential: the delete command asks the server to delete nothing but the one
  item that its argument denotes: the item the server returned for an argument in UUID form,
  or else the only item of the listed credentials whose name contains the argument, up to
  case. With no match or several nothing is deleted.
\<close>

theorem cli_delete_unique:
  assumes "credential_delete E arg cw = (r, cw')"
  shows "\<exists>sent. cw_sent cw' = cw_sent cw @ sent \<and> (\<forall>md k. (md, RDeleteItem k) \<in> set sent \<longrightarrow>
    (\<exists>cfg cfg1 cw1 item. vaultClient E cw = Inr cfg \<and> k = pb_Id item \<and>
       (if looksLikeUUID arg then call E get_item (WithAuth cfg []) (RGetItem arg) cfg cw = (Inr item, cfg1, cw1)
        else \<exists>items. call E list_items (WithAuth cfg []) (RListItems ItemType_CREDENTIAL 0 []) cfg cw = (Inr items, cfg1, cw1) \<and>
          matching E arg items = [item])))"
proof (cases "vaultClient E cw")
  case (Inl e)
  then show ?thesis using assms by (intro exI [of _ "[]"]) (simp add: credential_delete_def)
next
  case (Inr cfg)
  obtain r1 cfg1 cw1 where f: "findCredential E (WithAuth cfg []) arg cfg cw = (r1, cfg1, cw1)" by (metis surj_pair)
  obtain s1 where s1: "cw_sent cw1 = cw_sent cw @ s1" "\<forall>(m, q) \<in> set s1. \<forall>k. q \<noteq> RDeleteItem k"
    using findCredential_cases(1) [OF f] by blast
  show ?thesis
  proof (cases r1)
    case (Inl e)
    then have "cw' = cw1" using assms Inr f by (simp add: credential_delete_def)
    then show ?thesis using s1 by (intro exI [of _ s1]) auto
  next
    case i: (Inr item)
    obtain r2 cfg2 cw2 where d: "call E delete_item (WithAuth cfg []) (RDeleteItem (pb_Id item)) cfg1 cw1 = (r2, cfg2, cw2)" by (metis surj_pair)
    obtain s2 where s2: "cw_sent cw2 = cw_sent cw1 @ s2" "\<forall>(m, q) \<in> set s2. q = RDeleteItem (pb_Id item) \<or> (\<exists>t. q = RRefresh t)"
      using call_sent [OF d] by blast
    have "cw_sent cw' = cw_sent cw @ s1 @ s2"
      using assms Inr f i d s1(1) s2(1) unfolding credential_delete_def by (auto simp: println_def Let_def split: sum.splits)
    moreover have "k = pb_Id item" if "(md, RDeleteItem k) \<in> set (s1 @ s2)" for md k
      using that s1(2) s2(2) by fastforce
    ultimately show ?thesis using Inr findCredential_cases(2) [OF f i] by blast
  qed
qed

text \<open>A server that lists two credentials, for the example.\<close>

definition demo_pb :: "string \<Rightarrow> string \<Rightarrow> pb_VaultItem" where
  "demo_pb k meta = \<lparr>pb_Id = k, pb_UserId = ''u1'', pb_Type = ItemType_CREDENTIAL, pb_Payload = ''{}'', pb_Metadata = meta,
     pb_Version = 1, pb_CreatedAt = 0, pb_UpdatedAt = 0\<rparr>"

definition demo_client :: "unit client_env" where
  "demo_client = \<lparr>cn_send = (\<lambda>md q s. (case q of
        RListItems t l c \<Rightarrow> Inr (PListItems [demo_pb ''k1'' ''GitHub'', demo_pb ''k2'' ''Mail''] [])
      | RDeleteItem k \<Rightarrow> Inr PDeleteItem
      | RRefresh t \<Rightarrow> Inr (PRefresh ''fresh'')
      | _ \<Rightarrow> Inl (StatusErr Unauthenticated ''token expired''), s)),
     cn_read = (\<lambda>b. Some Map.empty), cn_write = (\<lambda>kvs. []), cn_AppendCertsFromPEM = (\<lambda>b. True), cn_NewClient = (\<lambda>a. True),
     cn_home = ''/home/bob'', cn_unicode_lower = id\<rparr>"

definition demo_cw :: "unit cworld" where
  "demo_cw = \<lparr>cw_disk = \<lparr>dk_files = Map.empty, dk_writable = (\<lambda>p. True), dk_readable = (\<lambda>p. True), dk_room = 1000\<rparr>,
     cw_remote = (), cw_sent = [], cw_out = [], cw_clip = None\<rparr>"

theorem cli_delete_unique_witness:
  "\<exists>cw'. credential_delete demo_client ''github'' demo_cw = (Inr (), cw') \<and> ([], RDeleteItem ''k1'') \<in> set (cw_sent cw') \<and>
     (\<exists>cfg cfg1 cw1 items. call demo_client list_items (WithAuth cfg []) (RListItems ItemType_CREDENTIAL 0 []) cfg demo_cw = (Inr items, cfg1, cw1) \<and>
        matching demo_client ''github'' items = [demo_pb ''k1'' ''GitHub''])"
proof -
  have u: "\<not> looksLikeUUID ''github''" by (simp add: looksLikeUUID_def)
  obtain r cw' where d: "credential_delete demo_client ''github'' demo_cw = (r, cw')" by fastforce
  have r: "r = Inr ()" "([], RDeleteItem ''k1'') \<in> set (cw_sent cw')" "cw_sent demo_cw = []"
    using d by (auto simp: credential_delete_def vaultClient_def config_Load_def Client_New_def config_of_def setting_def config_defaults_def
      findCredential_def u call_def refreshInterceptor_def invoker_def WithAuth_def demo_client_def demo_cw_def Let_def
      strings_ToLower_def lower_char_def demo_pb_def strings_HasPrefix_def between_def byte_def println_def char_of_eq_iff)
  obtain sent where s: "cw_sent cw' = cw_sent demo_cw @ sent" "\<forall>md k. (md, RDeleteItem k) \<in> set sent \<longrightarrow>
    (\<exists>cfg cfg1 cw1 item. vaultClient demo_client demo_cw = Inr cfg \<and> k = pb_Id item \<and>
       (if looksLikeUUID ''github'' then call demo_client get_item (WithAuth cfg []) (RGetItem ''github'') cfg demo_cw = (Inr item, cfg1, cw1)
        else \<exists>items. call demo_client list_items (WithAuth cfg []) (RListItems ItemType_CREDENTIAL 0 []) cfg demo_cw = (Inr items, cfg1, cw1) \<and>
          matching demo_client ''github'' items = [item]))" using cli_delete_unique [OF d] by blast
  have m: "([], RDeleteItem ''k1'') \<in> set sent" using r s(1) by simp
  obtain cfg cfg1 cw1 item items where c: "call demo_client list_items (WithAuth cfg []) (RListItems ItemType_CREDENTIAL 0 []) cfg demo_cw = (Inr items, cfg1, cw1)"
    "matching demo_client ''github'' items = [item]" "''k1'' = pb_Id item" using s(2) m u by force
  then have "items = [demo_pb ''k1'' ''GitHub'', demo_pb ''k2'' ''Mail'']"
    by (auto simp: call_def refreshInterceptor_def invoker_def demo_client_def split: if_splits)
  then have "item = demo_pb ''k1'' ''GitHub''" using c(2,3) by (auto simp: matching_def demo_pb_def split: if_splits)
  then show ?thesis using d r c by blast
qed


end
