(* ===== verification/TuiAuth.thy ===== *)
theory TuiAuth
  imports Cli
begin

text \<open>
  The sign-in screen of the TUI, \<^verbatim>\<open>src/internal/client/tui/auth.go\<close>. A screen is a state
  machine: a message changes the model and starts a command, whose result comes back as a
  message. An index out of range is a panic, an error value here. The package variable
  \<^verbatim>\<open>_stepBeforeLoading\<close> is a field of the model. The text inputs of the bubbles library are
  the parameter \<open>textinputs\<close>. The texts of local failures end where the text of the wrapped
  error would follow. What the screen shows and the launcher are in theory \<open>Launch\<close>.
\<close>

datatype authStep = authStepServer | authStepMenu | authStepLogin | authStepRegister | authStepLoading | authStepMFA

record textinput =
  ti_Placeholder :: string
  ti_Value :: string
  ti_Focus :: bool
  ti_Secret :: bool

record AuthModel =
  am_cfg :: client_Config
  am_step :: authStep
  am_width :: int
  am_height :: int
  am_serverInput :: textinput
  am_menuIdx :: int
  am_inputs :: "textinput list"
  am_focusIdx :: nat
  am_mfaSessionID :: string
  am_errMsg :: string
  am_loading :: bool
  am_before :: authStep

datatype auth_msg =
    WindowSizeMsg int int | authDoneMsg client_Config | authErrMsg string | needsMFAMsg string
  | KeyMsg string | OtherMsg string

datatype auth_cmd = NoCmd | Quit | Blink | Batch | doLoginCmd string string | doRegisterCmd string string string
  | doMFACmd string string | errCmd string

text \<open>The text inputs of the bubbles library: how one takes a message, and the value \<^verbatim>\<open>SetValue\<close> leaves in it.\<close>

record 'm textinputs =
  tl_Update :: "'m \<Rightarrow> textinput \<Rightarrow> textinput"
  tl_SetValue :: "string \<Rightarrow> string"

type_synonym ti_lib = "auth_msg textinputs"

definition mkAuthInput :: "'m textinputs \<Rightarrow> string \<Rightarrow> string \<Rightarrow> bool \<Rightarrow> textinput" where
  "mkAuthInput L placeholder v secret = \<lparr>ti_Placeholder = placeholder, ti_Value = tl_SetValue L v, ti_Focus = False, ti_Secret = secret\<rparr>"

definition NewAuthModel :: "'m textinputs \<Rightarrow> client_Config \<Rightarrow> AuthModel" where
  "NewAuthModel L cfg = \<lparr>am_cfg = cfg, am_step = authStepServer, am_width = 0, am_height = 0,
     am_serverInput = \<lparr>ti_Placeholder = ''localhost:50051'', ti_Value = tl_SetValue L (cf_ServerAddr cfg), ti_Focus = True, ti_Secret = False\<rparr>,
     am_menuIdx = 0, am_inputs = [], am_focusIdx = 0, am_mfaSessionID = [], am_errMsg = [], am_loading = False,
     am_before = authStepServer\<rparr>"

text \<open>Focus and blur one of the inputs; the code indexes without a check.\<close>

definition set_focus :: "bool \<Rightarrow> nat \<Rightarrow> AuthModel \<Rightarrow> AuthModel result" where
  "set_focus f i m =
     (if i < length (am_inputs m) then Inr (m\<lparr>am_inputs := (am_inputs m)[i := (am_inputs m ! i)\<lparr>ti_Focus := f\<rparr>]\<rparr>)
      else Inl (Panic ''index out of range''))"

definition input_value :: "nat \<Rightarrow> AuthModel \<Rightarrow> string result" where
  "input_value i m = (if i < length (am_inputs m) then Inr (ti_Value (am_inputs m ! i)) else Inl (Panic ''index out of range''))"

definition bnd :: "'a result \<Rightarrow> ('a \<Rightarrow> 'b result) \<Rightarrow> 'b result" where
  "bnd x f = (case x of Inl e \<Rightarrow> Inl e | Inr v \<Rightarrow> f v)"

text \<open>The Russian texts of the screens, by their code points.\<close>

definition utf8_text :: "nat list \<Rightarrow> string" where
  "utf8_text rs = concat (map encode_rune rs)"

definition txt_mismatch :: string where
  "txt_mismatch = utf8_text [0x43F, 0x430, 0x440, 0x43E, 0x43B, 0x438, 0x20, 0x43D, 0x435, 0x20, 0x441, 0x43E, 0x432, 0x43F, 0x430, 0x434, 0x430, 0x44E, 0x442]"

definition txt_required :: string where
  "txt_required = utf8_text [0x437, 0x430, 0x43F, 0x43E, 0x43B, 0x43D, 0x438, 0x442, 0x435, 0x20, 0x43E, 0x431, 0x44F, 0x437, 0x430, 0x442, 0x435, 0x43B, 0x44C, 0x43D, 0x44B, 0x435, 0x20, 0x43F, 0x43E, 0x43B, 0x44F]"

definition txt_Unavailable :: string where
  "txt_Unavailable = utf8_text [0x421, 0x435, 0x440, 0x432, 0x435, 0x440, 0x20, 0x43D, 0x435, 0x434, 0x43E, 0x441, 0x442, 0x443, 0x43F, 0x435, 0x43D]"

definition txt_unavailable :: string where
  "txt_unavailable = utf8_text [0x441, 0x435, 0x440, 0x432, 0x435, 0x440, 0x20, 0x43D, 0x435, 0x434, 0x43E, 0x441, 0x442, 0x443, 0x43F, 0x435, 0x43D]"

definition txt_connect :: string where
  "txt_connect = utf8_text [0x43F, 0x43E, 0x434, 0x43A, 0x43B, 0x44E, 0x447, 0x435, 0x43D, 0x438, 0x435, 0x3A, 0x20]"

definition txt_kdf :: string where
  "txt_kdf = utf8_text [0x433, 0x435, 0x43D, 0x435, 0x440, 0x430, 0x446, 0x438, 0x44F, 0x20, 0x4B, 0x44, 0x46, 0x3A, 0x20]"

definition txt_key :: string where
  "txt_key = utf8_text [0x433, 0x435, 0x43D, 0x435, 0x440, 0x430, 0x446, 0x438, 0x44F, 0x20, 0x43A, 0x43B, 0x44E, 0x447, 0x430, 0x3A, 0x20]"

definition txt_seal :: string where
  "txt_seal = utf8_text [0x448, 0x438, 0x444, 0x440, 0x43E, 0x432, 0x430, 0x43D, 0x438, 0x435, 0x20, 0x43A, 0x43B, 0x44E, 0x447, 0x430, 0x3A, 0x20]"

definition txt_init :: string where
  "txt_init = utf8_text [0x43E, 0x448, 0x438, 0x431, 0x43A, 0x430, 0x20, 0x438, 0x43D, 0x438, 0x446, 0x438, 0x430, 0x43B, 0x438, 0x437, 0x430, 0x446, 0x438, 0x438, 0x3A, 0x20]"

definition openLoginForm :: "'m textinputs \<Rightarrow> AuthModel \<Rightarrow> AuthModel" where
  "openLoginForm L m = m\<lparr>am_step := authStepLogin,
     am_inputs := [(mkAuthInput L ''username'' (cf_Username (am_cfg m)) False)\<lparr>ti_Focus := True\<rparr>, mkAuthInput L ''master password'' [] True],
     am_focusIdx := 0\<rparr>"

definition openRegisterForm :: "'m textinputs \<Rightarrow> AuthModel \<Rightarrow> AuthModel" where
  "openRegisterForm L m = m\<lparr>am_step := authStepRegister,
     am_inputs := [(mkAuthInput L ''username'' [] False)\<lparr>ti_Focus := True\<rparr>, mkAuthInput L ''email (optional)'' [] False,
       mkAuthInput L ''master password'' [] True, mkAuthInput L ''confirm password'' [] True],
     am_focusIdx := 0\<rparr>"

definition move_field :: "(nat \<Rightarrow> nat \<Rightarrow> nat) \<Rightarrow> AuthModel \<Rightarrow> AuthModel result" where
  "move_field next_idx m =
     bnd (set_focus False (am_focusIdx m) m) (\<lambda>m1.
       let m2 = m1\<lparr>am_focusIdx := next_idx (am_focusIdx m1) (length (am_inputs m1))\<rparr> in set_focus True (am_focusIdx m2) m2)"

definition nextField :: "AuthModel \<Rightarrow> AuthModel result" where
  "nextField = move_field (\<lambda>i n. (i + 1) mod n)"

definition prevField :: "AuthModel \<Rightarrow> AuthModel result" where
  "prevField = move_field (\<lambda>i n. (i + n - 1) mod n)"

definition submitForm :: "AuthModel \<Rightarrow> (AuthModel \<times> auth_cmd) result" where
  "submitForm m0 =
     (let m = m0\<lparr>am_loading := True, am_before := am_step m0\<rparr> in
      bnd (input_value 0 m) (\<lambda>username. bnd (input_value 1 m) (\<lambda>second_value.
        if am_step m = authStepLogin then Inr (m, doLoginCmd username second_value)
        else bnd (input_value 2 m) (\<lambda>password. bnd (input_value 3 m) (\<lambda>confirm.
          if password \<noteq> confirm then Inr (m\<lparr>am_loading := False\<rparr>, errCmd txt_mismatch)
          else if username = [] \<or> password = [] then Inr (m\<lparr>am_loading := False\<rparr>, errCmd txt_required)
          else Inr (m, doRegisterCmd username second_value password))))))"

definition submitMFA :: "AuthModel \<Rightarrow> (AuthModel \<times> auth_cmd) result" where
  "submitMFA m = bnd (input_value 0 m) (\<lambda>c. Inr (m\<lparr>am_loading := True\<rparr>, doMFACmd (am_mfaSessionID m) c))"

text \<open>
  \<^verbatim>\<open>strings.TrimSpace\<close>: every rune of Unicode's white space, by its UTF-8 bytes, is cut off at both
  ends.
\<close>

definition go_spaces :: "string list" where
  "go_spaces = map (map char_of) ([[9], [10], [11], [12], [13], [32], [0xC2, 0x85], [0xC2, 0xA0], [0xE1, 0x9A, 0x80]] @
     map (\<lambda>b. [0xE2, 0x80, b]) ([0x80..<0x8B] @ [0xA8, 0xA9, 0xAF]) @ [[0xE2, 0x81, 0x9F], [0xE3, 0x80, 0x80::nat]])"

function trim_left :: "string list \<Rightarrow> string \<Rightarrow> string" where
  "trim_left ws s =
     (case find (\<lambda>w. w \<noteq> [] \<and> strings_HasPrefix s w) ws of
        None \<Rightarrow> s
      | Some w \<Rightarrow> trim_left ws (drop (length w) s))"
  by pat_completeness auto

termination
  by (relation "measure (\<lambda>(ws, s). length s)")
    (auto simp: find_Some_iff strings_HasPrefix_def intro!: diff_less)

definition trim_space :: "string \<Rightarrow> string" where
  "trim_space s = rev (trim_left (map rev go_spaces) (rev (trim_left go_spaces s)))"

definition handleServerKey :: "ti_lib \<Rightarrow> string \<Rightarrow> AuthModel \<Rightarrow> AuthModel \<times> auth_cmd" where
  "handleServerKey L key m =
     (if key \<in> {''ctrl+c'', ''q''} then (m, Quit)
      else if key = ''enter'' then
        let addr = trim_space (ti_Value (am_serverInput m));
            addr' = (if addr = [] then ti_Placeholder (am_serverInput m) else addr) in
        (m\<lparr>am_cfg := (am_cfg m)\<lparr>cf_ServerAddr := addr'\<rparr>, am_step := authStepMenu, am_menuIdx := 0\<rparr>, NoCmd)
      else (m\<lparr>am_serverInput := tl_Update L (KeyMsg key) (am_serverInput m)\<rparr>, Batch))"

definition handleMenuKey :: "'m textinputs \<Rightarrow> string \<Rightarrow> AuthModel \<Rightarrow> AuthModel \<times> auth_cmd" where
  "handleMenuKey L key m =
     (if key = ''ctrl+c'' then (m, Quit)
      else if key = ''esc'' then (m\<lparr>am_step := authStepServer, am_serverInput := (am_serverInput m)\<lparr>ti_Focus := True\<rparr>\<rparr>, NoCmd)
      else if key \<in> {''up'', ''k''} then (if am_menuIdx m > 0 then m\<lparr>am_menuIdx := am_menuIdx m - 1\<rparr> else m, NoCmd)
      else if key \<in> {''down'', ''j''} then (if am_menuIdx m < 1 then m\<lparr>am_menuIdx := am_menuIdx m + 1\<rparr> else m, NoCmd)
      else if key = ''1'' then (openLoginForm L (m\<lparr>am_menuIdx := 0\<rparr>), NoCmd)
      else if key = ''2'' then (openRegisterForm L (m\<lparr>am_menuIdx := 1\<rparr>), NoCmd)
      else if key = ''enter'' then (if am_menuIdx m = 0 then openLoginForm L m else openRegisterForm L m, NoCmd)
      else (m, NoCmd))"

definition update_inputs :: "ti_lib \<Rightarrow> auth_msg \<Rightarrow> AuthModel \<Rightarrow> AuthModel" where
  "update_inputs L msg m = m\<lparr>am_inputs := map (tl_Update L msg) (am_inputs m)\<rparr>"

definition handleFormKey :: "ti_lib \<Rightarrow> string \<Rightarrow> AuthModel \<Rightarrow> (AuthModel \<times> auth_cmd) result" where
  "handleFormKey L key m =
     (if key = ''ctrl+c'' then Inr (m, Quit)
      else if key = ''esc'' then Inr (m\<lparr>am_step := authStepMenu, am_inputs := []\<rparr>, NoCmd)
      else if key \<in> {''tab'', ''down''} then bnd (nextField m) (\<lambda>m'. Inr (m', NoCmd))
      else if key \<in> {''shift+tab'', ''up''} then bnd (prevField m) (\<lambda>m'. Inr (m', NoCmd))
      else if key = ''enter'' then
        (if int (am_focusIdx m) = int (length (am_inputs m)) - 1 then submitForm m
         else bnd (nextField m) (\<lambda>m'. Inr (m', NoCmd)))
      else Inr (update_inputs L (KeyMsg key) m, Batch))"

definition handleMFAKey :: "ti_lib \<Rightarrow> string \<Rightarrow> AuthModel \<Rightarrow> (AuthModel \<times> auth_cmd) result" where
  "handleMFAKey L key m =
     (if key = ''ctrl+c'' then Inr (m, Quit)
      else if key = ''esc'' then Inr (m\<lparr>am_step := authStepMenu, am_inputs := []\<rparr>, NoCmd)
      else if key = ''enter'' then submitMFA m
      else Inr (update_inputs L (KeyMsg key) m, Batch))"

text \<open>Messages that no case handles are forwarded to the inputs of the step.\<close>

definition forward :: "ti_lib \<Rightarrow> auth_msg \<Rightarrow> AuthModel \<Rightarrow> AuthModel \<times> auth_cmd" where
  "forward L msg m =
     (if am_step m = authStepServer then (m\<lparr>am_serverInput := tl_Update L msg (am_serverInput m)\<rparr>, Batch)
      else if am_step m \<in> {authStepLogin, authStepRegister, authStepMFA} then (update_inputs L msg m, Batch)
      else (m, NoCmd))"

definition AuthModel_Update :: "ti_lib \<Rightarrow> auth_msg \<Rightarrow> AuthModel \<Rightarrow> (AuthModel \<times> auth_cmd) result" where
  "AuthModel_Update L msg m =
     (case msg of
        WindowSizeMsg w h \<Rightarrow> Inr (forward L msg (m\<lparr>am_width := w, am_height := h\<rparr>))
      | authDoneMsg c \<Rightarrow> Inr (m, Quit)
      | authErrMsg e \<Rightarrow>
          (let m1 = m\<lparr>am_loading := False, am_errMsg := e, am_step := am_before m\<rparr> in
           bnd (if am_inputs m1 = [] then Inr m1 else set_focus True (am_focusIdx m1) m1) (\<lambda>m2. Inr (forward L msg m2)))
      | KeyMsg key \<Rightarrow>
          (let m1 = m\<lparr>am_errMsg := []\<rparr> in
           case am_step m1 of
             authStepServer \<Rightarrow> Inr (handleServerKey L key m1)
           | authStepMenu \<Rightarrow> Inr (handleMenuKey L key m1)
           | authStepLogin \<Rightarrow> handleFormKey L key m1
           | authStepRegister \<Rightarrow> handleFormKey L key m1
           | authStepMFA \<Rightarrow> handleMFAKey L key m1
           | authStepLoading \<Rightarrow> Inr (forward L msg m1))
      | _ \<Rightarrow> Inr (forward L msg m))"

text \<open>The messages the launcher lets the screen handle first.\<close>

definition handleSpecialMsg :: "'m textinputs \<Rightarrow> auth_msg \<Rightarrow> AuthModel \<Rightarrow> ((AuthModel \<times> auth_cmd) option)" where
  "handleSpecialMsg L msg m =
     (case msg of
        needsMFAMsg sid \<Rightarrow> Some (m\<lparr>am_loading := False, am_mfaSessionID := sid, am_step := authStepMFA,
          am_inputs := [(mkAuthInput L ''000000'' [] False)\<lparr>ti_Focus := True\<rparr>], am_focusIdx := 0\<rparr>, Blink)
      | authErrMsg e \<Rightarrow>
          (let m1 = m\<lparr>am_loading := False, am_errMsg := e, am_step := am_before m\<rparr> in
           Some (if am_focusIdx m1 < length (am_inputs m1)
                 then m1\<lparr>am_inputs := (am_inputs m1)[am_focusIdx m1 := (am_inputs m1 ! am_focusIdx m1)\<lparr>ti_Focus := True\<rparr>]\<rparr>
                 else m1, NoCmd))
      | _ \<Rightarrow> None)"

section \<open>The commands\<close>

fun last_colon :: "string \<Rightarrow> string option" where
  "last_colon [] = None"
| "last_colon (c # cs) =
     (case last_colon cs of
        Some t \<Rightarrow> Some t
      | None \<Rightarrow> if strings_HasPrefix (c # cs) '': '' then Some (drop 2 (c # cs)) else None)"

text \<open>What follows the last colon of an error text; connection errors have one text.\<close>

definition grpcMsg :: "string \<Rightarrow> string" where
  "grpcMsg s =
     (if strings_Contains s ''connection refused'' \<or> strings_Contains s ''no such host'' \<or>
         strings_Contains s ''deadline exceeded'' \<or> strings_Contains s ''Unavailable'' then ''Server unavailable''
      else (case last_colon s of Some t \<Rightarrow> t | None \<Rightarrow> s))"

text \<open>The text of a gRPC error: \<^verbatim>\<open>rpc error: code = ... desc = ...\<close>.\<close>

fun code_name :: "code \<Rightarrow> string" where
  "code_name OK = ''OK''"
| "code_name Unauthenticated = ''Unauthenticated''"
| "code_name ResourceExhausted = ''ResourceExhausted''"
| "code_name AlreadyExists = ''AlreadyExists''"
| "code_name NotFound = ''NotFound''"
| "code_name Internal = ''Internal''"
| "code_name Unimplemented = ''Unimplemented''"

fun rpc_text :: "rpc_err \<Rightarrow> string" where
  "rpc_text (StatusErr c m) = ''rpc error: code = '' @ code_name c @ '' desc = '' @ m"
| "rpc_text (Crash m) = ''rpc error: code = Unavailable desc = '' @ m"

definition doLogin :: "'r client_env \<Rightarrow> string \<Rightarrow> string \<Rightarrow> client_Config \<Rightarrow> 'r cworld \<Rightarrow> auth_msg \<times> client_Config \<times> 'r cworld" where
  "doLogin E username password cfg cw =
     (case Client_New E cfg cw of
        Inl e \<Rightarrow> (authErrMsg txt_connect, cfg, cw)
      | Inr _ \<Rightarrow>
          (case call E login_resp [] (RLogin username password) cfg cw of
             (Inl e, cfg1, cw1) \<Rightarrow> (authErrMsg (''Sign in failed: '' @ grpcMsg (rpc_text e)), cfg1, cw1)
           | (Inr resp, cfg1, cw1) \<Rightarrow>
               if lp_NeedsMfa resp then (needsMFAMsg (lp_SessionId resp), cfg1, cw1)
               else let cfg2 = cfg1\<lparr>cf_Username := username, cf_AccessToken := lp_AccessToken resp, cf_RefreshToken := lp_RefreshToken resp\<rparr>;
                        (_, cw2) = config_Save E cfg2 cw1
                    in (authDoneMsg cfg2, cfg2, cw2)))"

text \<open>A panic of the key derivation is recovered and shown like a missing server.\<close>

definition doRegister ::
  "'r client_env \<Rightarrow> crypto_lib \<Rightarrow> rand_bytes \<Rightarrow> nat \<Rightarrow> string \<Rightarrow> string \<Rightarrow> string \<Rightarrow> client_Config \<Rightarrow> 'r cworld \<Rightarrow>
   auth_msg \<times> client_Config \<times> 'r cworld" where
  "doRegister E C rnd n username email password cfg cw =
     (case DefaultKDFParams rnd n of
        Inl e \<Rightarrow> (authErrMsg txt_kdf, cfg, cw)
      | Inr kdfParams \<Rightarrow>
     (case StretchKey C (DeriveKey C password kdfParams) of
        Inl e \<Rightarrow> (authErrMsg txt_Unavailable, cfg, cw)
      | Inr (encKey, _) \<Rightarrow>
     (case GenerateVaultSymKey rnd (n + 1) of
        Inl e \<Rightarrow> (authErrMsg txt_key, cfg, cw)
      | Inr vaultKey \<Rightarrow>
     (case SealVaultSymKey C rnd (n + 2) vaultKey encKey of
        Inl e \<Rightarrow> (authErrMsg txt_seal, cfg, cw)
      | Inr sealedKey \<Rightarrow>
     (case MarshalKDFParams kdfParams of
        Inl e \<Rightarrow> (authErrMsg ''kdf params: '', cfg, cw)
      | Inr kdfJSON \<Rightarrow>
     (case Client_New E cfg cw of
        Inl e \<Rightarrow> (authErrMsg txt_connect, cfg, cw)
      | Inr _ \<Rightarrow>
     (case call E register_resp [] (RRegister \<lparr>rq_Username = username, rq_Email = email, rq_Password = password,
             rq_VaultSymKey = sealedKey, rq_KdfParamsJson = kdfJSON\<rparr>) cfg cw of
        (Inl e, cfg1, cw1) \<Rightarrow> (authErrMsg (''Registration failed: '' @ grpcMsg (rpc_text e)), cfg1, cw1)
      | (Inr _, cfg1, cw1) \<Rightarrow> doLogin E username password cfg1 cw1)))))))"

definition doMFA :: "'r client_env \<Rightarrow> string \<Rightarrow> string \<Rightarrow> client_Config \<Rightarrow> 'r cworld \<Rightarrow> auth_msg \<times> client_Config \<times> 'r cworld" where
  "doMFA E sessionID totp cfg cw =
     (case Client_New E cfg cw of
        Inl e \<Rightarrow> (authErrMsg txt_connect, cfg, cw)
      | Inr _ \<Rightarrow>
          (case call E verify_resp [] (RVerifyMFA sessionID totp) cfg cw of
             (Inl e, cfg1, cw1) \<Rightarrow> (authErrMsg (''MFA failed: '' @ grpcMsg (rpc_text e)), cfg1, cw1)
           | (Inr (a, r), cfg1, cw1) \<Rightarrow>
               let cfg2 = cfg1\<lparr>cf_AccessToken := a, cf_RefreshToken := r\<rparr>; (_, cw2) = config_Save E cfg2 cw1
               in (authDoneMsg cfg2, cfg2, cw2)))"

section \<open>Invariant of the forms\<close>

text \<open>How many inputs a step shows.\<close>

fun step_inputs :: "authStep \<Rightarrow> nat option" where
  "step_inputs authStepLogin = Some 2"
| "step_inputs authStepRegister = Some 4"
| "step_inputs authStepMFA = Some 1"
| "step_inputs _ = None"

definition fits :: "authStep \<Rightarrow> nat \<Rightarrow> nat \<Rightarrow> bool" where
  "fits st n i \<longleftrightarrow> (case step_inputs st of None \<Rightarrow> True | Some k \<Rightarrow> n = k \<and> i < k)"

definition form_ok :: "AuthModel \<Rightarrow> bool" where
  "form_ok m \<longleftrightarrow> fits (am_step m) (length (am_inputs m)) (am_focusIdx m)"

lemma fits_simps [simp]:
  "fits authStepServer n i" "fits authStepMenu n i" "fits authStepLoading n i"
  "fits authStepLogin n i \<longleftrightarrow> n = 2 \<and> i < 2" "fits authStepRegister n i \<longleftrightarrow> n = 4 \<and> i < 4" "fits authStepMFA n i \<longleftrightarrow> n = 1 \<and> i < 1"
  by (auto simp: fits_def)

lemma set_focus_ok: "i < length (am_inputs m) \<Longrightarrow>
    \<exists>m'. set_focus f i m = Inr m' \<and> length (am_inputs m') = length (am_inputs m) \<and> am_step m' = am_step m \<and>
      am_focusIdx m' = am_focusIdx m \<and> am_before m' = am_before m"
  by (simp add: set_focus_def)

lemma move_field_ok:
  assumes "am_focusIdx m < length (am_inputs m)" and "\<And>i n. i < n \<Longrightarrow> g i n < n"
  shows "\<exists>m'. move_field g m = Inr m' \<and> length (am_inputs m') = length (am_inputs m) \<and> am_step m' = am_step m \<and>
    am_focusIdx m' < length (am_inputs m')"
proof -
  obtain m1 where 1: "set_focus False (am_focusIdx m) m = Inr m1" "length (am_inputs m1) = length (am_inputs m)"
    "am_step m1 = am_step m" "am_focusIdx m1 = am_focusIdx m" using set_focus_ok [OF assms(1)] by blast
  let ?m2 = "m1\<lparr>am_focusIdx := g (am_focusIdx m1) (length (am_inputs m1))\<rparr>"
  have "am_focusIdx ?m2 < length (am_inputs ?m2)" using assms 1 by simp
  from set_focus_ok [OF this, of True] obtain m3 where "set_focus True (am_focusIdx ?m2) ?m2 = Inr m3"
    "length (am_inputs m3) = length (am_inputs ?m2)" "am_step m3 = am_step ?m2" "am_focusIdx m3 = am_focusIdx ?m2" by blast
  then show ?thesis using 1 \<open>am_focusIdx ?m2 < length (am_inputs ?m2)\<close> by (simp add: move_field_def bnd_def)
qed

lemma fields_ok:
  assumes "am_focusIdx m < length (am_inputs m)"
  shows "\<exists>m'. nextField m = Inr m' \<and> length (am_inputs m') = length (am_inputs m) \<and> am_step m' = am_step m \<and> am_focusIdx m' < length (am_inputs m')"
    and "\<exists>m'. prevField m = Inr m' \<and> length (am_inputs m') = length (am_inputs m) \<and> am_step m' = am_step m \<and> am_focusIdx m' < length (am_inputs m')"
proof -
  show "\<exists>m'. nextField m = Inr m' \<and> length (am_inputs m') = length (am_inputs m) \<and> am_step m' = am_step m \<and> am_focusIdx m' < length (am_inputs m')"
    unfolding nextField_def by (rule move_field_ok [OF assms]) simp
  show "\<exists>m'. prevField m = Inr m' \<and> length (am_inputs m') = length (am_inputs m) \<and> am_step m' = am_step m \<and> am_focusIdx m' < length (am_inputs m')"
    unfolding prevField_def by (rule move_field_ok [OF assms]) simp
qed

lemma submitForm_ok:
  assumes "length (am_inputs m) = (if am_step m = authStepLogin then 2 else 4)"
  shows "\<exists>m' c. submitForm m = Inr (m', c) \<and> am_inputs m' = am_inputs m \<and> am_step m' = am_step m \<and> am_focusIdx m' = am_focusIdx m"
  using assms by (auto simp: submitForm_def input_value_def bnd_def Let_def split: if_splits)

lemma form_ok_I: "length (am_inputs m') = length (am_inputs m) \<Longrightarrow> am_step m' = am_step m \<Longrightarrow> am_focusIdx m' < length (am_inputs m') \<Longrightarrow>
    form_ok m \<Longrightarrow> form_ok m'"
  by (auto simp: form_ok_def fits_def split: option.splits)

lemma handleFormKey_ok:
  assumes "form_ok m" and "am_step m = authStepLogin \<or> am_step m = authStepRegister"
  shows "\<exists>m' c. handleFormKey L key m = Inr (m', c) \<and> form_ok m'"
proof -
  have len: "length (am_inputs m) = (if am_step m = authStepLogin then 2 else 4)" "am_focusIdx m < length (am_inputs m)"
    using assms by (auto simp: form_ok_def)
  obtain m1 where n: "nextField m = Inr m1" "form_ok m1" using fields_ok(1) [OF len(2)] form_ok_I assms(1) by blast
  obtain m2 where p: "prevField m = Inr m2" "form_ok m2" using fields_ok(2) [OF len(2)] form_ok_I assms(1) by blast
  obtain m3 c where s: "submitForm m = Inr (m3, c)" and eq: "am_inputs m3 = am_inputs m" "am_step m3 = am_step m"
      "am_focusIdx m3 = am_focusIdx m"
    using submitForm_ok [OF len(1)] by blast
  have s': "form_ok m3" using assms(1) eq by (simp add: form_ok_def)
  have "form_ok (update_inputs L (KeyMsg key) m)" using assms(1) by (simp add: form_ok_def update_inputs_def)
  moreover have "form_ok (m\<lparr>am_step := authStepMenu, am_inputs := []\<rparr>)" by (simp add: form_ok_def)
  ultimately show ?thesis using assms(1) n p s s' unfolding handleFormKey_def bnd_def
    by (simp split: if_split)
qed

lemma handleMFAKey_ok:
  assumes "form_ok m" and "am_step m = authStepMFA"
  shows "\<exists>m' c. handleMFAKey L key m = Inr (m', c) \<and> form_ok m'"
  using assms by (auto simp: handleMFAKey_def submitMFA_def input_value_def bnd_def update_inputs_def form_ok_def)

lemma handleMenuKey_ok: "am_step m = authStepMenu \<Longrightarrow> form_ok (fst (handleMenuKey L key m))"
  by (simp add: handleMenuKey_def openLoginForm_def openRegisterForm_def form_ok_def)

lemma handleServerKey_ok: "am_step m = authStepServer \<Longrightarrow> form_ok (fst (handleServerKey L key m))"
  by (simp add: handleServerKey_def form_ok_def Let_def)

lemma forward_ok: "form_ok m \<Longrightarrow> form_ok (fst (forward L msg m))"
  by (simp add: forward_def update_inputs_def form_ok_def)

lemma key_ok:
  assumes "form_ok m"
  shows "\<exists>m' c. AuthModel_Update L (KeyMsg key) m = Inr (m', c) \<and> form_ok m'"
proof -
  let ?m = "m\<lparr>am_errMsg := []\<rparr>"
  have ok: "form_ok ?m" using assms by (simp add: form_ok_def)
  show ?thesis
  proof (cases "am_step m")
    case authStepServer
    then show ?thesis using handleServerKey_ok [of ?m L key] by (auto simp: AuthModel_Update_def split: prod.splits) (metis prod.collapse)
  next
    case authStepMenu
    then show ?thesis using handleMenuKey_ok [of ?m L key] by (auto simp: AuthModel_Update_def) (metis prod.collapse)
  next
    case authStepLoading
    then show ?thesis using forward_ok [OF ok, of L "KeyMsg key"] by (auto simp: AuthModel_Update_def) (metis prod.collapse)
  next
    case authStepMFA
    then show ?thesis using handleMFAKey_ok [OF ok, of L key] by (simp add: AuthModel_Update_def)
  qed (use handleFormKey_ok [OF ok, of L key] in \<open>simp_all add: AuthModel_Update_def\<close>)
qed

lemma special_ok:
  assumes "form_ok a" and "handleSpecialMsg L msg a = Some (a', c)" and "\<And>e. msg = authErrMsg e \<Longrightarrow> am_step a = am_before a"
  shows "form_ok a'"
  using assms by (cases msg) (auto simp: handleSpecialMsg_def form_ok_def Let_def split: if_splits)

lemma other_ok:
  assumes "form_ok a" and "handleSpecialMsg L msg a = None" and "\<And>cfg. msg \<noteq> authDoneMsg cfg"
  shows "\<exists>a' c. AuthModel_Update L msg a = Inr (a', c) \<and> form_ok a'"
proof (cases msg)
  case (KeyMsg key)
  then show ?thesis using key_ok [OF assms(1)] by simp
next
  case (WindowSizeMsg w h)
  have "form_ok (a\<lparr>am_width := w, am_height := h\<rparr>)" using assms(1) by (simp add: form_ok_def)
  from forward_ok [OF this] show ?thesis using WindowSizeMsg by (simp add: AuthModel_Update_def) (metis prod.collapse)
next
  case (OtherMsg t)
  then show ?thesis using forward_ok [OF assms(1), of L msg] by (simp add: AuthModel_Update_def) (metis prod.collapse)
qed (use assms in \<open>simp_all add: handleSpecialMsg_def Let_def\<close>)

section \<open>A configuration for the examples\<close>

definition demo_inputs :: ti_lib where
  "demo_inputs = \<lparr>tl_Update = (\<lambda>_ t. t), tl_SetValue = (\<lambda>v. v)\<rparr>"

definition demo_config :: client_Config where
  "demo_config = \<lparr>cf_ServerAddr = ''localhost:50051'', cf_TLSCertPath = [], cf_AccessToken = [], cf_RefreshToken = [],
     cf_VaultPath = [], cf_KeyfilePath = [], cf_Username = ''bob''\<rparr>"

end
