(* ===== verification/TuiItems.thy ===== *)
theory TuiItems
  imports TuiAuth "HOL-Library.Multiset" "HOL-Library.List_Lexorder" "HOL-Library.Char_ord" "HOL-Library.Product_Lexorder"
begin

text \<open>
  What the vault screen shows of the loaded items, from \<^verbatim>\<open>src/internal/client/tui/app.go\<close>: the
  flags and the folder kept inside the payload, the sidebar with its folders, the list of a
  sidebar entry with its search and its sort orders, and the patching of a payload through a
  \<^verbatim>\<open>map[string]interface{}\<close>. The icons of the entries, which only rendering uses, are left out.
  Strings are ordered bytewise, as Go orders them.
\<close>

section \<open>The exchange sort\<close>

text \<open>
  The loops over \<open>i\<close> and \<open>j\<close> that swap two elements whenever the later one is less. One run
  of the inner loop holds the element at \<open>i\<close> and leaves in its place the least one.
\<close>

fun exchange_pass :: "('a \<Rightarrow> 'a \<Rightarrow> bool) \<Rightarrow> 'a \<Rightarrow> 'a list \<Rightarrow> 'a \<times> 'a list" where
  "exchange_pass lt x [] = (x, [])"
| "exchange_pass lt x (y # ys) =
     (if lt y x then let (m, r) = exchange_pass lt y ys in (m, x # r)
      else let (m, r) = exchange_pass lt x ys in (m, y # r))"

lemma exchange_pass_length: "length (snd (exchange_pass lt x xs)) = length xs"
  by (induction xs arbitrary: x) (simp_all split: prod.splits, (metis snd_conv)+)

function exchange_sort :: "('a \<Rightarrow> 'a \<Rightarrow> bool) \<Rightarrow> 'a list \<Rightarrow> 'a list" where
  "exchange_sort lt [] = []"
| "exchange_sort lt (x # xs) = fst (exchange_pass lt x xs) # exchange_sort lt (snd (exchange_pass lt x xs))"
  by pat_completeness auto

termination
  by (relation "measure (\<lambda>(lt, xs). length xs)") (simp_all add: exchange_pass_length)

lemma exchange_pass_mset: "add_mset (fst (exchange_pass lt x xs)) (mset (snd (exchange_pass lt x xs))) = add_mset x (mset xs)"
proof (induction xs arbitrary: x)
  case (Cons y ys)
  obtain m r m' r' where e: "exchange_pass lt x ys = (m, r)" "exchange_pass lt y ys = (m', r')" by fastforce
  have "add_mset m (mset r) = add_mset x (mset ys)" "add_mset m' (mset r') = add_mset y (mset ys)"
    using Cons [of x] Cons [of y] e by simp_all
  then show ?case using e by (simp add: add_mset_commute [of m] add_mset_commute [of m'] add_mset_commute [of y x])
qed simp

lemma exchange_sort_mset [simp]: "mset (exchange_sort lt xs) = mset xs"
proof (induction lt xs rule: exchange_sort.induct)
  case (2 lt x xs)
  then show ?case using exchange_pass_mset [of lt x xs] by simp
qed simp

lemma exchange_sort_set [simp]: "set (exchange_sort lt xs) = set xs"
  by (rule mset_eq_setD [OF exchange_sort_mset])

lemma exchange_sort_distinct [simp]: "distinct (exchange_sort lt xs) = distinct xs"
  by (rule mset_eq_imp_distinct_iff [OF exchange_sort_mset])

text \<open>A comparison that is the order of a key sorts by that key.\<close>

locale keyed_order =
  fixes lt :: "'a \<Rightarrow> 'a \<Rightarrow> bool" and key :: "'a \<Rightarrow> 'k::linorder"
  assumes lt_key: "lt a b \<longleftrightarrow> key a < key b"
begin

lemma pass_least: "key (fst (exchange_pass lt x xs)) \<le> key x \<and> (\<forall>y \<in> set (snd (exchange_pass lt x xs)). key (fst (exchange_pass lt x xs)) \<le> key y)"
proof (induction xs arbitrary: x)
  case (Cons y ys)
  obtain m r m' r' where e: "exchange_pass lt x ys = (m, r)" "exchange_pass lt y ys = (m', r')" by fastforce
  show ?case using Cons [of x] Cons [of y] e lt_key [of y x] by auto
qed simp

lemma exchange_sorted: "sorted (map key (exchange_sort lt xs))"
proof (induction xs rule: length_induct)
  case (1 xs)
  show ?case
  proof (cases xs)
    case (Cons x ys)
    then show ?thesis using 1 pass_least [of x ys] exchange_pass_length [of lt x ys] by simp
  qed simp
qed

end

interpretation names: keyed_order "\<lambda>a b. a < b" "\<lambda>s. s :: string"
  by unfold_locales simp

section \<open>Flags and folders\<close>

definition getItemFolder :: "pb_VaultItem \<Rightarrow> string" where
  "getItemFolder item = get_str ''folder'' (members (pb_Payload item))"

definition payload_flag :: "string \<Rightarrow> bytes \<Rightarrow> bool" where
  "payload_flag flag payload = fst (dec_field d_bool flag (members payload) False)"

definition isFavorite :: "pb_VaultItem \<Rightarrow> bool" where "isFavorite item = payload_flag ''favorite'' (pb_Payload item)"
definition isArchived :: "pb_VaultItem \<Rightarrow> bool" where "isArchived item = payload_flag ''archived'' (pb_Payload item)"
definition isTrashed :: "pb_VaultItem \<Rightarrow> bool" where "isTrashed item = payload_flag ''trashed'' (pb_Payload item)"

definition isSSHKey :: "pb_VaultItem \<Rightarrow> bool" where
  "isSSHKey item \<longleftrightarrow> pb_Type item = ItemType_TEXT \<and> payload_flag ''ssh_key'' (pb_Payload item)"

definition isFileItem :: "pb_VaultItem \<Rightarrow> bool" where
  "isFileItem item \<longleftrightarrow> pb_Type item = ItemType_BINARY \<and> payload_flag ''is_file'' (pb_Payload item)"

section \<open>The sidebar\<close>

datatype entryKind = kindSection | kindItem | kindDivider

record catEntry =
  ce_kind :: entryKind
  ce_icon :: string
  ce_label :: string
  ce_types :: "ItemType list"
  ce_all :: bool
  ce_fav :: bool
  ce_archived :: bool
  ce_trashed :: bool
  ce_folder :: string
  ce_sshKey :: bool
  ce_isFile :: bool

definition cat_item :: "nat \<Rightarrow> string \<Rightarrow> catEntry" where
  "cat_item icon l = \<lparr>ce_kind = kindItem, ce_icon = encode_rune icon, ce_label = l, ce_types = [], ce_all = False, ce_fav = False, ce_archived = False,
     ce_trashed = False, ce_folder = [], ce_sshKey = False, ce_isFile = False\<rparr>"

definition cat_divider :: catEntry where
  "cat_divider = (cat_item 0 [])\<lparr>ce_kind := kindDivider, ce_icon := []\<rparr>"

definition cat_section :: "string \<Rightarrow> catEntry" where
  "cat_section l = (cat_item 0 l)\<lparr>ce_kind := kindSection, ce_icon := []\<rparr>"

text \<open>The folders of the items that are neither archived nor trashed, each once.\<close>

fun collect_folders :: "pb_VaultItem list \<Rightarrow> string list \<Rightarrow> string list" where
  "collect_folders [] folders = folders"
| "collect_folders (it # its) folders =
     (let f = getItemFolder it in
      collect_folders its (if f \<noteq> [] \<and> f \<notin> set folders \<and> \<not> isArchived it \<and> \<not> isTrashed it then folders @ [f] else folders))"

definition sidebar_folders :: "pb_VaultItem list \<Rightarrow> string list" where
  "sidebar_folders items = exchange_sort (\<lambda>a b. a < b) (collect_folders items [])"

definition buildSidebar :: "pb_VaultItem list \<Rightarrow> catEntry list" where
  "buildSidebar items =
     [cat_section ''FILTERS'', (cat_item 0x1F3E0 ''All Items'')\<lparr>ce_all := True\<rparr>, (cat_item 0x2B50 ''Favorites'')\<lparr>ce_fav := True\<rparr>,
      cat_section ''TYPES'',
      (cat_item 0x1F511 ''Login'')\<lparr>ce_types := [ItemType_CREDENTIAL, ItemType_OTP]\<rparr>, (cat_item 0x1F4B3 ''Card'')\<lparr>ce_types := [ItemType_CARD]\<rparr>,
      (cat_item 0x1F464 ''Identity'')\<lparr>ce_types := [ItemType_BINARY]\<rparr>, (cat_item 0x1F4C4 ''Note'')\<lparr>ce_types := [ItemType_TEXT]\<rparr>,
      (cat_item 0x1F5DD ''SSH Keys'')\<lparr>ce_sshKey := True\<rparr>, (cat_item 0x1F4CE ''Files'')\<lparr>ce_isFile := True\<rparr>,
      cat_section ''FOLDERS''] @
     map (\<lambda>f. (cat_item 0x1F4C1 f)\<lparr>ce_folder := f\<rparr>) (sidebar_folders items) @
     [cat_divider, (cat_item 0x1F5C3 ''Archive'')\<lparr>ce_archived := True\<rparr>, (cat_item 0x1F5D1 ''Trash'')\<lparr>ce_trashed := True\<rparr>]"

definition sidebarSelectables :: "pb_VaultItem list \<Rightarrow> catEntry list" where
  "sidebarSelectables items = filter (\<lambda>e. ce_kind e = kindItem) (buildSidebar items)"

definition catCount :: "pb_VaultItem list \<Rightarrow> int" where
  "catCount items = int (length (sidebarSelectables items))"

definition selectedCat :: "pb_VaultItem list \<Rightarrow> int \<Rightarrow> catEntry" where
  "selectedCat items catIdx =
     (let sel = sidebarSelectables items in
      if catIdx < 0 \<or> catIdx \<ge> int (length sel) then sel ! 0 else sel ! nat catIdx)"

section \<open>The list of an entry\<close>

text \<open>The loop over the types of an entry: the first that is the item's type decides.\<close>

fun type_match :: "ItemType list \<Rightarrow> pb_VaultItem \<Rightarrow> bool" where
  "type_match [] item = False"
| "type_match (t # ts) item =
     (if pb_Type item = t then \<not> (t = ItemType_BINARY \<and> isFileItem item) else type_match ts item)"

definition in_category :: "catEntry \<Rightarrow> pb_VaultItem \<Rightarrow> bool" where
  "in_category cat item =
     (let arch = isArchived item; trash = isTrashed item in
      if ce_trashed cat then trash
      else if ce_archived cat then arch \<and> \<not> trash
      else if arch \<or> trash then False
      else if ce_sshKey cat then isSSHKey item
      else if ce_isFile cat then isFileItem item
      else if ce_folder cat \<noteq> [] then getItemFolder item = ce_folder cat
      else if ce_all cat then True
      else if ce_fav cat then isFavorite item
      else type_match (ce_types cat) item)"

datatype sortMode = sortDefault | sortName | sortTypeName

text \<open>The numbers of the protobuf enumeration.\<close>

fun type_number :: "ItemType \<Rightarrow> int" where
  "type_number ItemType_UNSPECIFIED = 0"
| "type_number ItemType_CREDENTIAL = 1"
| "type_number ItemType_TEXT = 2"
| "type_number ItemType_BINARY = 3"
| "type_number ItemType_CARD = 4"
| "type_number ItemType_OTP = 5"
| "type_number (OtherType n) = n"

definition lower_meta :: "'r client_env \<Rightarrow> pb_VaultItem \<Rightarrow> string" where
  "lower_meta E it = strings_ToLower E (pb_Metadata it)"

definition matches_search :: "'r client_env \<Rightarrow> string \<Rightarrow> pb_VaultItem \<Rightarrow> bool" where
  "matches_search E query item \<longleftrightarrow> query = [] \<or> strings_Contains (lower_meta E item) (strings_ToLower E query)"

definition less_name :: "'r client_env \<Rightarrow> pb_VaultItem \<Rightarrow> pb_VaultItem \<Rightarrow> bool" where
  "less_name E a b \<longleftrightarrow> lower_meta E a < lower_meta E b"

definition less_type_name :: "'r client_env \<Rightarrow> pb_VaultItem \<Rightarrow> pb_VaultItem \<Rightarrow> bool" where
  "less_type_name E a b \<longleftrightarrow>
     (let ta = type_number (pb_Type a); tb = type_number (pb_Type b) in ta < tb \<or> ta = tb \<and> lower_meta E a < lower_meta E b)"

definition filteredItems :: "'r client_env \<Rightarrow> pb_VaultItem list \<Rightarrow> int \<Rightarrow> string \<Rightarrow> sortMode \<Rightarrow> pb_VaultItem list" where
  "filteredItems E items catIdx query srt =
     (let base = filter (in_category (selectedCat items catIdx)) items;
          found = filter (matches_search E query) base in
      case srt of
        sortDefault \<Rightarrow> found
      | sortName \<Rightarrow> exchange_sort (less_name E) found
      | sortTypeName \<Rightarrow> exchange_sort (less_type_name E) found)"

interpretation by_name: keyed_order "less_name E" "lower_meta E" for E
  by unfold_locales (simp add: less_name_def)

interpretation by_type: keyed_order "less_type_name E" "\<lambda>it. (type_number (pb_Type it), lower_meta E it)" for E
  by unfold_locales (auto simp: less_type_name_def less_prod_def Let_def)

lemma selectables_nonempty [simp]: "sidebarSelectables items \<noteq> []"
  by (simp add: sidebarSelectables_def buildSidebar_def cat_item_def cat_section_def cat_divider_def)

lemma selectedCat_mem: "selectedCat items i \<in> set (sidebarSelectables items)"
proof (cases "i < 0 \<or> i \<ge> int (length (sidebarSelectables items))")
  case False
  then have "nat i < length (sidebarSelectables items)" by linarith
  then show ?thesis using False nth_mem by (auto simp: selectedCat_def)
qed (simp add: selectedCat_def)

lemma catCount_pos [simp]: "0 < catCount items"
  by (simp add: catCount_def)

text \<open>Which entry is selected, by its place: two filters, six types, the folders, archive and trash.\<close>

lemma collect_folders_spec:
  assumes "distinct fs" and "[] \<notin> set fs"
  shows "distinct (collect_folders its fs) \<and> set (collect_folders its fs) =
    set fs \<union> {getItemFolder it | it. it \<in> set its \<and> getItemFolder it \<noteq> [] \<and> \<not> isArchived it \<and> \<not> isTrashed it}"
  using assms by (induction its arbitrary: fs) (auto simp: Let_def)

lemma sidebar_folders_spec:
  "sorted (sidebar_folders items)" "distinct (sidebar_folders items)" "set (sidebar_folders items) =
     {getItemFolder it | it. it \<in> set items \<and> getItemFolder it \<noteq> [] \<and> \<not> isArchived it \<and> \<not> isTrashed it}"
  using names.exchange_sorted [of "collect_folders items []"] collect_folders_spec [of "[]" items]
  by (simp_all add: sidebar_folders_def)

definition filter_entries :: "catEntry list" where
  "filter_entries = filter (\<lambda>e. ce_folder e = [] \<and> ce_kind e = kindItem) (buildSidebar [])"

lemma selectables_cases:
  "set (sidebarSelectables items) = set filter_entries \<union> (\<lambda>f. (cat_item 0x1F4C1 f)\<lparr>ce_folder := f\<rparr>) ` set (sidebar_folders items)"
  by (auto simp: sidebarSelectables_def filter_entries_def buildSidebar_def cat_item_def cat_section_def cat_divider_def sidebar_folders_def)

lemma filter_entries_folder: "c \<in> set filter_entries \<Longrightarrow> ce_folder c = []"
  by (simp add: filter_entries_def)

text \<open>
  The sidebar: the folders are listed in order, each once, and they are exactly the folders of
  the items that are neither archived nor trashed, so that every such item can be reached
  through its folder and no folder is empty; and whatever the cursor is, an entry is selected.
\<close>

theorem sidebar_correct:
  "sorted (sidebar_folders items) \<and> distinct (sidebar_folders items) \<and>
   set (sidebar_folders items) =
     {getItemFolder it | it. it \<in> set items \<and> getItemFolder it \<noteq> [] \<and> \<not> isArchived it \<and> \<not> isTrashed it} \<and>
   selectedCat items i \<in> set (sidebarSelectables items) \<and>
   (f \<in> set (sidebar_folders items)) =
     (\<exists>cat. cat \<in> set (sidebarSelectables items) \<and> ce_folder cat = f \<and> f \<noteq> [] \<and> filter (in_category cat) items \<noteq> [])"
proof (intro conjI)
  show "sorted (sidebar_folders items)" "distinct (sidebar_folders items)"
    by (simp_all add: sidebar_folders_spec(1,2))
  show "set (sidebar_folders items) =
     {getItemFolder it | it. it \<in> set items \<and> getItemFolder it \<noteq> [] \<and> \<not> isArchived it \<and> \<not> isTrashed it}"
    by (rule sidebar_folders_spec(3))
  show "selectedCat items i \<in> set (sidebarSelectables items)" by (rule selectedCat_mem)
  show "(f \<in> set (sidebar_folders items)) =
     (\<exists>cat. cat \<in> set (sidebarSelectables items) \<and> ce_folder cat = f \<and> f \<noteq> [] \<and> filter (in_category cat) items \<noteq> [])" (is "?l = ?r")
  proof
    assume l: ?l
    let ?c = "(cat_item 0x1F4C1 f)\<lparr>ce_folder := f\<rparr>"
    obtain it where it: "it \<in> set items" "getItemFolder it = f" "f \<noteq> []" "\<not> isArchived it" "\<not> isTrashed it"
      using l unfolding sidebar_folders_spec(3) by blast
    have "?c \<in> set (sidebarSelectables items)" using l selectables_cases [of items] by blast
    moreover have "in_category ?c it" using it by (simp add: in_category_def cat_item_def)
    moreover have "ce_folder ?c = f" by simp
    moreover have "it \<in> set (filter (in_category ?c) items)" using calculation(2) it(1) by simp
    ultimately show ?r using it(3) by (metis empty_iff list.set(1))
  next
    assume ?r
    then obtain cat where c: "cat \<in> set (sidebarSelectables items)" "ce_folder cat = f" "f \<noteq> []" by blast
    then have "cat \<in> (\<lambda>f. (cat_item 0x1F4C1 f)\<lparr>ce_folder := f\<rparr>) ` set (sidebar_folders items)"
      using selectables_cases [of items] filter_entries_folder by blast
    then show ?l using c by auto
  qed
qed

text \<open>
  C22. The list of the vault screen shows exactly the items of the selected entry whose metadata
  matches the search, each as often as it was loaded: in the order of the server, sorted by name, or
  sorted by type and name. The exchange loops are thus equivalent to a sort by these keys. Every item is in
  exactly one of the entries for all items, the archive and the trash.
\<close>

theorem listing_correct:
  "mset (filteredItems E items i query srt) =
     filter_mset (\<lambda>it. in_category (selectedCat items i) it \<and> matches_search E query it) (mset items) \<and>
   (case srt of
      sortDefault \<Rightarrow> filteredItems E items i query srt =
        filter (\<lambda>it. in_category (selectedCat items i) it \<and> matches_search E query it) items
    | sortName \<Rightarrow> sorted (map (lower_meta E) (filteredItems E items i query srt))
    | sortTypeName \<Rightarrow> sorted (map (\<lambda>it. (type_number (pb_Type it), lower_meta E it)) (filteredItems E items i query srt))) \<and>
   length (filter (\<lambda>c. in_category c it) (filter (\<lambda>c. ce_all c \<or> ce_archived c \<or> ce_trashed c) (sidebarSelectables items))) = 1"
proof (intro conjI)
  show "mset (filteredItems E items i query srt) =
     filter_mset (\<lambda>it. in_category (selectedCat items i) it \<and> matches_search E query it) (mset items)"
    by (cases srt) (simp_all add: filteredItems_def Let_def conj_commute)
  show "case srt of
      sortDefault \<Rightarrow> filteredItems E items i query srt =
        filter (\<lambda>it. in_category (selectedCat items i) it \<and> matches_search E query it) items
    | sortName \<Rightarrow> sorted (map (lower_meta E) (filteredItems E items i query srt))
    | sortTypeName \<Rightarrow> sorted (map (\<lambda>it. (type_number (pb_Type it), lower_meta E it)) (filteredItems E items i query srt))"
    by (cases srt) (simp_all add: filteredItems_def Let_def by_name.exchange_sorted by_type.exchange_sorted conj_commute)
  have "filter (\<lambda>c. ce_all c \<or> ce_archived c \<or> ce_trashed c) (sidebarSelectables items) =
      [(cat_item 0x1F3E0 ''All Items'')\<lparr>ce_all := True\<rparr>, (cat_item 0x1F5C3 ''Archive'')\<lparr>ce_archived := True\<rparr>, (cat_item 0x1F5D1 ''Trash'')\<lparr>ce_trashed := True\<rparr>]"
    by (simp add: sidebarSelectables_def buildSidebar_def cat_item_def cat_section_def cat_divider_def filter_map comp_def)
  then show "length (filter (\<lambda>c. in_category c it) (filter (\<lambda>c. ce_all c \<or> ce_archived c \<or> ce_trashed c) (sidebarSelectables items))) = 1"
    by (simp add: in_category_def cat_item_def)
qed

section \<open>Patching a payload\<close>

text \<open>
  A \<^verbatim>\<open>map[string]interface{}\<close> is the list of its entries in the order of the keys, in which
  \<^verbatim>\<open>json.Marshal\<close> writes them.
\<close>

fun map_set :: "string \<Rightarrow> 'v \<Rightarrow> (string \<times> 'v) list \<Rightarrow> (string \<times> 'v) list" where
  "map_set k v [] = [(k, v)]"
| "map_set k v ((n, w) # kvs) = (if k = n then (k, v) # kvs else if k < n then (k, v) # (n, w) # kvs else (n, w) # map_set k v kvs)"

definition map_delete :: "string \<Rightarrow> (string \<times> 'v) list \<Rightarrow> (string \<times> 'v) list" where
  "map_delete k kvs = filter (\<lambda>(n, _). n \<noteq> k) kvs"

text \<open>
  Numbers become \<^verbatim>\<open>float64\<close>: an integer of at most 53 bits is written as it was read; the text
  of any other number after \<^verbatim>\<open>strconv.ParseFloat\<close> and its formatting is the parameter \<open>F\<close>, with
  \<open>None\<close> for a number out of range.
\<close>

definition exact_num :: "string \<Rightarrow> bool" where
  "exact_num l \<longleftrightarrow> int_lit l \<and> l \<noteq> ''-0'' \<and> \<bar>int_of_text l\<bar> \<le> 9007199254740992"

fun go_value :: "(string \<Rightarrow> string option) \<Rightarrow> json \<Rightarrow> json option"
  and go_values :: "(string \<Rightarrow> string option) \<Rightarrow> json list \<Rightarrow> json list option"
  and go_members :: "(string \<Rightarrow> string option) \<Rightarrow> (string \<times> json) list \<Rightarrow> (string \<times> json) list \<Rightarrow> (string \<times> json) list option" where
  "go_value F JNull = Some JNull"
| "go_value F (JBool b) = Some (JBool b)"
| "go_value F (JNum l) = map_option JNum (if exact_num l then Some l else F l)"
| "go_value F (JStr s) = Some (JStr s)"
| "go_value F (JArr vs) = map_option JArr (go_values F vs)"
| "go_value F (JObj kvs) = map_option JObj (go_members F kvs [])"
| "go_values F [] = Some []"
| "go_values F (v # vs) = (case go_value F v of None \<Rightarrow> None | Some w \<Rightarrow> map_option ((#) w) (go_values F vs))"
| "go_members F [] acc = Some acc"
| "go_members F ((k, v) # kvs) acc = (case go_value F v of None \<Rightarrow> None | Some w \<Rightarrow> go_members F kvs (map_set k w acc))"

text \<open>\<^verbatim>\<open>json.Unmarshal\<close> into a nil map: an error, or the map, which stays nil for \<^verbatim>\<open>null\<close>.\<close>

datatype go_map = NilMap | GoMap "(string \<times> json) list"

definition unmarshal_map :: "(string \<Rightarrow> string option) \<Rightarrow> bytes \<Rightarrow> go_map option" where
  "unmarshal_map F raw = (case json_parse raw of
      Some (JObj kvs) \<Rightarrow> map_option GoMap (go_members F kvs [])
    | Some JNull \<Rightarrow> Some NilMap
    | _ \<Rightarrow> None)"

fun marshal_map :: "go_map \<Rightarrow> bytes" where
  "marshal_map NilMap = ''null''"
| "marshal_map (GoMap kvs) = jprint (JObj kvs)"

text \<open>The payload that \<^verbatim>\<open>setItemFlag\<close> sends; an assignment to a nil map panics.\<close>

definition flag_payload :: "(string \<Rightarrow> string option) \<Rightarrow> string \<Rightarrow> bool \<Rightarrow> bytes \<Rightarrow> bytes result" where
  "flag_payload F flag v payload =
     (let data = (case unmarshal_map F payload of None \<Rightarrow> GoMap [] | Some d \<Rightarrow> d) in
      case data of
        NilMap \<Rightarrow> if v then Inl (Panic ''assignment to entry in nil map'') else Inr (marshal_map NilMap)
      | GoMap kvs \<Rightarrow> Inr (marshal_map (GoMap (if v then map_set flag (JBool True) kvs else map_delete flag kvs))))"

text \<open>The folder that \<^verbatim>\<open>saveForm\<close> adds to a payload; on an error the payload stays as it is.\<close>

definition add_folder :: "(string \<Rightarrow> string option) \<Rightarrow> string \<Rightarrow> bytes \<Rightarrow> bytes result" where
  "add_folder F folder payload =
     (if folder = [] then Inr payload
      else (case unmarshal_map F payload of
              None \<Rightarrow> Inr payload
            | Some NilMap \<Rightarrow> Inl (Panic ''assignment to entry in nil map'')
            | Some (GoMap kvs) \<Rightarrow> Inr (marshal_map (GoMap (map_set ''folder'' (JStr folder) kvs)))))"

subsection \<open>What patching keeps\<close>

abbreviation keys :: "(string \<times> 'v) list \<Rightarrow> string list" where "keys kvs \<equiv> map fst kvs"

lemma map_set_keys: "set (keys (map_set k v kvs)) = insert k (set (keys kvs))"
  by (induction k v kvs rule: map_set.induct) (simp_all add: insert_commute)

lemma map_set_sorted: "sorted_wrt (<) (keys kvs) \<Longrightarrow> sorted_wrt (<) (keys (map_set k v kvs))"
proof (induction kvs)
  case (Cons p kvs)
  obtain n w where p: "p = (n, w)" by (cases p)
  have "\<forall>m \<in> set (keys kvs). n < m" using Cons.prems p by simp
  moreover have "set (keys (map_set k v kvs)) = insert k (set (keys kvs))" by (rule map_set_keys)
  moreover have "sorted_wrt (<) (keys kvs)" "sorted_wrt (<) (keys (map_set k v kvs))" using Cons p by simp_all
  ultimately show ?case unfolding p by (cases k n rule: linorder_cases) (auto simp del: set_map)
qed simp

lemma map_delete_absent: "k \<notin> set (keys kvs) \<Longrightarrow> map_delete k kvs = kvs"
  by (force simp: map_delete_def filter_id_conv)

lemma map_set_mset: "sorted_wrt (<) (keys kvs) \<Longrightarrow> mset (map_set k v kvs) = add_mset (k, v) (mset (map_delete k kvs))"
proof (induction kvs)
  case (Cons p kvs)
  obtain n w where p: "p = (n, w)" by (cases p)
  have "k \<le> n \<Longrightarrow> k \<notin> set (keys kvs)" using Cons.prems p by auto
  then have "k \<le> n \<Longrightarrow> map_delete k kvs = kvs" by (rule map_delete_absent)
  moreover have "map_delete k (p # kvs) = (if n = k then [] else [p]) @ map_delete k kvs" by (simp add: map_delete_def p)
  ultimately show ?case using Cons p by (cases "k \<le> n") (auto simp: add_mset_commute)
qed (simp add: map_delete_def)

text \<open>Names that differ up to case, as the keys of the client's own payloads do.\<close>

definition clean :: "(string \<times> 'v) list \<Rightarrow> bool" where
  "clean kvs \<longleftrightarrow> distinct (map fold_name (keys kvs))"

lemma obj_vals_mset: "mset (obj_vals f kvs) = image_mset snd (filter_mset (\<lambda>(k, v). fold_name k = fold_name f) (mset kvs))"
  by (simp add: obj_vals_def)

lemma clean_vals_le: "clean kvs \<Longrightarrow> length (obj_vals f kvs) \<le> 1"
proof (induction kvs)
  case (Cons p kvs)
  have "fold_name (fst p) = fold_name f \<Longrightarrow> obj_vals f kvs = []"
    using Cons.prems by (auto simp: clean_def obj_vals_def filter_empty_conv image_iff) 
  then show ?case using Cons by (cases p) (auto simp: obj_vals_Cons clean_def)
qed simp

lemma mset_short: "mset xs = mset ys \<Longrightarrow> length ys \<le> 1 \<Longrightarrow> xs = ys"
  by (metis One_nat_def le_Suc_eq le_zero_eq length_0_conv length_Suc_conv mset.simps mset_single_iff_right size_mset)

lemma obj_vals_perm: "mset xs = mset ys \<Longrightarrow> clean ys \<Longrightarrow> obj_vals f xs = obj_vals f ys"
  by (rule mset_short [OF _ clean_vals_le]) (simp_all add: obj_vals_mset)

lemma obj_vals_delete: "fold_name f \<noteq> fold_name k \<Longrightarrow> obj_vals f (map_delete k kvs) = obj_vals f kvs"
  by (induction kvs) (auto simp: map_delete_def obj_vals_Cons)

lemma obj_vals_deleted:
  assumes "clean ((k, v) # map_delete k kvs)"
  shows "obj_vals k (map_delete k kvs) = []"
  using assms by (auto simp: clean_def obj_vals_def filter_empty_conv image_iff)

lemma clean_distinct: "clean kvs \<Longrightarrow> distinct (keys kvs)"
  unfolding clean_def using distinct_map by blast

lemma go_members_sorted: "go_members F kvs acc = Some ms \<Longrightarrow> sorted_wrt (<) (keys acc) \<Longrightarrow> sorted_wrt (<) (keys ms)"
  by (induction kvs arbitrary: acc) (auto simp: map_set_sorted split: option.splits)

lemma go_members_mset:
  assumes "go_members F kvs acc = Some ms" and "distinct (keys kvs)" and "set (keys acc) \<inter> set (keys kvs) = {}" and "sorted_wrt (<) (keys acc)"
  shows "mset ms = mset acc + mset (map (\<lambda>(k, v). (k, the (go_value F v))) kvs)"
  using assms
proof (induction kvs arbitrary: acc)
  case (Cons p kvs)
  obtain k v where p: "p = (k, v)" by (cases p)
  obtain w where w: "go_value F v = Some w" "go_members F kvs (map_set k w acc) = Some ms"
    using Cons.prems(1) p by (auto split: option.splits)
  have "set (keys (map_set k w acc)) \<inter> set (keys kvs) = {}" using Cons.prems(2,3) p unfolding map_set_keys by auto
  then have "mset ms = mset (map_set k w acc) + mset (map (\<lambda>(k, v). (k, the (go_value F v))) kvs)"
    using Cons.IH [OF w(2)] Cons.prems(2,4) p map_set_sorted [of acc k w] by simp
  moreover have "map_delete k acc = acc" using Cons.prems(3) p by (intro map_delete_absent) auto
  ultimately show ?case using Cons.prems(4) p w(1) by (simp add: map_set_mset)
qed simp

lemma go_members_vals:
  assumes "go_members F kvs [] = Some ms" and "clean kvs"
  shows "obj_vals f ms = map (the \<circ> go_value F) (obj_vals f kvs)" and "clean ms"
proof -
  let ?ys = "map (\<lambda>(k, v). (k, the (go_value F v))) kvs"
  have k: "keys ?ys = keys kvs" by (auto simp: comp_def case_prod_unfold)
  then have c: "clean ?ys" using assms(2) by (simp only: clean_def)
  have m: "mset ms = mset ?ys" using go_members_mset [OF assms(1) clean_distinct [OF assms(2)]] by simp
  have "obj_vals f ms = obj_vals f ?ys" by (rule obj_vals_perm [OF m c])
  also have "\<dots> = map (the \<circ> go_value F) (obj_vals f kvs)" by (induction kvs) (auto simp: obj_vals_Cons)
  finally show "obj_vals f ms = map (the \<circ> go_value F) (obj_vals f kvs)" .
  have "mset (map fold_name (keys ms)) = mset (map fold_name (keys ?ys))" using m unfolding mset_map by (simp only:)
  then show "clean ms" using c mset_eq_imp_distinct_iff unfolding clean_def by blast
qed

text \<open>Numbers that pass through a \<^verbatim>\<open>float64\<close> unchanged.\<close>

fun exact :: "json \<Rightarrow> bool" and exact_arr :: "json list \<Rightarrow> bool" and exact_obj :: "(string \<times> json) list \<Rightarrow> bool" where
  "exact (JNum l) = exact_num l"
| "exact (JArr vs) = exact_arr vs"
| "exact (JObj kvs) = exact_obj kvs"
| "exact _ = True"
| "exact_arr [] = True"
| "exact_arr (v # vs) = (exact v \<and> exact_arr vs)"
| "exact_obj [] = True"
| "exact_obj ((k, v) # kvs) = (exact v \<and> exact_obj kvs)"

lemma jok_map_set: "utf8_valid k \<Longrightarrow> jok v \<Longrightarrow> jok_obj kvs \<Longrightarrow> jok_obj (map_set k v kvs)"
  by (induction k v kvs rule: map_set.induct) auto

lemma jok_map_delete: "jok_obj kvs \<Longrightarrow> jok_obj (map_delete k kvs)"
  by (induction kvs) (auto simp: map_delete_def)

lemma go_jok:
  "jok v \<Longrightarrow> exact v \<Longrightarrow> \<exists>w. go_value F v = Some w \<and> jok w"
  "jok_arr vs \<Longrightarrow> exact_arr vs \<Longrightarrow> \<exists>ws. go_values F vs = Some ws \<and> jok_arr ws"
  "jok_obj kvs \<Longrightarrow> exact_obj kvs \<Longrightarrow> jok_obj acc \<Longrightarrow> \<exists>ms. go_members F kvs acc = Some ms \<and> jok_obj ms"
proof (induction F v and F vs and F kvs acc rule: go_value_go_values_go_members.induct)
  case (6 F kvs)
  then show ?case by auto
next
  case (10 F k v kvs acc)
  then obtain w where "go_value F v = Some w" "jok w" by auto
  then show ?case using 10 jok_map_set by auto
qed auto

lemma go_value_decode:
  "go_value F v = Some w \<Longrightarrow> d_str w x = d_str v x" "go_value F v = Some w \<Longrightarrow> d_bool w b = d_bool v b"
  by (cases v; auto simp: d_str_def d_bool_def)+

lemma obj_vals_subset: "v \<in> set (obj_vals f kvs) \<Longrightarrow> go_members F kvs acc = Some ms \<Longrightarrow> \<exists>w. go_value F v = Some w"
  by (induction kvs arbitrary: acc) (auto simp: obj_vals_Cons split: if_splits option.splits)

lemma go_members_decode:
  assumes "go_members F kvs [] = Some ms" and "clean kvs"
  shows "get_str f ms = get_str f kvs" "fst (dec_field d_bool f ms b) = fst (dec_field d_bool f kvs b)"
proof -
  consider "obj_vals f kvs = []" | v where "obj_vals f kvs = [v]"
    using clean_vals_le [OF assms(2), of f] by (cases "obj_vals f kvs" rule: remdups_adj.cases) auto
  then have "get_str f ms = get_str f kvs \<and> fst (dec_field d_bool f ms b) = fst (dec_field d_bool f kvs b)"
  proof cases
    case 2
    then obtain w where "go_value F v = Some w" using obj_vals_subset [OF _ assms(1), of v f] by auto
    then show ?thesis using 2 go_members_vals(1) [OF assms, of f] by (simp add: get_str_def dec_field_def go_value_decode)
  qed (simp_all add: get_str_def dec_field_def go_members_vals(1) [OF assms])
  then show "get_str f ms = get_str f kvs" "fst (dec_field d_bool f ms b) = fst (dec_field d_bool f kvs b)" by blast+
qed

text \<open>Setting or deleting one key of a map leaves the fields of other names alone.\<close>

definition only_spelling :: "string \<Rightarrow> (string \<times> 'v) list \<Rightarrow> bool" where
  "only_spelling k kvs \<longleftrightarrow> list_all (\<lambda>n. fold_name n = fold_name k \<longrightarrow> n = k) (keys kvs)"

lemma clean_delete: "clean kvs \<Longrightarrow> only_spelling k kvs \<Longrightarrow> clean ((k, v) # map_delete k kvs)"
  by (induction kvs) (auto simp: clean_def only_spelling_def map_delete_def list_all_iff)

lemma obj_vals_set:
  assumes "clean kvs" "only_spelling k kvs" "sorted_wrt (<) (keys kvs)"
  shows "obj_vals f (map_set k v kvs) = (if fold_name f = fold_name k then [v] else obj_vals f kvs)"
proof -
  have c: "clean ((k, v) # map_delete k kvs)" by (rule clean_delete [OF assms(1,2)])
  have "obj_vals f (map_set k v kvs) = obj_vals f ((k, v) # map_delete k kvs)"
    by (rule obj_vals_perm) (use c assms(3) in \<open>simp_all add: map_set_mset\<close>)
  moreover have "fold_name f = fold_name k \<Longrightarrow> obj_vals f (map_delete k kvs) = []"
    using obj_vals_deleted [OF c] by (simp add: obj_vals_def)
  ultimately show ?thesis by (simp add: obj_vals_Cons obj_vals_delete)
qed

lemma spelling_mset: "mset (keys a) = mset (keys b) \<Longrightarrow> only_spelling k a = only_spelling k b"
  using mset_eq_setD [of "keys a" "keys b"] by (simp only: only_spelling_def list_all_iff)

lemma unmarshal_print:
  assumes "jok (JObj kvs)" "exact_obj kvs"
  shows "\<exists>ms. unmarshal_map F (jprint (JObj kvs)) = Some (GoMap ms) \<and> go_members F kvs [] = Some ms \<and> jok_obj ms \<and> sorted_wrt (<) (keys ms)"
  using go_jok(3) [of kvs "[]" F] assms go_members_sorted
  by (auto simp: unmarshal_map_def json_parse_print simp del: jprint.simps)

lemma go_members_spelling:
  assumes "go_members F kvs [] = Some ms" "clean kvs" "only_spelling k kvs"
  shows "only_spelling k ms"
proof -
  have "mset (keys ms) = mset (keys kvs)"
    unfolding mset_map go_members_mset [OF assms(1) clean_distinct [OF assms(2)], simplified] by (simp add: case_prod_unfold comp_def multiset.map_comp)
  then show ?thesis using spelling_mset assms(3) by blast
qed

lemma members_marshal: "jok_obj ms \<Longrightarrow> members (marshal_map (GoMap ms)) = ms"
  using members_print [of ms] by simp

lemma patched_fields:
  assumes "clean ms" "only_spelling k ms" "sorted_wrt (<) (keys ms)" "jok_obj ms" "utf8_valid k" "jok v" "fold_name f \<noteq> fold_name k"
  shows "get_str f (members (marshal_map (GoMap (map_set k v ms)))) = get_str f ms"
    "payload_flag f (marshal_map (GoMap (map_set k v ms))) = fst (dec_field d_bool f ms False)"
    "get_str f (members (marshal_map (GoMap (map_delete k ms)))) = get_str f ms"
    "payload_flag f (marshal_map (GoMap (map_delete k ms))) = fst (dec_field d_bool f ms False)"
  using assms obj_vals_set [OF assms(1-3), of f v] obj_vals_delete [of f k ms]
  by (simp_all add: payload_flag_def members_marshal jok_map_set jok_map_delete get_str_def dec_field_def del: marshal_map.simps)

text \<open>
  Archiving, trashing and favouring: the payload that is sent to set or clear a flag has exactly
  that flag changed. Every string field (name, folder, user name, password and so on) and every other
  flag reads as before. This holds for payloads of the client: objects whose keys differ up to case,
  with numbers that a \<^verbatim>\<open>float64\<close> holds.
\<close>

theorem flag_roundtrip:
  assumes "flag \<in> {''favorite'', ''archived'', ''trashed''}" "payload = jprint (JObj kvs)" "jok (JObj kvs)" "exact_obj kvs"
    "clean kvs" "only_spelling flag kvs"
  shows "\<exists>p'. flag_payload F flag v payload = Inr p' \<and> payload_flag flag p' = v \<and>
    (\<forall>f. fold_name f \<noteq> fold_name flag \<longrightarrow>
       get_str f (members p') = get_str f (members payload) \<and> payload_flag f p' = payload_flag f payload)"
proof -
  obtain ms where u: "unmarshal_map F payload = Some (GoMap ms)" "go_members F kvs [] = Some ms" "jok_obj ms" "sorted_wrt (<) (keys ms)"
    using unmarshal_print [OF assms(3,4)] assms(2) by blast
  have c: "clean ms" by (rule go_members_vals(2) [OF u(2) assms(5)])
  have o: "only_spelling flag ms" by (rule go_members_spelling [OF u(2) assms(5,6)])
  have k: "utf8_valid flag" using assms(1) by (auto intro!: utf8_key simp: byte_def)
  let ?p = "marshal_map (GoMap (if v then map_set flag (JBool True) ms else map_delete flag ms))"
  have r: "flag_payload F flag v payload = Inr ?p" by (simp add: flag_payload_def u(1) del: marshal_map.simps)
  have "obj_vals flag (map_delete flag ms) = []" by (rule obj_vals_deleted [OF clean_delete [OF c o, of JNull]])
  then have own: "payload_flag flag ?p = v"
    using u(3) k obj_vals_set [OF c o u(4), of flag "JBool True"]
    by (simp add: payload_flag_def members_marshal jok_map_set jok_map_delete dec_field_def d_bool_def del: marshal_map.simps)
  have mp: "members payload = kvs" using assms(2) members_print [OF assms(3)] by simp
  have "get_str f (members ?p) = get_str f (members payload) \<and> payload_flag f ?p = payload_flag f payload"
    if f: "fold_name f \<noteq> fold_name flag" for f
    using patched_fields [OF c o u(4,3) k, of "JBool True" f] f go_members_decode [OF u(2) assms(5)]
    by (cases v) (simp_all add: mp payload_flag_def del: marshal_map.simps)
  then show ?thesis using r own by blast
qed

definition demo_kvs :: "(string \<times> json) list" where
  "demo_kvs = [(''name'', JStr ''mail''), (''folder'', JStr ''work''), (''trashed'', JBool True)]"

theorem flag_roundtrip_witness:
  "\<exists>p'. flag_payload (\<lambda>_. None) ''archived'' True (jprint (JObj demo_kvs)) = Inr p' \<and> payload_flag ''archived'' p' \<and>
     get_str ''folder'' (members p') = ''work'' \<and> payload_flag ''trashed'' p'"
proof -
  have j: "jok (JObj demo_kvs)" by (simp add: demo_kvs_def payload_ok)
  have e: "exact_obj demo_kvs" "clean demo_kvs" "only_spelling ''archived'' demo_kvs"
    by (simp_all add: demo_kvs_def clean_def only_spelling_def between_def byte_def)
  have m: "members (jprint (JObj demo_kvs)) = demo_kvs" by (rule members_print [OF j])
  have n: "fold_name ''folder'' \<noteq> fold_name ''archived''" "fold_name ''trashed'' \<noteq> fold_name ''archived''"
    by (simp_all add: between_def byte_def)
  have v: "get_str ''folder'' demo_kvs = ''work''" "payload_flag ''trashed'' (jprint (JObj demo_kvs))"
    unfolding payload_flag_def m by (simp_all add: demo_kvs_def payload_eval d_bool_def)
  show ?thesis using flag_roundtrip [OF _ refl j e, of "\<lambda>_. None" True] n v m by fastforce
qed

text \<open>
  A flag destroys a payload that is not JSON. The readers show such a payload as a plain text note,
  but the patch starts from an empty map when it cannot be parsed, so what is sent to the server
  for an archived, trashed or favoured item holds the flag alone.
\<close>

theorem flag_loses_raw_text:
  assumes "json_parse payload = None"
  shows "no_Content (parseNotePayload payload meta) = payload \<and>
    flag_payload F flag True payload = Inr (jprint (JObj [(flag, JBool True)]))"
  using assms by (simp add: flag_payload_def unmarshal_map_def parseNotePayload_def members_def get_str_def dec_field_def obj_vals_def)

theorem flag_loses_raw_text_witness:
  "no_Content (parseNotePayload ''my text'' ''m'') = ''my text'' \<and>
   flag_payload (\<lambda>_. None) ''archived'' True ''my text'' = Inr (jprint (JObj [(''archived'', JBool True)]))"
proof -
  have "json_parse ''my text'' = None" by code_simp
  then show ?thesis using flag_loses_raw_text by blast
qed

end
