(* ===== verification/TuiPassGen.thy ===== *)
theory TuiPassGen
  imports TuiAuth Passphrase
begin

text \<open>
  The password generator panel of the TUI, \<^verbatim>\<open>src/internal/client/tui/passgen.go\<close>: its settings,
  how keys adjust them, the preview it generates and the strength meter. The generators are those of
  the crypto library (theories \<open>PassGen\<close> and \<open>Passphrase\<close>); rendering is not modelled.
\<close>

datatype passGenTab = tabPassword | tabPassphrase

text \<open>The field numbers; those of the second tab start at 1, not at 0.\<close>

definition pgFldLength :: int where "pgFldLength = 0"
definition pgFldUpper :: int where "pgFldUpper = 1"
definition pgFldLower :: int where "pgFldLower = 2"
definition pgFldDigits :: int where "pgFldDigits = 3"
definition pgFldSymbols :: int where "pgFldSymbols = 4"
definition pgFldMinDigits :: int where "pgFldMinDigits = 5"
definition pgFldMinSymbols :: int where "pgFldMinSymbols = 6"
definition pgFldAmbig :: int where "pgFldAmbig = 7"
definition pgPasswordFields :: int where "pgPasswordFields = 8"
definition ppFldWords :: int where "ppFldWords = 9 - pgPasswordFields"
definition ppFldSep :: int where "ppFldSep = 10 - pgPasswordFields"
definition ppFldCapitalize :: int where "ppFldCapitalize = 11 - pgPasswordFields"
definition ppFldIncludeNum :: int where "ppFldIncludeNum = 12 - pgPasswordFields"
definition ppPassphraseFields :: int where "ppPassphraseFields = 13 - pgPasswordFields"

lemmas field_defs = pgFldLength_def pgFldUpper_def pgFldLower_def pgFldDigits_def pgFldSymbols_def pgFldMinDigits_def
  pgFldMinSymbols_def pgFldAmbig_def pgPasswordFields_def ppFldWords_def ppFldSep_def ppFldCapitalize_def ppFldIncludeNum_def
  ppPassphraseFields_def

definition passGenSeps :: "string list" where
  "passGenSeps = [''-'', ''_'', ''.'', '' '', [] ]"

record passGenState =
  pg_tab :: passGenTab
  pg_focus :: int
  pg_length :: int
  pg_useUpper :: bool
  pg_useLower :: bool
  pg_useDigits :: bool
  pg_useSymbols :: bool
  pg_minDigits :: int
  pg_minSymbols :: int
  pg_avoidAmbig :: bool
  pg_wordCount :: int
  pg_separatorIdx :: int
  pg_capitalize :: bool
  pg_includeNum :: bool
  pg_preview :: string
  pg_targetFieldIdx :: int

text \<open>Generated passwords are ASCII, where \<^verbatim>\<open>unicode.IsDigit\<close> and \<^verbatim>\<open>unicode.IsLetter\<close> are ranges.\<close>

definition ascii_digit :: "char \<Rightarrow> bool" where "ascii_digit c \<longleftrightarrow> between 48 c 57"
definition ascii_letter :: "char \<Rightarrow> bool" where "ascii_letter c \<longleftrightarrow> between 65 c 90 \<or> between 97 c 122"

definition passGenMeetsMinimums :: "string \<Rightarrow> int \<Rightarrow> int \<Rightarrow> bool" where
  "passGenMeetsMinimums pwd minDigits minSymbols \<longleftrightarrow>
     int (length (filter ascii_digit pwd)) \<ge> minDigits \<and>
     int (length (filter (\<lambda>c. \<not> ascii_digit c \<and> \<not> ascii_letter c) pwd)) \<ge> minSymbols"

definition pg_opts :: "passGenState \<Rightarrow> PasswordOpts" where
  "pg_opts s = \<lparr>po_Length = pg_length s, po_Upper = pg_useUpper s, po_Digits = pg_useDigits s, po_Symbols = pg_useSymbols s,
     po_NoAmbiguous = pg_avoidAmbig s\<rparr>"

definition sep_at :: "int \<Rightarrow> string result" where
  "sep_at i = (if 0 \<le> i \<and> i < int (length passGenSeps) then Inr (passGenSeps ! nat i) else Inl (Panic ''index out of range''))"

definition pp_opts :: "passGenState \<Rightarrow> string \<Rightarrow> PassphraseOpts" where
  "pp_opts s sep = \<lparr>pp_Words = pg_wordCount s, pp_Separator = sep, pp_Capitalize = pg_capitalize s, pp_IncludeNum = pg_includeNum s\<rparr>"

text \<open>
  Up to \<open>n\<close> attempts at a password with the minimums. \<open>Inr (Inl p)\<close> is one that has them;
  \<open>Inr (Inr p)\<close> says that none of the attempts did, with the last one.
\<close>

fun attempts :: "rand_draws \<Rightarrow> PasswordOpts \<Rightarrow> int \<Rightarrow> int \<Rightarrow> nat \<Rightarrow> nat \<Rightarrow> string \<Rightarrow> (string + string) result \<times> nat" where
  "attempts rnd opts minD minS 0 k preview = (Inr (Inr preview), k)"
| "attempts rnd opts minD minS (Suc n) k preview =
     (case GeneratePassword rnd opts k of
        (Inl e, k1) \<Rightarrow> (Inl e, k1)
      | (Inr pwd, k1) \<Rightarrow>
          if passGenMeetsMinimums pwd minD minS then (Inr (Inl pwd), k1) else attempts rnd opts minD minS n k1 pwd)"

definition or_text :: "string \<Rightarrow> string result \<Rightarrow> string" where
  "or_text t r = (case r of Inl _ \<Rightarrow> t | Inr p \<Rightarrow> p)"

text \<open>The message of \<^verbatim>\<open>refreshCmd\<close>: the separator is read when the command is made, outside it.\<close>

definition refreshCmd :: "rand_draws \<Rightarrow> nat \<Rightarrow> passGenState \<Rightarrow> string result" where
  "refreshCmd rnd k s =
     (case sep_at (pg_separatorIdx s) of
        Inl e \<Rightarrow> Inl e
      | Inr sep \<Rightarrow>
          Inr (case pg_tab s of
                 tabPassword \<Rightarrow>
                   (case fst (attempts rnd (pg_opts s) (pg_minDigits s) (pg_minSymbols s) 30 k []) of
                      Inl _ \<Rightarrow> ''error''
                    | Inr (Inl p) \<Rightarrow> p
                    | Inr (Inr p) \<Rightarrow> p)
               | tabPassphrase \<Rightarrow> or_text ''error'' (fst (GeneratePassphrase rnd (pp_opts s sep) k))))"

definition refresh :: "rand_draws \<Rightarrow> nat \<Rightarrow> passGenState \<Rightarrow> passGenState result" where
  "refresh rnd k s =
     (case pg_tab s of
        tabPassword \<Rightarrow>
          Inr (s\<lparr>pg_preview :=
            (case attempts rnd (pg_opts s) (pg_minDigits s) (pg_minSymbols s) 30 k [] of
               (Inl _, k1) \<Rightarrow> ''generation error''
             | (Inr (Inl p), k1) \<Rightarrow> p
             | (Inr (Inr _), k1) \<Rightarrow> or_text ''generation error'' (fst (GeneratePassword rnd (pg_opts s) k1)))\<rparr>)
      | tabPassphrase \<Rightarrow>
          (case sep_at (pg_separatorIdx s) of
             Inl e \<Rightarrow> Inl e
           | Inr sep \<Rightarrow> Inr (s\<lparr>pg_preview := or_text ''generation error'' (fst (GeneratePassphrase rnd (pp_opts s sep) k))\<rparr>)))"

definition newPassGenState :: "rand_draws \<Rightarrow> nat \<Rightarrow> int \<Rightarrow> passGenState result" where
  "newPassGenState rnd k target = refresh rnd k
     \<lparr>pg_tab = tabPassword, pg_focus = pgFldLength, pg_length = 20, pg_useUpper = True, pg_useLower = True, pg_useDigits = True,
      pg_useSymbols = True, pg_minDigits = 1, pg_minSymbols = 1, pg_avoidAmbig = False, pg_wordCount = 5, pg_separatorIdx = 0,
      pg_capitalize = True, pg_includeNum = True, pg_preview = [], pg_targetFieldIdx = target\<rparr>"

definition maxFocus :: "passGenState \<Rightarrow> int" where
  "maxFocus s = (case pg_tab s of tabPassphrase \<Rightarrow> ppPassphraseFields - 1 | tabPassword \<Rightarrow> pgPasswordFields - 1)"

definition clamp :: "int \<Rightarrow> int \<Rightarrow> int \<Rightarrow> int" where
  "clamp lo hi n = (let a = (if n < lo then lo else n) in if a > hi then hi else a)"

text \<open>Go's \<^verbatim>\<open>/\<close> and \<^verbatim>\<open>%\<close> agree with \<open>div\<close> and \<open>mod\<close> here: the operands are not negative.\<close>

definition adjustFocused :: "int \<Rightarrow> passGenState \<Rightarrow> passGenState" where
  "adjustFocused delta s =
     (case pg_tab s of
        tabPassword \<Rightarrow>
          (if pg_focus s = pgFldLength then s\<lparr>pg_length := clamp 4 128 (pg_length s + delta)\<rparr>
           else if pg_focus s = pgFldMinDigits then s\<lparr>pg_minDigits := clamp 0 (pg_length s div 2) (pg_minDigits s + delta)\<rparr>
           else if pg_focus s = pgFldMinSymbols then s\<lparr>pg_minSymbols := clamp 0 (pg_length s div 2) (pg_minSymbols s + delta)\<rparr>
           else s)
      | tabPassphrase \<Rightarrow>
          (if pg_focus s = ppFldWords then s\<lparr>pg_wordCount := clamp 2 10 (pg_wordCount s + delta)\<rparr>
           else if pg_focus s = ppFldSep then
             s\<lparr>pg_separatorIdx := (pg_separatorIdx s + delta + int (length passGenSeps)) mod int (length passGenSeps)\<rparr>
           else s))"

definition toggleFocused :: "passGenState \<Rightarrow> passGenState" where
  "toggleFocused s =
     (case pg_tab s of
        tabPassword \<Rightarrow>
          (if pg_focus s = pgFldUpper then s\<lparr>pg_useUpper := \<not> pg_useUpper s\<rparr>
           else if pg_focus s = pgFldLower then s\<lparr>pg_useLower := \<not> pg_useLower s\<rparr>
           else if pg_focus s = pgFldDigits then s\<lparr>pg_useDigits := \<not> pg_useDigits s\<rparr>
           else if pg_focus s = pgFldSymbols then s\<lparr>pg_useSymbols := \<not> pg_useSymbols s\<rparr>
           else if pg_focus s = pgFldAmbig then s\<lparr>pg_avoidAmbig := \<not> pg_avoidAmbig s\<rparr>
           else s)
      | tabPassphrase \<Rightarrow>
          (if pg_focus s = ppFldCapitalize then s\<lparr>pg_capitalize := \<not> pg_capitalize s\<rparr>
           else if pg_focus s = ppFldIncludeNum then s\<lparr>pg_includeNum := \<not> pg_includeNum s\<rparr>
           else s))"

section \<open>The strength meter\<close>

text \<open>The runes of a string, each by its UTF-8 bytes; an invalid byte is the replacement character.\<close>

fun runes :: "string \<Rightarrow> string list" where
  "runes [] = []"
| "runes (c # cs) =
     (let n = utf8_len (c # cs) in
      if n = 0 then encode_rune 65533 # runes cs else take n (c # cs) # runes (drop (n - 1) cs))"

declare runes.simps [simp del]

definition rune_in :: "nat \<Rightarrow> nat \<Rightarrow> string \<Rightarrow> bool" where
  "rune_in lo hi r \<longleftrightarrow> (case r of [c] \<Rightarrow> between lo c hi | _ \<Rightarrow> False)"

definition has_upper :: "string \<Rightarrow> bool" where "has_upper p \<longleftrightarrow> list_ex (rune_in 65 90) (runes p)"
definition has_lower :: "string \<Rightarrow> bool" where "has_lower p \<longleftrightarrow> list_ex (rune_in 97 122) (runes p)"
definition has_digit :: "string \<Rightarrow> bool" where "has_digit p \<longleftrightarrow> list_ex (rune_in 48 57) (runes p)"
definition has_sym :: "string \<Rightarrow> bool" where
  "has_sym p \<longleftrightarrow> list_ex (\<lambda>r. \<not> rune_in 65 90 r \<and> \<not> rune_in 97 122 r \<and> \<not> rune_in 48 57 r) (runes p)"

definition passwordStrength :: "string \<Rightarrow> int \<times> string" where
  "passwordStrength pwd =
     (if pwd = [] then (0, [])
      else
        let l = length (runes pwd);
            score = (if l \<ge> 24 then 40 else if l \<ge> 16 then 30 else if l \<ge> 12 then 20 else if l \<ge> 8 then 10 else 0) +
              (if has_upper pwd then 15 else 0) + (if has_lower pwd then 15 else 0) +
              (if has_digit pwd then 15 else 0) + (if has_sym pwd then 15 else 0)
        in (score, if score \<ge> 85 then ''very strong'' else if score \<ge> 65 then ''strong'' else if score \<ge> 45 then ''fair''
              else if score \<ge> 25 then ''weak'' else ''very weak''))"

text \<open>\<^verbatim>\<open>strings.Repeat\<close> panics on a negative count: the cells of the bar that are filled and empty.\<close>

definition strings_Repeat :: "int \<Rightarrow> nat result" where
  "strings_Repeat n = (if n < 0 then Inl (Panic ''strings: negative Repeat count'') else Inr (nat n))"

definition strengthBar :: "string \<Rightarrow> int \<Rightarrow> (nat \<times> nat \<times> string) result" where
  "strengthBar pwd width =
     (let (score, label) = passwordStrength pwd; barFilled = score * width div 100 in
      bnd (strings_Repeat barFilled) (\<lambda>full. bnd (strings_Repeat (width - barFilled)) (\<lambda>rest. Inr (full, rest, label))))"

lemma strength_score: "0 \<le> fst (passwordStrength pwd) \<and> fst (passwordStrength pwd) \<le> 100"
  by (simp add: passwordStrength_def Let_def)

lemma strength_bar: "0 \<le> width \<Longrightarrow> \<exists>full rest l. strengthBar pwd width = Inr (full, rest, l) \<and> int full + int rest = width"
proof -
  assume w: "0 \<le> width"
  obtain sc l where p: "passwordStrength pwd = (sc, l)" by fastforce
  have s: "0 \<le> sc" "sc \<le> 100" using strength_score [of pwd] p by simp_all
  have "sc * width \<le> 100 * width" using s w by (intro mult_right_mono)
  then have "sc * width div 100 \<le> width" using zdiv_mono1 [of "sc * width" "100 * width" 100] by simp
  moreover have "0 \<le> sc * width div 100" using s w by (simp add: pos_imp_zdiv_nonneg_iff)
  ultimately show ?thesis using p by (simp add: strengthBar_def strings_Repeat_def bnd_def Let_def)
qed

section \<open>The settings stay in range\<close>

definition passgen_ok :: "passGenState \<Rightarrow> bool" where
  "passgen_ok s \<longleftrightarrow> 4 \<le> pg_length s \<and> pg_length s \<le> 128 \<and> 0 \<le> pg_minDigits s \<and> pg_minDigits s \<le> 64 \<and>
     0 \<le> pg_minSymbols s \<and> pg_minSymbols s \<le> 64 \<and> 2 \<le> pg_wordCount s \<and> pg_wordCount s \<le> 10 \<and>
     0 \<le> pg_separatorIdx s \<and> pg_separatorIdx s < 5 \<and> 0 \<le> pg_focus s \<and> pg_focus s \<le> maxFocus s"

lemma clamp_range: "lo \<le> hi \<Longrightarrow> lo \<le> clamp lo hi n \<and> clamp lo hi n \<le> hi"
  by (simp add: clamp_def Let_def)

lemma adjust_ok: "passgen_ok s \<Longrightarrow> passgen_ok (adjustFocused d s)"
  using clamp_range [of 4 128 "pg_length s + d"] clamp_range [of 0 "pg_length s div 2" "pg_minDigits s + d"]
    clamp_range [of 0 "pg_length s div 2" "pg_minSymbols s + d"] clamp_range [of 2 10 "pg_wordCount s + d"]
  by (cases "pg_tab s") (auto simp: passgen_ok_def adjustFocused_def maxFocus_def passGenSeps_def)

lemma toggle_ok: "passgen_ok s \<Longrightarrow> passgen_ok (toggleFocused s)"
  by (cases "pg_tab s") (auto simp: passgen_ok_def toggleFocused_def maxFocus_def)

lemma sep_at_ok: "passgen_ok s \<Longrightarrow> \<exists>sep. sep_at (pg_separatorIdx s) = Inr sep"
  by (simp add: sep_at_def passgen_ok_def passGenSeps_def)

lemma refreshCmd_ok: "passgen_ok s \<Longrightarrow> \<exists>p. refreshCmd rnd k s = Inr p"
  using sep_at_ok [of s] by (auto simp: refreshCmd_def)

lemma newPassGenState_ok: "\<exists>s. newPassGenState rnd k t = Inr s \<and> passgen_ok s \<and> pg_targetFieldIdx s = t"
  by (simp add: newPassGenState_def refresh_def passgen_ok_def maxFocus_def field_defs)

lemma attempts_min:
  "fst (attempts rnd opts minD minS n k p0) = Inr (Inl p) \<Longrightarrow> passGenMeetsMinimums p minD minS"
  by (induction n arbitrary: k p0) (auto split: prod.splits sum.splits if_splits)

text \<open>
  The password panel: from any settings in range every adjustment and toggle leads to
  settings in range (a length of 4 to 128, minimums of 0 to 64, 2 to 10 words, a separator of
  the list), a new panel starts in range, generating a preview from such settings never panics, and the
  strength meter always fills exactly its width.
\<close>

theorem passgen_panel_safe:
  assumes "passgen_ok s" and "0 \<le> width"
  shows "passgen_ok (adjustFocused 1 s) \<and> passgen_ok (adjustFocused (- 1) s) \<and> passgen_ok (toggleFocused s) \<and>
    (\<exists>s'. newPassGenState rnd k t = Inr s' \<and> passgen_ok s') \<and> (\<exists>p. refreshCmd rnd k s = Inr p) \<and>
    (\<exists>full rest l. strengthBar pwd width = Inr (full, rest, l) \<and> int full + int rest = width) \<and>
    0 \<le> fst (passwordStrength pwd) \<and> fst (passwordStrength pwd) \<le> 100"
  using adjust_ok [OF assms(1)] toggle_ok [OF assms(1)] newPassGenState_ok refreshCmd_ok [OF assms(1)] strength_bar [OF assms(2)]
    strength_score by blast

definition demo_panel :: passGenState where
  "demo_panel = \<lparr>pg_tab = tabPassword, pg_focus = 0, pg_length = 128, pg_useUpper = True, pg_useLower = True, pg_useDigits = True,
      pg_useSymbols = True, pg_minDigits = 1, pg_minSymbols = 1, pg_avoidAmbig = False, pg_wordCount = 5, pg_separatorIdx = 0,
      pg_capitalize = True, pg_includeNum = True, pg_preview = [], pg_targetFieldIdx = -1\<rparr>"

theorem passgen_panel_safe_witness:
  "passgen_ok demo_panel \<and> passgen_ok (adjustFocused 1 demo_panel) \<and> pg_length (adjustFocused 1 demo_panel) = 128 \<and>
   (\<exists>full rest l. strengthBar ''Secret-1'' 54 = Inr (full, rest, l) \<and> int full + int rest = 54)"
proof -
  have p: "passgen_ok demo_panel" by (simp add: passgen_ok_def demo_panel_def maxFocus_def field_defs)
  have l: "pg_length (adjustFocused 1 demo_panel) = 128" by (simp add: adjustFocused_def demo_panel_def clamp_def field_defs)
  show ?thesis using passgen_panel_safe [OF p, of 54 "\<lambda>_. None" 0 0 "''Secret-1''"] p l by simp
qed

end
