(* ===== verification/TuiView.thy ===== *)
theory TuiView
  imports TuiVault
begin

text \<open>
  What the vault screen shows, from the \<^verbatim>\<open>View\<close> functions of \<^verbatim>\<open>src/internal/client/tui/app.go\<close> and
  \<^verbatim>\<open>passgen.go\<close>: the texts, their masks and the arithmetic of their widths. The terminal library is the parameter
  \<open>view_lib\<close>: rendering in a style (named as the variable that holds it), boxes of a given size,
  joining blocks, display widths, text inputs, and the local time zone. A panic is an error value: an
  index out of range, a slice past the end, a negative count of \<^verbatim>\<open>strings.Repeat\<close>, a form that is not there.
\<close>

record view_lib =
  vl_Render :: "string \<Rightarrow> string \<Rightarrow> string"
  vl_Box :: "string \<Rightarrow> int \<Rightarrow> int option \<Rightarrow> string \<Rightarrow> string"
  vl_JoinHorizontal :: "string list \<Rightarrow> string"
  vl_JoinVertical :: "string list \<Rightarrow> string"
  vl_Width :: "string \<Rightarrow> nat"
  vl_Height :: "string \<Rightarrow> nat"
  vl_RuneWidth :: "string \<Rightarrow> nat"
  vl_InputView :: "textinput \<Rightarrow> string"
  vl_local :: "time \<Rightarrow> gotime"
  vl_now :: time

abbreviation nl :: string where "nl \<equiv> [CHR 0x0A]"

abbreviation rn :: "nat \<Rightarrow> string" where "rn \<equiv> encode_rune"

definition Repeat :: "string \<Rightarrow> int \<Rightarrow> string result" where
  "Repeat s n = bnd (strings_Repeat n) (\<lambda>k. Inr (concat (replicate k s)))"

text \<open>Writing to the builder piece by piece; the first panic ends it.\<close>

fun pieces :: "string result list \<Rightarrow> string result" where
  "pieces [] = Inr []"
| "pieces (r # rs) = bnd r (\<lambda>s. bnd (pieces rs) (\<lambda>t. Inr (s @ t)))"

definition unless_empty :: "string \<Rightarrow> string result \<Rightarrow> string result" where
  "unless_empty s r = (if s = [] then Inr [] else r)"

section \<open>Helpers\<close>

definition truncate_str :: "string \<Rightarrow> int \<Rightarrow> string" where
  "truncate_str s n =
     (if n \<le> 0 then []
      else let rs = runes s in
        if int (length rs) \<le> n then s
        else if n = 1 then rn 0x2026
        else concat (take (nat (n - 1)) rs) @ rn 0x2026)"

definition hk :: "view_lib \<Rightarrow> string \<Rightarrow> string \<Rightarrow> string" where
  "hk V k label = vl_Render V ''keyStyle'' k @ '' '' @ label"

definition formatTOTP :: "string \<Rightarrow> string" where
  "formatTOTP code = (if length code = 6 then take 3 code @ '' '' @ drop 3 code else code)"

text \<open>The product is exact in floating point and its quotient by 30 never rounds up to a whole number.\<close>

definition totpBar :: "view_lib \<Rightarrow> int \<Rightarrow> int \<Rightarrow> string result" where
  "totpBar V remaining width =
     (let filled = min (width * remaining div 30) width in
      bnd (Repeat (rn 0x2588) filled) (\<lambda>full. bnd (Repeat (rn 0x2591) (width - filled)) (\<lambda>rest.
        Inr (vl_Render V (if remaining \<le> 5 then ''otpDangerStyle'' else if remaining \<le> 10 then ''otpTimerStyle'' else ''otpSafeStyle'')
          (full @ rest)))))"

text \<open>Go's remainder has the sign of the dividend.\<close>

definition go_mod :: "int \<Rightarrow> int \<Rightarrow> int" where
  "go_mod a b = (if a \<ge> 0 then a mod b else - ((- a) mod b))"

definition totp_remaining :: "Model \<Rightarrow> int" where
  "totp_remaining m = 30 - go_mod (vm_now m div second) 30"

definition dField :: "view_lib \<Rightarrow> nat \<Rightarrow> string \<Rightarrow> string \<Rightarrow> int \<Rightarrow> string result" where
  "dField V icon label v tw =
     bnd (Repeat (rn 0xB7) tw) (\<lambda>dots.
       Inr (vl_Render V ''detailLabelStyle'' ('' '' @ rn icon @ ''  '' @ label) @ nl @ vl_Render V ''detailValueStyle'' (''    '' @ v) @ nl @
         vl_Render V ''dimStyle'' ('' '' @ dots) @ nl))"

definition dFieldStyled :: "view_lib \<Rightarrow> nat \<Rightarrow> string \<Rightarrow> string \<Rightarrow> string \<Rightarrow> string" where
  "dFieldStyled V icon label v sty =
     vl_Render V ''detailLabelStyle'' ('' '' @ rn icon @ ''  '' @ label) @ nl @ vl_Render V sty (''    '' @ v) @ nl"

definition slice_to :: "nat \<Rightarrow> string \<Rightarrow> string result" where
  "slice_to n s = (if n \<le> length s then Inr (take n s) else Inl (Panic ''slice bounds out of range''))"

text \<open>The name of an item, or the start of its identifier.\<close>

definition item_name :: "pb_VaultItem \<Rightarrow> string result" where
  "item_name item = (if pb_Metadata item = [] then slice_to 8 (pb_Id item) else Inr (pb_Metadata item))"

definition has2FA :: "pb_VaultItem \<Rightarrow> bool" where
  "has2FA item \<longleftrightarrow> pb_Type item = ItemType_OTP \<or> lo_TOTPKey (parseLoginPayload (pb_Payload item) []) \<noteq> []"

definition last4 :: "string \<Rightarrow> string" where
  "last4 s = drop (length s - 4) s"

definition itemSubtitle :: "pb_VaultItem \<Rightarrow> string" where
  "itemSubtitle item =
     (case pb_Type item of
        ItemType_CREDENTIAL \<Rightarrow> lo_Username (parseLoginPayload (pb_Payload item) [])
      | ItemType_CARD \<Rightarrow>
          (let n = ca_Number (parseCardPayload (pb_Payload item) []) in if n \<noteq> [] \<and> length n \<ge> 4 then bullets 4 @ '' '' @ last4 n else [])
      | ItemType_OTP \<Rightarrow> au_Issuer (parseAuthPayload (pb_Payload item) [])
      | _ \<Rightarrow> [])"

definition itemIconBadgeForItem :: "view_lib \<Rightarrow> pb_VaultItem \<Rightarrow> string" where
  "itemIconBadgeForItem V item =
     (if isFileItem item then vl_Render V ''listIconDefaultStyle'' (rn 0x1F4CE)
      else if isSSHKey item then vl_Render V ''listIconNoteStyle'' (rn 0x1F5DD)
      else (case pb_Type item of
          ItemType_CREDENTIAL \<Rightarrow> vl_Render V ''listIconLoginStyle'' (rn 0x1F511)
        | ItemType_CARD \<Rightarrow> vl_Render V ''listIconCardStyle'' (rn 0x1F4B3)
        | ItemType_TEXT \<Rightarrow> vl_Render V ''listIconNoteStyle'' (rn 0x1F4C4)
        | ItemType_OTP \<Rightarrow> vl_Render V ''listIconOtpStyle'' (rn 0x1F510)
        | ItemType_BINARY \<Rightarrow> vl_Render V ''listIconIdStyle'' (rn 0x1F464)
        | _ \<Rightarrow> vl_Render V ''listIconDefaultStyle'' (rn 0x1F4C1)))"

section \<open>The detail panel\<close>

definition totp_lines :: "view_lib \<Rightarrow> 'r tui_env \<Rightarrow> Model \<Rightarrow> string \<Rightarrow> string \<Rightarrow> int \<Rightarrow> string result" where
  "totp_lines V env m title secret width =
     (let code = generateTOTP env m secret; remaining = totp_remaining m in
      pieces [Inr (nl @ '' '' @ vl_Render V ''detailSectionStyle'' title @ nl),
        Inr ('' '' @ vl_Render V ''detailRevealedStyle'' (formatTOTP code) @ ''  '' @
          vl_Render V ''otpTimerStyle'' (''('' @ int_text remaining @ ''s)'') @ nl @ '' ''),
        totpBar V remaining width, Inr nl])"

text \<open>\<^verbatim>\<open>02.01.06\<close>\<close>

definition short_date :: "gotime \<Rightarrow> string" where
  "short_date t = pad 2 (t_day t) @ ''.'' @ pad 2 (t_month t) @ ''.'' @ pad 2 (t_year t mod 100)"

definition history_line :: "view_lib \<Rightarrow> bool \<Rightarrow> int \<Rightarrow> PasswordHistoryEntry \<Rightarrow> string" where
  "history_line V reveal tw h =
     vl_Render V ''detailHistoryStyle'' (''  '' @ short_date (ph_LastUsed h) @ ''  '' @
       (if reveal then truncate_str (ph_Password h) (tw - 14) else bullets 12)) @ nl"

definition renderLoginDetail :: "view_lib \<Rightarrow> 'r tui_env \<Rightarrow> Model \<Rightarrow> LoginPayload \<Rightarrow> int \<Rightarrow> string result" where
  "renderLoginDetail V env m p tw =
     pieces [
       unless_empty (lo_Username p) (dField V 0x1F464 ''Username'' (lo_Username p) tw),
       unless_empty (lo_Password p)
         (if vm_revealPwd m then Inr (dFieldStyled V 0x1F511 ''Password'' (truncate_str (lo_Password p) (tw - 6)) ''detailRevealedStyle'')
          else dField V 0x1F511 ''Password'' (bullets 12) tw),
       unless_empty (lo_URL p) (dField V 0x1F310 ''Website'' (truncate_str (lo_URL p) (tw - 6)) tw),
       unless_empty (lo_TOTPKey p) (totp_lines V env m ''2FA'' (lo_TOTPKey p) (tw - 2)),
       unless_empty (lo_Notes p) (dField V 0x1F4DD ''Notes'' (truncate_str (lo_Notes p) (tw - 6)) tw),
       Inr (if lo_History p = [] then []
            else nl @ '' '' @ vl_Render V ''detailSectionStyle'' ''Password History'' @ nl @
              concat (map (history_line V (vm_revealPwd m) tw) (take 5 (lo_History p))))]"

definition renderCardDetail :: "view_lib \<Rightarrow> Model \<Rightarrow> CardPayload \<Rightarrow> int \<Rightarrow> string result" where
  "renderCardDetail V m p tw =
     pieces [
       unless_empty (ca_CardholderName p) (dField V 0x1F464 ''Cardholder'' (ca_CardholderName p) tw),
       unless_empty (ca_Number p) (dField V 0x1F4B3 ''Card Number''
         (if \<not> vm_revealPwd m \<and> length (ca_Number p) > 4
          then bullets 4 @ '' '' @ bullets 4 @ '' '' @ bullets 4 @ '' '' @ last4 (ca_Number p) else ca_Number p) tw),
       (if ca_ExpMonth p \<noteq> [] \<or> ca_ExpYear p \<noteq> [] then dField V 0x1F4C5 ''Expires'' (ca_ExpMonth p @ ''/'' @ ca_ExpYear p) tw else Inr []),
       unless_empty (ca_CVV p) (dField V 0x1F512 ''CVV'' (if vm_revealPwd m then ca_CVV p else bullets 3) tw),
       unless_empty (ca_Notes p) (dField V 0x1F4DD ''Notes'' (truncate_str (ca_Notes p) (tw - 6)) tw)]"

definition renderAuthDetail :: "view_lib \<Rightarrow> 'r tui_env \<Rightarrow> Model \<Rightarrow> AuthPayload \<Rightarrow> string result" where
  "renderAuthDetail V env m p =
     pieces [
       unless_empty (au_Issuer p) (Inr (vl_Render V ''detailLabelStyle'' ('' '' @ rn 0x1F3E2 @ ''  Issuer'') @ nl @
         vl_Render V ''detailValueStyle'' (''    '' @ au_Issuer p) @ nl)),
       unless_empty (au_Secret p) (totp_lines V env m ''2FA Code'' (au_Secret p) 20)]"

definition renderFileDetail :: "view_lib \<Rightarrow> FilePayload \<Rightarrow> int \<Rightarrow> string result" where
  "renderFileDetail V p tw =
     pieces [Inr (vl_Render V ''detailSectionStyle'' '' FILE ATTACHMENT'' @ nl), dField V 0x1F4CE ''File Name'' (fp_FileName p) tw,
       dField V 0x1F4E6 ''Size'' (FormatFileSize (fp_Size p)) tw, dField V 0x1F5C2 ''MIME Type'' (fp_MimeType p) tw]"

definition renderSSHDetail :: "view_lib \<Rightarrow> Model \<Rightarrow> SSHKeyPayload \<Rightarrow> int \<Rightarrow> string result" where
  "renderSSHDetail V m p tw =
     pieces [Inr (vl_Render V ''detailSectionStyle'' '' SSH KEY'' @ nl),
       unless_empty (sk_KeyType p) (dField V 0x1F5DD ''Type'' (sk_KeyType p) tw),
       unless_empty (sk_PublicKey p) (dField V 0x1F4CB ''Public Key'' (truncate_str (sk_PublicKey p) (tw - 6)) tw),
       unless_empty (sk_PrivateKey p)
         (if vm_revealPwd m then Inr (dFieldStyled V 0x1F512 ''Private Key'' (truncate_str (sk_PrivateKey p) (tw - 6)) ''detailRevealedStyle'')
          else dField V 0x1F512 ''Private Key'' ''-----BEGIN ... KEY-----'' tw),
       unless_empty (sk_Comment p) (dField V 0x1F4AC ''Comment'' (sk_Comment p) tw)]"

definition renderIdentityDetail :: "view_lib \<Rightarrow> IdentityPayload \<Rightarrow> int \<Rightarrow> string result" where
  "renderIdentityDetail V p tw =
     pieces [
       (if id_FirstName p \<noteq> [] \<or> id_LastName p \<noteq> [] then dField V 0x1F464 ''Name'' (id_FirstName p @ '' '' @ id_LastName p) tw else Inr []),
       unless_empty (id_Email p) (dField V 0x2709 ''Email'' (id_Email p) tw),
       unless_empty (id_Phone p) (dField V 0x1F4DE ''Phone'' (id_Phone p) tw),
       unless_empty (id_Company p) (dField V 0x1F3E2 ''Company'' (id_Company p) tw)]"

text \<open>The fields of an item by its kind.\<close>

definition detail_fields :: "view_lib \<Rightarrow> 'r tui_env \<Rightarrow> Model \<Rightarrow> pb_VaultItem \<Rightarrow> int \<Rightarrow> string result" where
  "detail_fields V env m item tw =
     (let raw = pb_Payload item; meta = pb_Metadata item in
      if isFileItem item then renderFileDetail V (parseFilePayload raw meta) tw
      else if isSSHKey item then renderSSHDetail V m (parseSSHKeyPayload raw meta) tw
      else (case pb_Type item of
          ItemType_CREDENTIAL \<Rightarrow> renderLoginDetail V env m (parseLoginPayload raw meta) tw
        | ItemType_CARD \<Rightarrow> renderCardDetail V m (parseCardPayload raw meta) tw
        | ItemType_TEXT \<Rightarrow> dField V 0x1F4DD ''Note'' (no_Content (parseNotePayload raw meta)) tw
        | ItemType_BINARY \<Rightarrow> renderIdentityDetail V (parseIdentityPayload raw meta) tw
        | ItemType_OTP \<Rightarrow> renderAuthDetail V env m (parseAuthPayload raw meta)
        | _ \<Rightarrow> Inr []))"

definition detail_text :: "view_lib \<Rightarrow> 'r tui_env \<Rightarrow> Model \<Rightarrow> pb_VaultItem \<Rightarrow> int \<Rightarrow> string result" where
  "detail_text V env m item tw =
     pieces [
       Inr nl,
       bnd (item_name item) (\<lambda>name. Inr ('' '' @ itemIconBadgeForItem V item @ ''  '' @ vl_Render V ''detailTitleStyle''
         (truncate_str name (tw - 6) @ (if isFavorite item then '' '' @ rn 0x2B50 else [])) @ nl)),
       Inr (if getItemFolder item = [] then [] else ''      '' @ vl_Render V ''detailFolderTagStyle'' (''  '' @ getItemFolder item @ ''  '') @ nl),
       Inr nl,
       bnd (Repeat (rn 0x2500) tw) (\<lambda>line. Inr (vl_Render V ''dimStyle'' ('' '' @ line) @ nl @ nl)),
       detail_fields V env m item tw,
       unless_empty (vm_toast m) (Inr (nl @ vl_Render V ''toastStyle'' ('' '' @ rn 0x2713 @ ''  '' @ vm_toast m) @ nl)),
       unless_empty (vm_lastErr m) (Inr (nl @ vl_Render V ''errorStyle'' ('' '' @ rn 0x2717 @ ''  '' @ truncate_str (vm_lastErr m) tw) @ nl))]"

definition index_item :: "int \<Rightarrow> pb_VaultItem list \<Rightarrow> pb_VaultItem result" where
  "index_item i items = (if 0 \<le> i \<and> i < int (length items) then Inr (items ! nat i) else Inl (Panic ''index out of range''))"

definition renderDetail :: "view_lib \<Rightarrow> 'r tui_env \<Rightarrow> Model \<Rightarrow> int \<Rightarrow> int \<Rightarrow> string result" where
  "renderDetail V env m w h =
     (let panel = vl_Box V ''detailPanelStyle'' w (Some h); items = shown_items env m in
      if items = [] \<or> vm_listIdx m \<ge> int (length items) then Inr (panel (vl_Render V ''dimStyle'' (nl @ ''  Select an item'')))
      else bnd (index_item (vm_listIdx m) items) (\<lambda>item.
        if w < 10 then Inr (panel (rn 0x2026))
        else bnd (detail_text V env m item (w - 4)) (\<lambda>s. Inr (panel s))))"

section \<open>List, sidebar, header and status line\<close>

definition list_rows :: "view_lib \<Rightarrow> Model \<Rightarrow> int \<Rightarrow> bool \<Rightarrow> nat \<Rightarrow> pb_VaultItem \<Rightarrow> string list result" where
  "list_rows V m w in_folder i item =
     bnd (item_name item) (\<lambda>name.
     bnd (if i > 0 then bnd (Repeat (rn 0xB7) (w - 4)) (\<lambda>dots. Inr [vl_Render V ''dimStyle'' (''  '' @ dots)]) else Inr []) (\<lambda>sep.
       let tags = (if isFavorite item then rn 0x2B50 @ '' '' else []) @
             (if getItemFolder item \<noteq> [] \<and> \<not> in_folder then vl_Render V ''listFolderTagStyle'' ('' '' @ getItemFolder item @ '' '') @ '' '' else []) @
             (if has2FA item then vl_Render V ''list2FABadgeStyle'' ''2FA'' @ '' '' else []);
           nameLine = ''  '' @ itemIconBadgeForItem V item @ ''  '' @ truncate_str name 28 @ ''  '' @ tags;
           subLine = ''        '' @ truncate_str (itemSubtitle item) 32
       in Inr (sep @ (if int i = vm_listIdx m
            then [vl_Box V ''listSelectedStyle'' w None nameLine, vl_Box V ''listSelectedSubStyle'' w None subLine]
            else [vl_Box V ''listItemStyle'' w None nameLine, vl_Box V ''listSubStyle'' w None subLine]))))"

fun rows_from :: "(nat \<Rightarrow> pb_VaultItem \<Rightarrow> string list result) \<Rightarrow> nat \<Rightarrow> pb_VaultItem list \<Rightarrow> string list result" where
  "rows_from f i [] = Inr []"
| "rows_from f i (it # its) = bnd (f i it) (\<lambda>r. bnd (rows_from f (Suc i) its) (\<lambda>rs. Inr (r @ rs)))"

definition spinFrames :: "string list" where
  "spinFrames = map rn [0x280B, 0x2819, 0x2839, 0x2838, 0x283C, 0x2834, 0x2826, 0x2827]"

definition spin_frame :: "Model \<Rightarrow> string result" where
  "spin_frame m = (if vm_spinner m < length spinFrames then Inr (spinFrames ! vm_spinner m) else Inl (Panic ''index out of range''))"

definition renderList :: "view_lib \<Rightarrow> 'r tui_env \<Rightarrow> Model \<Rightarrow> int \<Rightarrow> int \<Rightarrow> string result" where
  "renderList V env m w h =
     (let base = vl_Box V [] w (Some h) in
      if vm_loading m then bnd (spin_frame m) (\<lambda>f. Inr (base (nl @ ''  '' @ f @ ''  Loading...'')))
      else let items = shown_items env m; cat = selectedCat (vm_items m) (vm_catIdx m);
               label = (if vm_mode m = modeSearch then ''Search: '' @ vm_searchQuery m @ rn 0x258B else ce_label cat);
               header = vl_Render V ''listHeaderStyle'' (''  '' @ label @ ''  ('' @ int_text (int (length items)) @ '')'');
               hint = (if items \<noteq> [] then []
                 else [[], vl_Render V ''dimStyle'' (if ce_trashed cat then ''  Trash is empty'' else if ce_archived cat then ''  Archive is empty''
                   else ''  No items. Press n.'')])
           in bnd (rows_from (list_rows V m w (ce_folder cat \<noteq> [])) 0 items) (\<lambda>rows.
                Inr (base (vl_JoinVertical V ([header] @ hint @ rows)))))"

fun sidebar_rows :: "view_lib \<Rightarrow> Model \<Rightarrow> entryKind \<Rightarrow> int \<Rightarrow> catEntry list \<Rightarrow> string result" where
  "sidebar_rows V m prevKind selPos [] = Inr []"
| "sidebar_rows V m prevKind selPos (e # es) =
     (case ce_kind e of
        kindSection \<Rightarrow> pieces [Inr ((if prevKind \<noteq> kindSection then nl else []) @ vl_Render V ''sidebarSectionStyle'' (ce_label e) @ nl),
          sidebar_rows V m kindSection selPos es]
      | kindDivider \<Rightarrow> pieces [Inr nl, bnd (Repeat (rn 0x2500) 28) (\<lambda>l. Inr (vl_Render V ''sidebarDividerStyle'' l @ nl @ nl)),
          sidebar_rows V m kindDivider selPos es]
      | kindItem \<Rightarrow>
          (let current = (selPos = vm_catIdx m);
               indicator = (if current then vl_Render V (if vm_sidebarFocus m then ''sidebarIndicatorFocused'' else ''sidebarIndicatorBlur'') (rn 0x258C)
                 else vl_Render V ''sidebarItemStyle'' '' '');
               row = (if current then (if vm_sidebarFocus m then ''sidebarSelectedStyle'' else ''sidebarActiveStyle'') else ''sidebarItemStyle'')
           in pieces [bnd (Repeat '' '' (max 0 (3 - int (vl_Width V (ce_icon e))))) (\<lambda>iconPad.
                Inr (indicator @ vl_Box V row 28 None (ce_icon e @ iconPad @ truncate_str (ce_label e) (28 - 3)) @ nl)),
              sidebar_rows V m kindItem (selPos + 1) es]))"

definition renderSidebar :: "view_lib \<Rightarrow> Model \<Rightarrow> int \<Rightarrow> int \<Rightarrow> string result" where
  "renderSidebar V m w h =
     bnd (pieces [sidebar_rows V m kindSection 0 (buildSidebar (vm_items m)), Inr nl,
            bnd (Repeat (rn 0x2500) 28) (\<lambda>l. Inr (vl_Render V ''sidebarDividerStyle'' l @ nl)),
            Inr ('' '' @ vl_Render V ''sidebarItemStyle''
              (if vm_syncErr m \<or> vm_offline m then rn 0x1F534 @ '' Server Status: Offline'' else rn 0x1F7E2 @ '' Server Status: Online'') @ nl)])
       (\<lambda>s. Inr (vl_Box V ''sidebarStyle'' w (Some h) s))"

text \<open>\<^verbatim>\<open>15:04\<close>, \<^verbatim>\<open>02 Jan 15:04\<close>, and \<^verbatim>\<open>Duration.Round\<close>.\<close>

definition clock_text :: "gotime \<Rightarrow> string" where
  "clock_text t = pad 2 (t_hour t) @ '':'' @ pad 2 (t_min t)"

definition stamp_text :: "gotime \<Rightarrow> string" where
  "stamp_text t = pad 2 (t_day t) @ '' '' @ [''Jan'', ''Feb'', ''Mar'', ''Apr'', ''May'', ''Jun'', ''Jul'', ''Aug'', ''Sep'', ''Oct'', ''Nov'', ''Dec''] !
     ((t_month t + 11) mod 12) @ '' '' @ clock_text t"

definition duration_Round :: "int \<Rightarrow> int \<Rightarrow> int" where
  "duration_Round d u = (let r = \<bar>d\<bar> mod u; a = (if r + r < u then \<bar>d\<bar> - r else \<bar>d\<bar> + u - r) in if d < 0 then - a else a)"

definition go_quot :: "int \<Rightarrow> int \<Rightarrow> int" where
  "go_quot a b = (if a \<ge> 0 then a div b else - ((- a) div b))"

definition sync_age :: "view_lib \<Rightarrow> time \<Rightarrow> string" where
  "sync_age V t =
     (let ago = duration_Round (vl_now V - t) second in
      if ago < 60 * second then int_text (go_quot ago second) @ ''s ago''
      else if ago < 3600 * second then int_text (go_quot ago (60 * second)) @ ''m ago''
      else clock_text (vl_local V t))"

definition renderHeader :: "view_lib \<Rightarrow> Model \<Rightarrow> string result" where
  "renderHeader V m =
     (let left = '' GophKeeper  |  '' @ cf_Username (vm_cfg m);
          right = (if vm_loading m then bnd (spin_frame m) (\<lambda>f. Inr (f @ '' Syncing...''))
            else if vm_offline m then Inr (vl_Render V ''errorStyle'' (''Server Status: Offline '' @ rn 0x2014 @ '' Read Only Mode'' @
              (case vm_cacheAge m of None \<Rightarrow> [] | Some t \<Rightarrow> '' (cache '' @ stamp_text (vl_local V t) @ '')'') @ ''  r retry''))
            else if vm_syncErr m then Inr (vl_Render V ''errorStyle'' (rn 0x26A0 @ '' Server unavailable  '' @ rn 0x2014 @ ''  r to retry''))
            else (case vm_lastSync m of None \<Rightarrow> Inr []
                | Some t \<Rightarrow> Inr (vl_Render V ''dimStyle'' (rn 0x2713 @ '' synced '' @ sync_age V t @ ''  r refresh''))));
          sortLabel = (case vm_sort m of sortDefault \<Rightarrow> [] | sortName \<Rightarrow> vl_Render V ''dimStyle'' (''  [A'' @ rn 0x2192 @ ''Z]'')
            | sortTypeName \<Rightarrow> vl_Render V ''dimStyle'' ''  [type]'')
      in bnd right (\<lambda>r. bnd (Repeat '' '' (max 1 (vm_width m - int (length (runes left)) - int (vl_Width V r) - int (vl_Width V sortLabel) - 2))) (\<lambda>gap.
           Inr (left @ gap @ r @ sortLabel))))"

definition hint_keys :: "catEntry \<Rightarrow> pb_VaultItem option \<Rightarrow> (string \<times> string) list" where
  "hint_keys cat sel =
     (let is = (\<lambda>P. case sel of None \<Rightarrow> False | Some it \<Rightarrow> P it);
          isLogin = is (\<lambda>it. pb_Type it = ItemType_CREDENTIAL) in
      if ce_trashed cat then [(''d'', ''delete forever''), (''R'', ''restore''), (''Tab'', ''category''), (''q'', ''quit'')]
      else if ce_archived cat then [(''a'', ''unarchive''), (''R'', ''restore''), (''d'', ''trash''), (''Tab'', ''category''), (''q'', ''quit'')]
      else [(''n'', ''new''), (''e'', ''edit'')] @ (if is isFileItem then [] else [(''D'', ''duplicate'')]) @ [(''f'', ''favorite'')] @
        (if isLogin \<and> is (\<lambda>it. lo_URL (parseLoginPayload (pb_Payload it) (pb_Metadata it)) \<noteq> []) then [(''o'', ''open URL'')] else []) @
        [(''a'', ''archive''), (''d'', ''trash'')] @
        (if isLogin then [(''c'', ''copy password''), (''u'', ''copy username''), (''p'', ''reveal'')] else []) @
        (if is (\<lambda>it. pb_Type it = ItemType_OTP) then [(''c'', ''copy TOTP'')] else []) @
        (if is isSSHKey then [(''c'', ''copy key'')] else []) @ (if is isFileItem then [(''x'', ''export file'')] else []) @
        (if isLogin then [(''g'', ''generator'')] else []) @
        [(''S'', ''sort''), (''/'', ''search''), (''r'', ''sync''), (''q'', ''quit'')])"

definition sel_item :: "int \<Rightarrow> pb_VaultItem list \<Rightarrow> pb_VaultItem option" where
  "sel_item i items = (if 0 \<le> i \<and> i < int (length items) then Some (items ! nat i) else None)"

definition renderStatus :: "view_lib \<Rightarrow> 'r tui_env \<Rightarrow> Model \<Rightarrow> string" where
  "renderStatus V env m =
     (if vm_mode m = modeSearch
      then vl_Box V ''statusBarStyle'' (vm_width m) None (''  '' @ rn 0x1F50D @ '' Search: '' @ vm_searchQuery m @ rn 0x258B @ ''   Esc '' @ rn 0x2014 @ '' exit search'')
      else vl_Box V ''keyHintStyle'' (vm_width m) None (''  '' @ strings_Join (map (\<lambda>(k, l). hk V k l) (hint_keys (selectedCat (vm_items m) (vm_catIdx m)) (sel_item (vm_listIdx m) (shown_items env m)))) ''  ''))"

definition viewList :: "view_lib \<Rightarrow> 'r tui_env \<Rightarrow> Model \<Rightarrow> string result" where
  "viewList V env m =
     (let w = vm_width m;
          detW = (if w \<ge> 200 then 72 else if w \<ge> 160 then 60 else if w \<ge> 130 then 50 else if w \<ge> 100 then 42 else if w < 90 then 0 else 60);
          listW = max 10 (w - 36 - detW - 2); bodyH = max 1 (vm_height m - 2) in
      bnd (renderSidebar V m 36 bodyH) (\<lambda>sidebar.
      bnd (renderList V env m listW bodyH) (\<lambda>list.
      bnd (renderDetail V env m detW bodyH) (\<lambda>detail.
      bnd (renderHeader V m) (\<lambda>head.
        Inr (vl_JoinVertical V [vl_Box V ''headerStyle'' w None head, vl_JoinHorizontal V [sidebar, list, detail], renderStatus V env m]))))))"

section \<open>Overlays\<close>

fun split_lines :: "string \<Rightarrow> string list" where
  "split_lines [] = [[]]"
| "split_lines (c # cs) = (if c = CHR 0x0A then [] # split_lines cs
     else (case split_lines cs of [] \<Rightarrow> [[c]] | l # ls \<Rightarrow> (c # l) # ls))"

text \<open>The columns of a line: an escape sequence runs to its \<^verbatim>\<open>m\<close> and takes none.\<close>

fun vis_cols :: "view_lib \<Rightarrow> bool \<Rightarrow> string list \<Rightarrow> nat" where
  "vis_cols V inEsc [] = 0"
| "vis_cols V inEsc (r # rs) =
     (if r = [CHR 0x1B] then vis_cols V True rs
      else if inEsc then vis_cols V (r \<noteq> ''m'') rs
      else vl_RuneWidth V r + vis_cols V False rs)"

definition visColWidth :: "view_lib \<Rightarrow> string \<Rightarrow> int" where
  "visColWidth V s = int (vis_cols V False (runes s))"

fun col_offset :: "view_lib \<Rightarrow> int \<Rightarrow> bool \<Rightarrow> int \<Rightarrow> string \<Rightarrow> nat" where
  "col_offset V col inEsc cur [] = 0"
| "col_offset V col inEsc cur (c # cs) =
     (let n = utf8_len (c # cs); k = (if n = 0 then 1 else n);
          r = (if n = 0 then rn 65533 else take n (c # cs)); rest = drop (k - 1) cs in
      if r = [CHR 0x1B] then k + col_offset V col True cur rest
      else if inEsc then k + col_offset V col (r \<noteq> ''m'') cur rest
      else if cur \<ge> col then 0
      else k + col_offset V col False (cur + int (vl_RuneWidth V r)) rest)"

declare col_offset.simps [simp del]

definition byteOffsetForCol :: "view_lib \<Rightarrow> string \<Rightarrow> int \<Rightarrow> nat" where
  "byteOffsetForCol V s col = col_offset V col False 0 s"

definition slice_from :: "nat \<Rightarrow> string \<Rightarrow> string result" where
  "slice_from n s = (if n \<le> length s then Inr (drop n s) else Inl (Panic ''slice bounds out of range''))"

definition place_line :: "view_lib \<Rightarrow> int \<Rightarrow> string \<Rightarrow> string \<Rightarrow> string result" where
  "place_line V x bl ol =
     (let blCols = visColWidth V bl; olCols = visColWidth V ol in
      if x > blCols then pieces [Inr bl, Repeat '' '' (x - blCols), Inr ol]
      else pieces [slice_to (byteOffsetForCol V bl x) bl, Inr ol, slice_from (byteOffsetForCol V bl (x + olCols)) bl])"

fun place_rows :: "view_lib \<Rightarrow> int \<Rightarrow> int \<Rightarrow> string list \<Rightarrow> string list \<Rightarrow> string list result" where
  "place_rows V x row [] lines = Inr lines"
| "place_rows V x row (ol # ols) lines =
     (if row < 0 \<or> row \<ge> int (length lines) then place_rows V x (row + 1) ols lines
      else bnd (place_line V x (lines ! nat row) ol) (\<lambda>l. place_rows V x (row + 1) ols (lines[nat row := l])))"

definition placeover :: "view_lib \<Rightarrow> string \<Rightarrow> string \<Rightarrow> int \<Rightarrow> int \<Rightarrow> string result" where
  "placeover V base overlay x y =
     bnd (place_rows V x y (split_lines overlay) (split_lines base)) (\<lambda>ls. Inr (strings_Join ls nl))"

definition viewWithOverlay :: "view_lib \<Rightarrow> 'r tui_env \<Rightarrow> Model \<Rightarrow> string \<Rightarrow> string result" where
  "viewWithOverlay V env m overlay =
     bnd (viewList V env m) (\<lambda>bg. placeover V bg overlay
       (max 0 (go_quot (vm_width m - int (vl_Width V overlay)) 2)) (max 0 (go_quot (vm_height m - int (vl_Height V overlay)) 2)))"

definition viewPicker :: "view_lib \<Rightarrow> Model \<Rightarrow> string" where
  "viewPicker V m =
     (let rule = replicate 16 (CHR ''-'') @ nl in
      vl_Render V ''overlayStyle'' (''New Item'' @ nl @ rule @
        concat (map (\<lambda>(i, e). (if int i = vm_pickerIdx m then ''> '' else ''  '') @ pe_label e @ nl) (zip [0..<length pickerEntries] pickerEntries)) @
        rule @ ''Enter  Esc''))"

definition viewDeleteConfirm :: "view_lib \<Rightarrow> Model \<Rightarrow> string" where
  "viewDeleteConfirm V m =
     (let name = (case vm_deleteTarget m of None \<Rightarrow> ''this item'' | Some it \<Rightarrow> pb_Metadata it) in
      vl_Render V ''overlayStyle'' (vl_Render V ''colorRed'' ''Move to Trash'' @ nl @ nl @
        vl_Render V ''colorText'' (rn 0xAB @ truncate_str name 32 @ rn 0xBB) @ nl @ nl @
        vl_Render V ''dimStyle'' ''This action cannot be undone.'' @ nl @ nl @
        vl_Render V ''keyHintStyle'' (vl_Render V ''keyStyle'' ''y'' @ '' confirm   '' @ vl_Render V ''keyStyle'' ''Esc'' @ '' cancel'')))"

definition viewExportPath :: "view_lib \<Rightarrow> Model \<Rightarrow> string" where
  "viewExportPath V m =
     vl_Render V ''overlayStyle'' (vl_Render V ''colorMauve'' ''Export File'' @ nl @ nl @ vl_Render V ''dimStyle'' ''Save to:'' @ nl @
       vl_InputView V (vm_exportPathInput m) @ nl @ nl @ vl_Render V ''dimStyle'' (''Enter '' @ rn 0x2014 @ '' save   Esc '' @ rn 0x2014 @ '' cancel''))"

definition form_field_lines :: "view_lib \<Rightarrow> nat \<Rightarrow> nat \<times> formField \<Rightarrow> string" where
  "form_field_lines V focus = (\<lambda>(i, f).
     (if i = focus then vl_Render V ''formLabelActiveStyle'' (''  '' @ rn 0x203A @ '' '' @ ff_label f)
      else vl_Render V ''formLabelStyle'' (''    '' @ ff_label f)) @ nl @
     ''    '' @ vl_InputView V (ff_input f) @ nl @
     (if ff_hint f = [] then [] else vl_Render V ''dimStyle'' (''      '' @ ff_hint f) @ nl) @ nl)"

definition viewForm :: "view_lib \<Rightarrow> Model \<Rightarrow> string result" where
  "viewForm V m =
     (case vm_form m of None \<Rightarrow> Inl (Panic ''nil pointer dereference'')
      | Some f \<Rightarrow> Inr (nl @ vl_Box V ''headerStyle'' (vm_width m) None
            (''GophKeeper  '' @ rn 0xB7 @ ''  '' @ (if if_editItemID f = [] then ''New'' else ''Edit'') @ '' '' @ if_title f) @ nl @ nl @
          concat (map (form_field_lines V (if_focusIdx f)) (zip [0..<length (if_fields f)] (if_fields f))) @
          (if vm_lastErr m = [] then [] else vl_Render V ''errorStyle'' (''  '' @ rn 0x2717 @ '' '' @ vm_lastErr m) @ nl @ nl) @
          vl_Render V ''keyHintStyle'' (''  '' @ hk V ''Tab'' ''next'' @ ''  '' @ hk V ''Ctrl+S'' ''save'' @ ''  '' @
            (if list_ex ff_canGen (if_fields f) then hk V ''Ctrl+G'' ''generate password'' @ ''  '' else []) @ hk V ''Esc'' ''cancel'')))"

section \<open>The generator panel\<close>

definition passGenSepLabel :: "int \<Rightarrow> string result" where
  "passGenSepLabel i = bnd (sep_at i) (\<lambda>s. Inr (if s = [] then ''none'' else if s = '' '' then ''space'' else s))"

definition pgRowRaw :: "view_lib \<Rightarrow> bool \<Rightarrow> string \<Rightarrow> string" where
  "pgRowRaw V focused content = (if focused then vl_Render V ''passGenFocusedStyle'' (rn 0x276F @ '' '') @ content else ''  '' @ content)"

definition pgStrVal :: "view_lib \<Rightarrow> bool \<Rightarrow> string \<Rightarrow> string" where
  "pgStrVal V focused s = vl_Render V (if focused then ''passGenFocusedStyle'' else ''passGenLabelStyle'') s"

definition pgNumVal :: "view_lib \<Rightarrow> bool \<Rightarrow> int \<Rightarrow> string" where
  "pgNumVal V focused n = pgStrVal V focused (''['' @ int_text n @ '']'')"

definition pgCheck :: "view_lib \<Rightarrow> bool \<Rightarrow> bool \<Rightarrow> string \<Rightarrow> string" where
  "pgCheck V focused checked label =
     (let box = (if checked then vl_Render V ''passGenCheckOnStyle'' (''['' @ rn 0x2713 @ '']'') else vl_Render V ''passGenCheckOffStyle'' ''[ ]'') in
      (if focused then vl_Render V ''passGenFocusedStyle'' (rn 0x276F @ '' '') else ''  '') @ box @ '' '' @ pgStrVal V focused label)"

definition pg_arrows :: "view_lib \<Rightarrow> string" where
  "pg_arrows V = vl_Render V ''dimStyle'' (''['' @ rn 0x2190 @ rn 0x2192 @ '']'')"

definition renderPasswordOpts :: "view_lib \<Rightarrow> passGenState \<Rightarrow> string" where
  "renderPasswordOpts V pg =
     (let at = (\<lambda>i. pg_focus pg = i);
          num = (\<lambda>label i n. pgRowRaw V (at i) (label @ pgNumVal V (at i) n @ ''  '' @ pg_arrows V)) in
      num ''Length: '' pgFldLength (pg_length pg) @ nl @ nl @ vl_Render V ''passGenLabelStyle'' ''  Include:'' @ nl @
      vl_JoinHorizontal V [
        vl_Box V [] 28 None (vl_JoinVertical V [pgCheck V (at pgFldUpper) (pg_useUpper pg) ''A-Z  uppercase'', pgCheck V (at pgFldDigits) (pg_useDigits pg) ''0-9  digits'']),
        vl_JoinVertical V [pgCheck V (at pgFldLower) (pg_useLower pg) ''a-z  lowercase'', pgCheck V (at pgFldSymbols) (pg_useSymbols pg) ''!@#$  symbols'']] @ nl @ nl @
      vl_JoinHorizontal V [vl_Box V [] 28 None (num ''Min digits: '' pgFldMinDigits (pg_minDigits pg)), num ''Min symbols: '' pgFldMinSymbols (pg_minSymbols pg)] @ nl @ nl @
      pgCheck V (at pgFldAmbig) (pg_avoidAmbig pg) ''Avoid ambiguous (l 1 I O 0)'' @ nl)"

definition renderPassphraseOpts :: "view_lib \<Rightarrow> passGenState \<Rightarrow> string result" where
  "renderPassphraseOpts V pg =
     (let at = (\<lambda>i. pg_focus pg = i) in
      bnd (passGenSepLabel (pg_separatorIdx pg)) (\<lambda>sepLabel. Inr (
        pgRowRaw V (at ppFldWords) (''Words:  '' @ pgNumVal V (at ppFldWords) (pg_wordCount pg) @ ''  '' @ pg_arrows V) @ nl @ nl @
        pgRowRaw V (at ppFldSep) (''Separator:  '' @ pgStrVal V (at ppFldSep) (rn 0xAB @ '' '' @ sepLabel @ '' '' @ rn 0xBB) @ ''  '' @ pg_arrows V) @ nl @ nl @
        ''  '' @ pgCheck V (at ppFldCapitalize) (pg_capitalize pg) ''Capitalize words'' @ nl @
        ''  '' @ pgCheck V (at ppFldIncludeNum) (pg_includeNum pg) ''Include number'' @ nl)))"

definition colorizePassword :: "view_lib \<Rightarrow> string \<Rightarrow> string" where
  "colorizePassword V pwd = concat (map (\<lambda>r. vl_Render V
     (if rune_in 65 90 r then ''pwdUpperStyle'' else if rune_in 97 122 r then ''pwdLowerStyle'' else if rune_in 48 57 r then ''pwdDigitStyle''
      else ''pwdSymbolStyle'') r) (runes pwd))"

definition strength_style :: "string \<Rightarrow> string" where
  "strength_style pwd = (let sc = fst (passwordStrength pwd) in
     if pwd = [] then ''dimStyle'' else if sc \<ge> 85 then ''strengthStrongStyle'' else if sc \<ge> 65 then ''strengthGoodStyle''
     else if sc \<ge> 45 then ''strengthFairStyle'' else if sc \<ge> 25 then ''strengthWeakStyle'' else ''strengthVeryWeakStyle'')"

definition strength_text :: "view_lib \<Rightarrow> string \<Rightarrow> int \<Rightarrow> string result" where
  "strength_text V pwd width = bnd (strengthBar pwd width) (\<lambda>(full, rest, label).
     let st = strength_style pwd in
     Inr (vl_Render V st (concat (replicate full (rn 0x2588)) @ concat (replicate rest (rn 0x2591))) @ ''  '' @ vl_Render V st label))"

definition viewPassGen :: "view_lib \<Rightarrow> passGenState \<Rightarrow> string result" where
  "viewPassGen V pg =
     (let tab = (\<lambda>t s. vl_Render V (if pg_tab pg = t then ''passGenTabActiveStyle'' else ''passGenTabStyle'') s) in
      bnd (pieces [
        Inr (vl_Render V ''dimStyle'' (rn 0x1F3B2 @ '' '') @ vl_Render V ''passGenFocusedStyle'' ''Password Generator'' @ nl @ nl),
        Inr (vl_JoinHorizontal V [tab tabPassword ''  Password  '', tab tabPassphrase ''  Passphrase  ''] @ nl @ nl),
        Inr (vl_Box V ''passGenPreviewStyle'' 54 None (colorizePassword V (pg_preview pg)) @ nl),
        strength_text V (pg_preview pg) 54, Inr (nl @ nl),
        (case pg_tab pg of tabPassword \<Rightarrow> Inr (renderPasswordOpts V pg) | tabPassphrase \<Rightarrow> renderPassphraseOpts V pg),
        Inr (nl @ vl_Render V ''dimStyle'' (''  '' @ rn 0x2191 @ rn 0x2193 @ '' field   '' @ rn 0x2190 @ rn 0x2192 @ '' value   Spc toggle   r refresh'') @ nl @
          vl_Render V ''dimStyle'' ''  1/2 type   Enter use   Esc cancel'')])
       (\<lambda>s. Inr (vl_Box V ''passGenPanelStyle'' 62 None s)))"

definition Model_View :: "view_lib \<Rightarrow> 'r tui_env \<Rightarrow> Model \<Rightarrow> string result" where
  "Model_View V env m =
     (if vm_width m = 0 \<or> vm_height m = 0 then Inr ''Loading...''
      else (case vm_mode m of
          modeForm \<Rightarrow> viewForm V m
        | modePicker \<Rightarrow> viewWithOverlay V env m (viewPicker V m)
        | modeDelConf \<Rightarrow> viewWithOverlay V env m (viewDeleteConfirm V m)
        | modeExportPath \<Rightarrow> viewWithOverlay V env m (viewExportPath V m)
        | modePassGen \<Rightarrow> (case vm_passGen m of Some pg \<Rightarrow> bnd (viewPassGen V pg) (viewWithOverlay V env m) | None \<Rightarrow> viewList V env m)
        | _ \<Rightarrow> viewList V env m))"

section \<open>No panic in the view\<close>

definition good :: "'a result \<Rightarrow> bool" where
  "good r \<longleftrightarrow> (\<exists>x. r = Inr x)"

lemma good_Inr [simp]: "good (Inr x)"
  by (simp add: good_def)

lemma good_bnd: "good r \<Longrightarrow> (\<And>x. r = Inr x \<Longrightarrow> good (f x)) \<Longrightarrow> good (bnd r f)"
  by (auto simp: good_def bnd_def)

lemma good_bnd' [simp]: "(\<And>x. good (f x)) \<Longrightarrow> good (bnd r f) = good r"
  by (auto simp: good_def bnd_def split: sum.splits)

lemma good_pieces [simp]: "good (pieces rs) = list_all good rs"
  by (induction rs) (auto simp: good_def bnd_def split: sum.splits)

lemma good_Repeat [simp]: "good (Repeat s n) = (0 \<le> n)"
  by (simp add: Repeat_def strings_Repeat_def bnd_def good_def)

lemma good_unless [simp]: "good (unless_empty s r) = (s = [] \<or> good r)"
  by (simp add: unless_empty_def)

lemma good_dField [simp]: "good (dField V i l v tw) = (0 \<le> tw)"
  by (simp add: dField_def)

lemma go_mod_less: "0 < b \<Longrightarrow> go_mod a b < b"
  using pos_mod_bound [of b a] pos_mod_sign [of b "- a"] unfolding go_mod_def by (smt (verit))

lemma remaining_pos: "0 < totp_remaining m"
  using go_mod_less [of 30 "vm_now m div second"] by (simp add: totp_remaining_def)

lemma good_totpBar: "0 < remaining \<Longrightarrow> 0 \<le> width \<Longrightarrow> good (totpBar V remaining width)"
  by (simp add: totpBar_def Let_def pos_imp_zdiv_nonneg_iff)

lemma good_totp_lines: "0 \<le> width \<Longrightarrow> good (totp_lines V env m t sec width)"
  using good_totpBar [OF remaining_pos] by (simp add: totp_lines_def Let_def)

lemma good_details:
  assumes "6 \<le> tw"
  shows "good (renderLoginDetail V env m lp tw)" "good (renderCardDetail V m cp tw)" "good (renderAuthDetail V env m ap)"
    "good (renderFileDetail V fp tw)" "good (renderSSHDetail V m sp tw)" "good (renderIdentityDetail V ip tw)"
  using assms by (simp_all add: renderLoginDetail_def renderCardDetail_def renderAuthDetail_def renderFileDetail_def renderSSHDetail_def
      renderIdentityDetail_def good_totp_lines)

lemma good_detail_fields: "6 \<le> tw \<Longrightarrow> good (detail_fields V env m item tw)"
  by (simp add: detail_fields_def Let_def good_details split: ItemType.split)

definition name_ok :: "pb_VaultItem \<Rightarrow> bool" where
  "name_ok it \<longleftrightarrow> (pb_Metadata it = [] \<longrightarrow> 8 \<le> length (pb_Id it))"

lemma good_item_name [simp]: "good (item_name it) = name_ok it"
  by (simp add: item_name_def name_ok_def slice_to_def good_def)

lemma good_renderDetail:
  assumes "0 \<le> vm_listIdx m" and "list_all name_ok (shown_items env m)"
  shows "good (renderDetail V env m w h)"
proof (cases "shown_items env m = [] \<or> vm_listIdx m \<ge> int (length (shown_items env m))")
  case False
  then have "shown_items env m ! nat (vm_listIdx m) \<in> set (shown_items env m)" using assms(1) by (intro nth_mem) linarith
  then have "name_ok (shown_items env m ! nat (vm_listIdx m))" using assms(2) by (simp add: list_all_iff)
  then show ?thesis using False assms(1)
    by (auto simp: renderDetail_def Let_def index_item_def bnd_def [of "Inr x" for x] detail_text_def good_detail_fields)
qed (simp add: renderDetail_def)

lemma good_rows: "(\<And>i it. it \<in> set its \<Longrightarrow> good (f i it)) \<Longrightarrow> good (rows_from f i its)"
  by (induction its arbitrary: i) (simp_all add: good_bnd)

lemma good_renderList:
  assumes "list_all name_ok (shown_items env m)" and "10 \<le> w" and "vm_spinner m < 8"
  shows "good (renderList V env m w h)"
proof -
  have "good (list_rows V m w b i it)" if "it \<in> set (shown_items env m)" for b i it
    using that assms(1,2) by (simp add: list_rows_def Let_def list_all_iff good_bnd)
  then show ?thesis using assms(3) by (simp add: renderList_def Let_def good_rows spin_frame_def spinFrames_def)
qed

lemma good_sidebar: "good (sidebar_rows V m pk p es)"
  by (induction es arbitrary: pk p) (simp_all add: Let_def split: entryKind.split)

lemma good_viewList:
  assumes "0 \<le> vm_listIdx m" and "list_all name_ok (shown_items env m)" and "vm_spinner m < 8"
  shows "good (viewList V env m)"
proof -
  have "good (renderHeader V m)" using assms(3)
    by (simp add: renderHeader_def Let_def spin_frame_def spinFrames_def split: option.split)
  then show ?thesis using good_renderDetail [OF assms(1,2)] good_renderList [OF assms(2) _ assms(3)] good_sidebar
    by (simp add: viewList_def Let_def good_bnd renderSidebar_def)
qed

lemma col_offset_le: "col_offset V col e cur s \<le> length s"
proof (induction "length s" arbitrary: e cur s rule: less_induct)
  case less
  show ?case
  proof (cases s)
    case (Cons c cs)
    define k where "k = (if utf8_len (c # cs) = 0 then 1 else utf8_len (c # cs))"
    have k: "1 \<le> k" "k \<le> length s" using utf8_len_length [of "c # cs"] Cons by (simp_all add: k_def)
    have len: "length (drop (k - 1) cs) = length s - k" using Cons k by simp
    then have "length (drop (k - 1) cs) < length s" using k by linarith
    from less [OF this] have ih: "k + col_offset V col e' cur' (drop (k - 1) cs) \<le> length s" for e' cur'
      using len k by (metis add.commute le_diff_conv2)
    show ?thesis unfolding Cons col_offset.simps Let_def k_def [symmetric] using ih Cons by simp
  qed (simp add: col_offset.simps)
qed

lemma good_place_line: "good (place_line V x bl ol)"
  using col_offset_le by (simp add: place_line_def Let_def slice_to_def slice_from_def byteOffsetForCol_def)

lemma good_place_rows: "good (place_rows V x row ols ls)"
  by (induction ols arbitrary: row ls) (simp_all add: good_place_line)

lemma view_good:
  assumes "0 \<le> vm_listIdx m" and "list_all name_ok (vm_items m)" and "vm_spinner m < 8"
    and "vm_mode m = modeForm \<Longrightarrow> vm_form m \<noteq> None"
    and "vm_mode m = modePassGen \<Longrightarrow> (\<exists>pg. vm_passGen m = Some pg \<and> good (sep_at (pg_separatorIdx pg)))"
  shows "good (Model_View V env m)"
proof -
  have "set (shown_items env m) \<subseteq> set (vm_items m)"
    by (cases "vm_sort m") (auto simp: shown_items_def filteredItems_def Let_def)
  then have "list_all name_ok (shown_items env m)" using assms(2) by (auto simp: list_all_iff)
  note vl = good_viewList [OF assms(1) this assms(3)]
  then have over: "good (viewWithOverlay V env m ov)" for ov
    by (simp add: viewWithOverlay_def placeover_def good_place_rows)
  have pg: "good (viewPassGen V pg)" if "good (sep_at (pg_separatorIdx pg))" for pg
  proof -
    have "good (strengthBar (pg_preview pg) 54)" using strength_bar [of 54 "pg_preview pg"] by (auto simp: good_def)
    then have "good (strength_text V (pg_preview pg) 54)" by (simp add: strength_text_def Let_def split: prod.split)
    then show ?thesis using that by (simp add: viewPassGen_def Let_def renderPassphraseOpts_def passGenSepLabel_def split: passGenTab.split)
  qed
  show ?thesis using vl over pg assms(4,5)
    by (cases "vm_mode m") (auto simp: Model_View_def viewForm_def good_bnd)
qed

section \<open>Hidden fields\<close>

text \<open>A payload with its secrets blotted out: what is left of them is whether they are there, and a card's last digits.\<close>

definition blot :: "string \<Rightarrow> string" where
  "blot s = (if s = [] then [] else ''*'')"

definition mask_login :: "LoginPayload \<Rightarrow> LoginPayload" where
  "mask_login p = p\<lparr>lo_Password := blot (lo_Password p), lo_History := map (\<lambda>h. h\<lparr>ph_Password := []\<rparr>) (lo_History p)\<rparr>"

definition mask_card :: "CardPayload \<Rightarrow> CardPayload" where
  "mask_card p = p\<lparr>ca_Number := (if length (ca_Number p) > 4 then ''*'' @ last4 (ca_Number p) else ca_Number p), ca_CVV := blot (ca_CVV p)\<rparr>"

definition mask_ssh :: "SSHKeyPayload \<Rightarrow> SSHKeyPayload" where
  "mask_ssh p = p\<lparr>sk_PrivateKey := blot (sk_PrivateKey p)\<rparr>"

text \<open>Two items with the same open fields, whatever their passwords, card numbers, codes and keys.\<close>

definition same_payload :: "string \<Rightarrow> pb_VaultItem \<Rightarrow> pb_VaultItem \<Rightarrow> bool" where
  "same_payload meta a b \<longleftrightarrow>
     (let x = pb_Payload a; y = pb_Payload b in
      if isFileItem a then parseFilePayload x meta = parseFilePayload y meta
      else if isSSHKey a then mask_ssh (parseSSHKeyPayload x meta) = mask_ssh (parseSSHKeyPayload y meta)
      else (case pb_Type a of
          ItemType_CREDENTIAL \<Rightarrow> mask_login (parseLoginPayload x meta) = mask_login (parseLoginPayload y meta)
        | ItemType_CARD \<Rightarrow> mask_card (parseCardPayload x meta) = mask_card (parseCardPayload y meta)
        | ItemType_TEXT \<Rightarrow> parseNotePayload x meta = parseNotePayload y meta
        | ItemType_BINARY \<Rightarrow> parseIdentityPayload x meta = parseIdentityPayload y meta
        | ItemType_OTP \<Rightarrow> parseAuthPayload x meta = parseAuthPayload y meta
        | _ \<Rightarrow> True))"

definition looks_same :: "pb_VaultItem \<Rightarrow> pb_VaultItem \<Rightarrow> bool" where
  "looks_same a b \<longleftrightarrow> pb_Id a = pb_Id b \<and> pb_Metadata a = pb_Metadata b \<and> pb_Type a = pb_Type b \<and>
     isFavorite a = isFavorite b \<and> isArchived a = isArchived b \<and> isTrashed a = isTrashed b \<and> isSSHKey a = isSSHKey b \<and> isFileItem a = isFileItem b \<and>
     getItemFolder a = getItemFolder b \<and> has2FA a = has2FA b \<and> same_payload [] a b \<and> same_payload (pb_Metadata a) a b"

lemma blot_simps [simp]: "(blot s = []) = (s = [])" "blot [] = []"
  by (simp_all add: blot_def)

lemma mask_login_detail: "\<not> vm_revealPwd m \<Longrightarrow> renderLoginDetail V env m (mask_login p) tw = renderLoginDetail V env m p tw"
  by (simp add: renderLoginDetail_def mask_login_def unless_empty_def take_map comp_def history_line_def [abs_def])

lemma last4_mask: "length s > 4 \<Longrightarrow> last4 (''*'' @ last4 s) = last4 s"
  by (simp add: last4_def)

lemma mask_card_detail: "\<not> vm_revealPwd m \<Longrightarrow> renderCardDetail V m (mask_card p) tw = renderCardDetail V m p tw"
  by (auto simp: renderCardDetail_def mask_card_def unless_empty_def last4_def)

lemma mask_ssh_detail: "\<not> vm_revealPwd m \<Longrightarrow> renderSSHDetail V m (mask_ssh p) tw = renderSSHDetail V m p tw"
  by (simp add: renderSSHDetail_def mask_ssh_def unless_empty_def)

lemma mask_eq:
  assumes "\<not> vm_revealPwd m"
  shows "mask_login p = mask_login p' \<Longrightarrow> renderLoginDetail V env m p tw = renderLoginDetail V env m p' tw"
    and "mask_card c = mask_card c' \<Longrightarrow> renderCardDetail V m c tw = renderCardDetail V m c' tw"
    and "mask_ssh k = mask_ssh k' \<Longrightarrow> renderSSHDetail V m k tw = renderSSHDetail V m k' tw"
  by (metis assms mask_login_detail, metis assms mask_card_detail, metis assms mask_ssh_detail)

lemma same_basics:
  assumes "looks_same a b"
  shows "pb_Id b = pb_Id a" "pb_Metadata b = pb_Metadata a" "pb_Type b = pb_Type a" "isFavorite b = isFavorite a" "isArchived b = isArchived a"
    "isTrashed b = isTrashed a" "isSSHKey b = isSSHKey a" "isFileItem b = isFileItem a" "getItemFolder b = getItemFolder a" "has2FA b = has2FA a"
    "same_payload [] a b" "same_payload (pb_Metadata a) a b"
  by (insert assms [unfolded looks_same_def], (elim conjE, (assumption | (rule sym, assumption)))+)

lemma same_badge: "looks_same a b \<Longrightarrow> itemIconBadgeForItem V b = itemIconBadgeForItem V a" "looks_same a b \<Longrightarrow> item_name b = item_name a"
  by (simp_all add: itemIconBadgeForItem_def item_name_def same_basics)

lemma same_fields:
  assumes "looks_same a b" and r: "\<not> vm_revealPwd m"
  shows "detail_fields V env m a tw = detail_fields V env m b tw"
proof -
  note p = same_basics(12) [OF assms(1)] and u = same_payload_def detail_fields_def Let_def same_basics(2,3,7,8) [OF assms(1)]
  show ?thesis
  proof (cases "isFileItem a \<or> isSSHKey a")
    case True
    then show ?thesis using p unfolding u by (cases "isFileItem a") (auto intro: mask_eq(3) [OF r])
  next
    case False
    then show ?thesis using p unfolding u by (cases "pb_Type a") (auto intro: mask_eq(1,2) [OF r])
  qed
qed

lemma same_detail:
  assumes "looks_same a b" and "\<not> vm_revealPwd m"
  shows "detail_text V env m a tw = detail_text V env m b tw"
  unfolding detail_text_def same_fields [OF assms] same_badge [OF assms(1)] same_basics(4,9) [OF assms(1)] by (rule refl)

lemma mask_subtitle:
  "mask_login p = mask_login p' \<Longrightarrow> lo_Username p = lo_Username p'"
  "mask_card c = mask_card c' \<Longrightarrow> (ca_Number c \<noteq> [] \<and> length (ca_Number c) \<ge> 4) = (ca_Number c' \<noteq> [] \<and> length (ca_Number c') \<ge> 4) \<and>
     (length (ca_Number c) \<ge> 4 \<longrightarrow> last4 (ca_Number c) = last4 (ca_Number c'))"
proof -
  show "mask_login p = mask_login p' \<Longrightarrow> lo_Username p = lo_Username p'"
    by (cases p, cases p') (simp add: mask_login_def)
  assume "mask_card c = mask_card c'"
  then have n: "ca_Number (mask_card c) = ca_Number (mask_card c')" by simp
  have "(ca_Number x \<noteq> [] \<and> length (ca_Number x) \<ge> 4) = (length (ca_Number (mask_card x)) \<ge> 4)"
    "length (ca_Number x) \<ge> 4 \<Longrightarrow> last4 (ca_Number x) = last4 (ca_Number (mask_card x))" for x
    by (auto simp: mask_card_def last4_def)
  then show "(ca_Number c \<noteq> [] \<and> length (ca_Number c) \<ge> 4) = (ca_Number c' \<noteq> [] \<and> length (ca_Number c') \<ge> 4) \<and>
     (length (ca_Number c) \<ge> 4 \<longrightarrow> last4 (ca_Number c) = last4 (ca_Number c'))" using n by (metis le_zero_eq length_0_conv numeral_neq_zero)
qed

lemma same_subtitle:
  assumes "looks_same a b"
  shows "itemSubtitle a = itemSubtitle b"
proof -
  note t = same_basics(3,11) [OF assms]
  note u = itemSubtitle_def same_payload_def isFileItem_def isSSHKey_def Let_def t(1)
  show ?thesis using t(2) unfolding u by (cases "pb_Type a") (auto dest: mask_subtitle)
qed

text \<open>Filters, sorting and the sidebar treat items alike that look the same.\<close>

lemma filter_same: "list_all2 R xs ys \<Longrightarrow> (\<And>x y. R x y \<Longrightarrow> P x = Q y) \<Longrightarrow> list_all2 R (filter P xs) (filter Q ys)"
  by (induction rule: list_all2_induct) auto

lemma pass_same:
  assumes "\<And>x y x' y'. R x x' \<Longrightarrow> R y y' \<Longrightarrow> lt x y = lt x' y'" and "list_all2 R ys ys'" and "R x x'"
  shows "R (fst (exchange_pass lt x ys)) (fst (exchange_pass lt x' ys')) \<and> list_all2 R (snd (exchange_pass lt x ys)) (snd (exchange_pass lt x' ys'))"
  using assms(2,3)
proof (induction ys ys' arbitrary: x x' rule: list_all2_induct)
  case (Cons y ys y' ys')
  have "lt y x = lt y' x'" using assms(1) Cons.hyps(1) Cons.prems by blast
  then show ?case using Cons.IH [OF Cons.prems] Cons.IH [OF Cons.hyps(1)] Cons.hyps Cons.prems by (simp add: case_prod_beta Let_def)
qed simp

lemma sort_same:
  assumes "\<And>x y x' y'. R x x' \<Longrightarrow> R y y' \<Longrightarrow> lt x y = lt x' y'"
  shows "list_all2 R xs ys \<Longrightarrow> list_all2 R (exchange_sort lt xs) (exchange_sort lt ys)"
proof (induction "length xs" arbitrary: xs ys rule: less_induct)
  case less
  show ?case
  proof (cases xs)
    case (Cons x t)
    then obtain y u where ys: "ys = y # u" "R x y" "list_all2 R t u" using less.prems by (auto simp: list_all2_Cons1)
    note p = pass_same [of R lt, OF assms ys(3,2)]
    have "length (snd (exchange_pass lt x t)) < length xs" using Cons exchange_pass_length [of lt x t] by simp
    then show ?thesis using less.hyps p Cons ys by (simp add: case_prod_beta Let_def)
  qed (use less.prems in simp)
qed

lemma sidebar_same:
  assumes "list_all2 looks_same xs ys"
  shows "buildSidebar ys = buildSidebar xs" "selectedCat ys i = selectedCat xs i"
proof -
  have "collect_folders ys fs = collect_folders xs fs" for fs
    using assms by (induction arbitrary: fs rule: list_all2_induct) (simp_all add: same_basics)
  then show b: "buildSidebar ys = buildSidebar xs" by (simp add: buildSidebar_def sidebar_folders_def)
  then show "selectedCat ys i = selectedCat xs i" by (simp add: selectedCat_def sidebarSelectables_def)
qed

lemma type_match_same: "looks_same a b \<Longrightarrow> type_match ts b = type_match ts a"
  by (induction ts) (simp_all add: same_basics)

lemma shown_same:
  assumes "list_all2 looks_same (vm_items m) items"
  shows "list_all2 looks_same (shown_items env m) (shown_items env (m\<lparr>vm_items := items\<rparr>))"
proof -
  let ?E = "tu_E env"
  have c: "in_category c a = in_category c b" if "looks_same a b" for c a b
    using that by (simp add: in_category_def Let_def same_basics type_match_same)
  have q: "matches_search ?E q a = matches_search ?E q b" "less_name ?E a a' = less_name ?E b b'" "less_type_name ?E a a' = less_type_name ?E b b'"
    if "looks_same a b" "looks_same a' b'" for q a b a' b'
    using that by (simp_all add: matches_search_def less_name_def less_type_name_def lower_meta_def same_basics)
  let ?base = "\<lambda>its. filter (matches_search ?E (vm_searchQuery m)) (filter (in_category (selectedCat (vm_items m) (vm_catIdx m))) its)"
  have f: "list_all2 looks_same (?base (vm_items m)) (?base items)"
    by (intro filter_same assms) (use c q in blast)+
  then show ?thesis
    using sort_same [of looks_same "less_name ?E", OF q(2) f] sort_same [of looks_same "less_type_name ?E", OF q(3) f]
    by (simp add: shown_items_def filteredItems_def Let_def sidebar_same [OF assms] split: sortMode.split)
qed

lemma rows_same: "list_all2 R xs ys \<Longrightarrow> (\<And>i x y. R x y \<Longrightarrow> f i x = g i y) \<Longrightarrow> rows_from f i xs = rows_from g i ys"
  by (induction arbitrary: i rule: list_all2_induct) simp_all

lemma list_rows_same: "looks_same a b \<Longrightarrow> list_rows V m w fo i a = list_rows V m' w fo i b" if "vm_listIdx m' = vm_listIdx m"
  using that unfolding list_rows_def same_subtitle
  by (simp add: same_badge same_basics same_subtitle [symmetric])

lemma hints_same: "looks_same a b \<Longrightarrow> hint_keys c (Some b) = hint_keys c (Some a)"
proof -
  assume s: "looks_same a b"
  have "lo_URL (parseLoginPayload (pb_Payload b) (pb_Metadata b)) = lo_URL (parseLoginPayload (pb_Payload a) (pb_Metadata a))"
    if "pb_Type a = ItemType_CREDENTIAL"
  proof -
    have m: "mask_login (parseLoginPayload (pb_Payload a) (pb_Metadata a)) = mask_login (parseLoginPayload (pb_Payload b) (pb_Metadata a))"
      using same_basics(12) [OF s] that by (simp add: same_payload_def isFileItem_def isSSHKey_def Let_def)
    have "lo_URL (mask_login p) = lo_URL p" for p by (simp add: mask_login_def)
    then show ?thesis using m same_basics(2) [OF s] by metis
  qed
  then show ?thesis by (auto simp: hint_keys_def Let_def same_basics [OF s])
qed

text \<open>
  C31. What the screen hides: while passwords are not revealed, the main view does not depend on them. Changing
  the passwords and password histories of logins, card numbers up to their last four digits,
  security codes and private keys of any items leaves every character of the view (sidebar,
  list, detail panel, header and status line, with any search, sorting and selection) as it was.
\<close>

theorem screen_hides_secrets:
  assumes "\<not> vm_revealPwd m" and "list_all2 looks_same (vm_items m) items"
  shows "viewList V env (m\<lparr>vm_items := items\<rparr>) = viewList V env m"
proof -
  let ?m = "m\<lparr>vm_items := items\<rparr>"
  note sh = shown_same [OF assms(2), of env] and sb = sidebar_same [OF assms(2)]
  have len: "length (shown_items env ?m) = length (shown_items env m)" using sh by (simp add: list_all2_lengthD)
  have at: "looks_same (shown_items env m ! k) (shown_items env ?m ! k)" if "k < length (shown_items env m)" for k
    using sh that by (rule list_all2_nthD)
  have side: "sidebar_rows V ?m pk p es = sidebar_rows V m pk p es" for pk p es
    by (induction es arbitrary: pk p) (simp_all add: Let_def split: entryKind.split)
  have l: "renderList V env ?m w h = renderList V env m w h" for w h
  proof -
    have "rows_from (list_rows V ?m w b) 0 (shown_items env ?m) = rows_from (list_rows V m w b) 0 (shown_items env m)" for b
      by (rule rows_same [OF sh, symmetric]) (rule list_rows_same, simp_all)
    moreover have "(shown_items env ?m = []) = (shown_items env m = [])" using len by (metis length_0_conv)
    ultimately show ?thesis by (simp add: renderList_def Let_def sb len spin_frame_def)
  qed
  have d: "renderDetail V env ?m w h = renderDetail V env m w h" for w h
  proof -
    have sel: "vm_revealPwd ?m = vm_revealPwd m" "vm_toast ?m = vm_toast m" "vm_lastErr ?m = vm_lastErr m" "vm_now ?m = vm_now m" by simp_all
    have t: "totp_lines V env ?m ti se wi = totp_lines V env m ti se wi" for ti se wi
      by (simp only: totp_lines_def generateTOTP_def totp_remaining_def sel)
    have "detail_text V env ?m it tw = detail_text V env m it tw" for it tw
      by (simp only: detail_text_def detail_fields_def renderLoginDetail_def renderCardDetail_def renderSSHDetail_def renderAuthDetail_def sel t)
    moreover have "detail_text V env m (shown_items env ?m ! k) tw = detail_text V env m (shown_items env m ! k) tw"
      if "k < length (shown_items env m)" for k tw
      by (rule same_detail [OF at [OF that] assms(1), symmetric])
    moreover have "nat (vm_listIdx m) < length (shown_items env m)" if "\<not> int (length (shown_items env m)) \<le> vm_listIdx m" "0 \<le> vm_listIdx m"
      using that by linarith
    ultimately show ?thesis using len by (auto simp: renderDetail_def Let_def index_item_def bnd_def)
  qed
  have k: "hint_keys c (sel_item i (shown_items env ?m)) = hint_keys c (sel_item i (shown_items env m))" for c i
    using hints_same [OF at] by (cases "nat i < length (shown_items env m)") (auto simp: sel_item_def len)
  have sel: "vm_width ?m = vm_width m" "vm_height ?m = vm_height m" "vm_mode ?m = vm_mode m" "vm_searchQuery ?m = vm_searchQuery m"
    "vm_listIdx ?m = vm_listIdx m" "vm_catIdx ?m = vm_catIdx m" "vm_items ?m = items" "vm_syncErr ?m = vm_syncErr m" "vm_offline ?m = vm_offline m" by simp_all
  have h: "renderHeader V ?m = renderHeader V m" by (simp add: renderHeader_def spin_frame_def)
  have st: "renderStatus V env ?m = renderStatus V env m" by (simp only: renderStatus_def sel k sb)
  have sd: "renderSidebar V ?m w h = renderSidebar V m w h" for w h by (simp only: renderSidebar_def side sb sel)
  show ?thesis by (simp only: viewList_def sel l d h st sd)
qed

text \<open>A terminal without styles, for the examples.\<close>

definition plain_view :: view_lib where
  "plain_view = \<lparr>vl_Render = (\<lambda>_ s. s), vl_Box = (\<lambda>_ _ _ s. s), vl_JoinHorizontal = concat, vl_JoinVertical = concat, vl_Width = length,
     vl_Height = (\<lambda>s. length (split_lines s)), vl_RuneWidth = (\<lambda>_. 1), vl_InputView = ti_Value, vl_local = (\<lambda>_. gotime_zero), vl_now = 0\<rparr>"

end
