(* ===== verification/TuiProps.thy ===== *)
theory TuiProps
  imports TuiView
begin

text \<open>
  The properties of the vault screen: no message makes it panic, the read-only mode, what the forms
  and the commands send, and what editing an item keeps of it.
\<close>

section \<open>The screen never panics\<close>

definition known_type :: "ItemType \<Rightarrow> bool" where
  "known_type t \<longleftrightarrow> t \<in> {ItemType_CREDENTIAL, ItemType_CARD, ItemType_TEXT, ItemType_BINARY, ItemType_OTP}"

text \<open>An item of a type that the client knows, with a name or an identifier of at least eight bytes to show instead.\<close>

definition vault_item_ok :: "pb_VaultItem \<Rightarrow> bool" where
  "vault_item_ok it \<longleftrightarrow> known_type (pb_Type it) \<and> name_ok it"

definition form_wf :: "itemForm option \<Rightarrow> bool" where
  "form_wf fo \<longleftrightarrow> (case fo of None \<Rightarrow> False | Some f \<Rightarrow> if_focusIdx f < length (if_fields f))"

definition mode_ok :: "viewMode \<Rightarrow> itemForm option \<Rightarrow> passGenState option \<Rightarrow> bool" where
  "mode_ok md fo pgo \<longleftrightarrow>
     (case md of
        modeForm \<Rightarrow> form_wf fo
      | modePassGen \<Rightarrow> (case pgo of None \<Rightarrow> False | Some pg \<Rightarrow> passgen_ok pg \<and> (pg_targetFieldIdx pg < 0 \<or> form_wf fo))
      | _ \<Rightarrow> True)"

definition model_ok :: "Model \<Rightarrow> bool" where
  "model_ok m \<longleftrightarrow> 0 \<le> vm_catIdx m \<and> 0 \<le> vm_listIdx m \<and> 0 \<le> vm_pickerIdx m \<and> vm_pickerIdx m < int (length pickerEntries) \<and> vm_spinner m < 8 \<and>
     list_all vault_item_ok (vm_items m) \<and> mode_ok (vm_mode m) (vm_form m) (vm_passGen m)"

text \<open>A digit key carries its digit; the items of an answer are of this form.\<close>

definition msg_ok :: "vmsg \<Rightarrow> bool" where
  "msg_ok msg \<longleftrightarrow> (case msg of
      VKey k \<Rightarrow> ky_String k \<in> {''1'', ''2'', ''3'', ''4'', ''5'', ''6''} \<longrightarrow> ky_Runes k = ky_String k
    | loadedMsg items \<Rightarrow> list_all vault_item_ok items
    | offlineLoadedMsg items _ \<Rightarrow> list_all vault_item_ok items
    | _ \<Rightarrow> True)"

definition step_ok :: "vstep \<Rightarrow> bool" where
  "step_ok r \<longleftrightarrow> (case r of Inl _ \<Rightarrow> False | Inr (m, _, _) \<Rightarrow> model_ok m)"

lemma step_ok_simps [simp]: "step_ok (Inr (m, e, c)) = model_ok m" "step_ok (stay m) = model_ok m"
  by (simp_all add: step_ok_def stay_def)

text \<open>A chain of guards is safe when each of its branches is.\<close>

definition opt_ok :: "vstep option \<Rightarrow> bool" where
  "opt_ok r \<longleftrightarrow> (case r of None \<Rightarrow> True | Some x \<Rightarrow> step_ok x)"

lemma step_if: "(b \<Longrightarrow> step_ok x) \<Longrightarrow> (\<not> b \<Longrightarrow> step_ok y) \<Longrightarrow> step_ok (if b then x else y)"
  by simp

lemma opt_if: "opt_ok x \<Longrightarrow> opt_ok y \<Longrightarrow> opt_ok (if b then x else y)"
  by simp

lemma opt_ends: "step_ok r \<Longrightarrow> opt_ok (Some r)" "opt_ok None"
  by (simp_all add: opt_ok_def)

lemmas guards = step_if opt_if opt_ends

lemma mode_ok_simps [simp]:
  "mode_ok modeList fo pgo" "mode_ok modePicker fo pgo" "mode_ok modeDelConf fo pgo" "mode_ok modeSearch fo pgo" "mode_ok modeExportPath fo pgo"
  "mode_ok modeForm fo pgo = form_wf fo"
  "mode_ok modePassGen fo (Some pg) = (passgen_ok pg \<and> (pg_targetFieldIdx pg < 0 \<or> form_wf fo))"
  "mode_ok modePassGen fo None = False"
  by (simp_all add: mode_ok_def)

lemma setToast_ok [simp]: "model_ok (setToast env t m) = model_ok m"
  by (simp add: model_ok_def setToast_def)

lemma unless_blocked_ok: "model_ok m \<Longrightarrow> (\<not> vm_offline m \<Longrightarrow> step_ok r) \<Longrightarrow> step_ok (unless_blocked env m r)"
  by (simp add: unless_blocked_def)

lemma on_item_ok:
  assumes "model_ok m" and "\<And>it. it \<in> set items \<Longrightarrow> step_ok (f it)"
  shows "step_ok (on_item m items f)"
proof -
  have i: "0 \<le> vm_listIdx m" using assms(1) by (simp add: model_ok_def)
  show ?thesis
  proof (cases "items = [] \<or> vm_listIdx m \<ge> int (length items)")
    case True
    then show ?thesis using assms(1) by (auto simp: on_item_def pick_def bnd_def)
  next
    case False
    then have "items ! nat (vm_listIdx m) \<in> set items" using i by (intro nth_mem) linarith
    then show ?thesis using False i assms(2) by (auto simp: on_item_def pick_def bnd_def)
  qed
qed

lemma shown_known: "model_ok m \<Longrightarrow> it \<in> set (shown_items env m) \<Longrightarrow> known_type (pb_Type it)"
proof -
  assume m: "model_ok m" and it: "it \<in> set (shown_items env m)"
  have "set (shown_items env m) \<subseteq> set (vm_items m)"
    by (cases "vm_sort m") (auto simp: shown_items_def filteredItems_def Let_def)
  then show ?thesis using m it by (auto simp: model_ok_def list_all_iff vault_item_ok_def)
qed

text \<open>Opening a form with at least one field.\<close>

lemma open_form_ok:
  assumes "model_ok m" and "if_fields form \<noteq> []" and "if_focusIdx form = 0"
  shows "\<exists>m'. open_form form m = Inr m' \<and> model_ok m'"
  using assms by (simp add: open_form_def set_focus_field_def bnd_def model_ok_def form_wf_def)

lemma form_fields_nonempty: "known_type t \<Longrightarrow> form_fields L t item meta ff \<noteq> []"
  by (auto simp: known_type_def form_fields_def Let_def)

lemma open_ok:
  assumes "model_ok m"
  shows "known_type t \<Longrightarrow> \<exists>m'. openNewForm env t m = Inr m' \<and> model_ok m'"
    "known_type (pb_Type it) \<Longrightarrow> \<exists>m'. openEditForm env it m = Inr m' \<and> model_ok m'"
    "\<exists>m'. openNewSSHForm env m = Inr m' \<and> model_ok m'" "\<exists>m'. openEditSSHForm env it m = Inr m' \<and> model_ok m'"
    "\<exists>m'. openNewFileForm env m = Inr m' \<and> model_ok m'"
  unfolding openNewForm_def openEditForm_def openNewSSHForm_def openEditSSHForm_def openNewFileForm_def Let_def buildForm_def
  by (rule open_form_ok [OF assms]; simp add: form_fields_nonempty)+

lemma bnd_ok: "\<exists>x. r = Inr x \<and> P x \<Longrightarrow> (\<And>x. P x \<Longrightarrow> step_ok (f x)) \<Longrightarrow> step_ok (bnd r f)"
  by (auto simp: bnd_def)

lemma new_passgen_ok: "model_ok m \<Longrightarrow> t < 0 \<or> form_wf (vm_form m) \<Longrightarrow> step_ok (new_passgen env t m)"
  unfolding new_passgen_def by (rule bnd_ok [OF newPassGenState_ok]) (auto simp: model_ok_def)

lemma list_nav_ok:
  assumes "model_ok m" and "list_nav key items m = Some m'"
  shows "model_ok m'"
proof -
  let ?u = "\<lambda>c l. m\<lparr>vm_catIdx := c, vm_listIdx := l, vm_revealPwd := False\<rparr>"
  have pos: "0 < catCount (vm_items m)" by simp
  have u: "0 \<le> c \<Longrightarrow> model_ok (?u c 0)" "0 \<le> l \<Longrightarrow> model_ok (m\<lparr>vm_listIdx := l, vm_revealPwd := False, vm_lastErr := []\<rparr>)"
    "model_ok (m\<lparr>vm_sidebarFocus := b\<rparr>)" for c l b
    using assms(1) by (simp_all add: model_ok_def)
  have i: "0 \<le> vm_catIdx m" "0 \<le> vm_listIdx m" using assms(1) by (simp_all add: model_ok_def)
  show ?thesis using assms(2) unfolding list_nav_def Let_def
    by (simp only: option.inject option.distinct split: if_split_asm; hypsubst; use u i pos assms(1) in \<open>simp del: insert_iff\<close>)
qed

lemma on_shown:
  assumes "model_ok m" and "\<And>it. known_type (pb_Type it) \<Longrightarrow> step_ok (f it)"
  shows "step_ok (on_item m (shown_items env m) f)"
  using on_item_ok [OF assms(1)] shown_known [OF assms(1)] assms(2) by blast

lemma list_write_ok:
  assumes m: "model_ok m" and "list_write env key (shown_items env m) m = Some r"
  shows "step_ok r"
proof -
  have pk: "model_ok (m\<lparr>vm_mode := modePicker, vm_pickerIdx := 0\<rparr>)" "model_ok (m\<lparr>vm_deleteTarget := Some it, vm_mode := modeDelConf\<rparr>)" for it
    using m by (simp_all add: model_ok_def pickerEntries_def)
  have e: "step_ok (bnd (if isSSHKey it then openEditSSHForm env it m else openEditForm env it m) (\<lambda>m'. Inr (m', [], CBlink)))"
    if "known_type (pb_Type it)" for it
    by (rule bnd_ok [where P = model_ok]) (use open_ok(2,4) [OF m] that in auto)
  have "opt_ok (list_write env key (shown_items env m) m)" unfolding list_write_def Let_def
    by (intro guards unless_blocked_ok [OF m] on_shown [OF m]) (use m pk e in simp_all)
  then show ?thesis using assms(2) by (simp add: opt_ok_def)
qed

lemma copyField_ok: "model_ok m \<Longrightarrow> step_ok (copyField env (shown_items env m) field m)"
  unfolding copyField_def by (rule on_shown) (simp_all add: Let_def)

lemma handleListKey_ok:
  assumes m: "model_ok m"
  shows "step_ok (handleListKey env key m)"
proof -
  let ?its = "shown_items env m"
  have x: "step_ok (on_item m ?its (\<lambda>it. stay (if isFileItem it then openExportPath env it m else m)))"
    using m by (intro on_shown) (simp_all add: openExportPath_def Let_def model_ok_def)
  have o: "step_ok (on_item m ?its (\<lambda>it. let p = parseLoginPayload (pb_Payload it) [] in
      if lo_URL p \<noteq> [] then Inr (m, [OpenURL (lo_URL p)], CNone) else stay m))"
    using m by (intro on_shown) (simp_all add: Let_def)
  have s: "model_ok (m\<lparr>vm_revealPwd := b\<rparr>)" "model_ok (m\<lparr>vm_loading := True, vm_syncErr := False, vm_offline := False\<rparr>)"
    "model_ok (m\<lparr>vm_mode := modeSearch, vm_searchQuery := []\<rparr>)" "model_ok (m\<lparr>vm_sort := so, vm_listIdx := 0\<rparr>)" for b so
    using m by (simp_all add: model_ok_def)
  have g: "step_ok (new_passgen env (- 1) m)" by (rule new_passgen_ok [OF m]) simp
  show ?thesis
  proof (cases "list_nav key ?its m")
    case (Some m')
    then show ?thesis using list_nav_ok [OF m Some] m by (simp add: handleListKey_def Let_def)
  next
    case nav: None
    show ?thesis
    proof (cases "list_write env key ?its m")
      case (Some r)
      then show ?thesis using list_write_ok [OF m Some] m nav by (simp add: handleListKey_def Let_def)
    next
      case None
      then show ?thesis unfolding handleListKey_def Let_def nav None option.case
        by (intro step_if) (use m copyField_ok [OF m] x o s g in \<open>simp_all only: step_ok_simps Let_def\<close>)
    qed
  qed
qed

lemma open_entry_ok:
  assumes m: "model_ok m" and "0 \<le> i" "i < int (length pickerEntries)"
  shows "step_ok (open_entry env i m)"
proof -
  have "pickerEntries ! nat i \<in> set pickerEntries" using assms by (intro nth_mem) linarith
  then have k: "known_type (pe_typ (pickerEntries ! nat i))" by (auto simp: pickerEntries_def known_type_def)
  show ?thesis unfolding open_entry_def Let_def using assms(2,3)
    by (simp only: if_True simp_thms) (rule bnd_ok [where P = model_ok], use open_ok(1,3,5) [OF m] k in auto)
qed

lemma handlePickerKey_ok:
  assumes m: "model_ok m" and "vm_mode m = modePicker" and k: "msg_ok (VKey msg)"
  shows "step_ok (handlePickerKey env msg m)"
proof -
  have p: "0 \<le> vm_pickerIdx m" "vm_pickerIdx m < int (length pickerEntries)" using m by (simp_all add: model_ok_def)
  have s: "model_ok (m\<lparr>vm_mode := modeList\<rparr>)" "vm_pickerIdx m > 0 \<Longrightarrow> model_ok (m\<lparr>vm_pickerIdx := vm_pickerIdx m - 1\<rparr>)"
    "vm_pickerIdx m < int (length pickerEntries) - 1 \<Longrightarrow> model_ok (m\<lparr>vm_pickerIdx := vm_pickerIdx m + 1\<rparr>)"
    using m by (simp_all add: model_ok_def)
  have d: "step_ok (case ky_Runes msg of [] \<Rightarrow> Inl (Panic ''index out of range'')
      | r # _ \<Rightarrow> let idx = int (byte r) - 49 in
          if idx < int (length pickerEntries) then open_entry env idx (m\<lparr>vm_pickerIdx := idx\<rparr>) else stay m)"
    if "ky_String msg \<in> {''1'', ''2'', ''3'', ''4'', ''5'', ''6''}"
  proof -
    have r: "ky_Runes msg \<in> {''1'', ''2'', ''3'', ''4'', ''5'', ''6''}" using k that by (auto simp: msg_ok_def)
    then obtain c where c: "ky_Runes msg = [c]" "49 \<le> byte c" by (auto simp: byte_def)
    have "model_ok (m\<lparr>vm_pickerIdx := int (byte c) - 49\<rparr>)" if "int (byte c) - 49 < int (length pickerEntries)"
      using m c that by (simp add: model_ok_def)
    then show ?thesis using c m open_entry_ok [of "m\<lparr>vm_pickerIdx := int (byte c) - 49\<rparr>" "int (byte c) - 49" env] by (simp add: Let_def)
  qed
  show ?thesis unfolding handlePickerKey_def Let_def
    by (intro step_if d [unfolded Let_def] open_entry_ok [OF m p]) (use m s in \<open>simp_all del: insert_iff\<close>)
qed

lemma refocus_ok:
  assumes "if_focusIdx f < length (if_fields f)" "j < length (if_fields f)"
  shows "\<exists>g. refocus j f = Inr g \<and> form_wf (Some g)"
  using assms by (simp add: refocus_def set_focus_field_def bnd_def form_wf_def)

lemma saveForm_ok: "model_ok m \<Longrightarrow> if_fields f \<noteq> [] \<Longrightarrow> step_ok (saveForm f m)"
  by (cases "if_fields f") (simp_all add: saveForm_def form_vals_def model_ok_def)

lemma handleFormKey_step:
  assumes m: "model_ok m" and "vm_mode m = modeForm"
  shows "step_ok (Model_handleFormKey env msg m)"
proof -
  obtain f where f: "vm_form m = Some f" "if_focusIdx f < length (if_fields f)"
    using assms by (auto simp: model_ok_def form_wf_def split: option.splits)
  have wf: "form_wf (vm_form m)" using f by (simp add: form_wf_def)
  have ne: "if_fields f \<noteq> []" using f(2) by auto
  have md: "j mod length (if_fields f) < length (if_fields f)" for j using ne by simp
  have mv: "step_ok (bnd (refocus j f) (\<lambda>g. Inr (m\<lparr>vm_form := Some g\<rparr>, [], CBlink)))" if "j < length (if_fields f)" for j
    by (rule bnd_ok [OF refocus_ok [OF f(2) that]]) (use m assms(2) in \<open>simp add: model_ok_def\<close>)
  have esc: "model_ok (m\<lparr>vm_mode := modeList, vm_form := None\<rparr>)" using m by (simp add: model_ok_def)
  have inp: "model_ok (m\<lparr>vm_form := Some (f\<lparr>if_fields := (if_fields f)[if_focusIdx f := x]\<rparr>)\<rparr>)" for x
    using m assms(2) f(2) by (simp add: model_ok_def form_wf_def)
  show ?thesis unfolding Model_handleFormKey_def Let_def f(1) option.case
    by (intro step_if mv saveForm_ok [OF m ne] new_passgen_ok [OF m])
      (use m esc inp f(2) wf md in \<open>simp_all del: insert_iff\<close>)
qed

lemma refresh_step_ok: "model_ok m \<Longrightarrow> vm_mode m = modePassGen \<Longrightarrow> passgen_ok pg \<Longrightarrow> pg_targetFieldIdx pg < 0 \<or> form_wf (vm_form m) \<Longrightarrow>
    step_ok (refresh_step pg m)"
  unfolding refresh_step_def by (rule bnd_ok [where P = "\<lambda>_. True"]) (simp_all add: sep_at_ok model_ok_def)

lemma passgen_target [simp]:
  "pg_targetFieldIdx (adjustFocused d pg) = pg_targetFieldIdx pg" "pg_targetFieldIdx (toggleFocused pg) = pg_targetFieldIdx pg"
  by (cases "pg_tab pg"; simp add: adjustFocused_def toggleFocused_def)+

lemma handlePassGenKey_ok:
  assumes m: "model_ok m" and md: "vm_mode m = modePassGen"
  shows "step_ok (handlePassGenKey env key m)"
proof -
  obtain pg where pg: "vm_passGen m = Some pg" "passgen_ok pg" "pg_targetFieldIdx pg < 0 \<or> form_wf (vm_form m)"
    using assms by (cases "vm_passGen m") (auto simp: model_ok_def)
  have foc: "passgen_ok (pg\<lparr>pg_focus := i\<rparr>)" if "0 \<le> i" "i \<le> maxFocus pg" for i
    using pg(2) that by (simp add: passgen_ok_def maxFocus_def)
  have mx: "0 \<le> maxFocus pg" "0 \<le> pg_focus pg" "pg_focus pg \<le> maxFocus pg" using pg(2) by (simp_all add: passgen_ok_def)
  have tab: "passgen_ok (pg\<lparr>pg_tab := t, pg_focus := 0\<rparr>)" for t
    using pg(2) by (cases t) (simp_all add: passgen_ok_def maxFocus_def field_defs)
  have upd: "model_ok (m\<lparr>vm_passGen := Some pg'\<rparr>)" if "passgen_ok pg'" "pg_targetFieldIdx pg' = pg_targetFieldIdx pg" for pg'
    using m md pg(3) that by (simp add: model_ok_def)
  have esc: "model_ok (m\<lparr>vm_mode := (if pg_targetFieldIdx pg < 0 then modeList else modeForm), vm_passGen := None\<rparr>)"
    "model_ok (m\<lparr>vm_passGen := None, vm_mode := modeList\<rparr>)" using m pg(3) by (auto simp: model_ok_def)
  have ent: "\<not> pg_targetFieldIdx pg < 0 \<Longrightarrow> model_ok (m\<lparr>vm_form := map_option (\<lambda>f. if c f then f\<lparr>if_fields := (if_fields f)[i := g f]\<rparr> else f) (vm_form m),
      vm_mode := modeForm, vm_passGen := None\<rparr>)" for c i g
    using m pg(3) by (auto simp: model_ok_def form_wf_def split: option.splits)
  show ?thesis unfolding handlePassGenKey_def Let_def pg(1) option.case
    by (intro step_if refresh_step_ok [OF m md])
      (use m pg esc ent upd foc mx tab adjust_ok [OF pg(2)] toggle_ok [OF pg(2)] in \<open>simp_all del: insert_iff\<close>)
qed

lemma small_handlers_ok:
  assumes m: "model_ok m"
  shows "step_ok (handleDelConfKey key m)" "step_ok (handleSearchKey msg m)"
    "vm_mode m = modeExportPath \<Longrightarrow> step_ok (handleExportPathKey env msg m)"
proof -
  show "step_ok (handleDelConfKey key m)" using m by (simp add: handleDelConfKey_def model_ok_def)
  have s: "model_ok (m\<lparr>vm_searchQuery := q\<rparr>)" "model_ok (m\<lparr>vm_mode := modeList\<rparr>)" "model_ok (m\<lparr>vm_mode := modeList, vm_searchQuery := q\<rparr>)"
    "model_ok (m\<lparr>vm_mode := modeList, vm_exportItem := None\<rparr>)" "model_ok (m\<lparr>vm_exportPathInput := t\<rparr>)" for q t
    using m by (simp_all add: model_ok_def)
  show "step_ok (handleSearchKey msg m)" unfolding handleSearchKey_def Let_def by (intro step_if) (use m s in simp_all)
  show "step_ok (handleExportPathKey env msg m)" using s by (simp add: handleExportPathKey_def split: keyType.split)
qed

lemma clamp_cat_ok: "model_ok m \<Longrightarrow> model_ok (clamp_cat m)"
  using catCount_pos [of "vm_items m"] unfolding clamp_cat_def Let_def model_ok_def by auto

lemma Model_Update_ok:
  assumes m: "model_ok m" and k: "msg_ok msg"
  shows "step_ok (Model_Update env msg m)"
proof (cases msg)
  case (VKey key)
  then show ?thesis
    using handleFormKey_step [OF m] handlePickerKey_ok [OF m _ k [unfolded VKey]] small_handlers_ok [OF m] handlePassGenKey_ok [OF m]
      handleListKey_ok [OF m] by (cases "vm_mode m") (simp_all add: Model_Update_def)
next
  case (loadedMsg items)
  then have "model_ok (m\<lparr>vm_items := items, vm_listIdx := 0, vm_loading := False, vm_lastSync := Some (tu_now env), vm_syncErr := False,
      vm_offline := False\<rparr>)" using m k by (simp add: model_ok_def msg_ok_def)
  from clamp_cat_ok [OF this] show ?thesis using loadedMsg by (simp add: Model_Update_def)
next
  case (offlineLoadedMsg items age)
  then have "model_ok (m\<lparr>vm_items := items, vm_listIdx := 0, vm_loading := False, vm_syncErr := False, vm_offline := True,
      vm_cacheAge := Some age\<rparr>)" using m k by (simp add: model_ok_def msg_ok_def)
  from clamp_cat_ok [OF this] show ?thesis using offlineLoadedMsg by (simp add: Model_Update_def)
next
  case (passGenRefreshMsg p)
  have "passgen_ok (pg\<lparr>pg_preview := p\<rparr>) = passgen_ok pg" for pg by (simp add: passgen_ok_def maxFocus_def)
  then show ?thesis using m passGenRefreshMsg
    by (cases "vm_passGen m"; cases "vm_mode m") (simp_all add: Model_Update_def model_ok_def)
qed (use m in \<open>simp_all add: Model_Update_def model_ok_def setToast_def Let_def split: option.split\<close>)

text \<open>A session: messages arrive one after the other, each in its own surroundings.\<close>

fun tui_run :: "('r tui_env \<times> vmsg) list \<Rightarrow> Model \<Rightarrow> Model result" where
  "tui_run [] m = Inr m"
| "tui_run ((env, msg) # msgs) m = (case Model_Update env msg m of Inl e \<Rightarrow> Inl e | Inr (m', _, _) \<Rightarrow> tui_run msgs m')"

lemma tui_run_ok: "model_ok m \<Longrightarrow> list_all (\<lambda>(env, msg). msg_ok msg) msgs \<Longrightarrow> \<exists>m'. tui_run msgs m = Inr m' \<and> model_ok m'"
proof (induction msgs arbitrary: m)
  case (Cons p msgs)
  obtain env msg where p: "p = (env, msg)" by (cases p)
  have "step_ok (Model_Update env msg m)" using Cons.prems p by (intro Model_Update_ok) simp_all
  then obtain m1 e c where u: "Model_Update env msg m = Inr (m1, e, c)" "model_ok m1" by (auto simp: step_ok_def split: sum.splits)
  then show ?case using Cons.IH [OF u(2)] Cons.prems p by simp
qed simp

lemma model_ok_view:
  assumes "model_ok m"
  shows "\<exists>s. Model_View V env m = Inr s"
proof -
  have "\<exists>pg. vm_passGen m = Some pg \<and> good (sep_at (pg_separatorIdx pg))" if "vm_mode m = modePassGen"
    using assms that sep_at_ok by (cases "vm_passGen m") (auto simp: model_ok_def passgen_ok_def good_def)
  then have "good (Model_View V env m)"
    by (intro view_good) (use assms in \<open>auto simp: model_ok_def list_all_iff vault_item_ok_def form_wf_def split: option.splits\<close>)
  then show ?thesis by (simp add: good_def)
qed


text \<open>The form of an item of another type has no field, and opening it panics.\<close>

lemma edit_unknown_type: "(\<exists>m'. openEditForm env it m = Inr m') \<longleftrightarrow> known_type (pb_Type it)"
  by (cases "pb_Type it")
    (simp_all add: openEditForm_def open_form_def set_focus_field_def buildForm_def form_fields_def known_type_def bnd_def Let_def)

section \<open>The read-only mode\<close>

text \<open>A step that sends no write and opens no writing mode.\<close>

definition quiet :: "'r tui_env \<Rightarrow> disk \<Rightarrow> pb_VaultItem list \<Rightarrow> vstep \<Rightarrow> bool" where
  "quiet env dk its r \<longleftrightarrow> (case r of Inl _ \<Rightarrow> True
     | Inr (m, _, c) \<Rightarrow> cmd_request env dk its c = None \<and> vm_mode m \<notin> {modePicker, modeForm, modeDelConf})"

lemma quiet_simps [simp]:
  "quiet env dk its (Inr (m, e, c)) = (cmd_request env dk its c = None \<and> vm_mode m \<notin> {modePicker, modeForm, modeDelConf})"
  "quiet env dk its (stay m) = (vm_mode m \<notin> {modePicker, modeForm, modeDelConf})"
  by (simp_all add: quiet_def stay_def cmd_request_def)

lemma quiet_if: "quiet env dk its x \<Longrightarrow> quiet env dk its y \<Longrightarrow> quiet env dk its (if b then x else y)"
  by simp

lemma quiet_item: "(\<And>it. quiet env dk its (f it)) \<Longrightarrow> vm_mode m = modeList \<Longrightarrow> quiet env dk its (on_item m items f)"
  by (auto simp: on_item_def pick_def bnd_def) (simp add: quiet_def)

lemma list_nav_mode: "list_nav key items m = Some m' \<Longrightarrow> vm_mode m' = vm_mode m"
  unfolding list_nav_def Let_def by (simp only: option.inject option.distinct split: if_split_asm; hypsubst; simp del: insert_iff)

lemma offline_quiet:
  assumes "vm_offline m" and "vm_mode m = modeList" and "key \<noteq> ''D''"
  shows "quiet env dk its (handleListKey env key m)"
proof -
  let ?items = "shown_items env m"
  have b: "unless_blocked env m r = stay (setToast env ''Read Only Mode'' m)" for r using assms(1) by (simp add: unless_blocked_def)
  have w: "list_write env key ?items m \<in> {None, Some (stay (setToast env ''Read Only Mode'' m))}"
    unfolding list_write_def Let_def b using assms(3) by simp
  have t: "quiet env dk its (stay (setToast env t m))" "quiet env dk its (new_passgen env (- 1) m)"
    "quiet env dk its (copyField env ?items field m)" for t field
    using assms(2) by (auto simp: setToast_def new_passgen_def bnd_def copyField_def Let_def cmd_request_def split: sum.split intro!: quiet_item)
      (simp add: quiet_def)
  show ?thesis
  proof (cases "list_nav key ?items m")
    case (Some m')
    then show ?thesis using list_nav_mode [OF Some] assms(2) by (simp add: handleListKey_def Let_def cmd_request_def)
  next
    case nav: None
    show ?thesis
    proof (cases "list_write env key ?items m")
      case (Some r)
      then show ?thesis using w t assms(2) nav by (auto simp: handleListKey_def Let_def cmd_request_def)
    next
      case None
      show ?thesis unfolding handleListKey_def Let_def nav None option.case
        by (intro quiet_if quiet_item) (use t assms(2) in \<open>simp_all add: cmd_request_def openExportPath_def Let_def\<close>)
    qed
  qed
qed


section \<open>What a form saves\<close>

lemma add_folder_fields:
  assumes "jok (JObj kvs)" "exact_obj kvs" "clean kvs" "obj_vals ''folder'' kvs = []" "utf8_valid folder"
  shows "\<exists>ms. add_folder F folder (jprint (JObj kvs)) = Inr (jprint (JObj ms)) \<and> jok (JObj ms) \<and> get_str ''folder'' ms = folder \<and>
    (\<forall>f. fold_name f \<noteq> fold_name ''folder'' \<longrightarrow>
       obj_vals f ms = (if folder = [] then obj_vals f kvs else map (the \<circ> go_value F) (obj_vals f kvs)) \<and>
       get_str f ms = get_str f kvs \<and> fst (dec_field d_bool f ms False) = fst (dec_field d_bool f kvs False))"
proof (cases "folder = []")
  case True
  then show ?thesis using assms(1,4) by (intro exI [of _ kvs]) (simp add: add_folder_def get_str_def dec_field_def del: jprint.simps jok.simps)
next
  case False
  obtain ms where u: "unmarshal_map F (jprint (JObj kvs)) = Some (GoMap ms)" "go_members F kvs [] = Some ms" "jok_obj ms" "sorted_wrt (<) (keys ms)"
    using unmarshal_print [OF assms(1,2)] by blast
  have c: "clean ms" by (rule go_members_vals(2) [OF u(2) assms(3)])
  have k: "utf8_valid ''folder''" by (rule utf8_key) (simp add: byte_def)
  have v: "obj_vals f ms = map (the \<circ> go_value F) (obj_vals f kvs)" for f by (rule go_members_vals(1) [OF u(2) assms(3)])
  then have "obj_vals ''folder'' ms = []" using assms(4) by simp
  then have o: "only_spelling ''folder'' ms" by (auto simp: only_spelling_def list_all_iff obj_vals_def filter_empty_conv)
  let ?ns = "map_set ''folder'' (JStr folder) ms"
  have s: "obj_vals f ?ns = (if fold_name f = fold_name ''folder'' then [JStr folder] else obj_vals f ms)" for f
    by (rule obj_vals_set [OF c o u(4)])
  have "jok (JObj ?ns)" using u(3) k assms(5) by (simp add: jok_map_set)
  moreover have "add_folder F folder (jprint (JObj kvs)) = Inr (jprint (JObj ?ns))"
    using False u(1) by (simp add: add_folder_def del: jprint.simps)
  moreover have "get_str ''folder'' ?ns = folder" using s [of "''folder''"] by (simp add: get_str_def dec_field_def d_str_def)
  moreover have "obj_vals f ?ns = map (the \<circ> go_value F) (obj_vals f kvs) \<and> get_str f ?ns = get_str f kvs \<and>
      fst (dec_field d_bool f ?ns False) = fst (dec_field d_bool f kvs False)" if "fold_name f \<noteq> fold_name ''folder''" for f
    using s [of f] that v [of f] go_members_decode(1) [OF u(2) assms(3), of f]
      go_members_decode(2) [OF u(2) assms(3), of f False] by (simp add: get_str_def dec_field_def)
  ultimately show ?thesis using False by (intro exI [of _ ?ns]) (simp del: jprint.simps jok.simps fold_name.simps)
qed

text \<open>The payload of a login: its keys differ, it has no number and neither a folder nor a flag.\<close>

definition login_kvs :: "LoginPayload \<Rightarrow> (string \<times> json) list" where
  "login_kvs p = (case login_json p of JObj kvs \<Rightarrow> kvs | _ \<Rightarrow> [])"

lemma login_json_kvs: "login_json p = JObj (login_kvs p)"
  by (simp add: login_kvs_def login_json_def)

lemma history_exact: "exact_arr (map history_json hs)"
  by (induction hs) (simp_all add: history_json_def str_field_def e_time_def)

lemma login_clean: "clean (login_kvs p)"
  by (simp add: clean_def login_kvs_def login_json_def opt_field_def str_field_def between_def byte_def)

lemma exact_obj_append [simp]: "exact_obj (a @ b) = (exact_obj a \<and> exact_obj b)"
  by (induction a) auto

lemma login_exact: "exact_obj (login_kvs p)"
  by (simp add: login_kvs_def login_json_def opt_field_def str_field_def history_exact)

lemma login_absent:
  assumes "k \<in> {''folder'', ''login'', ''favorite'', ''archived'', ''trashed''}"
  shows "obj_vals k (login_kvs p) = []"
  using assms by (elim insertE emptyE; hypsubst; simp add: login_kvs_def login_json_def payload_eval)

lemma go_value_time: "go_value F (e_time t) = Some (e_time t)"
  by (simp add: e_time_def)

lemma history_go: "history_ok h \<Longrightarrow> \<exists>w. go_value F (history_json h) = Some w \<and> d_struct history_members w x = (h, True)"
  by (simp add: history_json_def str_field_def go_value_time d_struct_def history_members_def history_ok_def payload_decode)

lemma history_go_list:
  "list_all history_ok hs \<Longrightarrow>
    \<exists>ws. go_values F (map history_json hs) = Some ws \<and> d_list (d_struct history_members) history_zero (JArr ws) x = (hs, True)"
proof (induction hs)
  case (Cons h hs)
  then obtain ws where "go_values F (map history_json hs) = Some ws" "d_list (d_struct history_members) history_zero (JArr ws) x = (hs, True)"
    by auto
  moreover obtain w where "go_value F (history_json h) = Some w" "d_struct history_members w history_zero = (h, True)"
    using history_go Cons.prems by fastforce
  ultimately show ?case by (auto simp: d_list_def)
qed (simp add: d_list_def)

lemma login_strings:
  "get_str ''name'' (login_kvs p) = lo_Name p" "get_str ''username'' (login_kvs p) = lo_Username p" "get_str ''password'' (login_kvs p) = lo_Password p"
  "get_str ''url'' (login_kvs p) = lo_URL p" "get_str ''totp_key'' (login_kvs p) = lo_TOTPKey p" "get_str ''notes'' (login_kvs p) = lo_Notes p"
  by (simp_all add: login_kvs_def login_json_def payload_eval)

lemma login_history_vals:
  "obj_vals ''history'' (login_kvs p) = (if lo_History p = [] then [] else [JArr (map history_json (lo_History p))])"
  by (simp add: login_kvs_def login_json_def payload_eval)

lemma not_folder:
  "f \<in> {''name'', ''username'', ''password'', ''url'', ''totp_key'', ''notes'', ''history'', ''login'', ''favorite'', ''archived'', ''trashed''} \<Longrightarrow>
    fold_name f \<noteq> fold_name ''folder''"
  by (elim insertE emptyE; hypsubst; simp add: between_def byte_def)

lemma saved_login:
  assumes q: "login_ok q" and n: "lo_Name q \<noteq> []" and u: "utf8_valid folder"
  shows "\<exists>p. add_folder F folder (jprint (login_json q)) = Inr p \<and> parseLoginPayload p meta = q \<and>
    get_str ''folder'' (members p) = folder \<and> \<not> payload_flag ''favorite'' p \<and> \<not> payload_flag ''archived'' p \<and> \<not> payload_flag ''trashed'' p"
proof -
  have j: "jok (JObj (login_kvs q))" using login_jok [OF q] by (simp add: login_json_kvs)
  obtain ms where ms: "add_folder F folder (jprint (JObj (login_kvs q))) = Inr (jprint (JObj ms))" "jok (JObj ms)" "get_str ''folder'' ms = folder"
    and fr: "\<And>f. fold_name f \<noteq> fold_name ''folder'' \<Longrightarrow>
       obj_vals f ms = (if folder = [] then obj_vals f (login_kvs q) else map (the \<circ> go_value F) (obj_vals f (login_kvs q))) \<and>
       get_str f ms = get_str f (login_kvs q) \<and> fst (dec_field d_bool f ms False) = fst (dec_field d_bool f (login_kvs q) False)"
    using add_folder_fields [OF j login_exact login_clean login_absent [of "''folder''"] u, of F] by (auto simp del: jprint.simps jok.simps)
  have m: "members (jprint (JObj ms)) = ms" by (rule members_print [OF ms(2)])
  have s: "get_str ''name'' ms = lo_Name q" "get_str ''username'' ms = lo_Username q" "get_str ''password'' ms = lo_Password q"
    "get_str ''url'' ms = lo_URL q" "get_str ''totp_key'' ms = lo_TOTPKey q" "get_str ''notes'' ms = lo_Notes q"
    using fr [OF not_folder] login_strings [of q] by simp_all
  have o: "old_login (jprint (JObj ms)) = None"
    by (rule old_login_none [OF ms(2)]) (use fr [OF not_folder, of "''login''"] login_absent [of "''login''" q] in simp)
  have hok: "list_all history_ok (lo_History q)" using q by (simp add: login_ok_def)
  obtain ws where ws: "go_values F (map history_json (lo_History q)) = Some ws"
    "d_list (d_struct history_members) history_zero (JArr ws) [] = (lo_History q, True)" using history_go_list [OF hok] by blast
  have h: "fst (dec_field (d_list (d_struct history_members) history_zero) ''history'' ms []) = lo_History q"
    using fr [OF not_folder, of "''history''"] ws history_list_decode [OF hok, of "[]"] by (simp add: dec_field_def login_history_vals)
  have f: "\<not> fst (dec_field d_bool k ms False)" if "k \<in> {''favorite'', ''archived'', ''trashed''}" for k
    using fr [OF not_folder, of k] login_absent [of k q] that by (auto simp: dec_field_def)
  have "parseLoginPayload (jprint (JObj ms)) meta = q" using n by (simp add: parseLoginPayload_def m s o h or_meta_def Let_def del: jprint.simps)
  then show ?thesis using ms m f by (intro exI [of _ "jprint (JObj ms)"]) (simp add: login_json_kvs payload_flag_def del: jprint.simps)
qed

text \<open>
  C23. Editing a login: the form sends one update of that item, with the name as metadata, whose
  payload is read back as exactly the values of the form, in the folder that was typed. A changed
  password moves the old one to the front of the history, of which at most ten entries are kept; an
  unchanged one leaves the history alone. The flags are not carried over: a favourite,
  archived or trashed login loses its flag when it is edited.
\<close>

theorem edit_login_saved:
  assumes "if_typ form = ItemType_CREDENTIAL" "if_title form = ''Login''" "if_editItemID form = pb_Id it" "pb_Id it \<noteq> []"
    "find (\<lambda>i. pb_Id i = pb_Id it) items = Some it" "list_all utf8_valid [name, user, pwd, url, totp, notes, folder]" "name \<noteq> []"
    "gotime_ok (tu_civil env)" "old = parseLoginPayload (pb_Payload it) (pb_Metadata it)" "login_ok old"
  shows "\<exists>p. cmd_request env dk items (CSave form [name, user, pwd, url, totp, notes, folder]) = Some (Inr (RUpdateItem (pb_Id it) p name)) \<and>
    parseLoginPayload p meta = \<lparr>lo_Name = name, lo_Username = user, lo_Password = pwd, lo_URL = url, lo_TOTPKey = totp, lo_Notes = notes,
      lo_History = (if lo_Password old \<noteq> [] \<and> lo_Password old \<noteq> pwd
        then take 10 (\<lparr>ph_Password = lo_Password old, ph_LastUsed = tu_civil env\<rparr> # lo_History old) else lo_History old)\<rparr> \<and>
    get_str ''folder'' (members p) = folder \<and> \<not> payload_flag ''favorite'' p \<and> \<not> payload_flag ''archived'' p \<and> \<not> payload_flag ''trashed'' p"
proof -
  let ?h = "if lo_Password old \<noteq> [] \<and> lo_Password old \<noteq> pwd
        then take 10 (\<lparr>ph_Password = lo_Password old, ph_LastUsed = tu_civil env\<rparr> # lo_History old) else lo_History old"
  let ?q = "\<lparr>lo_Name = name, lo_Username = user, lo_Password = pwd, lo_URL = url, lo_TOTPKey = totp, lo_Notes = notes, lo_History = ?h\<rparr>"
  have "list_all history_ok (\<lparr>ph_Password = lo_Password old, ph_LastUsed = tu_civil env\<rparr> # lo_History old)"
    using assms(8,10) by (simp add: login_ok_def history_ok_def)
  then have "list_all history_ok ?h" using assms(10) by (auto simp: login_ok_def list_all_iff dest: in_set_takeD)
  then have q: "login_ok ?q" using assms(6) by (simp add: login_ok_def)
  obtain p where p: "add_folder (tu_float env) folder (jprint (login_json ?q)) = Inr p" "parseLoginPayload p meta = ?q"
    "get_str ''folder'' (members p) = folder" "\<not> payload_flag ''favorite'' p" "\<not> payload_flag ''archived'' p" "\<not> payload_flag ''trashed'' p"
    using saved_login [OF q, of folder "tu_float env" meta] assms(6,7) by auto
  have "new_history (tu_civil env) items (if_editItemID form) pwd = ?h"
    using assms(3-5,9) by (simp add: new_history_def Let_def)
  then have "cmd_request env dk items (CSave form [name, user, pwd, url, totp, notes, folder]) = Some (Inr (RUpdateItem (pb_Id it) p name))"
    using assms(1-4) p(1)
    by (simp add: cmd_request_def form_payload_def typed_payload_def val_at_def bnd_def save_request_def del: jprint.simps)
  then show ?thesis using p by blast
qed

section \<open>Examples\<close>

definition demo_now :: gotime where
  "demo_now = \<lparr>t_year = 2025, t_month = 6, t_day = 1, t_hour = 12, t_min = 0, t_sec = 0, t_nsec = 0, t_off = 180\<rparr>"

definition demo_tui :: "unit tui_env" where
  "demo_tui = \<lparr>tu_E = demo_client, tu_inputs = \<lparr>tl_Update = (\<lambda>_ t. t), tl_SetValue = (\<lambda>v. v)\<rparr>, tu_rnd = (\<lambda>_. Some 7), tu_k = 0, tu_now = 0,
     tu_civil = demo_now, tu_totp = (\<lambda>_ _. None), tu_home = None, tu_detect = (\<lambda>_. ''text/plain''), tu_float = (\<lambda>_. None),
     tu_C = demo_crypto, tu_rbytes = (\<lambda>_ n. Some (replicate n (CHR ''r''))), tu_n = 0, tu_codec = \<lparr>pj_Marshal = (\<lambda>_. None), pj_Unmarshal = (\<lambda>_. None)\<rparr>\<rparr>"

definition demo_item :: "string \<Rightarrow> pb_VaultItem" where
  "demo_item payload = \<lparr>pb_Id = ''i1'', pb_UserId = ''u'', pb_Type = ItemType_CREDENTIAL, pb_Payload = payload, pb_Metadata = ''mail'',
     pb_Version = 1, pb_CreatedAt = 0, pb_UpdatedAt = 0\<rparr>"

definition demo_keypress :: "string \<Rightarrow> vmsg" where
  "demo_keypress s = VKey \<lparr>ky_String = s, ky_Type = KeyOther, ky_Runes = s\<rparr>"

definition demo_model :: Model where
  "demo_model = (case Model_New demo_tui demo_config demo_cw of Inr m \<Rightarrow> m | Inl _ \<Rightarrow> undefined)"

lemma demo_model_new: "Model_New demo_tui demo_config demo_cw = Inr demo_model"
  by (simp add: demo_model_def Model_New_def Client_New_def demo_tui_def demo_client_def demo_config_def)


definition demo_offline :: Model where
  "demo_offline = demo_model\<lparr>vm_offline := True\<rparr>"


definition demo_form :: itemForm where
  "demo_form = \<lparr>if_typ = ItemType_CREDENTIAL, if_editItemID = ''i1'', if_title = ''Login'', if_fields = [], if_focusIdx = 0\<rparr>"

theorem edit_login_saved_witness:
  "\<exists>p. cmd_request demo_tui demo_disk [demo_item (jprint (login_json demo_login))] (CSave demo_form [''mail'', ''bob'', ''new'', [], [], [], ''work'']) =
      Some (Inr (RUpdateItem ''i1'' p ''mail'')) \<and>
    lo_Password (parseLoginPayload p ''m'') = ''new'' \<and>
    lo_History (parseLoginPayload p ''m'') = [\<lparr>ph_Password = ''pw'', ph_LastUsed = demo_now\<rparr>] \<and> get_str ''folder'' (members p) = ''work''"
proof -
  let ?it = "demo_item (jprint (login_json demo_login))"
  have l: "login_ok demo_login" "lo_Name demo_login \<noteq> []" by (simp_all add: demo_login_def login_ok_def payload_ok)
  have o: "demo_login = parseLoginPayload (pb_Payload ?it) (pb_Metadata ?it)" using login_roundtrip [OF l] by (simp add: demo_item_def)
  have f: "if_typ demo_form = ItemType_CREDENTIAL" "if_title demo_form = ''Login''" "if_editItemID demo_form = pb_Id ?it" "pb_Id ?it \<noteq> []"
    "find (\<lambda>i. pb_Id i = pb_Id ?it) [?it] = Some ?it" by (simp_all add: demo_form_def demo_item_def)
  have v: "list_all utf8_valid [''mail'', ''bob'', ''new'', [], [], [], ''work'']" "''mail'' \<noteq> []" by (simp_all add: payload_ok)
  have t: "gotime_ok (tu_civil demo_tui)" by (simp add: demo_tui_def demo_now_def gotime_ok_def days_in_def)
  have d: "pb_Id ?it = ''i1''" "tu_civil demo_tui = demo_now" "lo_Password demo_login = ''pw''" "lo_History demo_login = []"
    by (simp_all add: demo_item_def demo_tui_def demo_login_def)
  obtain p where p: "cmd_request demo_tui demo_disk [?it] (CSave demo_form [''mail'', ''bob'', ''new'', [], [], [], ''work'']) =
      Some (Inr (RUpdateItem (pb_Id ?it) p ''mail''))" "lo_Password (parseLoginPayload p ''m'') = ''new''"
    "lo_History (parseLoginPayload p ''m'') = (if lo_Password demo_login \<noteq> [] \<and> lo_Password demo_login \<noteq> ''new''
        then take 10 (\<lparr>ph_Password = lo_Password demo_login, ph_LastUsed = tu_civil demo_tui\<rparr> # lo_History demo_login) else lo_History demo_login)"
    "get_str ''folder'' (members p) = ''work''"
    using edit_login_saved [OF f v t o l(1), of demo_disk "''m''"] by auto
  show ?thesis using p d by (intro exI [of _ p]) simp
qed

text \<open>Two logins that differ in the password only.\<close>

definition demo_secret :: "string \<Rightarrow> json" where
  "demo_secret pw = JObj [(''username'', JStr ''bob''), (''password'', JStr pw)]"

lemma demo_secret_parse:
  assumes "utf8_valid pw"
  shows "members (jprint (demo_secret pw)) = [(''username'', JStr ''bob''), (''password'', JStr pw)]" "old_login (jprint (demo_secret pw)) = None"
proof -
  have j: "jok (demo_secret pw)" using assms by (simp add: demo_secret_def payload_ok)
  show "members (jprint (demo_secret pw)) = [(''username'', JStr ''bob''), (''password'', JStr pw)]"
    using members_print j unfolding demo_secret_def by blast
  show "old_login (jprint (demo_secret pw)) = None"
    unfolding demo_secret_def by (rule old_login_none) (use j in \<open>simp_all add: demo_secret_def obj_vals_Cons between_def byte_def\<close>)
qed

lemma demo_looks_same:
  assumes "utf8_valid a" "a \<noteq> []" "utf8_valid b" "b \<noteq> []"
  shows "looks_same (demo_item (jprint (demo_secret a))) (demo_item (jprint (demo_secret b)))"
  using assms by (simp add: looks_same_def same_payload_def isFavorite_def isArchived_def isTrashed_def isSSHKey_def isFileItem_def getItemFolder_def
      has2FA_def payload_flag_def demo_item_def parseLoginPayload_def demo_secret_parse mask_login_def blot_def payload_eval)

theorem screen_hides_secrets_witness:
  "viewList plain_view demo_tui (demo_model\<lparr>vm_items := [demo_item (jprint (demo_secret ''hunter2''))]\<rparr>) =
   viewList plain_view demo_tui (demo_model\<lparr>vm_items := [demo_item (jprint (demo_secret ''s3cret''))]\<rparr>)"
proof -
  let ?m = "demo_model\<lparr>vm_items := [demo_item (jprint (demo_secret ''s3cret''))]\<rparr>"
  have r: "\<not> vm_revealPwd ?m"
    by (simp add: demo_model_def Model_New_def Client_New_def demo_tui_def demo_client_def demo_config_def)
  have "list_all2 looks_same (vm_items ?m) [demo_item (jprint (demo_secret ''hunter2''))]"
    by (simp add: demo_looks_same utf8_key byte_def)
  from screen_hides_secrets [OF r this, of plain_view demo_tui] show ?thesis by simp
qed

end
