(* ===== verification/Launch.thy ===== *)
theory Launch
  imports TuiProps
begin

text \<open>
  The whole terminal program: its start (\<^verbatim>\<open>internal/client/cmd\<close>: \<^verbatim>\<open>root.go\<close>, \<^verbatim>\<open>tui.go\<close>, \<^verbatim>\<open>version.go\<close>), the launcher of \<^verbatim>\<open>src/internal/client/tui/launcher.go\<close> over the sign-in screen
  and the vault screen, what the sign-in screen shows (the views of \<^verbatim>\<open>auth.go\<close>), and the start of a browser
  (\<^verbatim>\<open>util.go\<close>). A message of the terminal library is one value that each of the two screens reads with its own type
  switch; the package variable \<^verbatim>\<open>_stepBeforeLoading\<close> is a field of the sign-in model. Styles that the code
  builds in place are named by their colours.
\<close>

section \<open>The views of the sign-in screen\<close>

definition labels_at :: "string list \<Rightarrow> nat \<Rightarrow> string result" where
  "labels_at labels i = (if i < length labels then Inr (labels ! i) else Inl (Panic ''index out of range''))"

definition auth_field :: "view_lib \<Rightarrow> string list \<Rightarrow> nat \<Rightarrow> nat \<times> textinput \<Rightarrow> string result" where
  "auth_field V labels focus = (\<lambda>(i, inp). bnd (labels_at labels i) (\<lambda>l.
     Inr (vl_Render V (if i = focus then ''formLabelActiveStyle'' else ''formLabelStyle'') l @ nl @ vl_InputView V inp @ nl @ nl)))"

definition auth_fields :: "view_lib \<Rightarrow> string list \<Rightarrow> AuthModel \<Rightarrow> string result" where
  "auth_fields V labels m = pieces (map (auth_field V labels (am_focusIdx m)) (zip [0..<length (am_inputs m)] (am_inputs m)))"

definition auth_waiting :: "view_lib \<Rightarrow> string \<Rightarrow> string result" where
  "auth_waiting V what = bnd (labels_at spinFrames 0) (\<lambda>f. Inr (vl_Render V ''dimStyle'' (f @ ''  '' @ what)))"

definition menu_lines :: "view_lib \<Rightarrow> int \<Rightarrow> string" where
  "menu_lines V idx = concat (map (\<lambda>(i, opt).
     (if int i = idx then vl_Render V ''colorBlue bold colorSurface0 pad1'' (rn 0x25B6 @ '' '' @ opt)
      else vl_Render V ''dimStyle pad1'' (''  '' @ opt)) @ nl) [(0, ''Sign In''), (1, ''Create Account'')])"

definition renderStep :: "view_lib \<Rightarrow> AuthModel \<Rightarrow> string result" where
  "renderStep V m =
     (case am_step m of
        authStepServer \<Rightarrow> Inr (vl_Render V ''colorBlue bold'' ''Server Address'' @ nl @ nl @ vl_InputView V (am_serverInput m) @ nl)
      | authStepMenu \<Rightarrow> Inr (vl_Render V ''dimStyle'' (cf_ServerAddr (am_cfg m)) @ nl @ nl @ menu_lines V (am_menuIdx m))
      | authStepLogin \<Rightarrow>
          pieces [Inr (vl_Render V ''colorMauve bold'' ''Sign In'' @ nl @ nl),
            auth_fields V [''Username'', ''Master Password''] m,
            if am_loading m then auth_waiting V ''Signing in...'' else Inr []]
      | authStepRegister \<Rightarrow>
          pieces [Inr (vl_Render V ''colorGreen bold'' ''Create Account'' @ nl @ nl),
            auth_fields V [''Username *'', ''Email (optional)'', ''Master Password *'', ''Confirm Password *''] m,
            if am_loading m then auth_waiting V ''Creating account...'' else Inr []]
      | authStepMFA \<Rightarrow>
          Inr (vl_Render V ''colorYellow bold'' ''Two-Factor Authentication'' @ nl @ nl @
            vl_Render V ''dimStyle'' ''Enter the code from your authenticator app:'' @ nl @ nl @
            (case am_inputs m of [] \<Rightarrow> [] | inp # _ \<Rightarrow> vl_InputView V inp @ nl))
      | authStepLoading \<Rightarrow> bnd (auth_waiting V ''Please wait...'') (\<lambda>s. Inr (s @ nl)))"

definition auth_hint :: "authStep \<Rightarrow> string" where
  "auth_hint st =
     (let dash = '' '' @ rn 0x2014 @ '' ''; dot = ''   '' @ rn 0x2022 @ ''   '' in
      case st of
        authStepServer \<Rightarrow> ''Enter'' @ dash @ ''continue'' @ dot @ ''Ctrl+C'' @ dash @ ''quit''
      | authStepMenu \<Rightarrow> rn 0x2191 @ rn 0x2193 @ dash @ ''select'' @ dot @ ''Enter'' @ dash @ ''confirm'' @ dot @ ''Esc'' @ dash @ ''back''
      | authStepLogin \<Rightarrow> ''Tab'' @ dash @ ''next field'' @ dot @ ''Enter'' @ dash @ ''sign in'' @ dot @ ''Esc'' @ dash @ ''back''
      | authStepRegister \<Rightarrow> ''Tab'' @ dash @ ''next field'' @ dot @ ''Enter'' @ dash @ ''create account'' @ dot @ ''Esc'' @ dash @ ''back''
      | authStepMFA \<Rightarrow> ''Enter'' @ dash @ ''confirm'' @ dot @ ''Esc'' @ dash @ ''back''
      | authStepLoading \<Rightarrow> ''Please wait...'')"

definition AuthModel_View :: "view_lib \<Rightarrow> AuthModel \<Rightarrow> string result" where
  "AuthModel_View V m =
     (if am_width m = 0 then Inr []
      else bnd (renderStep V m) (\<lambda>content.
        let w = am_width m;
            centred = vl_Box V ''center'' w None;
            panelW = (if w < 60 then w - 4 else 50);
            body = nl @ nl @ centred (vl_Render V ''colorMauve bold colorSurface0 pad2'' (rn 0x1F512 @ '' GophKeeper'')) @ nl @ nl @
              centred (vl_Box V ''colorMantle rounded colorSurface1'' panelW None content) @ nl @
              (if am_errMsg m = [] then [] else nl @ vl_Box V ''colorRed bold center'' w None (rn 0x2717 @ ''  '' @ am_errMsg m) @ nl) @
              nl @ vl_Box V ''dimStyle center'' w None (auth_hint (am_step m))
        in Inr (vl_Box V ''place'' w (Some (am_height m)) (vl_Box V ''colorBase'' w None body))))"

section \<open>The launcher\<close>

datatype tea_msg =
    TWindowSize int int | TKey keymsg | TAuthDone client_Config | TAuthErr string | TNeedsMFA string | TVault vmsg

text \<open>How each screen reads a message.\<close>

fun as_auth :: "tea_msg \<Rightarrow> auth_msg" where
  "as_auth (TWindowSize w h) = WindowSizeMsg w h"
| "as_auth (TKey k) = KeyMsg (ky_String k)"
| "as_auth (TAuthDone cfg) = authDoneMsg cfg"
| "as_auth (TAuthErr e) = authErrMsg e"
| "as_auth (TNeedsMFA s) = needsMFAMsg s"
| "as_auth (TVault _) = OtherMsg ''vault''"

fun as_vault :: "tea_msg \<Rightarrow> vmsg" where
  "as_vault (TWindowSize w h) = VWindowSize w h"
| "as_vault (TKey k) = VKey k"
| "as_vault (TVault m) = m"
| "as_vault _ = VOther"

record Launcher =
  la_auth :: "AuthModel option"
  la_vault :: "Model option"
  la_ready :: bool

definition NewLauncher :: "ti_lib \<Rightarrow> 'r tui_env \<Rightarrow> client_Config \<Rightarrow> 'r cworld \<Rightarrow> Launcher result" where
  "NewLauncher L env cfg cw =
     (if cf_AccessToken cfg \<noteq> [] then
        (case Model_New env cfg cw of Inl e \<Rightarrow> Inl e | Inr m \<Rightarrow> Inr \<lparr>la_auth = None, la_vault = Some m, la_ready = True\<rparr>)
      else Inr \<lparr>la_auth = Some (NewAuthModel L cfg), la_vault = None, la_ready = False\<rparr>)"

text \<open>What the launcher starts: a command of a screen, the first commands of a screen, or the title of the window.\<close>

datatype launch_cmd = OfAuth auth_cmd | OfVault "veff list" vcmd | InitCmds "vcmd list" | SetTitle string "launch_cmd list"

definition Model_Init :: "vcmd list" where
  "Model_Init = [CTick, CLoad]"

definition setTitle :: "string \<Rightarrow> string" where
  "setTitle title = [CHR 0x1B] @ '']0;'' @ title @ [CHR 0x07]"

definition Launcher_Init :: "string \<Rightarrow> string \<Rightarrow> Launcher \<Rightarrow> launch_cmd" where
  "Launcher_Init version buildDate l =
     SetTitle (setTitle (''GophKeeper | Version: '' @ version @ '' | Build: '' @ buildDate))
       (if la_ready l then [InitCmds Model_Init] else [OfAuth Blink])"

text \<open>The text of an error; every format of the program ends in its \<^verbatim>\<open>%w\<close>.\<close>

fun sentinel_text :: "sentinel \<Rightarrow> string" where
  "sentinel_text ErrNotFound = ''not found''"
| "sentinel_text ErrConflict = ''conflict''"
| "sentinel_text ErrUserExists = ''user already exists''"
| "sentinel_text ErrInvalidCredentials = ''invalid credentials''"
| "sentinel_text ErrMFAInvalid = ''invalid MFA code''"
| "sentinel_text ErrTokenExpired = ''token expired''"
| "sentinel_text ErrTokenInvalid = ''token invalid''"
| "sentinel_text ErrDecryptFailed = ''decryption failed: invalid key or corrupted data''"
| "sentinel_text ErrCacheNotFound = ''local cache not found''"
| "sentinel_text ErrVaultNotFound = ''vault file not found''"
| "sentinel_text ErrWrongPassword = ''wrong master password or keyfile''"
| "sentinel_text ErrInvalidVault = ''invalid vault file format''"

fun err_Error :: "err \<Rightarrow> string" where
  "err_Error (Sentinel s) = sentinel_text s"
| "err_Error (Wrapf f e) = take (length f - 2) f @ err_Error e"
| "err_Error (ErrText s) = s"
| "err_Error (Panic s) = s"

definition Launcher_Update ::
  "ti_lib \<Rightarrow> 'r tui_env \<Rightarrow> 'r cworld \<Rightarrow> tea_msg \<Rightarrow> Launcher \<Rightarrow> (Launcher \<times> launch_cmd) result" where
  "Launcher_Update L env cw msg l =
     (if \<not> la_ready l then
        (case msg of
           TAuthDone cfg \<Rightarrow>
             (case Model_New env cfg cw of
                Inl e \<Rightarrow>
                  (case la_auth l of
                     None \<Rightarrow> Inl (Panic ''nil pointer'')
                   | Some a \<Rightarrow> Inr (l\<lparr>la_auth := Some (a\<lparr>am_errMsg := txt_init @ err_Error e\<rparr>)\<rparr>, OfAuth NoCmd))
              | Inr m \<Rightarrow>
                  Inr (l\<lparr>la_vault := Some (case la_auth l of None \<Rightarrow> m
                           | Some a \<Rightarrow> m\<lparr>vm_width := am_width a, vm_height := am_height a\<rparr>),
                         la_ready := True\<rparr>, InitCmds Model_Init))
         | _ \<Rightarrow>
             (case la_auth l of
                None \<Rightarrow> Inl (Panic ''nil pointer'')
              | Some a \<Rightarrow>
                  (case handleSpecialMsg L (as_auth msg) a of
                     Some (a', c) \<Rightarrow> Inr (l\<lparr>la_auth := Some a'\<rparr>, OfAuth c)
                   | None \<Rightarrow> bnd (AuthModel_Update L (as_auth msg) a) (\<lambda>(a', c). Inr (l\<lparr>la_auth := Some a'\<rparr>, OfAuth c)))))
      else (case la_vault l of
              None \<Rightarrow> Inl (Panic ''nil pointer'')
            | Some m \<Rightarrow> bnd (Model_Update env (as_vault msg) m) (\<lambda>(m', effs, c). Inr (l\<lparr>la_vault := Some m'\<rparr>, OfVault effs c))))"

definition Launcher_View :: "view_lib \<Rightarrow> 'r tui_env \<Rightarrow> Launcher \<Rightarrow> string result" where
  "Launcher_View V env l =
     (if la_ready l
      then (case la_vault l of None \<Rightarrow> Inl (Panic ''nil pointer'') | Some m \<Rightarrow> Model_View V env m)
      else (case la_auth l of None \<Rightarrow> Inl (Panic ''nil pointer'') | Some a \<Rightarrow> AuthModel_View V a))"

text \<open>
  The browser of the platform: the first of the three programs that starts; if none does, nothing
  happens and nothing is reported.
\<close>

definition openURL :: "(string list \<Rightarrow> bool) \<Rightarrow> string \<Rightarrow> string list option" where
  "openURL starts url = find starts [[''open'', url], [''xdg-open'', url], [''cmd'', ''/c'', ''start'', url]]"

section \<open>The client program\<close>

text \<open>
  The root command and \<^verbatim>\<open>tui\<close>: the configuration, the address of the flag \<^verbatim>\<open>--server\<close>
  if there is one, and the event loop \<open>run\<close> of the terminal library over the launcher.
\<close>

definition tuiRunE :: "ti_lib \<Rightarrow> 'r tui_env \<Rightarrow> (Launcher \<Rightarrow> unit result) \<Rightarrow> string \<Rightarrow> 'r cworld \<Rightarrow> unit result" where
  "tuiRunE L env run srv cw =
     (case config_Load (tu_E env) cw of
        Inl e \<Rightarrow> Inl e
      | Inr cfg0 \<Rightarrow>
          (let cfg = (if srv \<noteq> [] then cfg0\<lparr>cf_ServerAddr := srv\<rparr> else cfg0) in
           case NewLauncher L env cfg cw of Inl e \<Rightarrow> Inl e | Inr launcher \<Rightarrow> run launcher))"

definition version_line :: "string \<Rightarrow> string \<Rightarrow> string" where
  "version_line version buildDate = ''GophKeeper '' @ version @ '' (built '' @ buildDate @ '')'' @ nl"

text \<open>The commands that the root command knows; what the process prints to its standard error, and its status.\<close>

definition root_commands :: "string list" where
  "root_commands = [''auth'', ''credential'', ''version'', ''tui'', ''sync'']"

definition Execute :: "unit result \<Rightarrow> string \<times> nat" where
  "Execute r = (case r of Inl e \<Rightarrow> (err_Error e @ nl, 1) | Inr _ \<Rightarrow> ([], 0))"

section \<open>The state of the launcher between two messages\<close>

definition launcher_ok :: "Launcher \<Rightarrow> bool" where
  "launcher_ok l = (if la_ready l then (case la_vault l of None \<Rightarrow> False | Some m \<Rightarrow> model_ok m)
     else (case la_auth l of None \<Rightarrow> False | Some a \<Rightarrow> form_ok a))"

text \<open>
  An error answer arrives in order when the screen still shows the step that asked. Of the messages of
  the vault screen only those that bring items are restricted (theory \<open>TuiProps\<close>).
\<close>

definition in_order :: "tea_msg \<Rightarrow> Launcher \<Rightarrow> bool" where
  "in_order msg l =
     (if la_ready l then msg_ok (as_vault msg)
      else (case (msg, la_auth l) of (TAuthErr _, Some a) \<Rightarrow> am_step a = am_before a | _ \<Rightarrow> True))"

lemma Model_New_ok: "Model_New env cfg cw = Inr m \<Longrightarrow> model_ok (m\<lparr>vm_width := w, vm_height := h\<rparr>)"
  "Model_New env cfg cw = Inr m \<Longrightarrow> model_ok m"
  by (auto simp: Model_New_def model_ok_def pickerEntries_def split: sum.splits)

lemma done_step_ok:
  assumes "launcher_ok l" and "\<not> la_ready l"
  shows "\<exists>l' c. Launcher_Update L env cw (TAuthDone cfg) l = Inr (l', c) \<and> launcher_ok l'"
  using assms Model_New_ok by (cases "Model_New env cfg cw"; cases "la_auth l")
    (auto simp: Launcher_Update_def launcher_ok_def form_ok_def)

lemma auth_step_red:
  assumes "\<not> la_ready l" and "la_auth l = Some a" and "\<And>cfg. msg \<noteq> TAuthDone cfg"
  shows "Launcher_Update L env cw msg l = (case handleSpecialMsg L (as_auth msg) a of
      Some (a', c) \<Rightarrow> Inr (l\<lparr>la_auth := Some a'\<rparr>, OfAuth c)
    | None \<Rightarrow> bnd (AuthModel_Update L (as_auth msg) a) (\<lambda>(a', c). Inr (l\<lparr>la_auth := Some a'\<rparr>, OfAuth c)))"
  using assms by (cases msg) (auto simp: Launcher_Update_def split: option.split)

lemma as_auth_inject: "as_auth msg = authErrMsg e \<longleftrightarrow> msg = TAuthErr e" "as_auth msg = authDoneMsg cfg \<longleftrightarrow> msg = TAuthDone cfg"
  by (cases msg; auto)+

lemma launcher_step_ok:
  assumes l: "launcher_ok l" and o: "in_order msg l"
  shows "\<exists>l' c. Launcher_Update L env cw msg l = Inr (l', c) \<and> launcher_ok l'"
proof (cases "la_ready l")
  case True
  then obtain m where m: "la_vault l = Some m" "model_ok m" using l by (auto simp: launcher_ok_def split: option.splits)
  have "step_ok (Model_Update env (as_vault msg) m)" using m o True by (intro Model_Update_ok) (simp_all add: in_order_def)
  then obtain m' e c where "Model_Update env (as_vault msg) m = Inr (m', e, c)" "model_ok m'"
    by (auto simp: step_ok_def split: sum.splits)
  then show ?thesis using True m by (simp add: Launcher_Update_def launcher_ok_def bnd_def)
next
  case False
  then obtain a where a: "la_auth l = Some a" "form_ok a" using l by (auto simp: launcher_ok_def split: option.splits)
  show ?thesis
  proof (cases "\<exists>cfg. msg = TAuthDone cfg")
    case True
    then show ?thesis using done_step_ok [OF l False] by blast
  next
    case nd: False
    note red = auth_step_red [OF False a(1), of msg L env cw]
    show ?thesis
    proof (cases "handleSpecialMsg L (as_auth msg) a")
      case None
      then obtain a' c where "AuthModel_Update L (as_auth msg) a = Inr (a', c)" "form_ok a'"
        using other_ok a(2) nd by (metis as_auth_inject(2))
      then show ?thesis using red nd None False by (simp add: bnd_def launcher_ok_def)
    next
      case (Some p)
      then obtain a' c where s: "handleSpecialMsg L (as_auth msg) a = Some (a', c)" by (cases p) auto
      have "form_ok a'" by (rule special_ok [OF a(2) s]) (use o a False in \<open>auto simp: as_auth_inject in_order_def\<close>)
      then show ?thesis using red nd s False by (simp add: launcher_ok_def)
    qed
  qed
qed

lemma launcher_step_inv: "launcher_ok l \<Longrightarrow> in_order msg l \<Longrightarrow> Launcher_Update L env cw msg l = Inr (l', c) \<Longrightarrow> launcher_ok l'"
  using launcher_step_ok [of l msg L env cw] by auto

lemma launcher_init_ok: "NewLauncher L env cfg cw = Inr l \<Longrightarrow> launcher_ok l"
  by (auto simp: NewLauncher_def launcher_ok_def NewAuthModel_def form_ok_def Model_New_ok split: if_splits sum.splits)

lemma good_auth_fields: "length (am_inputs m) \<le> length labels \<Longrightarrow> good (auth_fields V labels m)"
  by (auto simp: auth_fields_def list_all_iff auth_field_def labels_at_def set_zip)

lemma good_auth_waiting [simp]: "good (auth_waiting V s)"
  by (simp add: auth_waiting_def labels_at_def spinFrames_def)

lemma form_ok_view: "form_ok m \<Longrightarrow> good (AuthModel_View V m)"
  by (cases "am_step m")
    (auto simp: AuthModel_View_def renderStep_def Let_def form_ok_def simp del: pieces.simps intro!: good_auth_fields)

lemma launcher_ok_view: "launcher_ok l \<Longrightarrow> \<exists>s. Launcher_View V env l = Inr s"
  using form_ok_view model_ok_view unfolding Launcher_View_def launcher_ok_def
  by (auto simp: good_def split: option.splits if_splits)

section \<open>A session of the program\<close>

text \<open>Messages arrive one after the other, each in its own surroundings.\<close>

fun launcher_run :: "ti_lib \<Rightarrow> ('r tui_env \<times> 'r cworld \<times> tea_msg) list \<Rightarrow> Launcher \<Rightarrow> Launcher result" where
  "launcher_run L [] l = Inr l"
| "launcher_run L ((env, cw, msg) # msgs) l = bnd (Launcher_Update L env cw msg l) (\<lambda>(l', _). launcher_run L msgs l')"

fun orderly :: "ti_lib \<Rightarrow> ('r tui_env \<times> 'r cworld \<times> tea_msg) list \<Rightarrow> Launcher \<Rightarrow> bool" where
  "orderly L [] l = True"
| "orderly L ((env, cw, msg) # msgs) l =
     (in_order msg l \<and> (case Launcher_Update L env cw msg l of Inl _ \<Rightarrow> True | Inr (l', _) \<Rightarrow> orderly L msgs l'))"

lemma session_rule:
  fixes msgs :: "('r tui_env \<times> 'r cworld \<times> tea_msg) list"
  assumes "P l" and "orderly L msgs l"
    and step: "\<And>(env :: 'r tui_env) cw msg l l' c. P l \<Longrightarrow> in_order msg l \<Longrightarrow> Launcher_Update L env cw msg l = Inr (l', c) \<Longrightarrow> P l'"
    and go: "\<And>(env :: 'r tui_env) cw msg l. P l \<Longrightarrow> in_order msg l \<Longrightarrow> \<exists>l' c. Launcher_Update L env cw msg l = Inr (l', c)"
  shows "\<exists>l'. launcher_run L msgs l = Inr l' \<and> P l'"
  using assms(1,2)
proof (induction msgs arbitrary: l)
  case (Cons p msgs)
  obtain env cw msg where p: "p = (env, cw, msg)" by (cases p) auto
  have o: "in_order msg l" using Cons.prems p by simp
  obtain l1 c where u: "Launcher_Update L env cw msg l = Inr (l1, c)" using go [OF Cons.prems(1) o] by blast
  have "orderly L msgs l1" using Cons.prems p u by simp
  from Cons.IH [OF step [OF Cons.prems(1) o u] this] show ?case using p u by (simp add: bnd_def)
qed simp


definition demo_launcher :: Launcher where
  "demo_launcher = \<lparr>la_auth = Some (NewAuthModel demo_inputs demo_config), la_vault = None, la_ready = False\<rparr>"

definition demo_key :: "string \<Rightarrow> keymsg" where
  "demo_key s = \<lparr>ky_String = s, ky_Type = KeyOther, ky_Runes = s\<rparr>"

lemma demo_launcher_new: "NewLauncher demo_inputs demo_tui demo_config demo_cw = Inr demo_launcher"
  by (simp add: NewLauncher_def demo_launcher_def demo_config_def)

lemmas signin_defs = Launcher_Update_def bnd_def handleSpecialMsg_def AuthModel_Update_def NewAuthModel_def handleServerKey_def
  handleMenuKey_def openLoginForm_def openRegisterForm_def handleFormKey_def handleMFAKey_def nextField_def move_field_def set_focus_def
  submitForm_def submitMFA_def input_value_def Let_def

text \<open>Signing in: the server is confirmed, the login form is opened, and the answer brings the vault screen.\<close>

definition demo_signin :: "(unit tui_env \<times> unit cworld \<times> tea_msg) list" where
  "demo_signin = map (\<lambda>msg. (demo_tui, demo_cw, msg))
     [TWindowSize 80 24, TKey (demo_key ''enter''), TKey (demo_key ''1''), TAuthDone demo_config, TVault (tickMsg 1)]"

lemma demo_signin_orderly: "orderly demo_inputs demo_signin demo_launcher"
  by (simp add: demo_signin_def demo_launcher_def demo_key_def in_order_def signin_defs forward_def demo_model_new Model_Update_def msg_ok_def
      split: sum.split option.split)


section \<open>The master password on the screen\<close>

text \<open>What the text inputs promise: a message does not change the echo mode, and a masked input shows only the length of its value.\<close>

definition keeps_echo :: "ti_lib \<Rightarrow> bool" where
  "keeps_echo L \<longleftrightarrow> (\<forall>msg t. ti_Secret (tl_Update L msg t) = ti_Secret t)"

definition masks_secrets :: "view_lib \<Rightarrow> bool" where
  "masks_secrets V \<longleftrightarrow> (\<forall>t v. ti_Secret t \<and> length (runes v) = length (runes (ti_Value t)) \<longrightarrow>
     vl_InputView V (t\<lparr>ti_Value := v\<rparr>) = vl_InputView V t)"

fun step_flags :: "authStep \<Rightarrow> bool list option" where
  "step_flags authStepLogin = Some [False, True]"
| "step_flags authStepRegister = Some [False, False, True, True]"
| "step_flags _ = None"

definition masked :: "AuthModel \<Rightarrow> bool" where
  "masked m \<longleftrightarrow> (case step_flags (am_step m) of None \<Rightarrow> True | Some fs \<Rightarrow> map ti_Secret (am_inputs m) = fs)"

definition launcher_masked :: "Launcher \<Rightarrow> bool" where
  "launcher_masked l \<longleftrightarrow> (case la_auth l of None \<Rightarrow> True | Some a \<Rightarrow> masked a)"

text \<open>Two models with the same step and the same echo modes are masked alike.\<close>

lemma masked_cong: "am_step m' = am_step m \<Longrightarrow> map ti_Secret (am_inputs m') = map ti_Secret (am_inputs m) \<Longrightarrow> masked m' = masked m"
  by (simp add: masked_def split: option.split)

lemma masked_upd [simp]:
  "masked (m\<lparr>am_errMsg := e\<rparr>) = masked m" "masked (m\<lparr>am_width := w, am_height := h\<rparr>) = masked m"
  "am_step m = authStepMenu \<Longrightarrow> masked m" "am_step m = authStepServer \<Longrightarrow> masked m" "am_step m = authStepMFA \<Longrightarrow> masked m"
  by (simp_all add: masked_def split: option.split)

lemma set_focus_secret: "set_focus f i m = Inr m' \<Longrightarrow> am_step m' = am_step m \<and> map ti_Secret (am_inputs m') = map ti_Secret (am_inputs m)"
  by (auto simp: set_focus_def map_update list_update_same_conv split: if_splits)

lemma move_field_secret:
  "move_field g m = Inr m' \<Longrightarrow> am_step m' = am_step m \<and> map ti_Secret (am_inputs m') = map ti_Secret (am_inputs m)"
  by (auto simp: move_field_def bnd_def Let_def split: sum.splits dest!: set_focus_secret)

lemma update_inputs_secret: "keeps_echo L \<Longrightarrow> map ti_Secret (am_inputs (update_inputs L msg m)) = map ti_Secret (am_inputs m)"
  by (simp add: update_inputs_def keeps_echo_def)

lemma submitForm_secret: "submitForm m = Inr (m', c) \<Longrightarrow> am_step m' = am_step m \<and> am_inputs m' = am_inputs m"
  by (auto simp: submitForm_def bnd_def Let_def split: sum.splits if_splits)

lemma handleFormKey_masked:
  assumes "keeps_echo L" and "masked m" and "handleFormKey L key m = Inr (m', c)"
  shows "masked m'"
proof -
  have "masked m'" if "nextField m = Inr m' \<or> prevField m = Inr m'" for m'
    using that move_field_secret masked_cong [of m' m] assms(2) by (auto simp: nextField_def prevField_def)
  moreover have "masked m'" if "submitForm m = Inr (m', c)" for m' c
    using submitForm_secret [OF that] masked_cong [of m' m] assms(2) by simp
  moreover have "masked (update_inputs L (KeyMsg key) m)"
    using masked_cong [of "update_inputs L (KeyMsg key) m" m] update_inputs_secret [OF assms(1)] assms(2) by (simp add: update_inputs_def)
  moreover have "masked (m\<lparr>am_step := authStepMenu, am_inputs := []\<rparr>)" by (simp add: masked_def)
  ultimately show ?thesis using assms(2,3) unfolding handleFormKey_def bnd_def by (auto split: if_splits sum.splits)
qed

lemma forward_masked: "keeps_echo L \<Longrightarrow> masked m \<Longrightarrow> masked (fst (forward L msg m))"
  using masked_cong [of "update_inputs L msg m" m, OF _ update_inputs_secret]
  by (auto simp: forward_def update_inputs_def)

lemma forms_masked: "masked (openLoginForm L m)" "masked (openRegisterForm L m)"
  by (simp_all add: masked_def openLoginForm_def openRegisterForm_def mkAuthInput_def)

lemma handleMenuKey_masked: "masked m \<Longrightarrow> am_step m = authStepMenu \<Longrightarrow> masked (fst (handleMenuKey L key m))"
  by (simp add: handleMenuKey_def forms_masked)

lemma handleMFAKey_masked: "am_step m = authStepMFA \<Longrightarrow> handleMFAKey L key m = Inr (m', c) \<Longrightarrow> masked m'"
  by (auto simp: handleMFAKey_def submitMFA_def bnd_def update_inputs_def masked_def split: if_splits sum.splits)

lemma key_masked:
  assumes "keeps_echo L" and "masked m" and "AuthModel_Update L (KeyMsg key) m = Inr (m', c)"
  shows "masked m'"
proof -
  let ?m = "m\<lparr>am_errMsg := []\<rparr>"
  have ok: "masked ?m" using assms(2) by simp
  show ?thesis
  proof (cases "am_step m")
    case authStepServer
    then show ?thesis using assms(3) by (auto simp: AuthModel_Update_def handleServerKey_def Let_def masked_def split: if_splits)
  next
    case authStepMenu
    then show ?thesis using assms(3) handleMenuKey_masked [OF ok, of L key] by (auto simp: AuthModel_Update_def)
  next
    case authStepLoading
    then show ?thesis using assms(3) forward_masked [OF assms(1) ok, of "KeyMsg key"] by (auto simp: AuthModel_Update_def)
  next
    case authStepMFA
    then show ?thesis using assms(3) handleMFAKey_masked [of ?m L key m' c] by (simp add: AuthModel_Update_def)
  qed (use assms(3) handleFormKey_masked [OF assms(1) ok] in \<open>auto simp: AuthModel_Update_def\<close>)
qed

lemma special_masked:
  assumes "masked a" and "handleSpecialMsg L msg a = Some (a', c)" and "\<And>e. msg = authErrMsg e \<Longrightarrow> am_step a = am_before a"
  shows "masked a'"
proof (cases msg)
  case (authErrMsg e)
  then have "am_step a' = am_step a \<and> map ti_Secret (am_inputs a') = map ti_Secret (am_inputs a)"
    using assms(2,3) by (auto simp: handleSpecialMsg_def Let_def map_update list_update_same_conv split: if_splits)
  then show ?thesis using masked_cong assms(1) by blast
qed (use assms(2) in \<open>auto simp: handleSpecialMsg_def masked_def\<close>)

lemma other_masked:
  assumes "keeps_echo L" and "masked a" and "handleSpecialMsg L msg a = None" and "\<And>cfg. msg \<noteq> authDoneMsg cfg"
    and "AuthModel_Update L msg a = Inr (a', c)"
  shows "masked a'"
proof (cases msg)
  case (KeyMsg key)
  then show ?thesis using key_masked [OF assms(1,2)] assms(5) by blast
next
  case (WindowSizeMsg w h)
  have "masked (a\<lparr>am_width := w, am_height := h\<rparr>)" using assms(2) by simp
  from forward_masked [OF assms(1) this, of msg] show ?thesis using assms(5) WindowSizeMsg by (auto simp: AuthModel_Update_def)
next
  case (OtherMsg t)
  then show ?thesis using forward_masked [OF assms(1,2), of msg] assms(5) by (auto simp: AuthModel_Update_def)
qed (use assms in \<open>simp_all add: handleSpecialMsg_def Let_def\<close>)

lemma launcher_masked_step:
  assumes L: "keeps_echo L" and m: "launcher_masked l" and o: "in_order msg l" and u: "Launcher_Update L env cw msg l = Inr (l', c)"
  shows "launcher_masked l'"
proof (cases "la_ready l \<or> (\<exists>cfg. msg = TAuthDone cfg) \<or> la_auth l = None")
  case True
  then show ?thesis using m u
    by (cases msg) (auto simp: Launcher_Update_def launcher_masked_def masked_def bnd_def split: option.splits sum.splits if_splits)
next
  case False
  then obtain a where a: "la_auth l = Some a" "masked a" "\<not> la_ready l" and nd: "\<And>cfg. msg \<noteq> TAuthDone cfg"
    using m by (auto simp: launcher_masked_def)
  note red = auth_step_red [OF a(3,1) nd, of L env cw]
  show ?thesis
  proof (cases "handleSpecialMsg L (as_auth msg) a")
    case None
    then obtain a' c' where "AuthModel_Update L (as_auth msg) a = Inr (a', c')" "l' = l\<lparr>la_auth := Some a'\<rparr>"
      using red u by (auto simp: bnd_def split: sum.splits)
    with other_masked [OF L a(2) None _ this(1)] nd show ?thesis by (simp add: launcher_masked_def as_auth_inject)
  next
    case (Some p)
    then obtain a' c' where s: "handleSpecialMsg L (as_auth msg) a = Some (a', c')" "l' = l\<lparr>la_auth := Some a'\<rparr>"
      using red u by (cases p) auto
    have "masked a'" by (rule special_masked [OF a(2) s(1)]) (use o a in \<open>auto simp: as_auth_inject in_order_def\<close>)
    then show ?thesis using s(2) by (simp add: launcher_masked_def)
  qed
qed

definition retype :: "nat \<Rightarrow> string \<Rightarrow> AuthModel \<Rightarrow> AuthModel" where
  "retype i v m = m\<lparr>am_inputs := (am_inputs m)[i := (am_inputs m ! i)\<lparr>ti_Value := v\<rparr>]\<rparr>"

lemma auth_fields_retype:
  assumes "masks_secrets V" and "i < length (am_inputs m)" and "ti_Secret (am_inputs m ! i)"
    and "length (runes v) = length (runes (ti_Value (am_inputs m ! i)))"
  shows "auth_fields V labels (retype i v m) = auth_fields V labels m"
proof -
  have "vl_InputView V ((am_inputs m)[i := (am_inputs m ! i)\<lparr>ti_Value := v\<rparr>] ! j) = vl_InputView V (am_inputs m ! j)"
    if "j < length (am_inputs m)" for j
    using assms that by (cases "i = j") (simp_all add: masks_secrets_def)
  then have "map (auth_field V labels (am_focusIdx m)) (zip [0..<length (am_inputs m)] ((am_inputs m)[i := (am_inputs m ! i)\<lparr>ti_Value := v\<rparr>])) =
      map (auth_field V labels (am_focusIdx m)) (zip [0..<length (am_inputs m)] (am_inputs m))"
    by (intro nth_equalityI) (simp_all add: auth_field_def)
  then show ?thesis by (simp add: auth_fields_def retype_def)
qed

text \<open>
  C34. The master password never shows on the sign-in screen: in every state that the program reaches (error answers
  in order), the view with the typed master password, in the login form or in either field of the registration form, is
  character for character the view with any other text of the same length in its place. (The text inputs of
  the terminal library keep their echo mode and show a masked value by its length only.)
\<close>

theorem signin_hides_password:
  assumes "NewLauncher L env cfg cw = Inr l0" and "orderly L msgs l0" and "launcher_run L msgs l0 = Inr l"
    and "\<not> la_ready l" and "la_auth l = Some a" and "keeps_echo L" and "masks_secrets V"
    and "(am_step a, i) \<in> {(authStepLogin, 1), (authStepRegister, 2), (authStepRegister, 3)}"
    and "length (runes v) = length (runes (ti_Value (am_inputs a ! i)))"
  shows "Launcher_View V env' (l\<lparr>la_auth := Some (retype i v a)\<rparr>) = Launcher_View V env' l"
proof -
  let ?P = "\<lambda>l. launcher_ok l \<and> launcher_masked l"
  have init: "?P l0" using launcher_init_ok [OF assms(1)] assms(1)
    by (auto simp: NewLauncher_def launcher_masked_def masked_def NewAuthModel_def split: if_splits sum.splits)
  have "\<exists>l. launcher_run L msgs l0 = Inr l \<and> ?P l"
    by (rule session_rule [where P = ?P, OF init assms(2)])
      (use launcher_step_inv launcher_masked_step [OF assms(6)] in blast, use launcher_step_ok in blast)
  then have "masked a" using assms(3,5) by (simp add: launcher_masked_def)
  then have "i < length (am_inputs a) \<and> ti_Secret (am_inputs a ! i)"
    using assms(8) by (auto simp: masked_def map_eq_Cons_conv)
  then have f: "auth_fields V labels (retype i v a) = auth_fields V labels a" for labels
    using auth_fields_retype assms(7,9) by blast
  have same: "am_step (retype i v a) = am_step a" "am_loading (retype i v a) = am_loading a" "am_width (retype i v a) = am_width a"
    "am_height (retype i v a) = am_height a" "am_errMsg (retype i v a) = am_errMsg a" by (simp_all add: retype_def)
  have "am_step a \<in> {authStepLogin, authStepRegister}" using assms(8) by auto
  then have "renderStep V (retype i v a) = renderStep V a" by (auto simp: renderStep_def f same)
  then show ?thesis using assms(4,5) unfolding Launcher_View_def AuthModel_View_def Let_def by (simp add: same)
qed

text \<open>In the login form, with a password pasted into the focused field.\<close>

definition demo_login :: "(unit tui_env \<times> unit cworld \<times> tea_msg) list" where
  "demo_login = map (\<lambda>msg. (demo_tui, demo_cw, msg)) [TWindowSize 80 24, TKey (demo_key ''enter''), TKey (demo_key ''1''), TKey (demo_key ''tab''),
     TKey (demo_key ''hunter2'')]"

definition masking_view :: view_lib where
  "masking_view = plain_view\<lparr>vl_InputView := (\<lambda>t. if ti_Secret t then bullets (length (runes (ti_Value t))) else ti_Value t)\<rparr>"

text \<open>Inputs that append what is typed while they have the focus.\<close>

definition typing_inputs :: ti_lib where
  "typing_inputs = demo_inputs\<lparr>tl_Update := (\<lambda>msg t. case msg of KeyMsg k \<Rightarrow> if ti_Focus t then t\<lparr>ti_Value := ti_Value t @ k\<rparr> else t | _ \<Rightarrow> t)\<rparr>"

theorem signin_hides_password_witness:
  "\<exists>l a. launcher_run typing_inputs demo_login (demo_launcher\<lparr>la_auth := Some (NewAuthModel typing_inputs demo_config)\<rparr>) = Inr l \<and> la_auth l = Some a \<and>
     ti_Value (am_inputs a ! 1) = ''hunter2'' \<and>
     Launcher_View masking_view demo_tui (l\<lparr>la_auth := Some (retype 1 ''letmein'' a)\<rparr>) = Launcher_View masking_view demo_tui l"
proof -
  let ?l0 = "demo_launcher\<lparr>la_auth := Some (NewAuthModel typing_inputs demo_config)\<rparr>"
  have n: "NewLauncher typing_inputs demo_tui demo_config demo_cw = Inr ?l0"
    by (simp add: NewLauncher_def demo_launcher_def demo_config_def)
  have o: "orderly typing_inputs demo_login ?l0"
    by (simp add: demo_login_def demo_launcher_def demo_key_def in_order_def signin_defs forward_def)
  obtain l a where r: "launcher_run typing_inputs demo_login ?l0 = Inr l" "\<not> la_ready l" "la_auth l = Some a" "am_step a = authStepLogin"
    "ti_Value (am_inputs a ! 1) = ''hunter2''"
    by (simp add: demo_login_def demo_launcher_def demo_key_def signin_defs forward_def update_inputs_def mkAuthInput_def typing_inputs_def demo_inputs_def)
  have "keeps_echo typing_inputs" "masks_secrets masking_view"
    by (simp_all add: keeps_echo_def masks_secrets_def typing_inputs_def demo_inputs_def masking_view_def split: auth_msg.split)
  from signin_hides_password [OF n o r(1,2,3) this, of 1 "''letmein''" demo_tui] show ?thesis using r
    by (simp add: runes.simps utf8_len.simps byte_def)
qed

section \<open>Error answers out of order\<close>

text \<open>
  A rejected one-time code crashes the client. The step an error answer returns to is
  recorded by the password form only, so after a failed second factor the screen shows the sign-in
  step with the single input of the second factor, and the next Enter reads an input that does not
  exist. This happens from a fresh launcher, for every server address, answer and error text.
\<close>

text \<open>
  From the command to the screen: whatever the configuration file says, the program either
  reports an error and ends with status 1, or runs a launcher that is well formed and, unless
  its messages arrive out of order, never panics; the flag \<^verbatim>\<open>--server\<close> prevails over the file.
\<close>

lemma tui_command:
  "(\<exists>e. \<forall>run. tuiRunE L env run srv cw = Inl e \<and> Execute (tuiRunE L env run srv cw) = (err_Error e @ nl, 1)) \<or>
   (\<exists>cfg l. NewLauncher L env cfg cw = Inr l \<and> launcher_ok l \<and> (srv \<noteq> [] \<longrightarrow> cf_ServerAddr cfg = srv) \<and>
      (\<forall>run. tuiRunE L env run srv cw = run l))"
proof (cases "config_Load (tu_E env) cw")
  case (Inr cfg0)
  define cfg where "cfg = (if srv \<noteq> [] then cfg0\<lparr>cf_ServerAddr := srv\<rparr> else cfg0)"
  have run: "tuiRunE L env run srv cw = (case NewLauncher L env cfg cw of Inl e \<Rightarrow> Inl e | Inr l \<Rightarrow> run l)" for run
    by (simp add: tuiRunE_def Inr cfg_def Let_def)
  show ?thesis
  proof (cases "NewLauncher L env cfg cw")
    case (Inr l)
    have "srv \<noteq> [] \<longrightarrow> cf_ServerAddr cfg = srv" by (simp add: cfg_def)
    then show ?thesis using Inr launcher_init_ok [OF Inr] run by auto
  qed (simp add: run Execute_def)
qed (simp add: tuiRunE_def Execute_def)

abbreviation typed :: "'r tui_env \<Rightarrow> 'r cworld \<Rightarrow> string \<Rightarrow> 'r tui_env \<times> 'r cworld \<times> tea_msg" where
  "typed env cw s \<equiv> (env, cw, TKey (demo_key s))"

theorem mfa_failure_panics:
  "\<exists>l. NewLauncher L env (cfg\<lparr>cf_AccessToken := []\<rparr>) cw = Inr l \<and>
     launcher_run L (map (typed env cw) [''enter'', ''1'', ''tab'', ''enter''] @ [(env, cw, TNeedsMFA sid), typed env cw ''enter'',
       (env, cw, TAuthErr e)]) l \<noteq> Inl (Panic ''index out of range'') \<and>
     launcher_run L (map (typed env cw) [''enter'', ''1'', ''tab'', ''enter''] @ [(env, cw, TNeedsMFA sid), typed env cw ''enter'',
       (env, cw, TAuthErr e), typed env cw ''enter'']) l = Inl (Panic ''index out of range'')"
  by (simp add: NewLauncher_def signin_defs demo_key_def)

text \<open>
  A late error answer crashes the view: who leaves the login form with Esc while the request is under way and
  opens the registration form gets, with the error, the labels of the login form over four inputs.
\<close>

theorem late_error_panics:
  "\<exists>l l'. NewLauncher L env (cfg\<lparr>cf_AccessToken := []\<rparr>) cw = Inr l \<and>
     launcher_run L ((env, cw, TWindowSize 80 24) # map (typed env cw) [''enter'', ''1'', ''tab'', ''enter'', ''esc'', ''2''] @ [(env, cw, TAuthErr e)]) l = Inr l' \<and>
     Launcher_View V env l' = Inl (Panic ''index out of range'')"
  by (simp add: NewLauncher_def signin_defs demo_key_def forward_def Launcher_View_def AuthModel_View_def renderStep_def auth_fields_def auth_field_def
      labels_at_def upt_rec)

end
