(* ===== verification/ServerProps.thy ===== *)
theory ServerProps
  imports DemoEnv AuthSvc
begin

text \<open>
  Properties of the assembled server over the PostgreSQL store: who may read and change
  which vault items, what a token is worth, and what the MFA step protects.
\<close>

section \<open>Effect of a handler on the vault\<close>

fun is_vault :: "rpc_req \<Rightarrow> bool" where
  "is_vault (RCreateItem _ _ _) = True"
| "is_vault (RGetItem _) = True"
| "is_vault (RUpdateItem _ _ _) = True"
| "is_vault (RDeleteItem _) = True"
| "is_vault (RListItems _ _ _) = True"
| "is_vault _ = False"

lemma snd_map_resp [simp]: "snd (map_resp f p) = snd p"
  by (auto simp: map_resp_def split: prod.splits sum.splits)

lemma snd_handler:
  "snd (AuthHandler_Register env S ctx q w) = snd (AuthService_Register env S ctx
     \<lparr>ri_Username = rq_Username q, ri_Email = rq_Email q, ri_Password = rq_Password q,
      ri_VaultSymKey = rq_VaultSymKey q, ri_KDFParamsJSON = rq_KdfParamsJson q\<rparr> w)"
  "snd (AuthHandler_Login env S cfg ctx u p w) = snd (AuthService_Login env S cfg ctx u p w)"
  "snd (AuthHandler_Refresh env S cfg ctx t w) = snd (AuthService_Refresh env S cfg ctx t w)"
  "snd (AuthHandler_Logout env S ctx t w) =
     (case cx_user ctx of None \<Rightarrow> w | Some u \<Rightarrow> snd (AuthService_Logout env S ctx u t w))"
  "snd (AuthHandler_EnrollTOTP env S iss ctx l w) =
     (case cx_user ctx of None \<Rightarrow> w | Some u \<Rightarrow> snd (MFAService_EnrollTOTP env S iss u l w))"
  "snd (AuthHandler_ConfirmTOTP env S ctx k c w) =
     (case cx_user ctx of None \<Rightarrow> w | Some u \<Rightarrow> snd (MFAService_ConfirmTOTP env S ctx u k c w))"
  "snd (AuthHandler_VerifyMFA env S cfg ctx s c w) =
     (case cx_user ctx of None \<Rightarrow> w | Some u \<Rightarrow> snd (MFAService_VerifyTOTP env S cfg ctx
        \<lparr>vm_SessionID = s, vm_TOTPCode = c, vm_UserID = u\<rparr> w))"
  unfolding AuthHandler_Register_def AuthHandler_Login_def AuthHandler_Refresh_def AuthHandler_Logout_def
    AuthHandler_EnrollTOTP_def AuthHandler_ConfirmTOTP_def AuthHandler_VerifyMFA_def
    userIDFromCtx_def UserIDFromContext_def
  by (auto split: prod.splits sum.splits option.splits err.splits)

lemma snd_vault_handler:
  "snd (VaultHandler_CreateItem env S ctx t p m w) =
     (case cx_user ctx of None \<Rightarrow> w | Some u \<Rightarrow> snd (VaultService_Create env S ctx u (itemTypeName t) p m w))"
  "snd (VaultHandler_GetItem env S ctx k w) =
     (case cx_user ctx of None \<Rightarrow> w | Some u \<Rightarrow> snd (VaultService_Get env S ctx k u w))"
  "snd (VaultHandler_UpdateItem env S ctx k p m w) =
     (case cx_user ctx of None \<Rightarrow> w | Some u \<Rightarrow> snd (VaultService_Update env S ctx k u p m w))"
  "snd (VaultHandler_DeleteItem env S ctx k w) =
     (case cx_user ctx of None \<Rightarrow> w | Some u \<Rightarrow> snd (VaultService_Delete env S ctx k u w))"
  "snd (VaultHandler_ListItems env S ctx t l c w) =
     (case cx_user ctx of None \<Rightarrow> w | Some u \<Rightarrow> snd (VaultService_List env S ctx u
        \<lparr>f_TypeFilter = itemTypeName t, f_Limit = sint l, f_Cursor = c\<rparr> w))"
  unfolding VaultHandler_CreateItem_def VaultHandler_GetItem_def VaultHandler_UpdateItem_def
    VaultHandler_DeleteItem_def VaultHandler_ListItems_def userIDFromCtx_def UserIDFromContext_def
  by (simp_all split: prod.splits sum.splits option.splits)

context auth_frame
begin

lemma dispatch_auth_rel: "\<not> is_vault req \<Longrightarrow> wrel rel w (snd (dispatch_rpc env S cfg ctx req w))"
  by (cases req) (simp_all add: snd_handler service_rel wrel_refl split: option.split)

end

section \<open>Ownership\<close>

definition items_of :: "string \<Rightarrow> (string \<Rightarrow> VaultItem option) \<Rightarrow> string \<Rightarrow> VaultItem option" where
  "items_of u m = (\<lambda>k. case m k of None \<Rightarrow> None | Some it \<Rightarrow> if vi_UserID it = u then Some it else None)"

lemma items_of_not_of: "not_of c m' = not_of c m \<Longrightarrow> c \<noteq> Some u \<Longrightarrow> items_of u m' = items_of u m"
proof -
  have "items_of u m = items_of u (not_of c m)" if "c \<noteq> Some u" for m
    using that by (auto simp: items_of_def not_of_def fun_eq_iff split: option.splits)
  then show "not_of c m' = not_of c m \<Longrightarrow> c \<noteq> Some u \<Longrightarrow> ?thesis" by metis
qed

lemma admitted_accepts:
  assumes "admitted env cfg ctx req ctx'" and "is_vault req"
  shows "\<exists>claims. accepts env cfg ctx claims \<and> cx_user ctx' = Some (c_Subject claims)"
proof -
  have "full_method req \<notin> set publicMethods" using assms(2) unfolding public_iff by (cases req) simp_all
  then show ?thesis using assms(1) unfolding admitted_def by (simp only: if_False) auto
qed

text \<open>
  A store that serves the handlers: the vault contract, and authentication that leaves the vault alone. Both stores
  are one; what follows about the path of a call holds for any chain of interceptors that ends in the handlers.
\<close>

locale served_store = audited_vault_store V canon items inv A + auth_frame S rel
  for V :: "'s Vault" and canon :: "string \<Rightarrow> string option" and items :: "'s \<Rightarrow> string \<Rightarrow> VaultItem option"
    and inv :: "'s \<Rightarrow> bool" and A :: "'s Audit" and S :: "'s Store" and rel :: "'s \<Rightarrow> 's \<Rightarrow> bool" +
  assumes S_vault: "Store_Vault S = V" and S_audit: "Store_Audit S = A"
    and rel_items: "rel s s' \<Longrightarrow> (inv s \<longrightarrow> inv s') \<and> items s' = items s"
begin

lemma dispatch_items:
  assumes "inv (w_store w)"
  shows "inv (w_store (snd (dispatch_rpc env S cfg ctx req w))) \<and>
    (if is_vault req \<and> cx_user ctx \<noteq> None
     then not_of (canon (the (cx_user ctx))) (items (w_store (snd (dispatch_rpc env S cfg ctx req w))))
        = not_of (canon (the (cx_user ctx))) (items (w_store w))
     else items (w_store (snd (dispatch_rpc env S cfg ctx req w))) = items (w_store w))"
proof (cases "is_vault req")
  case False
  have "rel (w_store w) (w_store (snd (dispatch_rpc env S cfg ctx req w)))" using dispatch_auth_rel [OF False] by (simp add: wrel_def)
  from rel_items [OF this] show ?thesis using False assms by simp
next
  case True
  show ?thesis
  proof (cases "cx_user ctx")
    case None
    then show ?thesis using True assms by (cases req) (simp_all add: snd_vault_handler)
  next
    case (Some u)
    note svc = svc_isolated [OF S_vault S_audit assms, where u = u]
    show ?thesis using True Some svc by (cases req) (simp_all add: snd_vault_handler, blast+)
  qed
qed

lemma path_items:
  assumes inv: "inv (w_store (sv_world sv))" and path: "path_ok env S cfg ctx req sv r sv'"
    and no: "\<And>claims. accepts env cfg ctx claims \<Longrightarrow> canon (c_Subject claims) \<noteq> Some u"
  shows "inv (w_store (sv_world sv')) \<and> items_of u (items (w_store (sv_world sv'))) = items_of u (items (w_store (sv_world sv)))"
  using path unfolding path_ok_def
proof (elim disjE exE conjE)
  fix ctx' w0
  assume adm: "admitted env cfg ctx req ctx'" and w0: "w_store w0 = w_store (sv_world sv)"
    and st: "w_store (sv_world sv') = w_store (snd (dispatch_rpc env S cfg ctx' req w0))"
  have d: "inv (w_store w0)" using inv w0 by simp
  note eff = dispatch_items [OF d, of env cfg ctx' req]
  show ?thesis
  proof (cases "is_vault req \<and> cx_user ctx' \<noteq> None")
    case True
    then have "canon (the (cx_user ctx')) \<noteq> Some u" using admitted_accepts [OF adm] no by auto
    then show ?thesis using eff True w0 items_of_not_of unfolding st by metis
  next
    case False
    then show ?thesis using eff w0 unfolding st by simp
  qed
qed (use inv in \<open>simp add: same_data_def\<close>)

end

interpretation pgd: served_store "DB_Vault E" "pg_parse_uuid E" pg_items pg_inv "DB_Audit E" "DB_Store E" pg_rel for E
  by unfold_locales (simp_all add: pg_rel_def)

interpretation mockd: served_store Mock_Vault Some mock_items mock_inv Mock_Audit Mock_Store mock_rel
  by unfold_locales (simp_all add: mock_rel_def Mock_defs)

lemmas dispatch_items = pgd.dispatch_items

text \<open>A context bears a user when its authorization header holds a token the server accepts for that user.\<close>

definition bears :: "svc_env \<Rightarrow> jwt_Config \<Rightarrow> pg_env \<Rightarrow> req_ctx \<Rightarrow> string \<Rightarrow> bool" where
  "bears env cfg E ctx u \<longleftrightarrow> (\<exists>claims. accepts env cfg ctx claims \<and> pg_parse_uuid E (c_Subject claims) = Some u)"

lemma admitted_bears:
  "admitted env cfg ctx req ctx' \<Longrightarrow> is_vault req \<Longrightarrow> cx_user ctx' \<noteq> None \<and>
     (\<forall>u. pg_parse_uuid E (the (cx_user ctx')) = Some u \<longrightarrow> bears env cfg E ctx u)"
  using admitted_accepts [of env cfg ctx req ctx'] by (auto simp: bears_def)

lemma serve_unary_items:
  assumes inv: "pg_inv (w_store (sv_world sv))" and run: "serve_unary R env (DB_Store E) cfg ctx req sv = (r, sv')"
    and no: "\<not> bears env cfg E ctx u"
  shows "pg_inv (w_store (sv_world sv')) \<and>
    items_of u (pg_items (w_store (sv_world sv'))) = items_of u (pg_items (w_store (sv_world sv)))"
  by (rule pgd.path_items [OF inv serve_unary_path [OF run]]) (use no in \<open>auto simp: bears_def\<close>)

fun serve_all ::
  "'l rate_lib \<Rightarrow> svc_env \<Rightarrow> 's Store \<Rightarrow> jwt_Config \<Rightarrow> (req_ctx \<times> rpc_req) list \<Rightarrow> ('s, 'l) server \<Rightarrow> ('s, 'l) server" where
  "serve_all R env S cfg [] sv = sv"
| "serve_all R env S cfg ((ctx, req) # calls) sv = serve_all R env S cfg calls (snd (serve_unary R env S cfg ctx req sv))"

text \<open>
  C1. Isolation of vaults. Whatever calls the server handles, in whatever order, with
  whatever arguments and store faults: unless a call carries a token the server accepts for
  user \<open>u\<close>, the vault items of \<open>u\<close> are exactly what they were, and the integrity constraints
  of the database hold throughout.
\<close>

theorem rpc_run_isolated:
  assumes "pg_inv (w_store (sv_world sv))" and "\<forall>(ctx, req) \<in> set calls. \<not> bears env cfg E ctx u"
  shows "pg_inv (w_store (sv_world (serve_all R env (DB_Store E) cfg calls sv))) \<and>
    items_of u (pg_items (w_store (sv_world (serve_all R env (DB_Store E) cfg calls sv)))) =
    items_of u (pg_items (w_store (sv_world sv)))"
  using assms
proof (induction calls arbitrary: sv)
  case (Cons call calls)
  obtain ctx req where call: "call = (ctx, req)" by fastforce
  obtain r sv1 where run: "serve_unary R env (DB_Store E) cfg ctx req sv = (r, sv1)" by fastforce
  have no: "\<not> bears env cfg E ctx u" using Cons.prems(2) call by auto
  note one = serve_unary_items [OF Cons.prems(1) run no]
  have "\<forall>(ctx, req) \<in> set calls. \<not> bears env cfg E ctx u" using Cons.prems(2) by auto
  from Cons.IH [OF conjunct1 [OF one] this] show ?case using one run call by simp
qed simp

lemma demo_bears_only:
  assumes "bears demo_env demo_cfg demo_pg (demo_bearer v) u"
  shows "u = v"
proof -
  obtain n md w vs claims where md: "cx_md (demo_bearer v) = Some md" "md_Get md ''authorization'' = w # vs"
    and p: "ParseAccessToken demo_jwt demo_cfg (int n * second) (strings_TrimPrefix w ''Bearer '') = Inr claims"
    and u: "c_Subject claims = u"
    using assms by (auto simp: bears_def accepts_def)
  have "strings_TrimPrefix w ''Bearer '' = demo_tok demo_key (demo_claims_of v)"
    using md strings_TrimPrefix_append [of "''Bearer ''"] by (auto simp: demo_bearer_md md_Get_def)
  then have "claims = demo_claims_of v" using p by (simp add: demo_parse split: if_splits)
  then show ?thesis using u by (simp add: demo_claims_of_def)
qed

theorem rpc_run_isolated_witness:
  "items_of ''a'' (pg_items demo_db) ''i1'' = Some demo_item \<and>
   pg_inv (w_store (sv_world (serve_all demo_rate demo_env (DB_Store demo_pg) demo_cfg
     [(demo_bearer ''b'', RDeleteItem ''i1'')] demo_sv))) \<and>
   items_of ''a'' (pg_items (w_store (sv_world (serve_all demo_rate demo_env (DB_Store demo_pg) demo_cfg
     [(demo_bearer ''b'', RDeleteItem ''i1'')] demo_sv)))) = items_of ''a'' (pg_items demo_db)"
proof -
  have "\<not> bears demo_env demo_cfg demo_pg (demo_bearer ''b'') ''a''" using demo_bears_only by fastforce
  then have "\<forall>(ctx, req) \<in> set [(demo_bearer ''b'', RDeleteItem ''i1'')]. \<not> bears demo_env demo_cfg demo_pg ctx ''a''"
    by simp
  from rpc_run_isolated [OF _ this, of demo_sv demo_rate] show ?thesis
    by (simp add: demo_db_inv) (simp add: items_of_def pg_items_def row_of_def demo_db_def demo_item_def zero_defs)
qed

text \<open>What a response shows of the vault.\<close>

fun resp_items :: "rpc_resp \<Rightarrow> pb_VaultItem list" where
  "resp_items (PCreateItem i) = [i]"
| "resp_items (PGetItem i) = [i]"
| "resp_items (PUpdateItem i) = [i]"
| "resp_items (PListItems ps _) = ps"
| "resp_items _ = []"

lemma map_resp_Inr: "map_resp f p = (Inr y, w) \<longleftrightarrow> (\<exists>x. p = (Inr x, w) \<and> y = f x)"
  by (auto simp: map_resp_def split: prod.splits sum.splits)

lemma get_resp:
  assumes "pg_inv (w_store w)" and "VaultHandler_GetItem env (DB_Store E) ctx k w = (Inr i, w')"
  shows "\<exists>u it. cx_user ctx = Some u \<and> i = toProtoItem it \<and> pg_items (w_store w) (vi_ID it) = Some it \<and>
    pg_parse_uuid E u = Some (vi_UserID it)"
proof -
  obtain u it where u: "cx_user ctx = Some u" "VaultService_Get env (DB_Store E) ctx k u w = (Inr it, w')" "i = toProtoItem it"
    using assms(2) by (auto simp: VaultHandler_GetItem_def userIDFromCtx_def UserIDFromContext_def status_of_def
        split: option.splits prod.splits sum.splits if_splits err.splits)
  show ?thesis using pgav.svc_get_owned [OF DB_ops(14) assms(1) u(2)] u by blast
qed

lemma list_resp:
  assumes "pg_inv (w_store w)" and "VaultHandler_ListItems env (DB_Store E) ctx t l c w = (Inr (ps, cur), w')"
  shows "\<exists>u its. cx_user ctx = Some u \<and> ps = map toProtoItem its \<and>
    (\<forall>it \<in> set its. pg_items (w_store w) (vi_ID it) = Some it \<and> pg_parse_uuid E u = Some (vi_UserID it))"
proof -
  obtain u its where u: "cx_user ctx = Some u" "ps = map toProtoItem its"
    "VaultService_List env (DB_Store E) ctx u \<lparr>f_TypeFilter = itemTypeName t, f_Limit = sint l, f_Cursor = c\<rparr> w = (Inr (its, cur), w')"
    using assms(2) by (auto simp: VaultHandler_ListItems_def userIDFromCtx_def UserIDFromContext_def status_of_def
        split: option.splits prod.splits sum.splits if_splits err.splits)
  show ?thesis using pgav.svc_list_owned [OF DB_ops(14) assms(1) u(3)] u by blast
qed

text \<open>
  C3. Confidentiality of reads: every item in the response to a read call (\<^verbatim>\<open>GetItem\<close>,
  \<^verbatim>\<open>ListItems\<close>) is, field by field, a stored item of a user for whom the call carries an
  accepted token.
\<close>

theorem rpc_read_owned:
  assumes "pg_inv (w_store (sv_world sv))" and "req = RGetItem k \<or> req = RListItems t l c"
    and "serve_unary R env (DB_Store E) cfg ctx req sv = (Inr resp, sv')" and "i \<in> set (resp_items resp)"
  shows "\<exists>it. i = toProtoItem it \<and> pg_items (w_store (sv_world sv)) (vi_ID it) = Some it \<and>
    bears env cfg E ctx (vi_UserID it)"
proof -
  obtain ctx' w0 where adm: "admitted env cfg ctx req ctx'" and w0: "w_store w0 = w_store (sv_world sv)"
    and d: "fst (dispatch_rpc env (DB_Store E) cfg ctx' req w0) = Inr resp"
    using serve_unary_path [OF assms(3)] unfolding path_ok_def by blast
  have inv: "pg_inv (w_store w0)" using assms(1) w0 by simp
  have v: "is_vault req" using assms(2) by auto
  obtain w1 where d1: "dispatch_rpc env (DB_Store E) cfg ctx' req w0 = (Inr resp, w1)" using d by (metis prod.collapse)
  have "\<exists>u it. cx_user ctx' = Some u \<and> i = toProtoItem it \<and> pg_items (w_store w0) (vi_ID it) = Some it \<and>
    pg_parse_uuid E u = Some (vi_UserID it)"
    using assms(2)
  proof
    assume "req = RGetItem k"
    then show ?thesis using d1 assms(4) get_resp [OF inv] by (auto simp: map_resp_Inr)
  next
    assume "req = RListItems t l c"
    then obtain ps cur where "VaultHandler_ListItems env (DB_Store E) ctx' t l c w0 = (Inr (ps, cur), w1)" "i \<in> set ps"
      using d1 assms(4) by (auto simp: map_resp_Inr)
    then show ?thesis using list_resp [OF inv] by fastforce
  qed
  then show ?thesis using admitted_bears [OF adm v, where E = E] w0 by auto
qed

theorem rpc_read_owned_witness:
  "\<exists>resp sv'. serve_unary demo_rate demo_env (DB_Store demo_pg) demo_cfg (demo_bearer ''a'') (RGetItem ''i1'') demo_sv =
     (Inr resp, sv') \<and> resp_items resp = [toProtoItem demo_item] \<and>
   (\<exists>it. toProtoItem demo_item = toProtoItem it \<and> pg_items demo_db (vi_ID it) = Some it \<and>
      bears demo_env demo_cfg demo_pg (demo_bearer ''a'') (vi_UserID it))"
proof -
  let ?run = "serve_unary demo_rate demo_env (DB_Store demo_pg) demo_cfg (demo_bearer ''a'') (RGetItem ''i1'') demo_sv"
  have run: "fst ?run = Inr (PGetItem (toProtoItem demo_item))"
    by (simp add: serve_unary_def RateLimiter_UnaryInterceptor_def rateLimitedMethods_def LoggingInterceptor_def
        AuthInterceptor_def publicMethods_def extractAndValidate_def demo_bearer_md md_Get_def server_Now_def
        on_world_def time_Now_def demo_sv_def demo_world_def demo_parse demo_claims_of_def
        VaultHandler_GetItem_def userIDFromCtx_def UserIDFromContext_def VaultService_Get_def on_store_def
        DB_Vault_def vaultRepo_Get_def select_item_def exec_def uuid_arg_def vaultRepo_scanItem_def
        demo_db_def demo_item_def db_empty_def zero_defs map_resp_def)
  obtain sv' where run': "?run = (Inr (PGetItem (toProtoItem demo_item)), sv')" using run by (metis prod.collapse)
  have "toProtoItem demo_item \<in> set (resp_items (PGetItem (toProtoItem demo_item)))" by simp
  from rpc_read_owned [OF _ _ run' this] have
    "\<exists>it. toProtoItem demo_item = toProtoItem it \<and> pg_items demo_db (vi_ID it) = Some it \<and>
      bears demo_env demo_cfg demo_pg (demo_bearer ''a'') (vi_UserID it)"
    by (simp add: demo_db_inv)
  then show ?thesis using run' by (intro exI [of _ "PGetItem (toProtoItem demo_item)"] exI [of _ sv']) simp
qed

end
