(* ===== verification/Lifecycle.thy ===== *)
theory Lifecycle
  imports ServerProps
begin

text \<open>
  The life of the server process: \<^verbatim>\<open>src/cmd/server/main.go\<close>, \<^verbatim>\<open>Run\<close>, \<^verbatim>\<open>GracefulStop\<close>, \<^verbatim>\<open>Close\<close> and
  \<^verbatim>\<open>Shutdown\<close> of \<^verbatim>\<open>src/internal/server/app/app.go\<close>, and the opening, migrating and closing of the
  database in \<^verbatim>\<open>src/internal/server/storage/postgres/postgres.go\<close>. Starting up is a function; from
  then on the main goroutine, the goroutine that waits for a signal and the calls of the clients run
  concurrently, as a step relation. The libraries (goose, pgx, the TLS loader, the listener) are the
  parameter \<open>boot_lib\<close>. Of gRPC the documented behaviour is used: \<^verbatim>\<open>GracefulStop\<close> takes no new calls
  and returns when the pending ones are finished; whether \<^verbatim>\<open>Serve\<close> also waits for them is a parameter.
\<close>

section \<open>Starting up\<close>

text \<open>\<open>'s\<close> is the content of one database; a URL names a database.\<close>

record 's boot_lib =
  bl_SetDialect :: "unit result"
  bl_OpenDB :: "string \<Rightarrow> unit result"
  bl_Up :: "string \<Rightarrow> (string \<Rightarrow> 's) \<Rightarrow> unit result \<times> (string \<Rightarrow> 's)"
  bl_pool :: "string \<Rightarrow> unit result"
  bl_Ping :: "string \<Rightarrow> unit result"
  bl_LoadX509 :: "string \<Rightarrow> string \<Rightarrow> unit result"
  bl_Listen :: "string \<Rightarrow> unit result"

definition Migrate :: "'s boot_lib \<Rightarrow> string \<Rightarrow> (string \<Rightarrow> 's) \<Rightarrow> unit result \<times> (string \<Rightarrow> 's)" where
  "Migrate B dsn dbs =
     (case bl_SetDialect B of
        Inl e \<Rightarrow> (Inl e, dbs)
      | Inr _ \<Rightarrow>
          (case bl_OpenDB B dsn of
             Inl e \<Rightarrow> (Inl (fmt_Errorf ''goose open: %w'' e), dbs)
           | Inr _ \<Rightarrow> bl_Up B dsn dbs))"

definition postgres_New :: "'s boot_lib \<Rightarrow> (string \<Rightarrow> 's) \<Rightarrow> string \<Rightarrow> 's result" where
  "postgres_New B dbs dsn =
     (case bl_pool B dsn of
        Inl e \<Rightarrow> Inl (fmt_Errorf ''pgxpool new: %w'' e)
      | Inr _ \<Rightarrow>
          (case bl_Ping B dsn of
             Inl e \<Rightarrow> Inl (fmt_Errorf ''postgres ping: %w'' e)
           | Inr _ \<Rightarrow> Inr (dbs dsn)))"

datatype call = Unary req_ctx rpc_req | Stream req_ctx

text \<open>Where the main goroutine is after \<^verbatim>\<open>Serve\<close> has been called, and where the goroutine of the signals is.\<close>

datatype main_pc = Serving | Returned "err option" | Closed "err option" | Exited "err option"

datatype sig_pc = Waiting | Stopping | Stopped

fun main_err :: "main_pc \<Rightarrow> err option" where
  "main_err Serving = None"
| "main_err (Returned e) = e"
| "main_err (Closed e) = e"
| "main_err (Exited e) = e"

fun exited :: "main_pc \<Rightarrow> bool" where
  "exited (Exited _) = True"
| "exited _ = False"

record ('s, 'l) proc =
  lc_server :: "('s, 'l) server"
  lc_calls :: "(nat \<times> call) list"
  lc_accepting :: bool
  lc_pool :: bool
  lc_main :: main_pc
  lc_sig :: sig_pc
  lc_signal :: bool
  lc_log :: "string list"

text \<open>\<^verbatim>\<open>Run\<close>: without a listener it returns at once; the main goroutine then goes on to close and exit.\<close>

definition App_Run :: "'s boot_lib \<Rightarrow> server_Config \<Rightarrow> ('s, 'l) server \<Rightarrow> string list \<Rightarrow> ('s, 'l) proc" where
  "App_Run B cfg sv log =
     (let p = \<lparr>lc_server = sv, lc_calls = [], lc_accepting = True, lc_pool = True, lc_main = Serving, lc_sig = Waiting,
           lc_signal = False, lc_log = log\<rparr> in
      case bl_Listen B (sc_ServerAddr cfg) of
        Inl e \<Rightarrow> p\<lparr>lc_accepting := False, lc_main := Returned (Some (fmt_Errorf (''listen '' @ sc_ServerAddr cfg @ '': %w'') e))\<rparr>
      | Inr _ \<Rightarrow> p\<lparr>lc_log := log @ [''gRPC server starting'']\<rparr>)"

text \<open>\<^verbatim>\<open>logger.Fatal\<close> ends the process with status 1.\<close>

datatype ('s, 'l) boot = Fatal string err | Booted jwt_Config "('s, 'l) proc"

definition server_main :: "'s boot_lib \<Rightarrow> (string \<Rightarrow> string option) \<Rightarrow> (string \<Rightarrow> 's) \<Rightarrow> ('s, 'l) boot" where
  "server_main B environ dbs =
     (case server_Load environ of
        Inl e \<Rightarrow> Fatal ''load config'' e
      | Inr cfg \<Rightarrow>
          (case Migrate B (sc_DatabaseURL cfg) dbs of
             (Inl e, _) \<Rightarrow> Fatal ''run migrations'' e
           | (Inr _, dbs1) \<Rightarrow>
               (case App_New (postgres_New B dbs1) (bl_LoadX509 B) cfg of
                  Inl e \<Rightarrow> Fatal ''init app'' e
                | Inr (jwt, sv) \<Rightarrow> Booted jwt (App_Run B cfg sv [''migrations applied'']))))"

section \<open>Running and shutting down\<close>

definition without :: "nat \<Rightarrow> (nat \<times> call) list \<Rightarrow> (nat \<times> call) list" where
  "without k calls = filter (\<lambda>c. fst c \<noteq> k) calls"

definition App_GracefulStop :: "('s, 'l) proc \<Rightarrow> ('s, 'l) proc" where
  "App_GracefulStop p = p\<lparr>lc_sig := Stopping, lc_accepting := False\<rparr>"

definition App_Close :: "('s, 'l) proc \<Rightarrow> ('s, 'l) proc" where
  "App_Close p = p\<lparr>lc_pool := False\<rparr>"

definition answer_call ::
  "'l rate_lib \<Rightarrow> svc_env \<Rightarrow> 's Store \<Rightarrow> 's Store \<Rightarrow> jwt_Config \<Rightarrow> nat \<Rightarrow> req_ctx \<Rightarrow> rpc_req \<Rightarrow> ('s, 'l) proc \<Rightarrow> ('s, 'l) proc" where
  "answer_call R env S S' cfg k ctx req p =
     p\<lparr>lc_server := snd (serve_unary R env (if lc_pool p then S else S') cfg ctx req (lc_server p)), lc_calls := without k (lc_calls p)\<rparr>"

datatype event = Accept nat call | Answer nat | ClientGone nat | Signal | Stop | Drained | ServeReturns | AcceptFails err | Close | Exit

text \<open>
  The steps. \<open>S\<close> is the store while the pool is open, \<open>S'\<close> what its operations do on a closed pool. A
  subscription ends when its client is gone; the context that \<^verbatim>\<open>main\<close> cancels is not the context of the
  calls. The channel of the signals holds one signal, more are dropped, and one is received.
\<close>

inductive lstep ::
  "'l rate_lib \<Rightarrow> svc_env \<Rightarrow> 's Store \<Rightarrow> 's Store \<Rightarrow> jwt_Config \<Rightarrow> bool \<Rightarrow> event \<Rightarrow> ('s, 'l) proc \<Rightarrow> ('s, 'l) proc \<Rightarrow> bool"
  for R env S S' cfg waits
where
  accept: "lc_accepting p \<Longrightarrow> lc_main p = Serving \<Longrightarrow> k \<notin> fst ` set (lc_calls p) \<Longrightarrow>
     lstep R env S S' cfg waits (Accept k c) p (p\<lparr>lc_calls := lc_calls p @ [(k, c)]\<rparr>)"
| answer: "(k, Unary ctx req) \<in> set (lc_calls p) \<Longrightarrow> \<not> exited (lc_main p) \<Longrightarrow>
     lstep R env S S' cfg waits (Answer k) p (answer_call R env S S' cfg k ctx req p)"
| gone: "(k, Stream ctx) \<in> set (lc_calls p) \<Longrightarrow> \<not> exited (lc_main p) \<Longrightarrow>
     lstep R env S S' cfg waits (ClientGone k) p (p\<lparr>lc_calls := without k (lc_calls p)\<rparr>)"
| signal: "lstep R env S S' cfg waits Signal p (p\<lparr>lc_signal := True\<rparr>)"
| stop: "lc_sig p = Waiting \<Longrightarrow> lc_signal p \<Longrightarrow> \<not> exited (lc_main p) \<Longrightarrow>
     lstep R env S S' cfg waits Stop p (App_GracefulStop (p\<lparr>lc_signal := False, lc_log := lc_log p @ [''shutting down'']\<rparr>))"
| drained: "lc_sig p = Stopping \<Longrightarrow> lc_calls p = [] \<Longrightarrow> lstep R env S S' cfg waits Drained p (p\<lparr>lc_sig := Stopped\<rparr>)"
| returns: "lc_main p = Serving \<Longrightarrow> lc_sig p \<noteq> Waiting \<Longrightarrow> (waits \<longrightarrow> lc_sig p = Stopped) \<Longrightarrow>
     lstep R env S S' cfg waits ServeReturns p (p\<lparr>lc_main := Returned None\<rparr>)"
| fails: "lc_main p = Serving \<Longrightarrow> lc_sig p = Waiting \<Longrightarrow>
     lstep R env S S' cfg waits (AcceptFails e) p (p\<lparr>lc_main := Returned (Some e), lc_accepting := False\<rparr>)"
| close: "lc_main p = Returned e \<Longrightarrow>
     lstep R env S S' cfg waits Close p
       (App_Close (p\<lparr>lc_main := Closed e, lc_log := lc_log p @ (case e of None \<Rightarrow> [] | Some _ \<Rightarrow> [''server stopped''])\<rparr>))"
| exit: "lc_main p = Closed e \<Longrightarrow> lstep R env S S' cfg waits Exit p (p\<lparr>lc_main := Exited e\<rparr>)"

inductive_cases lstepE: "lstep R env S S' cfg waits ev p p'"

text \<open>The method \<^verbatim>\<open>Shutdown\<close>, which \<^verbatim>\<open>main\<close> does not use, is both steps one after the other.\<close>

definition App_Shutdown :: "('s, 'l) proc \<Rightarrow> ('s, 'l) proc" where
  "App_Shutdown p = App_Close ((App_GracefulStop p)\<lparr>lc_sig := Stopped, lc_calls := []\<rparr>)"

inductive lruns ::
  "'l rate_lib \<Rightarrow> svc_env \<Rightarrow> 's Store \<Rightarrow> 's Store \<Rightarrow> jwt_Config \<Rightarrow> bool \<Rightarrow> event list \<Rightarrow> ('s, 'l) proc \<Rightarrow> ('s, 'l) proc \<Rightarrow> bool"
  for R env S S' cfg waits
where
  lruns_nil: "lruns R env S S' cfg waits [] p p"
| lruns_snoc: "lruns R env S S' cfg waits evs p p1 \<Longrightarrow> lstep R env S S' cfg waits ev p1 p2 \<Longrightarrow> lruns R env S S' cfg waits (evs @ [ev]) p p2"

section \<open>What holds in every state\<close>

definition proc_ok :: "bool \<Rightarrow> ('s, 'l) proc \<Rightarrow> bool" where
  "proc_ok waits p \<longleftrightarrow>
     (lc_pool p \<longleftrightarrow> (case lc_main p of Serving \<Rightarrow> True | Returned _ \<Rightarrow> True | _ \<Rightarrow> False)) \<and>
     (lc_accepting p \<longleftrightarrow> lc_main p = Serving \<and> lc_sig p = Waiting) \<and>
     (lc_sig p = Stopped \<longrightarrow> lc_calls p = []) \<and>
     (waits \<and> lc_main p \<noteq> Serving \<and> main_err (lc_main p) = None \<longrightarrow> lc_sig p = Stopped) \<and> distinct (map fst (lc_calls p))"

lemma App_Run_ok: "proc_ok waits (App_Run B cfg sv log)"
  by (simp add: proc_ok_def App_Run_def Let_def split: sum.split)

lemma without_nil [simp]: "without k [] = []"
  by (simp add: without_def)

lemma distinct_without [simp]: "distinct (map fst calls) \<Longrightarrow> distinct (map fst (without k calls))"
  by (simp add: without_def distinct_map_filter)

lemma length_without: "(k, c) \<in> set calls \<Longrightarrow> length (without k calls) < length calls"
  unfolding without_def by (induction calls) (auto simp: less_Suc_eq_le)

lemma lstep_ok: "lstep R env S S' cfg waits ev p p' \<Longrightarrow> proc_ok waits p \<Longrightarrow> proc_ok waits p'"
  by (induction rule: lstep.induct)
    (auto simp: proc_ok_def answer_call_def App_GracefulStop_def App_Close_def split: main_pc.splits)

lemma lruns_ok: "lruns R env S S' cfg waits evs p p' \<Longrightarrow> proc_ok waits p \<Longrightarrow> proc_ok waits p'"
  by (induction rule: lruns.induct) (auto intro: lstep_ok)

text \<open>After the signal was received every step but another signal brings the end nearer.\<close>

definition distance :: "('s, 'l) proc \<Rightarrow> nat" where
  "distance p = length (lc_calls p) + (if lc_sig p = Stopping then 1 else 0) +
     (case lc_main p of Serving \<Rightarrow> 3 | Returned _ \<Rightarrow> 2 | Closed _ \<Rightarrow> 1 | Exited _ \<Rightarrow> 0)"

lemma lstep_distance:
  "lstep R env S S' cfg waits ev p p' \<Longrightarrow> proc_ok waits p \<Longrightarrow> lc_sig p \<noteq> Waiting \<Longrightarrow>
     lc_sig p' \<noteq> Waiting \<and> (ev \<noteq> Signal \<longrightarrow> distance p' < distance p)"
  by (induction rule: lstep.induct)
    (auto simp: proc_ok_def answer_call_def App_GracefulStop_def App_Close_def distance_def length_without)

lemma lruns_distance:
  "lruns R env S S' cfg waits evs p p' \<Longrightarrow> proc_ok waits p \<Longrightarrow> lc_sig p \<noteq> Waiting \<Longrightarrow>
     lc_sig p' \<noteq> Waiting \<and> (Signal \<notin> set evs \<longrightarrow> length evs + distance p' \<le> distance p)"
proof (induction rule: lruns.induct)
  case (lruns_snoc evs p p1 ev p2)
  then show ?case using lstep_distance [OF lruns_snoc.hyps(2) lruns_ok [OF lruns_snoc.hyps(1)]] by fastforce
qed simp

lemma shutdown_progress:
  assumes "proc_ok waits p" and "lc_sig p \<noteq> Waiting" and "\<not> exited (lc_main p)" and "\<And>k ctx. (k, Stream ctx) \<notin> set (lc_calls p)"
  shows "\<exists>ev p'. ev \<noteq> Signal \<and> (\<forall>k. ev \<noteq> ClientGone k) \<and> lstep R env S S' cfg waits ev p p'"
proof (cases "lc_calls p")
  case (Cons kc cs)
  obtain k c where "(k, c) \<in> set (lc_calls p)" using Cons by (cases kc) auto
  moreover from this obtain ctx req where "c = Unary ctx req" using assms(4) by (cases c) auto
  ultimately show ?thesis using lstep.answer [of k ctx req p] assms(3) by blast
next
  case Nil
  show ?thesis
  proof (cases "lc_sig p = Stopping")
    case True
    then show ?thesis using lstep.drained [of p] Nil by blast
  next
    case False
    then have "lc_sig p = Stopped" using assms(2) by (cases "lc_sig p") auto
    then show ?thesis using lstep.returns [of p] lstep.close [of p] lstep.exit [of p] assms(3)
      by (cases "lc_main p") (fastforce, fastforce, fastforce, simp)
  qed
qed

section \<open>Shutting down\<close>

lemma booted_ok: "server_main B environ dbs = Booted jwt p \<Longrightarrow> proc_ok waits p"
  using App_Run_ok by (auto simp: server_main_def split: sum.splits prod.splits)

text \<open>
  C18. Graceful shutdown. A server that has started, with a gRPC library whose \<^verbatim>\<open>Serve\<close> waits for the
  pending calls, and whose listener does not fail: as long as a call is pending the connection pool is
  open, so no call ever meets a closed database. After a signal was received the process takes at
  most as many further steps as there are pending calls and four more, whatever the interleaving; and as long as it
  has not exited, it can take a step of its own unless some subscriber is still connected.
\<close>

theorem graceful_shutdown:
  assumes "server_main B environ dbs = Booted jwt p0" and "lruns R env S S' jwt True evs p0 p" and "main_err (lc_main p) = None"
  shows "(lc_calls p \<noteq> [] \<longrightarrow> lc_pool p) \<and>
    (lc_sig p \<noteq> Waiting \<longrightarrow>
      (\<forall>evs' p'. lruns R env S S' jwt True evs' p p' \<longrightarrow>
        (Signal \<notin> set evs' \<longrightarrow> length evs' \<le> length (lc_calls p) + 4) \<and>
        (exited (lc_main p') \<or> (\<exists>k ctx. (k, Stream ctx) \<in> set (lc_calls p')) \<or>
         (\<exists>ev p''. ev \<noteq> Signal \<and> (\<forall>k. ev \<noteq> ClientGone k) \<and> lstep R env S S' jwt True ev p' p''))))"
proof (intro conjI impI allI)
  have ok: "proc_ok True p" using lruns_ok [OF assms(2)] booted_ok [OF assms(1)] .
  show "lc_pool p" if "lc_calls p \<noteq> []" using ok that assms(3) by (cases "lc_main p") (auto simp: proc_ok_def)
  fix evs' p'
  assume w: "lc_sig p \<noteq> Waiting" and r: "lruns R env S S' jwt True evs' p p'"
  have "distance p \<le> length (lc_calls p) + 4" by (simp add: distance_def split: main_pc.split)
  then show "length evs' \<le> length (lc_calls p) + 4" if "Signal \<notin> set evs'"
    using lruns_distance [OF r ok w] that by simp
  show "exited (lc_main p') \<or> (\<exists>k ctx. (k, Stream ctx) \<in> set (lc_calls p')) \<or>
      (\<exists>ev p''. ev \<noteq> Signal \<and> (\<forall>k. ev \<noteq> ClientGone k) \<and> lstep R env S S' jwt True ev p' p'')"
    using shutdown_progress [OF lruns_ok [OF r ok] conjunct1 [OF lruns_distance [OF r ok w]]] by blast
qed

text \<open>
  The other side: one subscriber that stays connected keeps the process alive, whatever signals arrive. Nothing
  ends its stream (the context that \<^verbatim>\<open>main\<close> cancels is only that of the pool), \<^verbatim>\<open>GracefulStop\<close> waits for it,
  and no one reads the second signal.
\<close>

lemma without_other: "(k, c) \<in> set calls \<Longrightarrow> k \<noteq> k' \<Longrightarrow> (k, c) \<in> set (without k' calls)"
  by (simp add: without_def)

lemma unary_not_stream: "distinct (map fst calls) \<Longrightarrow> (k, Stream c) \<in> set calls \<Longrightarrow> (k', Unary d r) \<in> set calls \<Longrightarrow> k \<noteq> k'"
  using map_of_is_SomeI by (metis call.distinct(1) option.inject)

theorem subscriber_blocks_shutdown:
  assumes "lruns R env S S' cfg True evs p p'" and "proc_ok True p" and "lc_main p = Serving" and "(k, Stream ctx) \<in> set (lc_calls p)"
    and "ClientGone k \<notin> set evs" and "\<And>e. AcceptFails e \<notin> set evs"
  shows "lc_main p' = Serving \<and> (k, Stream ctx) \<in> set (lc_calls p')"
  using assms
proof (induction rule: lruns.induct)
  case (lruns_snoc evs p p1 ev p2)
  have 1: "lc_main p1 = Serving" "(k, Stream ctx) \<in> set (lc_calls p1)" "proc_ok True p1"
    using lruns_snoc lruns_ok [OF lruns_snoc.hyps(1)] by auto
  have ev: "ev \<noteq> ClientGone k" "\<And>e. ev \<noteq> AcceptFails e" using lruns_snoc.prems by auto
  have d: "distinct (map fst (lc_calls p1))" "lc_sig p1 \<noteq> Stopped" using 1 by (auto simp: proc_ok_def)
  from lruns_snoc.hyps(2) 1 ev d show ?case
    by (cases rule: lstep.cases)
      (auto simp: answer_call_def App_GracefulStop_def intro!: without_other dest: unary_not_stream)
qed simp

section \<open>What a running server rests on\<close>

lemma server_Load_Inr:
  "server_Load environ = Inr cfg \<Longrightarrow> 32 \<le> length (sc_JWTSecret cfg) \<and> environ ''JWT_SECRET'' = Some (sc_JWTSecret cfg) \<and>
     environ ''TLS_CERT_FILE'' = Some (sc_TLSCertFile cfg) \<and> environ ''TLS_KEY_FILE'' = Some (sc_TLSKeyFile cfg) \<and>
     environ ''DATABASE_URL'' = Some (sc_DatabaseURL cfg) \<and> sc_AccessTokenTTL cfg = 15 * minute \<and> sc_RefreshTokenTTL cfg = 30 * 24 * hour"
  by (auto simp: server_Load_def Let_def os_Getenv_def split: if_splits option.splits)

lemma Migrate_Inr: "Migrate B dsn dbs = (Inr u, dbs1) \<longleftrightarrow>
    (\<exists>v. bl_SetDialect B = Inr v) \<and> (\<exists>v. bl_OpenDB B dsn = Inr v) \<and> bl_Up B dsn dbs = (Inr u, dbs1)"
  by (auto simp: Migrate_def split: sum.splits)

lemma postgres_New_Inr: "postgres_New B dbs dsn = Inr d \<longleftrightarrow>
    (\<exists>v. bl_pool B dsn = Inr v) \<and> (\<exists>v. bl_Ping B dsn = Inr v) \<and> d = dbs dsn"
  by (auto simp: postgres_New_def split: sum.splits)

lemma App_New_Inr: "App_New connect load cfg = Inr (jwt, sv) \<longleftrightarrow>
    (\<exists>d v. connect (sc_DatabaseURL cfg) = Inr d \<and> load (sc_TLSCertFile cfg) (sc_TLSKeyFile cfg) = Inr v \<and> jwt = App_jwt_cfg cfg \<and>
       sv = \<lparr>sv_world = \<lparr>w_store = d, w_clk = 0, w_rnd = 0, w_sync = NewSyncService\<rparr>, sv_rl = NewRateLimiter 5 10, sv_log = []\<rparr>)"
  by (auto simp: App_New_def split: sum.splits)

lemma booted_iff: "server_main B environ dbs = Booted jwt p \<longleftrightarrow>
    (\<exists>cfg u dbs1 sv. server_Load environ = Inr cfg \<and> Migrate B (sc_DatabaseURL cfg) dbs = (Inr u, dbs1) \<and>
       App_New (postgres_New B dbs1) (bl_LoadX509 B) cfg = Inr (jwt, sv) \<and> p = App_Run B cfg sv [''migrations applied''])"
  by (auto simp: server_main_def split: sum.splits prod.splits)

lemma App_Run_simps [simp]:
  "lc_server (App_Run B cfg sv log) = sv" "lc_calls (App_Run B cfg sv log) = []"
  "lc_accepting (App_Run B cfg sv log) \<longleftrightarrow> (\<exists>v. bl_Listen B (sc_ServerAddr cfg) = Inr v)"
  "lc_main (App_Run B cfg sv log) = Serving \<longleftrightarrow> (\<exists>v. bl_Listen B (sc_ServerAddr cfg) = Inr v)"
  by (auto simp: App_Run_def Let_def split: sum.split)

text \<open>
  C19. What a running server rests on. It takes calls only if the signing secret of its tokens is the configured one, of at
  least 32 bytes, its access tokens last 15 minutes and its refresh tokens 30 days, the configured certificate was loaded,
  and all migrations were applied to the very database it then serves; and it starts with no subscriptions. In every other case
  the process ends with status 1 before it listens, or, if only the listener fails, without having taken a call.
\<close>

theorem server_starts_guarded:
  assumes "server_main B environ dbs = Booted jwt p"
  shows "\<exists>cfg dbs1. server_Load environ = Inr cfg \<and> environ ''JWT_SECRET'' = Some (jc_Secret jwt) \<and> 32 \<le> length (jc_Secret jwt) \<and>
    jc_AccessTokenTTL jwt = 15 * minute \<and> jc_RefreshTokenTTL jwt = 30 * 24 * hour \<and>
    (\<exists>cert key v. environ ''TLS_CERT_FILE'' = Some cert \<and> environ ''TLS_KEY_FILE'' = Some key \<and> bl_LoadX509 B cert key = Inr v) \<and>
    (\<exists>v. bl_Up B (sc_DatabaseURL cfg) dbs = (Inr v, dbs1)) \<and> w_store (sv_world (lc_server p)) = dbs1 (sc_DatabaseURL cfg) \<and>
    w_sync (sv_world (lc_server p)) = NewSyncService \<and> lc_calls p = [] \<and>
    (lc_accepting p \<longleftrightarrow> (\<exists>v. bl_Listen B (sc_ServerAddr cfg) = Inr v))"
proof -
  obtain cfg u dbs1 sv where c: "server_Load environ = Inr cfg" "Migrate B (sc_DatabaseURL cfg) dbs = (Inr u, dbs1)"
    "App_New (postgres_New B dbs1) (bl_LoadX509 B) cfg = Inr (jwt, sv)" "p = App_Run B cfg sv [''migrations applied'']"
    using assms booted_iff by blast
  note l = server_Load_Inr [OF c(1)] and m = c(2) [unfolded Migrate_Inr] and a = c(3) [unfolded App_New_Inr postgres_New_Inr]
  show ?thesis
    by (rule exI [of _ cfg], rule exI [of _ dbs1]) (use l m a c(1,4) in \<open>auto simp: App_jwt_cfg_def DefaultConfig_def\<close>)
qed

section \<open>Isolation over the whole life\<close>

definition live_items :: "(db, 'l) proc \<Rightarrow> string \<Rightarrow> VaultItem option" where
  "live_items p = pg_items (w_store (sv_world (lc_server p)))"

text \<open>No pending call bears the user, and the items of the user are as they were.\<close>

definition untouched :: "svc_env \<Rightarrow> jwt_Config \<Rightarrow> pg_env \<Rightarrow> string \<Rightarrow> (string \<Rightarrow> VaultItem option) \<Rightarrow> (db, 'l) proc \<Rightarrow> bool" where
  "untouched env cfg E u its p \<longleftrightarrow> pg_inv (w_store (sv_world (lc_server p))) \<and> items_of u (live_items p) = its \<and>
     (\<forall>k ctx req. (k, Unary ctx req) \<in> set (lc_calls p) \<longrightarrow> \<not> bears env cfg E ctx u)"

lemma main_err_back: "lstep R env S S' cfg w ev p p' \<Longrightarrow> main_err (lc_main p') = None \<Longrightarrow> main_err (lc_main p) = None"
  by (induction rule: lstep.induct) (auto simp: answer_call_def App_GracefulStop_def App_Close_def)

lemma pending_pool: "proc_ok True p \<Longrightarrow> main_err (lc_main p) = None \<Longrightarrow> kc \<in> set (lc_calls p) \<Longrightarrow> lc_pool p"
  by (cases "lc_main p") (auto simp: proc_ok_def)

lemma lstep_untouched:
  assumes "lstep R env (DB_Store E) S' cfg True ev p p'" and "proc_ok True p" and "main_err (lc_main p) = None"
    and "untouched env cfg E u its p" and "\<And>k ctx req. ev = Accept k (Unary ctx req) \<Longrightarrow> \<not> bears env cfg E ctx u"
  shows "untouched env cfg E u its p'"
  using assms
proof (induction rule: lstep.induct)
  case (answer k ctx req p)
  have inv: "pg_inv (w_store (sv_world (lc_server p)))" and no: "\<not> bears env cfg E ctx u"
    using answer by (auto simp: untouched_def)
  obtain r sv' where run: "serve_unary R env (DB_Store E) cfg ctx req (lc_server p) = (r, sv')" by fastforce
  show ?case using serve_unary_items [OF inv run no] run pending_pool [OF answer.prems(1,2) answer.hyps(1)] answer.prems(3)
    by (auto simp: untouched_def answer_call_def live_items_def without_def)
qed (simp_all add: untouched_def App_GracefulStop_def App_Close_def live_items_def without_def, blast+)

lemma lruns_untouched:
  "lruns R env (DB_Store E) S' cfg True evs p p' \<Longrightarrow> proc_ok True p \<Longrightarrow> main_err (lc_main p') = None \<Longrightarrow> untouched env cfg E u its p \<Longrightarrow>
   (\<And>k ctx req. Accept k (Unary ctx req) \<in> set evs \<Longrightarrow> \<not> bears env cfg E ctx u) \<Longrightarrow> untouched env cfg E u its p'"
proof (induction rule: lruns.induct)
  case (lruns_snoc evs p p1 ev p2)
  have e: "main_err (lc_main p1) = None" using main_err_back lruns_snoc.hyps(2) lruns_snoc.prems(2) by blast
  have "untouched env cfg E u its p1" by (rule lruns_snoc.IH) (use e lruns_snoc.prems in \<open>simp_all, blast\<close>)
  with e show ?case using lstep_untouched [OF lruns_snoc.hyps(2) lruns_ok [OF lruns_snoc.hyps(1) lruns_snoc.prems(1)]] lruns_snoc.prems by (metis in_set_conv_decomp)
qed

lemma booted_no_calls: "server_main B environ dbs = Booted jwt p \<Longrightarrow> lc_calls p = []"
  unfolding booted_iff by auto


section \<open>Examples\<close>

definition demo_boot :: "db boot_lib" where
  "demo_boot = \<lparr>bl_SetDialect = Inr (), bl_OpenDB = (\<lambda>_. Inr ()), bl_Up = (\<lambda>_ dbs. (Inr (), dbs)), bl_pool = (\<lambda>_. Inr ()), bl_Ping = (\<lambda>_. Inr ()),
     bl_LoadX509 = (\<lambda>_ _. Inr ()), bl_Listen = (\<lambda>_. Inr ())\<rparr>"

definition demo_environ :: "string \<Rightarrow> string option" where
  "demo_environ = [''JWT_SECRET'' \<mapsto> demo_key, ''DATABASE_URL'' \<mapsto> ''postgres://db'', ''TLS_CERT_FILE'' \<mapsto> ''c.pem'', ''TLS_KEY_FILE'' \<mapsto> ''k.pem'']"

definition demo_proc :: "(db, nat) proc" where
  "demo_proc = \<lparr>lc_server = demo_sv, lc_calls = [], lc_accepting = True, lc_pool = True, lc_main = Serving, lc_sig = Waiting, lc_signal = False,
     lc_log = [''migrations applied'', ''gRPC server starting'']\<rparr>"

lemma demo_booted: "server_main demo_boot demo_environ (\<lambda>_. demo_db) = Booted demo_cfg demo_proc"
  by (simp add: server_main_def server_Load_def demo_environ_def os_Getenv_def Migrate_def demo_boot_def App_New_def postgres_New_def App_Run_def
      demo_key_def App_jwt_cfg_def demo_cfg_def DefaultConfig_def demo_proc_def demo_sv_def demo_world_def Let_def)

theorem server_starts_guarded_witness:
  "server_main demo_boot demo_environ (\<lambda>_. demo_db) = Booted demo_cfg demo_proc \<and> 32 \<le> length (jc_Secret demo_cfg) \<and>
   w_store (sv_world (lc_server demo_proc)) = demo_db \<and> lc_accepting demo_proc"
  using demo_booted server_starts_guarded [OF demo_booted] by (simp add: demo_boot_def)

text \<open>Two calls are accepted, bob's deletion of an item of alice and a subscription; the signal comes, and bob is still answered.\<close>

definition demo_calls :: "event list" where
  "demo_calls = [Accept 0 (Unary (demo_bearer ''b'') (RDeleteItem ''i1'')), Accept 1 (Stream (demo_bearer ''b'')), Signal, Stop, Answer 0]"

definition demo_stopping :: "(db, nat) proc" where
  "demo_stopping = answer_call demo_rate demo_env (DB_Store demo_pg) (DB_Store demo_pg) demo_cfg 0 (demo_bearer ''b'') (RDeleteItem ''i1'')
     (demo_proc\<lparr>lc_calls := [(0, Unary (demo_bearer ''b'') (RDeleteItem ''i1'')), (1, Stream (demo_bearer ''b''))], lc_accepting := False, lc_sig := Stopping,
        lc_log := lc_log demo_proc @ [''shutting down'']\<rparr>)"

lemma lruns_one: "lruns R env S S' cfg w evs p p1 \<Longrightarrow> lstep R env S S' cfg w ev p1 p2 \<Longrightarrow> evs' = evs @ [ev] \<Longrightarrow> lruns R env S S' cfg w evs' p p2"
  by (simp add: lruns_snoc)

lemma demo_run: "lruns demo_rate demo_env (DB_Store demo_pg) (DB_Store demo_pg) demo_cfg True demo_calls demo_proc demo_stopping"
proof -
  let ?step = "lstep demo_rate demo_env (DB_Store demo_pg) (DB_Store demo_pg) demo_cfg True"
  let ?c0 = "Unary (demo_bearer ''b'') (RDeleteItem ''i1'')" and ?c1 = "Stream (demo_bearer ''b'')"
  let ?p1 = "demo_proc\<lparr>lc_calls := [(0, ?c0)]\<rparr>"
  let ?p2 = "demo_proc\<lparr>lc_calls := [(0, ?c0), (1, ?c1)]\<rparr>"
  let ?p3 = "?p2\<lparr>lc_signal := True\<rparr>"
  let ?p4 = "App_GracefulStop (?p3\<lparr>lc_signal := False, lc_log := lc_log ?p3 @ [''shutting down'']\<rparr>)"
  have 1: "?step (Accept 0 ?c0) demo_proc ?p1" using lstep.accept [of demo_proc 0 demo_rate demo_env] by (simp add: demo_proc_def)
  have 2: "?step (Accept 1 ?c1) ?p1 ?p2" using lstep.accept [of ?p1 1 demo_rate demo_env] by (simp add: demo_proc_def)
  have 3: "?step Signal ?p2 ?p3" by (rule lstep.signal)
  have 4: "?step Stop ?p3 ?p4" by (rule lstep.stop) (simp_all add: demo_proc_def)
  have "?step (Answer 0) ?p4 (answer_call demo_rate demo_env (DB_Store demo_pg) (DB_Store demo_pg) demo_cfg 0 (demo_bearer ''b'') (RDeleteItem ''i1'') ?p4)"
    by (rule lstep.answer) (simp_all add: App_GracefulStop_def demo_proc_def)
  then have 5: "?step (Answer 0) ?p4 demo_stopping" by (simp add: demo_stopping_def App_GracefulStop_def demo_proc_def)
  show ?thesis unfolding demo_calls_def
    by (intro lruns_one [OF _ 5] lruns_one [OF _ 4] lruns_one [OF _ 3] lruns_one [OF _ 2] lruns_one [OF lruns_nil 1]) simp_all
qed

lemma demo_stopping_simps [simp]: "lc_main demo_stopping = Serving" "lc_sig demo_stopping = Stopping"
  "lc_calls demo_stopping = [(1, Stream (demo_bearer ''b''))]" "lc_pool demo_stopping"
  by (simp_all add: demo_stopping_def answer_call_def demo_proc_def without_def)

text \<open>The subscriber leaves, and the process ends in five steps: as many as the bound allows.\<close>

definition demo_ending :: "event list" where
  "demo_ending = [ClientGone 1, Drained, ServeReturns, Close, Exit]"

lemma demo_ends:
  "\<exists>p. lruns demo_rate demo_env (DB_Store demo_pg) (DB_Store demo_pg) demo_cfg True demo_ending demo_stopping p \<and> lc_main p = Exited None"
proof -
  let ?step = "lstep demo_rate demo_env (DB_Store demo_pg) (DB_Store demo_pg) demo_cfg True"
  let ?p1 = "demo_stopping\<lparr>lc_calls := without 1 (lc_calls demo_stopping)\<rparr>"
  let ?p2 = "?p1\<lparr>lc_sig := Stopped\<rparr>"
  let ?p3 = "?p2\<lparr>lc_main := Returned None\<rparr>"
  let ?p4 = "App_Close (?p3\<lparr>lc_main := Closed None, lc_log := lc_log ?p3 @ []\<rparr>)"
  have 1: "?step (ClientGone 1) demo_stopping ?p1" by (rule lstep.gone [of _ "demo_bearer ''b''"]) simp_all
  have 2: "?step Drained ?p1 ?p2" by (rule lstep.drained) (simp_all add: without_def)
  have 3: "?step ServeReturns ?p2 ?p3" by (rule lstep.returns) simp_all
  have 4: "?step Close ?p3 ?p4" using lstep.close [of ?p3 None] by simp
  have 5: "?step Exit ?p4 (?p4\<lparr>lc_main := Exited None\<rparr>)" by (rule lstep.exit) (simp add: App_Close_def)
  have "lruns demo_rate demo_env (DB_Store demo_pg) (DB_Store demo_pg) demo_cfg True demo_ending demo_stopping (?p4\<lparr>lc_main := Exited None\<rparr>)"
    unfolding demo_ending_def
    by (intro lruns_one [OF _ 5] lruns_one [OF _ 4] lruns_one [OF _ 3] lruns_one [OF _ 2] lruns_one [OF lruns_nil 1]) simp_all
  then show ?thesis by (intro exI [of _ "?p4\<lparr>lc_main := Exited None\<rparr>"] conjI) simp_all
qed

theorem graceful_shutdown_witness:
  "lc_calls demo_stopping \<noteq> [] \<and> lc_pool demo_stopping \<and>
   (\<exists>p. lruns demo_rate demo_env (DB_Store demo_pg) (DB_Store demo_pg) demo_cfg True demo_ending demo_stopping p \<and> exited (lc_main p)) \<and>
   length demo_ending \<le> length (lc_calls demo_stopping) + 4"
proof -
  obtain p where p: "lruns demo_rate demo_env (DB_Store demo_pg) (DB_Store demo_pg) demo_cfg True demo_ending demo_stopping p" "lc_main p = Exited None"
    using demo_ends by blast
  have "main_err (lc_main demo_stopping) = None" "Signal \<notin> set demo_ending" "lc_sig demo_stopping \<noteq> Waiting" "lc_calls demo_stopping \<noteq> []"
    by (simp_all add: demo_ending_def)
  with graceful_shutdown [OF demo_booted demo_run this(1)] p(1)
  have "lc_pool demo_stopping \<and> length demo_ending \<le> length (lc_calls demo_stopping) + 4" by blast
  then show ?thesis using p by auto
qed


end
