(* ===== verification/Gateway.thy ===== *)
theory Gateway
  imports ServerProps
begin

text \<open>
  The REST gateway, \<^verbatim>\<open>src/gen/*/*.pb.gw.go\<close>: how an HTTP request becomes a call of the gRPC services. Each handler annotates the context,
  decodes the body (or the form, and the path parameter), makes one call and forwards its answer. The functions
  \<^verbatim>\<open>request_*\<close>, which call a client, and \<^verbatim>\<open>local_request_*\<close>, which call a server object, differ only in whom
  they call: both are one definition over the parameter \<open>call\<close>. The gateway's runtime library (marshaller, forms, routing, annotation
  of contexts) is the parameter \<open>gw_lib\<close>. The metadata that the library gives a call is what the caller's headers say.
\<close>

section \<open>Requests and the library\<close>

record http_req =
  hq_Method :: string
  hq_Path :: string
  hq_Header :: "(string \<times> string list) list"
  hq_Body :: bytes
  hq_RawQuery :: string
  hq_RemoteAddr :: string

type_synonym metadata = "(string \<times> string list) list"

type_synonym path_params = "(string \<times> string) list"

record gw_pattern =
  gp_ops :: "int list"
  gp_pool :: "string list"

text \<open>A decoder leaves a message, filled as far as it came, and perhaps an error; an empty body is the end of file.\<close>

datatype dec_err = EOF | DecodeErr string

type_synonym 'q decoder = "bytes \<Rightarrow> 'q \<times> dec_err option"

record gw_lib =
  gw_Register :: "RegisterRequest decoder"
  gw_Login :: "(string \<times> string) decoder"
  gw_Refresh :: "string decoder"
  gw_Logout :: "string decoder"
  gw_EnrollTOTP :: "string decoder"
  gw_ConfirmTOTP :: "(string \<times> string) decoder"
  gw_VerifyMFA :: "(string \<times> string) decoder"
  gw_WebAuthn :: "webauthn_rpc \<Rightarrow> unit decoder"
  gw_CreateItem :: "(ItemType \<times> bytes \<times> string) decoder"
  gw_UpdateItem :: "(string \<times> bytes \<times> string) decoder"
  gw_ValidateCode :: "(string \<times> string) decoder"
  gw_Subscribe :: "(string \<times> int) list decoder"
  gw_ParseForm :: "http_req \<Rightarrow> string + (string \<times> string list) list"
  gw_PopulateListItems :: "(string \<times> string list) list \<Rightarrow> string + (ItemType \<times> 32 word \<times> string)"
  gw_String :: "string \<Rightarrow> string + string"
  gw_Annotate :: "string \<Rightarrow> string \<Rightarrow> http_req \<Rightarrow> rpc_err + metadata"
  gw_Match :: "(string \<times> gw_pattern) list \<Rightarrow> http_req \<Rightarrow> (nat \<times> path_params) option"

datatype gw_err = InvalidArgument string | Rpc rpc_err

type_synonym ('p, 'w) gw_step = "(gw_err + 'p) \<times> 'w"

definition rpc_answer :: "(rpc_err + 'p) \<times> 'w \<Rightarrow> ('p, 'w) gw_step" where
  "rpc_answer a = (case a of (Inl e, w) \<Rightarrow> (Inl (Rpc e), w) | (Inr r, w) \<Rightarrow> (Inr r, w))"

text \<open>\<^verbatim>\<open>err != nil && !errors.Is(err, io.EOF)\<close>\<close>

definition decode_body :: "'q decoder \<Rightarrow> http_req \<Rightarrow> gw_err + 'q" where
  "decode_body dec req = (case dec (hq_Body req) of (q, Some (DecodeErr e)) \<Rightarrow> Inl (InvalidArgument e) | (q, _) \<Rightarrow> Inr q)"

definition path_id :: "gw_lib \<Rightarrow> path_params \<Rightarrow> gw_err + string" where
  "path_id G pathParams =
     (case map_of pathParams ''id'' of
        None \<Rightarrow> Inl (InvalidArgument ''missing parameter id'')
      | Some v \<Rightarrow> (case gw_String G v of Inl e \<Rightarrow> Inl (InvalidArgument (''type mismatch, parameter: id, error: '' @ e)) | Inr s \<Rightarrow> Inr s))"

definition or_fail :: "gw_err + 'q \<Rightarrow> ('q \<Rightarrow> ('p, 'w) gw_step) \<Rightarrow> 'w \<Rightarrow> ('p, 'w) gw_step" where
  "or_fail r f w = (case r of Inl e \<Rightarrow> (Inl e, w) | Inr q \<Rightarrow> f q)"

text \<open>How a request calls a method, given the context that the handler made.\<close>

type_synonym ('q, 'p, 'w) caller = "'q \<Rightarrow> 'w \<Rightarrow> (rpc_err + 'p) \<times> 'w"

type_synonym ('p, 'w) requester = "(rpc_req, 'p, 'w) caller \<Rightarrow> http_req \<Rightarrow> path_params \<Rightarrow> 'w \<Rightarrow> ('p, 'w) gw_step"

definition with_body :: "'q decoder \<Rightarrow> ('q \<Rightarrow> 'r) \<Rightarrow> ('r, 'p, 'w) caller \<Rightarrow> http_req \<Rightarrow> 'w \<Rightarrow> ('p, 'w) gw_step" where
  "with_body dec mk call req w = or_fail (decode_body dec req) (\<lambda>q. rpc_answer (call (mk q) w)) w"

section \<open>The auth service\<close>

definition request_AuthService_Register_0 :: "gw_lib \<Rightarrow> ('p, 'w) requester" where
  "request_AuthService_Register_0 G call req pathParams = with_body (gw_Register G) RRegister call req"

definition request_AuthService_Login_0 :: "gw_lib \<Rightarrow> ('p, 'w) requester" where
  "request_AuthService_Login_0 G call req pathParams = with_body (gw_Login G) (\<lambda>(u, p). RLogin u p) call req"

definition request_AuthService_Refresh_0 :: "gw_lib \<Rightarrow> ('p, 'w) requester" where
  "request_AuthService_Refresh_0 G call req pathParams = with_body (gw_Refresh G) RRefresh call req"

definition request_AuthService_Logout_0 :: "gw_lib \<Rightarrow> ('p, 'w) requester" where
  "request_AuthService_Logout_0 G call req pathParams = with_body (gw_Logout G) RLogout call req"

definition request_AuthService_EnrollTOTP_0 :: "gw_lib \<Rightarrow> ('p, 'w) requester" where
  "request_AuthService_EnrollTOTP_0 G call req pathParams = with_body (gw_EnrollTOTP G) REnrollTOTP call req"

definition request_AuthService_ConfirmTOTP_0 :: "gw_lib \<Rightarrow> ('p, 'w) requester" where
  "request_AuthService_ConfirmTOTP_0 G call req pathParams = with_body (gw_ConfirmTOTP G) (\<lambda>(k, c). RConfirmTOTP k c) call req"

definition request_AuthService_VerifyMFA_0 :: "gw_lib \<Rightarrow> ('p, 'w) requester" where
  "request_AuthService_VerifyMFA_0 G call req pathParams = with_body (gw_VerifyMFA G) (\<lambda>(s, c). RVerifyMFA s c) call req"

text \<open>The WebAuthn messages carry nothing that a handler reads.\<close>

definition request_AuthService_BeginWebAuthnRegister_0 :: "gw_lib \<Rightarrow> ('p, 'w) requester" where
  "request_AuthService_BeginWebAuthnRegister_0 G call req pathParams =
     with_body (gw_WebAuthn G BeginWebAuthnRegister) (\<lambda>_. RWebAuthn BeginWebAuthnRegister) call req"

definition request_AuthService_FinishWebAuthnRegister_0 :: "gw_lib \<Rightarrow> ('p, 'w) requester" where
  "request_AuthService_FinishWebAuthnRegister_0 G call req pathParams =
     with_body (gw_WebAuthn G FinishWebAuthnRegister) (\<lambda>_. RWebAuthn FinishWebAuthnRegister) call req"

definition request_AuthService_BeginWebAuthnLogin_0 :: "gw_lib \<Rightarrow> ('p, 'w) requester" where
  "request_AuthService_BeginWebAuthnLogin_0 G call req pathParams =
     with_body (gw_WebAuthn G BeginWebAuthnLogin) (\<lambda>_. RWebAuthn BeginWebAuthnLogin) call req"

definition request_AuthService_FinishWebAuthnLogin_0 :: "gw_lib \<Rightarrow> ('p, 'w) requester" where
  "request_AuthService_FinishWebAuthnLogin_0 G call req pathParams =
     with_body (gw_WebAuthn G FinishWebAuthnLogin) (\<lambda>_. RWebAuthn FinishWebAuthnLogin) call req"

section \<open>The vault service\<close>

definition request_VaultService_CreateItem_0 :: "gw_lib \<Rightarrow> ('p, 'w) requester" where
  "request_VaultService_CreateItem_0 G call req pathParams = with_body (gw_CreateItem G) (\<lambda>(t, p, m). RCreateItem t p m) call req"

definition request_VaultService_GetItem_0 :: "gw_lib \<Rightarrow> ('p, 'w) requester" where
  "request_VaultService_GetItem_0 G call req pathParams w = or_fail (path_id G pathParams) (\<lambda>k. rpc_answer (call (RGetItem k) w)) w"

text \<open>The identifier of the path replaces the one of the body.\<close>

definition request_VaultService_UpdateItem_0 :: "gw_lib \<Rightarrow> ('p, 'w) requester" where
  "request_VaultService_UpdateItem_0 G call req pathParams w =
     or_fail (decode_body (gw_UpdateItem G) req) (\<lambda>(_, p, m).
       or_fail (path_id G pathParams) (\<lambda>k. rpc_answer (call (RUpdateItem k p m) w)) w) w"

definition request_VaultService_DeleteItem_0 :: "gw_lib \<Rightarrow> ('p, 'w) requester" where
  "request_VaultService_DeleteItem_0 G call req pathParams w = or_fail (path_id G pathParams) (\<lambda>k. rpc_answer (call (RDeleteItem k) w)) w"

definition request_VaultService_ListItems_0 :: "gw_lib \<Rightarrow> ('p, 'w) requester" where
  "request_VaultService_ListItems_0 G call req pathParams w =
     (case gw_ParseForm G req of
        Inl e \<Rightarrow> (Inl (InvalidArgument e), w)
      | Inr form \<Rightarrow>
          (case gw_PopulateListItems G form of
             Inl e \<Rightarrow> (Inl (InvalidArgument e), w)
           | Inr (t, l, c) \<Rightarrow> rpc_answer (call (RListItems t l c) w)))"

section \<open>Routes\<close>

definition lits :: "string list \<Rightarrow> gw_pattern" where
  "lits segs = \<lparr>gp_ops = concat (map (\<lambda>i. [2, int i]) [0..<length segs]), gp_pool = segs\<rparr>"

definition pattern_item :: gw_pattern where
  "pattern_item = \<lparr>gp_ops = [2, 0, 2, 1, 2, 2, 1, 0, 4, 1, 5, 3], gp_pool = [''v1'', ''vault'', ''items'', ''id'']\<rparr>"

record ('p, 'w) route =
  rt_Method :: string
  rt_Pattern :: gw_pattern
  rt_rpc :: string
  rt_path :: string
  rt_request :: "('p, 'w) requester"

definition post :: "gw_pattern \<Rightarrow> string \<Rightarrow> string \<Rightarrow> ('p, 'w) requester \<Rightarrow> ('p, 'w) route" where
  "post pat rpc path rq = \<lparr>rt_Method = ''POST'', rt_Pattern = pat, rt_rpc = rpc, rt_path = path, rt_request = rq\<rparr>"

definition auth_routes :: "gw_lib \<Rightarrow> ('p, 'w) route list" where
  "auth_routes G =
     (let v1 = (\<lambda>rpc name rq. post (lits [''v1'', ''auth'', name]) (''/auth.AuthService/'' @ rpc) (''/v1/auth/'' @ name) rq);
          plain = (\<lambda>rpc rq. post (lits [''auth.AuthService'', rpc]) (''/auth.AuthService/'' @ rpc) (''/auth.AuthService/'' @ rpc) rq) in
      [v1 ''Register'' ''register'' (request_AuthService_Register_0 G),
       v1 ''Login'' ''login'' (request_AuthService_Login_0 G),
       v1 ''Refresh'' ''refresh'' (request_AuthService_Refresh_0 G),
       v1 ''Logout'' ''logout'' (request_AuthService_Logout_0 G),
       plain ''EnrollTOTP'' (request_AuthService_EnrollTOTP_0 G),
       plain ''ConfirmTOTP'' (request_AuthService_ConfirmTOTP_0 G),
       plain ''VerifyMFA'' (request_AuthService_VerifyMFA_0 G),
       plain ''BeginWebAuthnRegister'' (request_AuthService_BeginWebAuthnRegister_0 G),
       plain ''FinishWebAuthnRegister'' (request_AuthService_FinishWebAuthnRegister_0 G),
       plain ''BeginWebAuthnLogin'' (request_AuthService_BeginWebAuthnLogin_0 G),
       plain ''FinishWebAuthnLogin'' (request_AuthService_FinishWebAuthnLogin_0 G)])"

definition vault_routes :: "gw_lib \<Rightarrow> ('p, 'w) route list" where
  "vault_routes G =
     (let items = lits [''v1'', ''vault'', ''items'']; p = ''/v1/vault/items''; pid = ''/v1/vault/items/{id}'' in
      [post items ''/vault.VaultService/CreateItem'' p (request_VaultService_CreateItem_0 G),
       (post pattern_item ''/vault.VaultService/GetItem'' pid (request_VaultService_GetItem_0 G))\<lparr>rt_Method := ''GET''\<rparr>,
       (post pattern_item ''/vault.VaultService/UpdateItem'' pid (request_VaultService_UpdateItem_0 G))\<lparr>rt_Method := ''PUT''\<rparr>,
       (post pattern_item ''/vault.VaultService/DeleteItem'' pid (request_VaultService_DeleteItem_0 G))\<lparr>rt_Method := ''DELETE''\<rparr>,
       (post items ''/vault.VaultService/ListItems'' p (request_VaultService_ListItems_0 G))\<lparr>rt_Method := ''GET''\<rparr>])"

datatype 'p http_resp = HTTPError gw_err | ForwardResponseMessage 'p | NoRoute

text \<open>One registered handler; \<open>call\<close> gets the annotated metadata.\<close>

definition handle_route :: "gw_lib \<Rightarrow> (metadata \<Rightarrow> (rpc_req, 'p, 'w) caller) \<Rightarrow> ('p, 'w) route \<Rightarrow> http_req \<Rightarrow> path_params \<Rightarrow> 'w \<Rightarrow> 'p http_resp \<times> 'w" where
  "handle_route G call r req pathParams w =
     (case gw_Annotate G (rt_rpc r) (rt_path r) req of
        Inl e \<Rightarrow> (HTTPError (Rpc e), w)
      | Inr md \<Rightarrow>
          (case rt_request r (call md) req pathParams w of
             (Inl e, w') \<Rightarrow> (HTTPError e, w')
           | (Inr resp, w') \<Rightarrow> (ForwardResponseMessage resp, w')))"

text \<open>The multiplexer: the library picks one of the registered patterns.\<close>

definition serve_http :: "gw_lib \<Rightarrow> (metadata \<Rightarrow> (rpc_req, 'p, 'w) caller) \<Rightarrow> ('p, 'w) route list \<Rightarrow> http_req \<Rightarrow> 'w \<Rightarrow> 'p http_resp \<times> 'w" where
  "serve_http G call routes req w =
     (case gw_Match G (map (\<lambda>r. (rt_Method r, rt_Pattern r)) routes) req of
        None \<Rightarrow> (NoRoute, w)
      | Some (i, pathParams) \<Rightarrow> if i < length routes then handle_route G call (routes ! i) req pathParams w else (NoRoute, w))"

text \<open>Registration over a connection, and in the same process: the same routes, a different callee.\<close>

definition RegisterAuthServiceHandlerClient :: "gw_lib \<Rightarrow> ('p, 'w) route list \<Rightarrow> ('p, 'w) route list" where
  "RegisterAuthServiceHandlerClient G mux = mux @ auth_routes G"

definition RegisterAuthServiceHandlerServer :: "gw_lib \<Rightarrow> ('p, 'w) route list \<Rightarrow> ('p, 'w) route list" where
  "RegisterAuthServiceHandlerServer G mux = mux @ auth_routes G"

definition RegisterVaultServiceHandlerClient :: "gw_lib \<Rightarrow> ('p, 'w) route list \<Rightarrow> ('p, 'w) route list" where
  "RegisterVaultServiceHandlerClient G mux = mux @ vault_routes G"

definition RegisterVaultServiceHandlerServer :: "gw_lib \<Rightarrow> ('p, 'w) route list \<Rightarrow> ('p, 'w) route list" where
  "RegisterVaultServiceHandlerServer G mux = mux @ vault_routes G"

text \<open>
  Dialling first: the connection is closed when the registration fails, and otherwise when the
  context is done. The result says which connections are open while the context is not done, and after.
\<close>

definition from_endpoint :: "(string \<Rightarrow> 'c result) \<Rightarrow> ('c \<Rightarrow> 'm result) \<Rightarrow> string \<Rightarrow> 'm result \<times> 'c list" where
  "from_endpoint dial register endpoint =
     (case dial endpoint of
        Inl e \<Rightarrow> (Inl e, [])
      | Inr conn \<Rightarrow> (case register conn of Inl e \<Rightarrow> (Inl e, []) | Inr m \<Rightarrow> (Inr m, [conn])))"

definition RegisterAuthServiceHandlerFromEndpoint where
  "RegisterAuthServiceHandlerFromEndpoint dial G mux endpoint = from_endpoint dial (\<lambda>_. Inr (RegisterAuthServiceHandlerClient G mux)) endpoint"

definition RegisterVaultServiceHandlerFromEndpoint where
  "RegisterVaultServiceHandlerFromEndpoint dial G mux endpoint = from_endpoint dial (\<lambda>_. Inr (RegisterVaultServiceHandlerClient G mux)) endpoint"

section \<open>The other two services\<close>

definition request_OTPService_ValidateCode_0 :: "gw_lib \<Rightarrow> (string \<times> string, 'p, 'w) caller \<Rightarrow> http_req \<Rightarrow> path_params \<Rightarrow> 'w \<Rightarrow> ('p, 'w) gw_step" where
  "request_OTPService_ValidateCode_0 G call req pathParams = with_body (gw_ValidateCode G) (\<lambda>q. q) call req"

definition pattern_OTPService_ValidateCode_0 :: gw_pattern where
  "pattern_OTPService_ValidateCode_0 = lits [''v1'', ''otp'', ''validate'']"

definition OTPService_handler :: "gw_lib \<Rightarrow> (metadata \<Rightarrow> (string \<times> string, 'p, 'w) caller) \<Rightarrow> http_req \<Rightarrow> path_params \<Rightarrow> 'w \<Rightarrow> 'p http_resp \<times> 'w" where
  "OTPService_handler G call req pathParams w =
     (case gw_Annotate G ''/otp.OTPService/ValidateCode'' ''/v1/otp/validate'' req of
        Inl e \<Rightarrow> (HTTPError (Rpc e), w)
      | Inr md \<Rightarrow>
          (case request_OTPService_ValidateCode_0 G (call md) req pathParams w of
             (Inl e, w') \<Rightarrow> (HTTPError e, w')
           | (Inr resp, w') \<Rightarrow> (ForwardResponseMessage resp, w')))"

text \<open>A stream: opening it and reading its header may fail; then its messages are forwarded.\<close>

definition request_SyncService_Subscribe_0 ::
  "gw_lib \<Rightarrow> ((string \<times> int) list, 'st, 'w) caller \<Rightarrow> ('st \<Rightarrow> rpc_err option) \<Rightarrow> http_req \<Rightarrow> 'w \<Rightarrow> ('st, 'w) gw_step" where
  "request_SyncService_Subscribe_0 G call header req w =
     or_fail (decode_body (gw_Subscribe G) req) (\<lambda>q.
       (case call q w of
          (Inl e, w') \<Rightarrow> (Inl (Rpc e), w')
        | (Inr strm, w') \<Rightarrow> (case header strm of Some e \<Rightarrow> (Inl (Rpc e), w') | None \<Rightarrow> (Inr strm, w')))) w"

definition SyncService_handler ::
  "gw_lib \<Rightarrow> (metadata \<Rightarrow> ((string \<times> int) list, 'st, 'w) caller) \<Rightarrow> ('st \<Rightarrow> rpc_err option) \<Rightarrow> http_req \<Rightarrow> 'w \<Rightarrow> 'st http_resp \<times> 'w" where
  "SyncService_handler G call header req w =
     (case gw_Annotate G ''/sync.SyncService/Subscribe'' ''/sync.SyncService/Subscribe'' req of
        Inl e \<Rightarrow> (HTTPError (Rpc e), w)
      | Inr md \<Rightarrow>
          (case request_SyncService_Subscribe_0 G (call md) header req w of
             (Inl e, w') \<Rightarrow> (HTTPError e, w')
           | (Inr strm, w') \<Rightarrow> (ForwardResponseMessage strm, w')))"

definition SyncService_local_handler :: "http_req \<Rightarrow> 'w \<Rightarrow> 'st http_resp \<times> 'w" where
  "SyncService_local_handler req w =
     (HTTPError (Rpc (StatusErr Unimplemented ''streaming calls are not yet supported in the in-process transport'')), w)"

section \<open>What the gateway asks of the server\<close>

text \<open>The message that an HTTP request stands for, read off the decoders and the path.\<close>

fun encodes :: "gw_lib \<Rightarrow> http_req \<Rightarrow> path_params \<Rightarrow> rpc_req \<Rightarrow> bool" where
  "encodes G req pp (RRegister q) \<longleftrightarrow> decode_body (gw_Register G) req = Inr q"
| "encodes G req pp (RLogin u p) \<longleftrightarrow> decode_body (gw_Login G) req = Inr (u, p)"
| "encodes G req pp (RRefresh t) \<longleftrightarrow> decode_body (gw_Refresh G) req = Inr t"
| "encodes G req pp (RLogout t) \<longleftrightarrow> decode_body (gw_Logout G) req = Inr t"
| "encodes G req pp (REnrollTOTP l) \<longleftrightarrow> decode_body (gw_EnrollTOTP G) req = Inr l"
| "encodes G req pp (RConfirmTOTP k c) \<longleftrightarrow> decode_body (gw_ConfirmTOTP G) req = Inr (k, c)"
| "encodes G req pp (RVerifyMFA s c) \<longleftrightarrow> decode_body (gw_VerifyMFA G) req = Inr (s, c)"
| "encodes G req pp (RWebAuthn m) \<longleftrightarrow> decode_body (gw_WebAuthn G m) req = Inr ()"
| "encodes G req pp (RCreateItem t p m) \<longleftrightarrow> decode_body (gw_CreateItem G) req = Inr (t, p, m)"
| "encodes G req pp (RGetItem k) \<longleftrightarrow> path_id G pp = Inr k"
| "encodes G req pp (RUpdateItem k p m) \<longleftrightarrow>
     path_id G pp = Inr k \<and> (case decode_body (gw_UpdateItem G) req of Inr (_, p', m') \<Rightarrow> p' = p \<and> m' = m | _ \<Rightarrow> False)"
| "encodes G req pp (RDeleteItem k) \<longleftrightarrow> path_id G pp = Inr k"
| "encodes G req pp (RListItems t l c) \<longleftrightarrow>
     (case gw_ParseForm G req of Inr form \<Rightarrow> gw_PopulateListItems G form = Inr (t, l, c) | _ \<Rightarrow> False)"

text \<open>A requester is exact for a method when it asks the one message that the HTTP request stands for, or none if there is none.\<close>

definition exact_call :: "gw_lib \<Rightarrow> string \<Rightarrow> ('p, 'w) requester \<Rightarrow> bool" where
  "exact_call G m rq \<longleftrightarrow> (\<forall>call req pp w.
     (\<exists>q. full_method q = m \<and> encodes G req pp q \<and> (\<forall>q'. full_method q' = m \<and> encodes G req pp q' \<longrightarrow> q' = q) \<and>
        rq call req pp w = rpc_answer (call q w)) \<or>
     (\<forall>q. full_method q = m \<longrightarrow> \<not> encodes G req pp q) \<and> (\<exists>e. rq call req pp w = (Inl (InvalidArgument e), w)))"

lemma decode_body_error: "decode_body dec req = Inl e \<Longrightarrow> \<exists>s. e = InvalidArgument s"
  by (auto simp: decode_body_def split: prod.splits option.splits dec_err.splits)

lemma path_id_error: "path_id G pp = Inl e \<Longrightarrow> \<exists>s. e = InvalidArgument s"
  by (auto simp: path_id_def split: option.splits sum.splits)

text \<open>All requesters parse the HTTP request first and then make one call of what they parsed.\<close>

lemma exact_parsed:
  assumes rq: "\<And>call req pp w. rq call req pp w = or_fail (parse req pp) (\<lambda>x. rpc_answer (call (mk x) w)) w"
    and err: "\<And>req pp e. parse req pp = Inl e \<Longrightarrow> \<exists>s. e = InvalidArgument s"
    and mk: "\<And>x. full_method (mk x) = m" "\<And>q. full_method q = m \<Longrightarrow> \<exists>x. q = mk x"
    and enc: "\<And>req pp x. encodes G req pp (mk x) \<longleftrightarrow> parse req pp = Inr x"
  shows "exact_call G m rq"
  unfolding exact_call_def
proof (intro allI)
  fix call req pp w
  show "(\<exists>q. full_method q = m \<and> encodes G req pp q \<and> (\<forall>q'. full_method q' = m \<and> encodes G req pp q' \<longrightarrow> q' = q) \<and>
        rq call req pp w = rpc_answer (call q w)) \<or>
     (\<forall>q. full_method q = m \<longrightarrow> \<not> encodes G req pp q) \<and> (\<exists>e. rq call req pp w = (Inl (InvalidArgument e), w))"
  proof (cases "parse req pp")
    case (Inl e)
    then have "\<not> encodes G req pp q" if "full_method q = m" for q using mk(2) [OF that] enc by auto
    moreover have "\<exists>s. rq call req pp w = (Inl (InvalidArgument s), w)" using err [OF Inl] Inl by (auto simp: rq or_fail_def)
    ultimately show ?thesis by blast
  next
    case (Inr x)
    then have "q' = mk x" if "full_method q' = m" "encodes G req pp q'" for q' using mk(2) [OF that(1)] that(2) enc by auto
    moreover have "rq call req pp w = rpc_answer (call (mk x) w)" using Inr by (simp add: rq or_fail_def)
    ultimately show ?thesis using mk(1) enc Inr by (intro disjI1 exI [of _ "mk x"]) simp
  qed
qed

lemma exact_with_body:
  assumes "\<And>x. full_method (mk x) = m" and "\<And>q. full_method q = m \<Longrightarrow> \<exists>x. q = mk x"
    and "\<And>req pp x. encodes G req pp (mk x) \<longleftrightarrow> decode_body dec req = Inr x"
  shows "exact_call G m (\<lambda>call req pp. with_body dec mk call req)"
  by (rule exact_parsed [where parse = "\<lambda>req pp. decode_body dec req"]) (use assms in \<open>auto simp: with_body_def decode_body_error\<close>)

lemma method_inverts:
  "full_method q = ''/auth.AuthService/Register'' \<Longrightarrow> \<exists>x. q = RRegister x"
  "full_method q = ''/auth.AuthService/Login'' \<Longrightarrow> \<exists>x. q = (\<lambda>(u, p). RLogin u p) x"
  "full_method q = ''/auth.AuthService/Refresh'' \<Longrightarrow> \<exists>x. q = RRefresh x"
  "full_method q = ''/auth.AuthService/Logout'' \<Longrightarrow> \<exists>x. q = RLogout x"
  "full_method q = ''/auth.AuthService/EnrollTOTP'' \<Longrightarrow> \<exists>x. q = REnrollTOTP x"
  "full_method q = ''/auth.AuthService/ConfirmTOTP'' \<Longrightarrow> \<exists>x. q = (\<lambda>(k, c). RConfirmTOTP k c) x"
  "full_method q = ''/auth.AuthService/VerifyMFA'' \<Longrightarrow> \<exists>x. q = (\<lambda>(s, c). RVerifyMFA s c) x"
  "full_method q = ''/vault.VaultService/CreateItem'' \<Longrightarrow> \<exists>x. q = (\<lambda>(t, p, m). RCreateItem t p m) x"
  "full_method q = ''/vault.VaultService/GetItem'' \<Longrightarrow> \<exists>k. q = RGetItem k"
  "full_method q = ''/vault.VaultService/UpdateItem'' \<Longrightarrow> \<exists>k p m. q = RUpdateItem k p m"
  "full_method q = ''/vault.VaultService/DeleteItem'' \<Longrightarrow> \<exists>k. q = RDeleteItem k"
  "full_method q = ''/vault.VaultService/ListItems'' \<Longrightarrow> \<exists>t l c. q = RListItems t l c"
  by (cases q; auto elim: webauthn_name.elims)+

lemma webauthn_inverts: "full_method q = full_method (RWebAuthn m) \<Longrightarrow> q = RWebAuthn m"
  by (cases q; cases m) (auto elim: webauthn_name.elims)

lemma exact_auth:
  "exact_call G ''/auth.AuthService/Register'' (request_AuthService_Register_0 G)"
  "exact_call G ''/auth.AuthService/Login'' (request_AuthService_Login_0 G)"
  "exact_call G ''/auth.AuthService/Refresh'' (request_AuthService_Refresh_0 G)"
  "exact_call G ''/auth.AuthService/Logout'' (request_AuthService_Logout_0 G)"
  "exact_call G ''/auth.AuthService/EnrollTOTP'' (request_AuthService_EnrollTOTP_0 G)"
  "exact_call G ''/auth.AuthService/ConfirmTOTP'' (request_AuthService_ConfirmTOTP_0 G)"
  "exact_call G ''/auth.AuthService/VerifyMFA'' (request_AuthService_VerifyMFA_0 G)"
  unfolding request_AuthService_Register_0_def [abs_def] request_AuthService_Login_0_def [abs_def] request_AuthService_Refresh_0_def [abs_def]
    request_AuthService_Logout_0_def [abs_def] request_AuthService_EnrollTOTP_0_def [abs_def] request_AuthService_ConfirmTOTP_0_def [abs_def]
    request_AuthService_VerifyMFA_0_def [abs_def]
  by (rule exact_with_body, simp add: split_def, erule method_inverts, simp add: split_def)+

lemma exact_webauthn:
  "exact_call G (full_method (RWebAuthn m)) (\<lambda>call req pp. with_body (gw_WebAuthn G m) (\<lambda>_. RWebAuthn m) call req)"
  by (rule exact_with_body) (simp_all add: webauthn_inverts del: full_method.simps)

lemma exact_webauthn_all:
  "exact_call G ''/auth.AuthService/BeginWebAuthnRegister'' (request_AuthService_BeginWebAuthnRegister_0 G)"
  "exact_call G ''/auth.AuthService/FinishWebAuthnRegister'' (request_AuthService_FinishWebAuthnRegister_0 G)"
  "exact_call G ''/auth.AuthService/BeginWebAuthnLogin'' (request_AuthService_BeginWebAuthnLogin_0 G)"
  "exact_call G ''/auth.AuthService/FinishWebAuthnLogin'' (request_AuthService_FinishWebAuthnLogin_0 G)"
  using exact_webauthn [where m = BeginWebAuthnRegister] exact_webauthn [where m = FinishWebAuthnRegister]
    exact_webauthn [where m = BeginWebAuthnLogin] exact_webauthn [where m = FinishWebAuthnLogin]
  by (simp_all add: request_AuthService_BeginWebAuthnRegister_0_def [abs_def] request_AuthService_FinishWebAuthnRegister_0_def [abs_def]
      request_AuthService_BeginWebAuthnLogin_0_def [abs_def] request_AuthService_FinishWebAuthnLogin_0_def [abs_def])

lemma exact_vault:
  "exact_call G ''/vault.VaultService/CreateItem'' (request_VaultService_CreateItem_0 G)"
  "exact_call G ''/vault.VaultService/GetItem'' (request_VaultService_GetItem_0 G)"
  "exact_call G ''/vault.VaultService/UpdateItem'' (request_VaultService_UpdateItem_0 G)"
  "exact_call G ''/vault.VaultService/DeleteItem'' (request_VaultService_DeleteItem_0 G)"
  "exact_call G ''/vault.VaultService/ListItems'' (request_VaultService_ListItems_0 G)"
proof -
  show "exact_call G ''/vault.VaultService/CreateItem'' (request_VaultService_CreateItem_0 G)"
    unfolding request_VaultService_CreateItem_0_def [abs_def]
    by (rule exact_with_body, simp add: split_def, erule method_inverts, simp add: split_def)
  show "exact_call G ''/vault.VaultService/GetItem'' (request_VaultService_GetItem_0 G)"
    by (rule exact_parsed [where parse = "\<lambda>req. path_id G" and mk = RGetItem])
      (auto simp: request_VaultService_GetItem_0_def dest: method_inverts path_id_error)
  show "exact_call G ''/vault.VaultService/DeleteItem'' (request_VaultService_DeleteItem_0 G)"
    by (rule exact_parsed [where parse = "\<lambda>req. path_id G" and mk = RDeleteItem])
      (auto simp: request_VaultService_DeleteItem_0_def dest: method_inverts path_id_error)
  show "exact_call G ''/vault.VaultService/UpdateItem'' (request_VaultService_UpdateItem_0 G)"
    by (rule exact_parsed [where mk = "\<lambda>(k, p, m). RUpdateItem k p m" and parse = "\<lambda>req pp. case decode_body (gw_UpdateItem G) req of
          Inl e \<Rightarrow> Inl e | Inr (_, p, m) \<Rightarrow> (case path_id G pp of Inl e \<Rightarrow> Inl e | Inr k \<Rightarrow> Inr (k, p, m))"])
      (auto simp: request_VaultService_UpdateItem_0_def or_fail_def dest: method_inverts path_id_error decode_body_error split: sum.splits)
  show "exact_call G ''/vault.VaultService/ListItems'' (request_VaultService_ListItems_0 G)"
    by (rule exact_parsed [where mk = "\<lambda>(t, l, c). RListItems t l c" and parse = "\<lambda>req pp. case gw_ParseForm G req of
          Inl e \<Rightarrow> Inl (InvalidArgument e) | Inr form \<Rightarrow> (case gw_PopulateListItems G form of Inl e \<Rightarrow> Inl (InvalidArgument e) | Inr x \<Rightarrow> Inr x)"])
      (auto simp: request_VaultService_ListItems_0_def or_fail_def dest: method_inverts split: sum.splits)
qed

definition gateway_routes :: "gw_lib \<Rightarrow> ('p, 'w) route list" where
  "gateway_routes G = RegisterVaultServiceHandlerClient G (RegisterAuthServiceHandlerClient G [])"

lemma routes_exact: "r \<in> set (gateway_routes G) \<Longrightarrow> exact_call G (rt_rpc r) (rt_request r)"
  unfolding gateway_routes_def RegisterVaultServiceHandlerClient_def RegisterAuthServiceHandlerClient_def auth_routes_def vault_routes_def
  by (auto simp: post_def Let_def exact_auth exact_webauthn_all exact_vault)

text \<open>
  Over a connection, the gateway is the peer of every call it makes and the annotated
  metadata are the call's. In the same process the services are called without the interceptors.
\<close>

definition gateway_ctx :: "string \<Rightarrow> metadata \<Rightarrow> req_ctx" where
  "gateway_ctx peer md = \<lparr>cx_md = Some md, cx_peer = Some (Some peer), cx_user = None\<rparr>"

definition remote_call :: "'l rate_lib \<Rightarrow> svc_env \<Rightarrow> 's Store \<Rightarrow> jwt_Config \<Rightarrow> string \<Rightarrow> metadata \<Rightarrow> (rpc_req, rpc_resp, ('s, 'l) server) caller" where
  "remote_call R env S cfg peer md q sv = serve_unary R env S cfg (gateway_ctx peer md) q sv"

definition local_call :: "svc_env \<Rightarrow> 's Store \<Rightarrow> jwt_Config \<Rightarrow> string \<Rightarrow> metadata \<Rightarrow> (rpc_req, rpc_resp, 's world) caller" where
  "local_call env S cfg peer md q w = dispatch_rpc env S cfg (gateway_ctx peer md) q w"

definition http_answer :: "(rpc_err + 'p) \<times> 'w \<Rightarrow> 'p http_resp \<times> 'w" where
  "http_answer a = (case a of (Inl e, w) \<Rightarrow> (HTTPError (Rpc e), w) | (Inr p, w) \<Rightarrow> (ForwardResponseMessage p, w))"

lemma serve_http_exact:
  assumes rs: "rs = gateway_routes G"
    and "gw_Match G (map (\<lambda>r. (rt_Method r, rt_Pattern r)) rs) req = Some (i, pp)" "i < length rs"
    and "gw_Annotate G (rt_rpc (rs ! i)) (rt_path (rs ! i)) req = Inr md"
  shows "(\<exists>q. full_method q = rt_rpc (rs ! i) \<and> encodes G req pp q \<and>
      (\<forall>q'. full_method q' = rt_rpc (rs ! i) \<and> encodes G req pp q' \<longrightarrow> q' = q) \<and>
      serve_http G call rs req w = http_answer (call md q w)) \<or>
    (\<forall>q. full_method q = rt_rpc (rs ! i) \<longrightarrow> \<not> encodes G req pp q) \<and>
      (\<exists>e. serve_http G call rs req w = (HTTPError (InvalidArgument e), w))"
proof -
  let ?r = "rs ! i"
  have "?r \<in> set (gateway_routes G)" using assms(3) unfolding rs [symmetric] by simp
  note ex = routes_exact [OF this]
  have eq: "serve_http G call rs req w = (case rt_request ?r (call md) req pp w of
      (Inl e, w') \<Rightarrow> (HTTPError e, w') | (Inr resp, w') \<Rightarrow> (ForwardResponseMessage resp, w'))"
    using assms(2-4) by (simp add: serve_http_def handle_route_def)
  have lift: "(case rpc_answer (call md q w) of (Inl e, w') \<Rightarrow> (HTTPError e, w') | (Inr resp, w') \<Rightarrow> (ForwardResponseMessage resp, w')) =
      http_answer (call md q w)" for q
    by (auto simp: rpc_answer_def http_answer_def split: prod.split sum.split)
  show ?thesis using ex [unfolded exact_call_def, rule_format, of req pp "call md" w]
  proof (elim disjE exE conjE)
    fix q assume q: "full_method q = rt_rpc ?r" "encodes G req pp q" "\<forall>q'. full_method q' = rt_rpc ?r \<and> encodes G req pp q' \<longrightarrow> q' = q"
      and a: "rt_request ?r (call md) req pp w = rpc_answer (call md q w)"
    have "serve_http G call rs req w = http_answer (call md q w)" unfolding eq a by (rule lift)
    with q show ?thesis by (intro disjI1 exI [of _ q] conjI)
  next
    fix e assume "\<forall>q. full_method q = rt_rpc ?r \<longrightarrow> \<not> encodes G req pp q" and "rt_request ?r (call md) req pp w = (Inl (InvalidArgument e), w)"
    then show ?thesis unfolding eq by (intro disjI2 conjI exI [of _ e]) (simp, simp only: prod.case sum.case)
  qed
qed

text \<open>Whatever happens to an HTTP request, the callee is asked at most once, with the metadata that the library read off this request.\<close>

lemma serve_http_cases:
  assumes rs: "rs = gateway_routes G"
  obtains (none) "snd (serve_http G call rs req w) = w" "\<And>p. fst (serve_http G call rs req w) \<noteq> ForwardResponseMessage p"
  | (asked) r md q where "r \<in> set rs" "gw_Annotate G (rt_rpc r) (rt_path r) req = Inr md" "full_method q = rt_rpc r"
      "serve_http G call rs req w = http_answer (call md q w)"
proof (cases "gw_Match G (map (\<lambda>r. (rt_Method r, rt_Pattern r)) rs) req")
  case (Some ip)
  obtain i pp where ip: "ip = (i, pp)" by fastforce
  show ?thesis
  proof (cases "i < length rs")
    case True
    show ?thesis
    proof (cases "gw_Annotate G (rt_rpc (rs ! i)) (rt_path (rs ! i)) req")
      case (Inr md)
      show ?thesis using serve_http_exact [OF rs Some [unfolded ip] True Inr, of call w]
      proof (elim disjE exE conjE)
        fix e assume "serve_http G call rs req w = (HTTPError (InvalidArgument e), w)"
        then show ?thesis using none by simp
      next
        fix q assume "full_method q = rt_rpc (rs ! i)" and "serve_http G call rs req w = http_answer (call md q w)"
        with nth_mem [OF True] Inr show ?thesis by (rule asked)
      qed
    qed (use Some ip True none in \<open>simp add: serve_http_def handle_route_def\<close>)
  qed (use Some ip none in \<open>simp add: serve_http_def\<close>)
qed (use none in \<open>simp add: serve_http_def\<close>)

lemma http_answer_snd [simp]: "snd (http_answer a) = snd a"
  by (auto simp: http_answer_def split: prod.split sum.split)

fun serve_https :: "gw_lib \<Rightarrow> (metadata \<Rightarrow> (rpc_req, 'p, 'w) caller) \<Rightarrow> http_req list \<Rightarrow> 'w \<Rightarrow> 'w" where
  "serve_https G call [] w = w"
| "serve_https G call (req # reqs) w = serve_https G call reqs (snd (serve_http G call (gateway_routes G) req w))"

text \<open>
  Isolation through the gateway: requests whose headers carry no token of a user leave the user's items alone.
\<close>

theorem gateway_isolated:
  assumes "pg_inv (w_store (sv_world sv))"
    and "\<forall>req \<in> set reqs. \<forall>m path md. gw_Annotate G m path req = Inr md \<longrightarrow> \<not> bears env cfg E (gateway_ctx peer md) u"
  shows "pg_inv (w_store (sv_world (serve_https G (remote_call R env (DB_Store E) cfg peer) reqs sv))) \<and>
    items_of u (pg_items (w_store (sv_world (serve_https G (remote_call R env (DB_Store E) cfg peer) reqs sv)))) =
    items_of u (pg_items (w_store (sv_world sv)))"
  using assms
proof (induction reqs arbitrary: sv)
  case (Cons req reqs)
  let ?sv = "snd (serve_http G (remote_call R env (DB_Store E) cfg peer) (gateway_routes G) req sv)"
  have "pg_inv (w_store (sv_world ?sv)) \<and> items_of u (pg_items (w_store (sv_world ?sv))) = items_of u (pg_items (w_store (sv_world sv)))"
  proof (rule serve_http_cases [OF refl, where G = G and call = "remote_call R env (DB_Store E) cfg peer" and req = req and w = sv])
    fix r :: "(rpc_resp, (db, 'a) server) route" and md q
    assume md: "gw_Annotate G (rt_rpc r) (rt_path r) req = Inr md"
      and run: "serve_http G (remote_call R env (DB_Store E) cfg peer) (gateway_routes G) req sv = http_answer (remote_call R env (DB_Store E) cfg peer md q sv)"
    have "\<not> bears env cfg E (gateway_ctx peer md) u" using Cons.prems(2) md by simp
    then show ?thesis using serve_unary_items [OF Cons.prems(1) prod.collapse [symmetric]] unfolding run by (simp add: remote_call_def)
  qed (use Cons.prems(1) in simp)
  then show ?case using Cons.IH [of ?sv] Cons.prems(2) by simp
qed simp

text \<open>
  In the same process nothing authenticates the callers, and the handlers refuse whom they do
  not know: no request changes a vault item.
\<close>

theorem local_gateway_no_vault:
  assumes "pg_inv (w_store w)"
  shows "pg_items (w_store (serve_https G (local_call env (DB_Store E) cfg peer) reqs w)) = pg_items (w_store w)"
  using assms
proof (induction reqs arbitrary: w)
  case (Cons req reqs)
  let ?w = "snd (serve_http G (local_call env (DB_Store E) cfg peer) (gateway_routes G) req w)"
  have "pg_inv (w_store ?w) \<and> pg_items (w_store ?w) = pg_items (w_store w)"
  proof (rule serve_http_cases [OF refl, where G = G and call = "local_call env (DB_Store E) cfg peer" and req = req and w = w])
    fix md q
    assume run: "serve_http G (local_call env (DB_Store E) cfg peer) (gateway_routes G) req w = http_answer (local_call env (DB_Store E) cfg peer md q w)"
    then show ?thesis using dispatch_items [OF Cons.prems, of env E cfg "gateway_ctx peer md" q] by (simp add: local_call_def gateway_ctx_def)
  qed (use Cons.prems in simp)
  then show ?case using Cons.IH [of ?w] by simp
qed simp

text \<open>
  C20. The REST gateway is transparent. When a request reaches a route and its context can be annotated, the
  gateway makes exactly the call that the request stands for: the route's method, with the arguments the library
  decodes and, for the item routes, the identifier of the path and not of the body; the HTTP answer is the answer
  of the server to that call, errors included, and so is the state of the server. A request that stands for no
  message is refused with \<^verbatim>\<open>InvalidArgument\<close> and the server does not see it.
\<close>

theorem gateway_transparent:
  fixes rs :: "(rpc_resp, ('s, 'l) server) route list"
  assumes "rs = gateway_routes G"
    and "gw_Match G (map (\<lambda>r. (rt_Method r, rt_Pattern r)) rs) req = Some (i, pp)" and "i < length rs"
    and "gw_Annotate G (rt_rpc (rs ! i)) (rt_path (rs ! i)) req = Inr md"
  shows "(\<exists>q. full_method q = rt_rpc (rs ! i) \<and> encodes G req pp q \<and>
      (\<forall>q'. full_method q' = rt_rpc (rs ! i) \<and> encodes G req pp q' \<longrightarrow> q' = q) \<and>
      serve_http G (remote_call R env S cfg peer) rs req sv = http_answer (serve_unary R env S cfg (gateway_ctx peer md) q sv)) \<or>
    (\<forall>q. full_method q = rt_rpc (rs ! i) \<longrightarrow> \<not> encodes G req pp q) \<and>
      (\<exists>e. serve_http G (remote_call R env S cfg peer) rs req sv = (HTTPError (InvalidArgument e), sv))"
  using serve_http_exact [OF assms, where call = "remote_call R env S cfg peer" and w = sv] by (simp only: remote_call_def)

text \<open>A library for examples: it routes the deletion of an item and passes the caller's authorization header on.\<close>

definition demo_gateway :: gw_lib where
  "demo_gateway =
     \<lparr>gw_Register = (\<lambda>_. (\<lparr>rq_Username = [], rq_Email = [], rq_Password = [], rq_VaultSymKey = [], rq_KdfParamsJson = []\<rparr>, None)),
      gw_Login = (\<lambda>_. (([], []), None)), gw_Refresh = (\<lambda>_. ([], None)), gw_Logout = (\<lambda>_. ([], None)),
      gw_EnrollTOTP = (\<lambda>_. ([], None)), gw_ConfirmTOTP = (\<lambda>_. (([], []), None)), gw_VerifyMFA = (\<lambda>_. (([], []), None)),
      gw_WebAuthn = (\<lambda>_ _. ((), None)), gw_CreateItem = (\<lambda>_. ((ItemType_UNSPECIFIED, [], []), None)),
      gw_UpdateItem = (\<lambda>b. ((''other'', b, []), None)), gw_ValidateCode = (\<lambda>_. (([], []), None)), gw_Subscribe = (\<lambda>_. ([], None)),
      gw_ParseForm = (\<lambda>_. Inr []), gw_PopulateListItems = (\<lambda>_. Inr (ItemType_UNSPECIFIED, 0, [])), gw_String = Inr,
      gw_Annotate = (\<lambda>_ _ req. Inr [(''authorization'', concat (map snd (filter (\<lambda>h. fst h = ''Authorization'') (hq_Header req))))]),
      gw_Match = (\<lambda>rs req. if hq_Method req = ''DELETE'' \<and> take 16 (hq_Path req) = ''/v1/vault/items/''
        then Some (14, [(''id'', drop 16 (hq_Path req))]) else None)\<rparr>"

definition demo_http :: "string \<Rightarrow> http_req" where
  "demo_http u = \<lparr>hq_Method = ''DELETE'', hq_Path = ''/v1/vault/items/i1'',
     hq_Header = [(''Authorization'', [''Bearer '' @ demo_tok demo_key (demo_claims_of u)])], hq_Body = [], hq_RawQuery = [],
     hq_RemoteAddr = ''10.0.0.1:5000''\<rparr>"

theorem gateway_transparent_witness:
  "serve_http demo_gateway (remote_call demo_rate demo_env (DB_Store demo_pg) demo_cfg ''10.0.0.1:4711'') (gateway_routes demo_gateway) (demo_http ''a'') demo_sv =
   http_answer (serve_unary demo_rate demo_env (DB_Store demo_pg) demo_cfg (demo_bearer ''a'') (RDeleteItem ''i1'') demo_sv)"
proof -
  let ?rs = "gateway_routes demo_gateway :: (rpc_resp, (db, nat) server) route list"
  have len: "length ?rs = 16" and rt: "rt_rpc (?rs ! 14) = ''/vault.VaultService/DeleteItem''"
    by (simp_all add: gateway_routes_def RegisterVaultServiceHandlerClient_def RegisterAuthServiceHandlerClient_def auth_routes_def vault_routes_def Let_def post_def)
  have m: "gw_Match demo_gateway (map (\<lambda>r. (rt_Method r, rt_Pattern r)) ?rs) (demo_http ''a'') = Some (14, [(''id'', ''i1'')])"
    by (simp add: demo_gateway_def demo_http_def)
  let ?md = "[(''authorization'', [''Bearer '' @ demo_tok demo_key (demo_claims_of ''a'')])]"
  have a: "gw_Annotate demo_gateway (rt_rpc (?rs ! 14)) (rt_path (?rs ! 14)) (demo_http ''a'') = Inr ?md"
    by (simp add: demo_gateway_def demo_http_def)
  have ctx: "gateway_ctx ''10.0.0.1:4711'' ?md = demo_bearer ''a''" by (simp add: gateway_ctx_def demo_bearer_def demo_ctx_def)
  have enc: "encodes demo_gateway (demo_http ''a'') [(''id'', ''i1'')] (RDeleteItem ''i1'')"
    by (simp add: path_id_def demo_gateway_def)
  have f: "full_method (RDeleteItem ''i1'') = rt_rpc (?rs ! 14)" unfolding rt by simp
  have "14 < length ?rs" by (simp add: len)
  from gateway_transparent [OF refl m this a, of demo_rate demo_env "DB_Store demo_pg" demo_cfg "''10.0.0.1:4711''" demo_sv]
  show ?thesis unfolding ctx using enc f by metis
qed

end
