(* ===== verification/VaultSpec.thy ===== *)
theory VaultSpec
  imports DemoEnv AuthSvc
begin

text \<open>
  The abstract vault: a map from identifiers to items, with one transition per request of
  \<^verbatim>\<open>src/internal/server/service/vault.go\<close>, and the refinement of this specification by the vault service, over
  the PostgreSQL store and over the in-memory store of the tests. A failed request leaves the map
  alone; the one exception is a panic of the notification, which comes after the write.
\<close>

section \<open>Specification\<close>

datatype vault_op =
    OpCreate string string bytes string | OpGet string string | OpUpdate string string bytes string
  | OpDelete string string | OpList string ListFilter

datatype vault_res = ResItem "VaultItem result" | ResUnit "unit result" | ResList "(VaultItem list \<times> string) result"

type_synonym avault = "string \<Rightarrow> VaultItem option"

definition created :: "(string \<Rightarrow> string option) \<Rightarrow> string \<Rightarrow> string \<Rightarrow> bytes \<Rightarrow> string \<Rightarrow> avault \<Rightarrow> VaultItem \<Rightarrow> avault \<Rightarrow> bool" where
  "created canon u typ p m a it a' \<longleftrightarrow> a (vi_ID it) = None \<and> vi_Type it = typ \<and> vi_Payload it = p \<and> vi_Metadata it = m \<and>
     vi_Version it = 1 \<and> (\<exists>c. canon u = Some c \<and> a' = a(vi_ID it \<mapsto> it\<lparr>vi_UserID := c\<rparr>))"

definition updated :: "(string \<Rightarrow> string option) \<Rightarrow> string \<Rightarrow> string \<Rightarrow> bytes \<Rightarrow> string \<Rightarrow> avault \<Rightarrow> VaultItem \<Rightarrow> avault \<Rightarrow> bool" where
  "updated canon k u p m a it a' \<longleftrightarrow> canon k = Some (vi_ID it) \<and> a' = a(vi_ID it \<mapsto> it) \<and>
     (\<exists>old t. a (vi_ID it) = Some old \<and> canon u = Some (vi_UserID old) \<and>
        it = old\<lparr>vi_Payload := p, vi_Metadata := m, vi_Version := vi_Version old + 1, vi_UpdatedAt := t\<rparr>)"

definition deleted :: "(string \<Rightarrow> string option) \<Rightarrow> string \<Rightarrow> string \<Rightarrow> avault \<Rightarrow> avault \<Rightarrow> bool" where
  "deleted canon k u a a' \<longleftrightarrow>
     (\<exists>c old. canon k = Some c \<and> a c = Some old \<and> canon u = Some (vi_UserID old) \<and> a' = a(c := None))"

definition is_panic :: "err \<Rightarrow> bool" where
  "is_panic e \<longleftrightarrow> (case e of Panic _ \<Rightarrow> True | _ \<Rightarrow> False)"

text \<open>The requests that the map can serve; the caller of a request for one item must own it.\<close>

definition owned :: "(string \<Rightarrow> string option) \<Rightarrow> avault \<Rightarrow> string \<Rightarrow> string \<Rightarrow> bool" where
  "owned canon a k u \<longleftrightarrow> (case canon k of None \<Rightarrow> False
     | Some c \<Rightarrow> (case a c of None \<Rightarrow> False | Some it \<Rightarrow> canon u = Some (vi_UserID it)))"

fun allowed :: "(string \<Rightarrow> string option) \<Rightarrow> avault \<Rightarrow> vault_op \<Rightarrow> bool" where
  "allowed canon a (OpGet k u) = owned canon a k u"
| "allowed canon a (OpUpdate k u p m) = owned canon a k u"
| "allowed canon a (OpDelete k u) = owned canon a k u"
| "allowed canon a _ = True"

text \<open>
  With \<open>strict\<close>, a request fails only if the map cannot serve it; without, the database may fail at any time.
\<close>

inductive vault_spec :: "bool \<Rightarrow> (string \<Rightarrow> string option) \<Rightarrow> avault \<Rightarrow> vault_op \<Rightarrow> vault_res \<Rightarrow> avault \<Rightarrow> bool" for strict canon where
  create: "created canon u typ p m a it a' \<Longrightarrow> vault_spec strict canon a (OpCreate u typ p m) (ResItem (Inr it)) a'"
| create_crash: "created canon u typ p m a it a' \<Longrightarrow> is_panic e \<Longrightarrow> vault_spec strict canon a (OpCreate u typ p m) (ResItem (Inl e)) a'"
| get: "canon k = Some (vi_ID it) \<Longrightarrow> a (vi_ID it) = Some it \<Longrightarrow> canon u = Some (vi_UserID it) \<Longrightarrow>
    vault_spec strict canon a (OpGet k u) (ResItem (Inr it)) a"
| update: "updated canon k u p m a it a' \<Longrightarrow> vault_spec strict canon a (OpUpdate k u p m) (ResItem (Inr it)) a'"
| update_crash: "updated canon k u p m a it a' \<Longrightarrow> is_panic e \<Longrightarrow> vault_spec strict canon a (OpUpdate k u p m) (ResItem (Inl e)) a'"
| delete: "deleted canon k u a a' \<Longrightarrow> vault_spec strict canon a (OpDelete k u) (ResUnit (Inr ())) a'"
| delete_crash: "deleted canon k u a a' \<Longrightarrow> is_panic e \<Longrightarrow> vault_spec strict canon a (OpDelete k u) (ResUnit (Inl e)) a'"
| listing: "(\<And>it. it \<in> set its \<Longrightarrow> a (vi_ID it) = Some it \<and> canon u = Some (vi_UserID it)) \<Longrightarrow>
    vault_spec strict canon a (OpList u f) (ResList (Inr (its, cur))) a"
| fail_item: "\<not> (strict \<and> allowed canon a opn) \<Longrightarrow> vault_spec strict canon a opn (ResItem (Inl e)) a"
| fail_unit: "\<not> (strict \<and> allowed canon a opn) \<Longrightarrow> vault_spec strict canon a opn (ResUnit (Inl e)) a"
| fail_list: "\<not> (strict \<and> allowed canon a opn) \<Longrightarrow> vault_spec strict canon a opn (ResList (Inl e)) a"

inductive_simps spec_get: "vault_spec strict canon a (OpGet k u) (ResItem (Inr it)) a'"

fun spec_run :: "bool \<Rightarrow> (string \<Rightarrow> string option) \<Rightarrow> avault \<Rightarrow> vault_op list \<Rightarrow> vault_res list \<Rightarrow> avault \<Rightarrow> bool" where
  "spec_run strict canon a [] [] a' = (a' = a)"
| "spec_run strict canon a (opn # ops) (r # rs) a' = (\<exists>b. vault_spec strict canon a opn r b \<and> spec_run strict canon b ops rs a')"
| "spec_run strict canon a _ _ a' = False"

section \<open>The service\<close>

fun svc_do :: "svc_env \<Rightarrow> 's Store \<Rightarrow> req_ctx \<Rightarrow> vault_op \<Rightarrow> 's world \<Rightarrow> vault_res \<times> 's world" where
  "svc_do env S ctx (OpCreate u typ p m) w = (let (r, w') = VaultService_Create env S ctx u typ p m w in (ResItem r, w'))"
| "svc_do env S ctx (OpGet k u) w = (let (r, w') = VaultService_Get env S ctx k u w in (ResItem r, w'))"
| "svc_do env S ctx (OpUpdate k u p m) w = (let (r, w') = VaultService_Update env S ctx k u p m w in (ResItem r, w'))"
| "svc_do env S ctx (OpDelete k u) w = (let (r, w') = VaultService_Delete env S ctx k u w in (ResUnit r, w'))"
| "svc_do env S ctx (OpList u f) w = (let (r, w') = VaultService_List env S ctx u f w in (ResList r, w'))"

fun svc_run :: "svc_env \<Rightarrow> 's Store \<Rightarrow> (req_ctx \<times> vault_op) list \<Rightarrow> 's world \<Rightarrow> vault_res list \<times> 's world" where
  "svc_run env S [] w = ([], w)"
| "svc_run env S ((ctx, opn) # ops) w = (let (r, w1) = svc_do env S ctx opn w; (rs, w2) = svc_run env S ops w1 in (r # rs, w2))"

section \<open>Refinement\<close>

text \<open>A store that refuses nothing it could serve.\<close>

definition serves :: "'s Vault \<Rightarrow> (string \<Rightarrow> string option) \<Rightarrow> ('s \<Rightarrow> avault) \<Rightarrow> ('s \<Rightarrow> bool) \<Rightarrow> bool" where
  "serves V canon items ok \<longleftrightarrow> (\<forall>s e s'. ok s \<longrightarrow>
     (\<forall>it. Vault_Create V it s \<noteq> (Inl e, s')) \<and> (\<forall>u f. Vault_List V u f s \<noteq> (Inl e, s')) \<and>
     (\<forall>k u. Vault_Get V k u s = (Inl e, s') \<longrightarrow> \<not> owned canon (items s) k u) \<and>
     (\<forall>k u. Vault_Delete V k u s = (Inl e, s') \<longrightarrow> \<not> owned canon (items s) k u) \<and>
     (\<forall>it. Vault_Update V it s = (Inl e, s') \<longrightarrow> \<not> owned canon (items s) (vi_ID it) (vi_UserID it)))"

lemma servesD:
  assumes "serves V canon items ok" and "ok s"
  shows "Vault_Create V it s = (Inl e, s') \<Longrightarrow> False" and "Vault_List V u f s = (Inl e, s') \<Longrightarrow> False"
    and "Vault_Get V k u s = (Inl e, s') \<Longrightarrow> \<not> owned canon (items s) k u"
    and "Vault_Delete V k u s = (Inl e, s') \<Longrightarrow> \<not> owned canon (items s) k u"
    and "Vault_Update V it s = (Inl e, s') \<Longrightarrow> \<not> owned canon (items s) (vi_ID it) (vi_UserID it)"
  using assms unfolding serves_def by blast+

lemma notify_error: "on_sync (NotifyUpsert u it) w = (Inl e, w') \<Longrightarrow> is_panic e" "on_sync (NotifyDelete u k) w = (Inl e, w') \<Longrightarrow> is_panic e"
proof -
  have t: "try_send c evt chans = Inl e \<Longrightarrow> is_panic e" for c evt chans
    by (auto simp: try_send_def is_panic_def split: option.splits if_splits)
  have s: "send_all cs evt chans = Inl e \<Longrightarrow> is_panic e" for cs evt chans
    by (induction cs arbitrary: chans) (auto dest: t split: sum.splits)
  show "on_sync (NotifyUpsert u it) w = (Inl e, w') \<Longrightarrow> is_panic e" "on_sync (NotifyDelete u k) w = (Inl e, w') \<Longrightarrow> is_panic e"
    by (auto simp: on_sync_def NotifyUpsert_def NotifyDelete_def notify_def dest: s split: sum.splits)
qed

text \<open>The result of an operation that writes: that of the repository, or the panic of the notification.\<close>

lemma write_results:
  "VaultService_Create env S ctx u typ p m w = (r, w') \<Longrightarrow>
     Vault_Create (Store_Vault S) (VaultItem_zero\<lparr>vi_UserID := u, vi_Type := typ, vi_Payload := p, vi_Metadata := m\<rparr>) (w_store w) = (q, s') \<Longrightarrow>
     (case q of Inl _ \<Rightarrow> \<exists>e. r = Inl e | Inr it \<Rightarrow> r = Inr it \<or> (\<exists>e. r = Inl e \<and> is_panic e))"
  "VaultService_Update env S ctx k u p m w = (r, w') \<Longrightarrow>
     Vault_Update (Store_Vault S) (VaultItem_zero\<lparr>vi_ID := k, vi_UserID := u, vi_Payload := p, vi_Metadata := m\<rparr>) (w_store w) = (q, s') \<Longrightarrow>
     (case q of Inl _ \<Rightarrow> \<exists>e. r = Inl e | Inr it \<Rightarrow> r = Inr it \<or> (\<exists>e. r = Inl e \<and> is_panic e))"
  by (auto simp: VaultService_Create_def VaultService_Update_def on_store_def Let_def
      dest: notify_error split: sum.splits prod.splits)

lemma delete_results:
  "VaultService_Delete env S ctx k u w = (rd, w') \<Longrightarrow> Vault_Delete (Store_Vault S) k u (w_store w) = (qd, s') \<Longrightarrow>
     (case qd of Inl _ \<Rightarrow> \<exists>e. rd = Inl e | Inr _ \<Rightarrow> rd = Inr () \<or> (\<exists>e. rd = Inl e \<and> is_panic e))"
  using notify_error(2) [of u k _ _ w']
  by (cases rd) (auto simp: VaultService_Delete_def on_store_def Let_def split: sum.splits prod.splits)

lemma read_results:
  "VaultService_Get env S ctx k u w = (Inl e, w') \<Longrightarrow> Vault_Get (Store_Vault S) k u (w_store w) = (qg, s') \<Longrightarrow> \<exists>e'. qg = Inl e'"
  "VaultService_List env S ctx u f w = (Inl e, w') \<Longrightarrow> Vault_List (Store_Vault S) u f (w_store w) = (ql, s') \<Longrightarrow> \<exists>e'. ql = Inl e'"
  by (auto simp: VaultService_Get_def VaultService_List_def on_store_def Let_def split: prod.splits sum.splits)

context audited_vault_store
begin

lemma refines_create:
  assumes S: "Store_Vault S = V" "Store_Audit S = A" and i: "inv (w_store w)" and sv: "strict \<Longrightarrow> serves V canon items inv"
    and d: "svc_do env S ctx (OpCreate u ty p m) w = (r, w')"
  shows "inv (w_store w') \<and> vault_spec strict canon (items (w_store w)) (OpCreate u ty p m) r (items (w_store w'))"
proof -
  let ?it = "VaultItem_zero\<lparr>vi_UserID := u, vi_Type := ty, vi_Payload := p, vi_Metadata := m\<rparr>"
  obtain r' where c: "VaultService_Create env S ctx u ty p m w = (r', w')" "r = ResItem r'" using d by (auto split: prod.splits)
  obtain q s' where q: "Vault_Create V ?it (w_store w) = (q, s')" by fastforce
  have w': "w' = snd (VaultService_Create env S ctx u ty p m w)" using c by simp
  have iv: "inv (w_store w')" "inv s'" using svc_isolated [OF S i] w' create_isolated(1) [OF i q] by blast+
  have eq: "items (w_store w') = items s'" using same_one [OF S(2) service_store(1) q [folded S(1)] iv(2)] unfolding w' .
  note res = write_results(1) [OF c(1) q [folded S(1)]]
  show ?thesis
  proof (cases q)
    case (Inl e)
    then show ?thesis using res c iv create_err [OF i q [unfolded Inl]] eq servesD(1) [OF sv i q [unfolded Inl]] by (auto intro!: fail_item)
  next
    case (Inr it)
    have "created canon u ty p m (items (w_store w)) it (items (w_store w'))"
      using create_ok [OF i q [unfolded Inr]] unfolding eq created_def by auto
    then show ?thesis using res c iv Inr by (auto intro: vault_spec.intros)
  qed
qed

lemma refines_update:
  assumes S: "Store_Vault S = V" "Store_Audit S = A" and i: "inv (w_store w)" and sv: "strict \<Longrightarrow> serves V canon items inv"
    and d: "svc_do env S ctx (OpUpdate k u p m) w = (r, w')"
  shows "inv (w_store w') \<and> vault_spec strict canon (items (w_store w)) (OpUpdate k u p m) r (items (w_store w'))"
proof -
  let ?it = "VaultItem_zero\<lparr>vi_ID := k, vi_UserID := u, vi_Payload := p, vi_Metadata := m\<rparr>"
  obtain r' where c: "VaultService_Update env S ctx k u p m w = (r', w')" "r = ResItem r'" using d by (auto split: prod.splits)
  obtain q s' where q: "Vault_Update V ?it (w_store w) = (q, s')" by fastforce
  have w': "w' = snd (VaultService_Update env S ctx k u p m w)" using c by simp
  have iv: "inv (w_store w')" "inv s'" using svc_isolated [OF S i] w' update_isolated(1) [OF i q] by blast+
  have eq: "items (w_store w') = items s'" using same_one [OF S(2) service_store(3) q [folded S(1)] iv(2)] unfolding w' .
  note res = write_results(2) [OF c(1) q [folded S(1)]]
  show ?thesis
  proof (cases q)
    case (Inl e)
    then show ?thesis using res c iv update_err [OF i q [unfolded Inl]] eq servesD(5) [OF sv i q [unfolded Inl]] by (auto intro!: fail_item)
  next
    case (Inr it)
    have "updated canon k u p m (items (w_store w)) it (items (w_store w'))"
      using update_ok [OF i q [unfolded Inr]] unfolding eq updated_def by simp
    then show ?thesis using res c iv Inr by (auto intro: vault_spec.intros)
  qed
qed

lemma refines_delete:
  assumes S: "Store_Vault S = V" "Store_Audit S = A" and i: "inv (w_store w)" and sv: "strict \<Longrightarrow> serves V canon items inv"
    and d: "svc_do env S ctx (OpDelete k u) w = (r, w')"
  shows "inv (w_store w') \<and> vault_spec strict canon (items (w_store w)) (OpDelete k u) r (items (w_store w'))"
proof -
  obtain r' where c: "VaultService_Delete env S ctx k u w = (r', w')" "r = ResUnit r'" using d by (auto split: prod.splits)
  obtain q s' where q: "Vault_Delete V k u (w_store w) = (q, s')" by fastforce
  have w': "w' = snd (VaultService_Delete env S ctx k u w)" using c by simp
  have iv: "inv (w_store w')" "inv s'" using svc_isolated [OF S i] w' delete_isolated(1) [OF i q] by blast+
  have eq: "items (w_store w') = items s'" using same_one [OF S(2) service_store(4) q [folded S(1)] iv(2)] unfolding w' .
  note res = delete_results [OF c(1) q [folded S(1)]]
  show ?thesis
  proof (cases q)
    case (Inl e)
    then show ?thesis using res c iv delete_err [OF i q [unfolded Inl]] eq servesD(4) [OF sv i q [unfolded Inl]] by (auto intro!: fail_unit)
  next
    case (Inr x)
    have "deleted canon k u (items (w_store w)) (items (w_store w'))"
      using delete_ok [OF i] q Inr unfolding eq deleted_def by simp
    then show ?thesis using res c iv Inr by (auto intro: vault_spec.intros)
  qed
qed

lemma refines_get:
  assumes S: "Store_Vault S = V" "Store_Audit S = A" and i: "inv (w_store w)" and sv: "strict \<Longrightarrow> serves V canon items inv"
    and d: "svc_do env S ctx (OpGet k u) w = (r, w')"
  shows "inv (w_store w') \<and> vault_spec strict canon (items (w_store w)) (OpGet k u) r (items (w_store w'))"
proof -
  obtain r' where c: "VaultService_Get env S ctx k u w = (r', w')" "r = ResItem r'" using d by (auto split: prod.splits)
  obtain q s' where q: "Vault_Get V k u (w_store w) = (q, s')" by fastforce
  have w': "w' = snd (VaultService_Get env S ctx k u w)" using c by simp
  have iv: "inv (w_store w')" "inv s'" "items s' = items (w_store w)" using svc_isolated [OF S i] w' get_frame [OF i q] by blast+
  have eq: "items (w_store w') = items s'" using same_one [OF S(2) service_store(2) q [folded S(1)] iv(2)] unfolding w' .
  have "\<exists>e'. q = Inl e'" if "r' = Inl e" for e using read_results(1) [OF c(1) [unfolded that] q [folded S(1)]] .
  then have "\<not> (strict \<and> owned canon (items (w_store w)) k u)" if "r' = Inl e" for e
    using servesD(3) [OF sv i] q that by metis
  then have "vault_spec strict canon (items (w_store w)) (OpGet k u) r (items (w_store w))"
    using svc_get_owned [OF S(1) i, of env ctx k u] c by (cases r') (auto intro: fail_item get)
  then show ?thesis using iv eq by simp
qed

lemma refines_list:
  assumes S: "Store_Vault S = V" "Store_Audit S = A" and i: "inv (w_store w)" and sv: "strict \<Longrightarrow> serves V canon items inv"
    and d: "svc_do env S ctx (OpList u f) w = (r, w')"
  shows "inv (w_store w') \<and> vault_spec strict canon (items (w_store w)) (OpList u f) r (items (w_store w'))"
proof -
  obtain r' where c: "VaultService_List env S ctx u f w = (r', w')" "r = ResList r'" using d by (auto split: prod.splits)
  obtain q s' where q: "Vault_List V u f (w_store w) = (q, s')" by fastforce
  have w': "w' = snd (VaultService_List env S ctx u f w)" using c by simp
  have iv: "inv (w_store w')" "inv s'" "items s' = items (w_store w)" using svc_isolated [OF S i] w' list_frame [OF i q] by blast+
  have eq: "items (w_store w') = items s'" using same_one [OF S(2) service_store(5) q [folded S(1)] iv(2)] unfolding w' .
  have "\<exists>e'. q = Inl e'" if "r' = Inl e" for e using read_results(2) [OF c(1) [unfolded that] q [folded S(1)]] .
  then have "\<not> strict" if "r' = Inl e" for e
    using servesD(2) [OF sv i] q that by metis
  then have "vault_spec strict canon (items (w_store w)) (OpList u f) r (items (w_store w))"
    using svc_list_owned [OF S(1) i, of env ctx u f] c by (cases r') (auto intro: fail_list listing)
  then show ?thesis using iv eq by simp
qed

lemma svc_do_refines:
  assumes "Store_Vault S = V" "Store_Audit S = A" "inv (w_store w)" "strict \<Longrightarrow> serves V canon items inv" "svc_do env S ctx opn w = (r, w')"
  shows "inv (w_store w') \<and> vault_spec strict canon (items (w_store w)) opn r (items (w_store w'))"
proof (cases opn)
  case OpCreate then show ?thesis using refines_create [OF assms(1-4)] assms(5) by simp
next
  case OpGet then show ?thesis using refines_get [OF assms(1-4)] assms(5) by simp
next
  case OpUpdate then show ?thesis using refines_update [OF assms(1-4)] assms(5) by simp
next
  case OpDelete then show ?thesis using refines_delete [OF assms(1-4)] assms(5) by simp
next
  case OpList then show ?thesis using refines_list [OF assms(1-4)] assms(5) by simp
qed

lemma svc_run_refines:
  assumes "Store_Vault S = V" "Store_Audit S = A" "inv (w_store w)" "svc_run env S ops w = (rs, w')"
    and sv: "strict \<Longrightarrow> serves V canon items inv"
  shows "inv (w_store w') \<and> spec_run strict canon (items (w_store w)) (map snd ops) rs (items (w_store w'))"
  using assms(3,4)
proof (induction ops arbitrary: w rs)
  case (Cons p ops)
  obtain ctx opn where p: "p = (ctx, opn)" by (cases p)
  obtain r w1 where 1: "svc_do env S ctx opn w = (r, w1)" by fastforce
  obtain rs1 w2 where 2: "svc_run env S ops w1 = (rs1, w2)" by fastforce
  show ?case using svc_do_refines [where strict = strict, OF assms(1,2) Cons.prems(1) sv 1] Cons.IH [of w1 rs1] Cons.prems(2) p 1 2 by auto
qed simp

end

lemma mock_serves: "serves Mock_Vault Some mock_items mock_inv"
  by (auto simp: serves_def Mock_Vault_def MockVault_Create_def MockVault_List_def MockVault_Get_def MockVault_Delete_def
      MockVault_Update_def mock_owned_def mock_items_def owned_def Let_def split: option.splits if_splits)



end
