(* ===== verification/EndToEnd.thy ===== *)
theory EndToEnd
  imports VaultSpec ServerProps Cli
begin

text \<open>
  The client's commands connected to the server: the parameter \<open>cn_send\<close> of the client is the chain of interceptors
  and handlers of the server over PostgreSQL. gRPC's transport carries the values of the
  \<^verbatim>\<open>authorization\<close> metadata and the request, and shows the server the client's address.
\<close>

definition wire_ctx :: "string \<Rightarrow> string list \<Rightarrow> req_ctx" where
  "wire_ctx addr md = \<lparr>cx_md = Some [(''authorization'', md)], cx_peer = Some (Some addr), cx_user = None\<rparr>"

definition wire ::
  "'l rate_lib \<Rightarrow> svc_env \<Rightarrow> pg_env \<Rightarrow> jwt_Config \<Rightarrow> string \<Rightarrow> string list \<Rightarrow> rpc_req \<Rightarrow> (db, 'l) server \<Rightarrow>
   (rpc_err + rpc_resp) \<times> (db, 'l) server" where
  "wire R env E cfg addr md req sv = serve_unary R env (DB_Store E) cfg (wire_ctx addr md) req sv"

abbreviation sv_items :: "(db, 'l) server \<Rightarrow> avault" where
  "sv_items sv \<equiv> pg_items (w_store (sv_world sv))"

abbreviation sv_inv :: "(db, 'l) server \<Rightarrow> bool" where
  "sv_inv sv \<equiv> pg_inv (w_store (sv_world sv))"

section \<open>One request\<close>

lemma serve_inv: "sv_inv sv \<Longrightarrow> serve_unary R env (DB_Store E) cfg ctx req sv = (r, sv') \<Longrightarrow> sv_inv sv'"
  using dispatch_items [of _ env E cfg _ req] by (auto dest!: serve_unary_path simp: path_ok_def same_data_def)

lemma dispatch_frame:
  assumes "pg_inv (w_store w)" and "req = RGetItem k \<or> req = RRefresh t"
  shows "pg_items (w_store (snd (dispatch_rpc env (DB_Store E) cfg ctx req w))) = pg_items (w_store w)"
  using assms(2)
proof
  assume g: "req = RGetItem k"
  show ?thesis
  proof (cases "cx_user ctx")
    case (Some u)
    obtain r w' where v: "VaultService_Get env (DB_Store E) ctx k u w = (r, w')" by fastforce
    then have "vault_spec False (pg_parse_uuid E) (pg_items (w_store w)) (OpGet k u) (ResItem r) (pg_items (w_store w'))"
      using pgav.refines_get [OF DB_ops(14,15) assms(1), where strict = False and env = env and ctx = ctx and k = k and u = u and r = "ResItem r" and w' = w']
      by simp
    then show ?thesis using g Some v by (auto simp: snd_vault_handler elim: vault_spec.cases)
  qed (simp add: g snd_vault_handler)
next
  assume "req = RRefresh t"
  then show ?thesis using dispatch_items [OF assms(1), of env E cfg ctx req] by simp
qed

lemma serve_frame:
  assumes "sv_inv sv" and "req = RGetItem k \<or> req = RRefresh t" and "serve_unary R env (DB_Store E) cfg ctx req sv = (r, sv')"
  shows "sv_items sv' = sv_items sv"
  using serve_unary_path [OF assms(3)] dispatch_frame [OF _ assms(2), of _ env E cfg] assms(1)
  by (auto simp: path_ok_def same_data_def)

lemma serve_create:
  assumes "sv_inv sv" and "serve_unary R env (DB_Store E) cfg ctx (RCreateItem typ p m) sv = (Inr resp, sv')"
  shows "\<exists>i it. resp = PCreateItem i \<and> sv_items sv (pb_Id i) = None \<and> sv_items sv' = (sv_items sv)(pb_Id i \<mapsto> it) \<and>
    vi_ID it = pb_Id i \<and> vi_Payload it = p \<and> vi_Metadata it = m"
proof -
  obtain ctx' w0 where w0: "w_store w0 = w_store (sv_world sv)"
    and d: "fst (dispatch_rpc env (DB_Store E) cfg ctx' (RCreateItem typ p m) w0) = Inr resp"
    and st: "w_store (sv_world sv') = w_store (snd (dispatch_rpc env (DB_Store E) cfg ctx' (RCreateItem typ p m) w0))"
    using serve_unary_path [OF assms(2)] unfolding path_ok_def by blast
  obtain u it w1 where c: "VaultService_Create env (DB_Store E) ctx' u (itemTypeName typ) p m w0 = (Inr it, w1)"
    "cx_user ctx' = Some u" "resp = PCreateItem (toProtoItem it)"
    using d by (auto simp: map_resp_def VaultHandler_CreateItem_def userIDFromCtx_def UserIDFromContext_def status_of_def
        split: prod.splits sum.splits option.splits err.splits)
  have "sv_items sv' = pg_items (w_store w1)" using st c by (simp add: snd_vault_handler)
  then show ?thesis using pgav.svc_create_stored [OF DB_ops(14,15) _ c(1)] assms(1) w0 c(3) by (fastforce simp: toProtoItem_def)
qed

lemma serve_get:
  assumes "sv_inv sv" and "serve_unary R env (DB_Store E) cfg ctx (RGetItem k) sv = (Inr (PGetItem i), sv')"
  shows "\<exists>it. i = toProtoItem it \<and> sv_items sv (vi_ID it) = Some it \<and> pg_parse_uuid E k = Some (vi_ID it)"
proof -
  obtain ctx' w0 where w0: "w_store w0 = w_store (sv_world sv)"
    and d: "fst (dispatch_rpc env (DB_Store E) cfg ctx' (RGetItem k) w0) = Inr (PGetItem i)"
    using serve_unary_path [OF assms(2)] unfolding path_ok_def by blast
  obtain u it w1 where c: "VaultService_Get env (DB_Store E) ctx' k u w0 = (Inr it, w1)" "i = toProtoItem it"
    using d by (auto simp: map_resp_def VaultHandler_GetItem_def userIDFromCtx_def UserIDFromContext_def status_of_def
        split: prod.splits sum.splits option.splits err.splits if_splits)
  show ?thesis using pgav.svc_get_owned [OF DB_ops(14) _ c(1)] assms(1) w0 c(2) by auto
qed

section \<open>One call of the client\<close>

text \<open>
  A call that returns a value got it from the last request sent. What every request of the
  call and every refresh keep of the server holds when that request arrives.
\<close>

lemma call_final:
  assumes "call E f md req cfg cw = (Inr v, cfg', cw')" and "P (cw_remote cw)"
    and keep: "\<And>m q rem. q = req \<or> (\<exists>t. q = RRefresh t) \<Longrightarrow> P rem \<Longrightarrow> P (snd (cn_send E m q rem))"
  shows "\<exists>m rem x. P rem \<and> cn_send E m req rem = (Inr x, cw_remote cw') \<and> f x = Some v \<and> cw_out cw' = cw_out cw"
proof -
  obtain x where i: "refreshInterceptor E md req cfg cw = (Inr x, cfg', cw')" "f x = Some v"
    using assms(1) unfolding call_def by (auto split: prod.splits sum.splits option.splits)
  have one: "invoker E m q c = (r, c') \<Longrightarrow> cn_send E m q (cw_remote c) = (r, cw_remote c') \<and> cw_out c' = cw_out c" for m q c r c'
    by (auto simp: invoker_def split: prod.splits)
  have pres: "invoker E m q c = (r, c') \<Longrightarrow> q = req \<or> (\<exists>t. q = RRefresh t) \<Longrightarrow> P (cw_remote c) \<Longrightarrow> P (cw_remote c')" for m q c r c'
    using one keep by (metis snd_conv)
  have save: "config_Save E c d = (r, d') \<Longrightarrow> cw_remote d' = cw_remote d \<and> cw_out d' = cw_out d" for c d r d'
    by (auto simp: config_Save_def Let_def split: if_splits)
  obtain r1 cw1 where 1: "invoker E (WithAuth cfg md) req cw = (r1, cw1)" by fastforce
  show ?thesis
  proof (cases r1)
    case (Inr y)
    then have "y = x" "cw1 = cw'" using i(1) unfolding refreshInterceptor_def 1 by auto
    then show ?thesis using one [OF 1] Inr assms(2) i(2) by blast
  next
    case (Inl e)
    obtain rr cw2 where 2: "invoker E (WithAuth cfg []) (RRefresh (cf_RefreshToken cfg)) cw1 = (rr, cw2)" by fastforce
    obtain tok where tok: "refresh_token_of rr = Some tok"
      using i(1) Inl unfolding refreshInterceptor_def 1 Let_def prod.case 2 by (auto split: if_splits option.splits)
    obtain s cw3 where 3: "config_Save E (cfg\<lparr>cf_AccessToken := tok\<rparr>) cw2 = (s, cw3)" by fastforce
    obtain r4 cw4 where 4: "invoker E [bearer tok] req cw3 = (r4, cw4)" by fastforce
    have e: "r4 = Inr x" "cw4 = cw'"
      using i(1) Inl tok 3 4 unfolding refreshInterceptor_def 1 Let_def prod.case 2 by (auto split: if_splits)
    have "P (cw_remote cw3)" using pres [OF 1] pres [OF 2] save [OF 3] assms(2) by auto
    then show ?thesis using one [OF 4] one [OF 1] one [OF 2] save [OF 3] e i(2) by metis
  qed
qed

section \<open>Adding a credential and reading it back\<close>

text \<open>The item that \<^verbatim>\<open>credential get\<close> finds after \<^verbatim>\<open>credential add\<close> reported its identifier.\<close>

lemma add_stored:
  assumes inv: "sv_inv (cw_remote cw)" and conn: "cn_send CE = wire R env E cfg addr"
    and add: "credential_add CE name user pw url cw = (Inr (), cw1)"
  shows "\<exists>k it. cw_out cw1 = cw_out cw @ [''Created: '' @ k] \<and> sv_inv (cw_remote cw1) \<and>
    sv_items (cw_remote cw1) k = Some it \<and> vi_ID it = k \<and> vi_Metadata it = name \<and>
    vi_Payload it = jprint (credential_json \<lparr>cp_Name = name, cp_Username = user, cp_Password = pw, cp_URL = url, cp_Notes = []\<rparr>)"
proof -
  let ?p = "jprint (credential_json \<lparr>cp_Name = name, cp_Username = user, cp_Password = pw, cp_URL = url, cp_Notes = []\<rparr>)"
  let ?req = "RCreateItem ItemType_CREDENTIAL ?p name"
  obtain conf item cfg' cw0 where c: "call CE create_item (WithAuth conf []) ?req conf cw = (Inr item, cfg', cw0)"
    "cw1 = println (''Created: '' @ pb_Id item) cw0"
    using add by (auto simp: credential_add_def split: sum.splits prod.splits)
  have "P \<Longrightarrow> sv_inv rem \<Longrightarrow> sv_inv (snd (cn_send CE m q rem))" for P m q rem
    using serve_inv [OF _ prod.collapse [symmetric]] unfolding conn wire_def by blast
  from call_final [OF c(1), where P = sv_inv, OF inv this]
  obtain m rem x where x: "sv_inv rem" "wire R env E cfg addr m ?req rem = (Inr x, cw_remote cw0)" "create_item x = Some item" "cw_out cw0 = cw_out cw"
    unfolding conn by blast
  note w = x(2) [unfolded wire_def]
  show ?thesis using serve_create [OF x(1) w] serve_inv [OF x(1) w] x(3,4) c(2) by (auto simp: println_def)
qed

lemma get_stored:
  assumes inv: "sv_inv (cw_remote cw)" and conn: "cn_send CE = wire R env E cfg addr"
    and id: "looksLikeUUID k" "pg_parse_uuid E k = Some k" and st: "sv_items (cw_remote cw) k = Some it"
    and find: "findCredential CE md k conf cw = (Inr item, conf', cw')"
  shows "item = toProtoItem it \<and> vi_ID it = k \<and> cw_out cw' = cw_out cw"
proof -
  let ?P = "\<lambda>rem. sv_inv rem \<and> sv_items rem = sv_items (cw_remote cw)"
  have c: "call CE get_item md (RGetItem k) conf cw = (Inr item, conf', cw')"
    using find id(1) by (auto simp: findCredential_def split: sum.splits prod.splits)
  have keep: "q = RGetItem k \<or> (\<exists>t. q = RRefresh t) \<Longrightarrow> ?P rem \<Longrightarrow> ?P (snd (cn_send CE m q rem))" for m q rem
    using serve_inv [OF _ prod.collapse [symmetric]] serve_frame [OF _ _ prod.collapse [symmetric]] unfolding conn wire_def by metis
  have "?P (cw_remote cw)" using inv by simp
  from call_final [OF c, where P = ?P, OF this keep]
  obtain m rem x where x: "?P rem" "wire R env E cfg addr m (RGetItem k) rem = (Inr x, cw_remote cw')" "get_item x = Some item" "cw_out cw' = cw_out cw"
    unfolding conn by blast
  have "x = PGetItem item" using x(3) by (cases x) auto
  then obtain it' where "item = toProtoItem it'" "sv_items rem (vi_ID it') = Some it'" "pg_parse_uuid E k = Some (vi_ID it')"
    using serve_get [OF conjunct1 [OF x(1)]] x(2) unfolding wire_def by blast
  then show ?thesis using x(1,4) id(2) st by auto
qed

lemma credential_parse:
  assumes "list_all utf8_valid [name, user, pw, url]" and "name \<noteq> []"
  shows "parsePayload (jprint (credential_json \<lparr>cp_Name = name, cp_Username = user, cp_Password = pw, cp_URL = url, cp_Notes = []\<rparr>)) meta =
    \<lparr>cp_Name = name, cp_Username = user, cp_Password = pw, cp_URL = url, cp_Notes = []\<rparr>"
proof -
  let ?l = "\<lparr>lo_Name = name, lo_Username = user, lo_Password = pw, lo_URL = url, lo_TOTPKey = [], lo_Notes = [], lo_History = []\<rparr>"
  have ok: "login_ok ?l" using assms(1) by (simp add: login_ok_def utf8_valid.simps)
  have j: "credential_json \<lparr>cp_Name = name, cp_Username = user, cp_Password = pw, cp_URL = url, cp_Notes = []\<rparr> = login_json ?l"
    by (simp add: credential_json_def login_json_def opt_field_def)
  have l: "parseLoginPayload (jprint (login_json ?l)) meta = ?l" using login_roundtrip [OF ok] assms(2) by simp
  show ?thesis unfolding j parsePayload_def Let_def using l unfolding parseLoginPayload_def Let_def by simp
qed

text \<open>Bob's client, configured with his access token, and the server of theory \<open>DemoEnv\<close> with identifiers in UUID form.\<close>

definition demo_id :: string where
  "demo_id = ''0a1b2c3d-0000-4000-8000-0123456789ab''"

definition uuid_pg :: pg_env where
  "uuid_pg = demo_pg\<lparr>pg_uuid := (\<lambda>_. demo_id)\<rparr>"

definition bob_client :: "(db, nat) server client_env" where
  "bob_client = \<lparr>cn_send = wire demo_rate demo_env uuid_pg demo_cfg ''10.0.0.1:4711'',
     cn_read = (\<lambda>b. Some [''access_token'' \<mapsto> demo_tok demo_key (demo_claims_of ''b'')]), cn_write = (\<lambda>kvs. []),
     cn_AppendCertsFromPEM = (\<lambda>b. True), cn_NewClient = (\<lambda>a. True), cn_home = ''/home/bob'', cn_unicode_lower = id\<rparr>"

definition bob_cw :: "(db, nat) server cworld" where
  "bob_cw = \<lparr>cw_disk = \<lparr>dk_files = [''/home/bob/.gophkeeper/config.yaml'' \<mapsto> []], dk_writable = (\<lambda>p. True), dk_readable = (\<lambda>p. True),
     dk_room = 1000\<rparr>, cw_remote = demo_sv, cw_sent = [], cw_out = [], cw_clip = None\<rparr>"

lemma uuid_pg_simps [simp]:
  "pg_fault uuid_pg n = False" "pg_now uuid_pg n = int n * second" "pg_uuid uuid_pg n = demo_id" "pg_parse_uuid uuid_pg s = Some s"
  "pg_inet uuid_pg s" "pg_jsonb uuid_pg s = Some s" "pg_cut uuid_pg n = None"
  by (simp_all add: uuid_pg_def)

lemma demo_id_uuid: "looksLikeUUID demo_id"
  by (simp add: looksLikeUUID_def demo_id_def is_hex_def between_def byte_def upt_rec)

lemma bob_cfg: "vaultClient bob_client bob_cw = Inr (config_of [''access_token'' \<mapsto> demo_tok demo_key (demo_claims_of ''b'')] (config_defaults bob_client))"
  by (simp add: vaultClient_def config_Load_def Client_New_def bob_client_def bob_cw_def config_path_def config_dir_def
      config_of_def setting_def config_defaults_def)

lemmas server_defs = serve_unary_def RateLimiter_UnaryInterceptor_def rateLimitedMethods_def LoggingInterceptor_def
  AuthInterceptor_def publicMethods_def extractAndValidate_def md_Get_def server_Now_def on_world_def time_Now_def
  VaultHandler_GetItem_def VaultHandler_CreateItem_def userIDFromCtx_def UserIDFromContext_def map_resp_def status_of_def
  VaultService_Get_def VaultService_Create_def on_store_def DB_Vault_def vaultRepo_Get_def vaultRepo_Create_def insert_item_def
  select_item_def vaultRepo_scanItem_def exec_def uuid_arg_def check_def item_types_def logAudit_eq on_sync_def NotifyUpsert_def
  notify_def slots_def NewSyncService_def auditRepo_Append_def audit_entry_def ResultOK_def Let_def sent_def

lemmas bob_defs = wire_def wire_ctx_def demo_sv_def demo_world_def demo_db_def demo_user_def DemoEnv.demo_item_def db_empty_def zero_defs
  demo_parse demo_claims_of_def

abbreviation bob_token :: string where
  "bob_token \<equiv> demo_tok demo_key (demo_claims_of ''b'')"

lemma bob_adds_and_reads:
  assumes "p \<noteq> []" and "wire demo_rate demo_env uuid_pg demo_cfg a (bearer bob_token # vs) (RCreateItem ItemType_CREDENTIAL p m) demo_sv = (r, sv)"
  shows "(\<exists>i. r = Inr (PCreateItem i) \<and> pb_Id i = demo_id) \<and>
    (\<exists>i sv'. wire demo_rate demo_env uuid_pg demo_cfg a (bearer bob_token # vs) (RGetItem demo_id) sv = (Inr (PGetItem i), sv') \<and> pb_Payload i = p)"
  using assms by (auto simp: server_defs bob_defs bearer_def itemTypeName_def demo_id_def toProtoItem_def)

lemma vaultClient_disk: "cw_disk a = cw_disk b \<Longrightarrow> vaultClient E a = vaultClient E b"
  by (simp only: vaultClient_def config_Load_def Client_New_def)

end
