(* ===== verification/TestServer.thy ===== *)
theory TestServer
  imports EndToEnd
begin

text \<open>
  The in-process server of the tests, \<^verbatim>\<open>src/internal/testutil/grpcserver.go\<close>: the real handlers and the real token check
  over the in-memory store, without rate limiter and request log, on a fresh certificate; and the helpers that give a
  test its client configuration, its standard input and its standard output. Keys, certificates, the listener
  and temporary directories are the parameter \<open>test_lib\<close>, pipes hold a given number of bytes.
\<close>

section \<open>The certificate\<close>

record cert_template =
  ct_SerialNumber :: int
  ct_CommonName :: string
  ct_NotBefore :: time
  ct_NotAfter :: time
  ct_KeyUsage :: string
  ct_ExtKeyUsage :: "string list"
  ct_DNSNames :: "string list"
  ct_IPAddresses :: "string list"

record 'k test_lib =
  tb_Listen :: "string \<Rightarrow> string result"
  tb_GenerateKey :: "'k result"
  tb_CreateCertificate :: "cert_template \<Rightarrow> 'k \<Rightarrow> bytes result"
  tb_pem :: "string \<Rightarrow> bytes \<Rightarrow> bytes result"
  tb_MarshalEC :: "'k \<Rightarrow> bytes result"
  tb_X509KeyPair :: "bytes \<Rightarrow> bytes \<Rightarrow> unit result"
  tb_MkdirTemp :: "string result"

definition cert_for :: "time \<Rightarrow> time \<Rightarrow> cert_template" where
  "cert_for t1 t2 = \<lparr>ct_SerialNumber = 1, ct_CommonName = ''localhost'', ct_NotBefore = t1 - hour, ct_NotAfter = t2 + 24 * hour,
     ct_KeyUsage = ''DigitalSignature'', ct_ExtKeyUsage = [''ServerAuth''], ct_DNSNames = [''localhost''], ct_IPAddresses = [''127.0.0.1'']\<rparr>"

definition generateSelfSignedCert :: "'k test_lib \<Rightarrow> time \<Rightarrow> time \<Rightarrow> (bytes \<times> bytes) result" where
  "generateSelfSignedCert B t1 t2 =
     (case tb_GenerateKey B of
        Inl e \<Rightarrow> Inl e
      | Inr key \<Rightarrow>
     (case tb_CreateCertificate B (cert_for t1 t2) key of
        Inl e \<Rightarrow> Inl e
      | Inr certDER \<Rightarrow>
     (case tb_pem B ''CERTIFICATE'' certDER of
        Inl e \<Rightarrow> Inl e
      | Inr certPEM \<Rightarrow>
     (case tb_MarshalEC B key of
        Inl e \<Rightarrow> Inl e
      | Inr keyDER \<Rightarrow>
     (case tb_pem B ''EC PRIVATE KEY'' keyDER of
        Inl e \<Rightarrow> Inl e
      | Inr keyPEM \<Rightarrow> Inr (certPEM, keyPEM))))))"

section \<open>Starting and stopping\<close>

definition NewTestJWT :: jwt_Config where
  "NewTestJWT = \<lparr>jc_Secret = ''test-secret-padded-to-32-bytes!!'', jc_AccessTokenTTL = hour, jc_RefreshTokenTTL = 24 * hour\<rparr>"

record TestServer =
  ts_Addr :: string
  ts_JWT :: jwt_Config
  ts_Server :: "(MockStore, unit) server"
  ts_CertPath :: string
  ts_cleanupDir :: string

text \<open>What the test process holds outside: the disk, open listeners, temporary directories.\<close>

record test_world =
  tw_disk :: disk
  tw_listeners :: "string list"
  tw_dirs :: "string list"

definition in_dir :: "string \<Rightarrow> string \<Rightarrow> bool" where
  "in_dir dir path \<longleftrightarrow> strings_HasPrefix path (dir @ ''/'')"

definition RemoveAll :: "string \<Rightarrow> test_world \<Rightarrow> test_world" where
  "RemoveAll dir tw = tw\<lparr>tw_dirs := removeAll dir (tw_dirs tw),
     tw_disk := (tw_disk tw)\<lparr>dk_files := (\<lambda>p. if in_dir dir p then None else dk_files (tw_disk tw) p)\<rparr>\<rparr>"

definition test_state :: "(MockStore, unit) server" where
  "test_state = \<lparr>sv_world = \<lparr>w_store = NewMockStore, w_clk = 0, w_rnd = 0, w_sync = NewSyncService\<rparr>, sv_rl = NewRateLimiter 0 0, sv_log = []\<rparr>"

definition NewTestServer :: "'k test_lib \<Rightarrow> time \<Rightarrow> time \<Rightarrow> test_world \<Rightarrow> TestServer result \<times> test_world" where
  "NewTestServer B t1 t2 tw =
     (case tb_Listen B ''127.0.0.1:0'' of
        Inl e \<Rightarrow> (Inl e, tw)
      | Inr addr \<Rightarrow>
          (let tw1 = tw\<lparr>tw_listeners := addr # tw_listeners tw\<rparr> in
     (case generateSelfSignedCert B t1 t2 of
        Inl e \<Rightarrow> (Inl e, tw1)
      | Inr (certPEM, keyPEM) \<Rightarrow>
     (case tb_X509KeyPair B certPEM keyPEM of
        Inl e \<Rightarrow> (Inl e, tw1)
      | Inr _ \<Rightarrow>
     (case tb_MkdirTemp B of
        Inl e \<Rightarrow> (Inl e, tw1)
      | Inr tmpDir \<Rightarrow>
          (let tw2 = tw1\<lparr>tw_dirs := tmpDir # tw_dirs tw1\<rparr>; certPath = tmpDir @ ''/server.crt''; dk = tw_disk tw2 in
           if \<not> dk_writable dk certPath then (Inl (ErrText ''open''), RemoveAll tmpDir tw2)
           else (let (c, ok) = write_all (dk_room dk) [certPEM]; tw3 = tw2\<lparr>tw_disk := dk\<lparr>dk_files := (dk_files dk)(certPath \<mapsto> c)\<rparr>\<rparr> in
             if \<not> ok then (Inl (ErrText ''write''), RemoveAll tmpDir tw3)
             else (Inr \<lparr>ts_Addr = addr, ts_JWT = NewTestJWT, ts_Server = test_state, ts_CertPath = certPath, ts_cleanupDir = tmpDir\<rparr>, tw3))))))))"

definition TestServer_Token :: "svc_env \<Rightarrow> time \<Rightarrow> time \<Rightarrow> TestServer \<Rightarrow> string \<Rightarrow> string" where
  "TestServer_Token env t1 t2 ts userID = (case IssueAccessToken (ev_jwt env) (ts_JWT ts) t1 t2 userID True of Inl _ \<Rightarrow> [] | Inr tok \<Rightarrow> tok)"

definition TestServer_Stop :: "TestServer \<Rightarrow> test_world \<Rightarrow> test_world" where
  "TestServer_Stop ts tw =
     (let tw1 = tw\<lparr>tw_listeners := removeAll (ts_Addr ts) (tw_listeners tw)\<rparr> in
      if ts_cleanupDir ts = [] then tw1 else RemoveAll (ts_cleanupDir ts) tw1)"

definition SetupClientConfig ::
  "'r client_env \<Rightarrow> svc_env \<Rightarrow> time \<Rightarrow> time \<Rightarrow> TestServer \<Rightarrow> string \<Rightarrow> 'r cworld \<Rightarrow> unit result \<times> 'r cworld" where
  "SetupClientConfig E env t1 t2 ts userID cw =
     config_Save E \<lparr>cf_ServerAddr = ts_Addr ts, cf_TLSCertPath = ts_CertPath ts, cf_AccessToken = TestServer_Token env t1 t2 ts userID,
       cf_RefreshToken = [], cf_VaultPath = [], cf_KeyfilePath = [], cf_Username = userID\<rparr> cw"

text \<open>The interceptor and the handlers, over the in-memory store.\<close>

definition test_unary :: "svc_env \<Rightarrow> jwt_Config \<Rightarrow> req_ctx \<Rightarrow> rpc_req \<Rightarrow> (MockStore, unit) server \<Rightarrow> (rpc_err + rpc_resp) \<times> (MockStore, unit) server" where
  "test_unary env cfg ctx req =
     AuthInterceptor env cfg (full_method req) (\<lambda>ctx' req' sv. on_world (dispatch_rpc env Mock_Store cfg ctx' req') sv) ctx req"

fun test_calls :: "svc_env \<Rightarrow> jwt_Config \<Rightarrow> (req_ctx \<times> rpc_req) list \<Rightarrow> (MockStore, unit) server \<Rightarrow> (MockStore, unit) server" where
  "test_calls env cfg [] sv = sv"
| "test_calls env cfg ((ctx, req) # calls) sv = test_calls env cfg calls (snd (test_unary env cfg ctx req sv))"

section \<open>Standard input and output of a test\<close>

text \<open>
  A function that prints runs against the writing end of a pipe nobody reads yet: with more output than the
  pipe holds it never returns. A panic leaves the replaced \<^verbatim>\<open>os.Stdout\<close> in place. The result is the
  captured text and whether the standard output is restored.
\<close>

datatype stream_end = Terminal | PipeEnd

definition CaptureOutput :: "nat \<Rightarrow> string list \<Rightarrow> bool \<Rightarrow> (string result \<times> stream_end) option" where
  "CaptureOutput cap writes panics =
     (if length (concat writes) > cap then None
      else if panics then Some (Inl (Panic ''fn''), PipeEnd)
      else Some (Inr (concat writes), Terminal))"

text \<open>The input is written before the function reads; the deferred assignment restores \<^verbatim>\<open>os.Stdin\<close> even after a panic.\<close>

definition WithStdin :: "err option \<Rightarrow> nat \<Rightarrow> string \<Rightarrow> (string \<Rightarrow> 'a result) \<Rightarrow> ('a result \<times> stream_end) option" where
  "WithStdin pipe cap input fn =
     (case pipe of
        Some e \<Rightarrow> Some (Inl (Wrapf ''create stdin pipe: %w'' e), Terminal)
      | None \<Rightarrow> if length input > cap then None else Some (fn input, Terminal))"

section \<open>What the tests can rely on\<close>

lemma test_unary_path: "test_unary env cfg ctx req sv = (r, sv') \<Longrightarrow> path_ok env Mock_Store cfg ctx req sv r sv'"
  using auth_path [of env Mock_Store cfg ctx req sv] by (simp add: test_unary_def)

lemma test_isolated:
  assumes "mock_inv (w_store (sv_world sv))" and "\<forall>(ctx, req) \<in> set calls. \<forall>claims. accepts env cfg ctx claims \<longrightarrow> c_Subject claims \<noteq> u"
  shows "mock_inv (w_store (sv_world (test_calls env cfg calls sv))) \<and>
    items_of u (mock_items (w_store (sv_world (test_calls env cfg calls sv)))) = items_of u (mock_items (w_store (sv_world sv)))"
  using assms
proof (induction calls arbitrary: sv)
  case (Cons call calls)
  obtain ctx req where call: "call = (ctx, req)" by fastforce
  obtain r sv1 where run: "test_unary env cfg ctx req sv = (r, sv1)" by fastforce
  have one: "mock_inv (w_store (sv_world sv1)) \<and> items_of u (mock_items (w_store (sv_world sv1))) = items_of u (mock_items (w_store (sv_world sv)))"
    by (rule mockd.path_items [OF Cons.prems(1) test_unary_path [OF run]]) (use Cons.prems(2) call in auto)
  have "\<forall>(ctx, req) \<in> set calls. \<forall>claims. accepts env cfg ctx claims \<longrightarrow> c_Subject claims \<noteq> u" using Cons.prems(2) by auto
  from Cons.IH [OF conjunct1 [OF one] this] show ?case using one run call by simp
qed simp

lemma test_token_claims:
  assumes "jwt_contract (ev_jwt env) (jc_Secret (ts_JWT ts))" and "IssueAccessToken (ev_jwt env) (ts_JWT ts) t1 t2 userID True = Inr tok"
    and "now < NewNumericDate (t2 + jc_AccessTokenTTL (ts_JWT ts)) * second"
  shows "\<exists>claims. ParseAccessToken (ev_jwt env) (ts_JWT ts) now (TestServer_Token env t1 t2 ts userID) = Inr claims \<and> c_Subject claims = userID"
  using ParseAccessToken_signed [OF assms(1), of _ tok now] assms(2,3) by (simp add: TestServer_Token_def IssueAccessToken_def)

lemma date_below: "0 < s \<Longrightarrow> x + s \<le> y \<Longrightarrow> x < y div s * s" for x y s :: int
  using pos_mod_bound [of s y] minus_mod_eq_div_mult [of y s] by linarith

lemma new_test_server: "NewTestServer B t1 t2 tw = (Inr ts, tw') \<Longrightarrow> ts_JWT ts = NewTestJWT \<and> ts_Server ts = test_state"
  by (auto simp: NewTestServer_def Let_def split: sum.splits prod.splits if_splits)

text \<open>
  A test talks to the real server logic as the user it names. When the test server has started and a client configuration was written for a user,
  the client loads exactly that configuration and sends the token of it; during the next hour (less the second that the
  token's date loses) a private call with this token gets exactly the answer and the effect of the production handler on behalf of that user;
  and whatever calls arrive, the items of a user for whom no call carries an accepted token stay as they are.
\<close>

theorem test_server_acts_as_user:
  assumes "NewTestServer B n1 n2 tw = (Inr ts, tw')" and "jwt_contract (ev_jwt env) (jc_Secret NewTestJWT)"
    and "IssueAccessToken (ev_jwt env) NewTestJWT t1 t2 userID True = Inr tok" and "tok \<noteq> []"
    and "yaml_contract E" and "dk_readable (cw_disk cw) (config_path E)" and "SetupClientConfig E env t1 t2 ts userID cw = (Inr (), cw')"
  shows "(\<exists>cfg. config_Load E cw' = Inr cfg \<and> cf_ServerAddr cfg = ts_Addr ts \<and> cf_Username cfg = userID \<and> WithAuth cfg [] = [bearer tok]) \<and>
    (\<forall>req addr sv. full_method req \<notin> set publicMethods \<and> ev_clock env (w_clk (sv_world sv)) + second \<le> t2 + hour \<longrightarrow>
       test_unary env (ts_JWT ts) (wire_ctx addr [bearer tok]) req sv =
       on_world (dispatch_rpc env Mock_Store (ts_JWT ts) ((wire_ctx addr [bearer tok])\<lparr>cx_user := Some userID\<rparr>) req) (snd (server_Now env sv))) \<and>
    (\<forall>calls u. (\<forall>(ctx, req) \<in> set calls. \<forall>claims. accepts env (ts_JWT ts) ctx claims \<longrightarrow> c_Subject claims \<noteq> u) \<longrightarrow>
       items_of u (mock_items (w_store (sv_world (test_calls env (ts_JWT ts) calls (ts_Server ts))))) =
       items_of u (mock_items (w_store (sv_world (ts_Server ts)))))"
proof (intro conjI allI impI)
  have ts: "ts_JWT ts = NewTestJWT" "ts_Server ts = test_state" using new_test_server [OF assms(1)] by auto
  have tok: "TestServer_Token env t1 t2 ts userID = tok" using assms(3) ts by (simp add: TestServer_Token_def)
  show "\<exists>cfg. config_Load E cw' = Inr cfg \<and> cf_ServerAddr cfg = ts_Addr ts \<and> cf_Username cfg = userID \<and> WithAuth cfg [] = [bearer tok]"
    using config_roundtrip [OF assms(5,6)] assms(4,7) tok unfolding SetupClientConfig_def by (auto simp: WithAuth_def)
  show "test_unary env (ts_JWT ts) (wire_ctx addr [bearer tok]) req sv =
      on_world (dispatch_rpc env Mock_Store (ts_JWT ts) ((wire_ctx addr [bearer tok])\<lparr>cx_user := Some userID\<rparr>) req) (snd (server_Now env sv))"
    if "full_method req \<notin> set publicMethods \<and> ev_clock env (w_clk (sv_world sv)) + second \<le> t2 + hour" for req addr sv
  proof -
    have "ev_clock env (w_clk (sv_world sv)) < NewNumericDate (t2 + jc_AccessTokenTTL NewTestJWT) * second"
      using that date_below [of second "ev_clock env (w_clk (sv_world sv))" "t2 + hour"] by (simp add: NewNumericDate_def NewTestJWT_def)
    from test_token_claims [of env ts t1 t2 userID tok, OF _ _ this [folded ts]] obtain claims where
      "ParseAccessToken (ev_jwt env) (ts_JWT ts) (ev_clock env (w_clk (sv_world sv))) tok = Inr claims" "c_Subject claims = userID"
      using assms(2,3) tok ts by auto
    then show ?thesis using that server_Now_simps(1) [of env sv]
      by (simp add: test_unary_def AuthInterceptor_def extractAndValidate_def wire_ctx_def md_Get_def bearer_def Let_def case_prod_beta)
  qed
  show "items_of u (mock_items (w_store (sv_world (test_calls env (ts_JWT ts) calls (ts_Server ts))))) =
      items_of u (mock_items (w_store (sv_world (ts_Server ts))))"
    if "\<forall>(ctx, req) \<in> set calls. \<forall>claims. accepts env (ts_JWT ts) ctx claims \<longrightarrow> c_Subject claims \<noteq> u" for calls u
    using test_isolated [OF _ that, of "ts_Server ts"] by (simp add: ts test_state_def mock_inv_def NewMockStore_def)
qed

text \<open>Stopping the server gives back what starting it took: the listener, the directory and the file with the certificate.\<close>

lemma stop_releases:
  assumes "NewTestServer B n1 n2 tw = (Inr ts, tw')" and "\<And>a. tb_Listen B a = Inr addr \<Longrightarrow> addr \<notin> set (tw_listeners tw)"
    and "tb_MkdirTemp B = Inr dir" and "dir \<noteq> []" and "dir \<notin> set (tw_dirs tw)" and "\<And>p. in_dir dir p \<Longrightarrow> dk_files (tw_disk tw) p = None"
    and "tb_Listen B ''127.0.0.1:0'' = Inr addr"
  shows "TestServer_Stop ts tw' = tw"
proof -
  obtain c where ts: "ts_Addr ts = addr" "ts_cleanupDir ts = dir"
    "tw' = tw\<lparr>tw_listeners := addr # tw_listeners tw, tw_dirs := dir # tw_dirs tw,
       tw_disk := (tw_disk tw)\<lparr>dk_files := (dk_files (tw_disk tw))(dir @ ''/server.crt'' \<mapsto> c)\<rparr>\<rparr>"
    using assms(1,3,7) by (auto simp: NewTestServer_def Let_def split: sum.splits prod.splits if_splits)
  have dir: "in_dir dir (dir @ ''/server.crt'')" by (simp add: in_dir_def strings_HasPrefix_def)
  have "(\<lambda>p. if in_dir dir p then None else ((dk_files (tw_disk tw))(dir @ ''/server.crt'' \<mapsto> c)) p) = dk_files (tw_disk tw)"
    using dir assms(6) by (auto simp: fun_eq_iff)
  then show ?thesis using assms(2,4,5,7) by (simp add: ts TestServer_Stop_def RemoveAll_def Let_def cong: if_cong)
qed

text \<open>When a later step of the start fails, the listener that was opened first is not closed.\<close>

lemma failed_start_leaks_listener:
  assumes "NewTestServer B n1 n2 tw = (Inl e, tw')" and "tb_Listen B ''127.0.0.1:0'' = Inr addr"
  shows "addr \<in> set (tw_listeners tw')"
  using assms by (auto simp: NewTestServer_def RemoveAll_def Let_def split: sum.splits prod.splits if_splits)

text \<open>Output that fits the pipe is captured whole; more blocks the test for ever.\<close>

lemma capture_output: "CaptureOutput cap writes False = (if length (concat writes) \<le> cap then Some (Inr (concat writes), Terminal) else None)"
  by (simp add: CaptureOutput_def)

section \<open>Example\<close>

definition demo_test :: "unit test_lib" where
  "demo_test = \<lparr>tb_Listen = (\<lambda>_. Inr ''127.0.0.1:40000''), tb_GenerateKey = Inr (), tb_CreateCertificate = (\<lambda>_ _. Inr ''DER''), tb_pem = (\<lambda>t b. Inr (t @ b)),
     tb_MarshalEC = (\<lambda>_. Inr ''KEY''), tb_X509KeyPair = (\<lambda>_ _. Inr ()), tb_MkdirTemp = Inr ''/tmp/t1''\<rparr>"

definition empty_disk :: disk where
  "empty_disk = \<lparr>dk_files = Map.empty, dk_writable = (\<lambda>_. True), dk_readable = (\<lambda>_. True), dk_room = 100000\<rparr>"

definition empty_tw :: test_world where
  "empty_tw = \<lparr>tw_disk = empty_disk, tw_listeners = [], tw_dirs = []\<rparr>"

definition demo_ts :: TestServer where
  "demo_ts = \<lparr>ts_Addr = ''127.0.0.1:40000'', ts_JWT = NewTestJWT, ts_Server = test_state, ts_CertPath = ''/tmp/t1/server.crt'', ts_cleanupDir = ''/tmp/t1''\<rparr>"

lemma demo_test_server: "\<exists>tw'. NewTestServer demo_test 0 0 empty_tw = (Inr demo_ts, tw')"
  by (simp add: NewTestServer_def generateSelfSignedCert_def demo_test_def empty_tw_def empty_disk_def demo_ts_def Let_def)

text \<open>A file format that reads back what was written: texts after their lengths in unary.\<close>

fun enc_texts :: "string list \<Rightarrow> string" where
  "enc_texts [] = []"
| "enc_texts (s # ss) = replicate (length s) (CHR ''1'') @ CHR ''0'' # s @ enc_texts ss"

function dec_texts :: "string \<Rightarrow> string list" where
  "dec_texts s = (if s = [] then [] else
     let n = length (takeWhile (\<lambda>c. c = CHR ''1'') s); r = drop (Suc n) s in take n r # dec_texts (drop n r))"
  by pat_completeness auto

termination
  by (relation "measure length") (auto simp: length_greater_0_conv)

declare dec_texts.simps [simp del]

lemma dec_enc: "dec_texts (enc_texts ss) = ss"
proof (induction ss)
  case (Cons s ss)
  let ?t = "enc_texts (s # ss)"
  have n: "length (takeWhile (\<lambda>c. c = CHR ''1'') ?t) = length s" by (simp add: takeWhile_append)
  then have "drop (Suc (length s)) ?t = s @ enc_texts ss" by simp
  then show ?case using n Cons dec_texts.simps [of ?t] by (simp del: enc_texts.simps add: Let_def) (simp add: enc_texts.simps)
qed (simp add: dec_texts.simps)

fun pairs_of :: "string list \<Rightarrow> (string \<times> string) list" where
  "pairs_of (k # v # rest) = (k, v) # pairs_of rest"
| "pairs_of _ = []"

lemma pairs_of_flat: "pairs_of (concat (map (\<lambda>(k, v). [k, v]) kvs)) = kvs"
  by (induction kvs) auto

definition test_client :: "(MockStore, unit) server client_env" where
  "test_client = \<lparr>cn_send = (\<lambda>md. test_unary demo_env NewTestJWT (wire_ctx ''127.0.0.1:50000'' md)),
     cn_read = (\<lambda>b. Some (map_of (pairs_of (dec_texts b)))), cn_write = (\<lambda>kvs. enc_texts (concat (map (\<lambda>(k, v). [k, v]) kvs))),
     cn_AppendCertsFromPEM = (\<lambda>_. True), cn_NewClient = (\<lambda>_. True), cn_home = ''/home/t'', cn_unicode_lower = (\<lambda>s. s)\<rparr>"

lemma test_client_yaml: "yaml_contract test_client"
  by (simp add: yaml_contract_def test_client_def dec_enc pairs_of_flat)

definition demo_test_token :: string where
  "demo_test_token = demo_tok (jc_Secret NewTestJWT) \<lparr>c_Subject = ''u1'', c_IssuedAt = 0, c_ExpiresAt = 3600, c_MFAVerified = True\<rparr>"

definition test_cw :: "(MockStore, unit) server cworld" where
  "test_cw = \<lparr>cw_disk = empty_disk\<lparr>dk_room := 2 * length demo_test_token + 1000\<rparr>, cw_remote = test_state, cw_sent = [], cw_out = [], cw_clip = None\<rparr>"

text \<open>The test of a user \<open>u1\<close>: the configuration is written, and a listing right after the start is answered as \<open>u1\<close>.\<close>

theorem test_server_acts_as_user_witness:
  "\<exists>cw' cfg. SetupClientConfig test_client demo_env 0 0 demo_ts ''u1'' test_cw = (Inr (), cw') \<and>
     config_Load test_client cw' = Inr cfg \<and> WithAuth cfg [] = [bearer demo_test_token] \<and>
     test_unary demo_env NewTestJWT (wire_ctx ''127.0.0.1:50000'' [bearer demo_test_token]) (RListItems ItemType_UNSPECIFIED 0 []) test_state =
     on_world (dispatch_rpc demo_env Mock_Store NewTestJWT ((wire_ctx ''127.0.0.1:50000'' [bearer demo_test_token])\<lparr>cx_user := Some ''u1''\<rparr>)
       (RListItems ItemType_UNSPECIFIED 0 [])) (snd (server_Now demo_env test_state))"
proof -
  obtain tw' where s: "NewTestServer demo_test 0 0 empty_tw = (Inr demo_ts, tw')" using demo_test_server by blast
  have t: "IssueAccessToken (ev_jwt demo_env) NewTestJWT 0 0 ''u1'' True = Inr demo_test_token"
    by (simp add: IssueAccessToken_def NewTestJWT_def NewNumericDate_def demo_test_token_def demo_jwt_def demo_sign_def)
  have ne: "demo_test_token \<noteq> []" by (simp add: demo_test_token_def demo_tok_def)
  have "TestServer_Token demo_env 0 0 demo_ts ''u1'' = demo_test_token" using t by (simp add: TestServer_Token_def demo_ts_def)
  then obtain cw' where c: "SetupClientConfig test_client demo_env 0 0 demo_ts ''u1'' test_cw = (Inr (), cw')"
    by (simp add: SetupClientConfig_def config_Save_def test_client_def test_cw_def empty_disk_def config_settings_def demo_ts_def Let_def)
  have j: "jwt_contract (ev_jwt demo_env) (jc_Secret NewTestJWT)" and r: "dk_readable (cw_disk test_cw) (config_path test_client)"
    by (simp_all add: test_cw_def empty_disk_def)
  have p: "full_method (RListItems ItemType_UNSPECIFIED 0 []) \<notin> set publicMethods" by (simp add: publicMethods_def)
  have clk: "ev_clock demo_env (w_clk (sv_world test_state)) + second \<le> 0 + hour" by (simp add: test_state_def)
  note all = test_server_acts_as_user [OF s j t ne test_client_yaml r c]
  have u: "test_unary demo_env NewTestJWT (wire_ctx ''127.0.0.1:50000'' [bearer demo_test_token]) (RListItems ItemType_UNSPECIFIED 0 []) test_state =
     on_world (dispatch_rpc demo_env Mock_Store NewTestJWT ((wire_ctx ''127.0.0.1:50000'' [bearer demo_test_token])\<lparr>cx_user := Some ''u1''\<rparr>)
       (RListItems ItemType_UNSPECIFIED 0 [])) (snd (server_Now demo_env test_state))"
    using conjunct1 [OF conjunct2 [OF all]] p clk by (simp add: demo_ts_def)
  show ?thesis using conjunct1 [OF all] c u by blast
qed

end
